(* ===== verification/Prelude.thy ===== *)
theory Prelude
  imports Main "HOL-Library.Char_ord"
begin

text \<open>
  Shared vocabulary of the Ikaros development.

  \<^item> \<open>cpp_error\<close> lists the ways in which the C++ code stops being defined: an uncaught
    standard-library exception, or undefined behaviour of one particular kind.
    A fallible operation returns \<open>'a res\<close>, that is \<open>cpp_error + 'a\<close>.
  \<^item> \<open>rbind\<close> sequences fallible operations; \<open>res_simps\<close> collects its rewrite rules.
  \<^item> \<open>usub64\<close> is subtraction of \<open>size_t\<close> values with its wrap-around written out.
  \<^item> generic facts on lists used by several components.
\<close>

section \<open>Results\<close>

datatype cpp_error =
    OutOfRange        \<comment> \<open>an uncaught \<open>std::out_of_range\<close>\<close>
  | LogicError        \<comment> \<open>an uncaught \<open>std::logic_error\<close>, e.g. a string built from NULL\<close>
  | OutOfBounds       \<comment> \<open>a read or write outside an allocation\<close>
  | NullPointer       \<comment> \<open>a NULL pointer dereferenced\<close>
  | ForeignPointer    \<comment> \<open>pointers into different allocations compared\<close>
  | DanglingIterator  \<comment> \<open>an invalidated or end iterator used\<close>
  | DoubleFree        \<comment> \<open>an object deleted twice, or used after it was deleted\<close>
  | InvalidFree       \<comment> \<open>a pointer deleted that \<open>new\<close> did not return\<close>
  | DeadReference     \<comment> \<open>a pointer or reference to a local that has gone out of scope used\<close>
  | AssertFail        \<comment> \<open>a failed \<open>assert\<close>\<close>
  | SignedOverflow    \<comment> \<open>overflow of a signed integer\<close>

type_synonym 'a res = "cpp_error + 'a"

fun rbind :: "'a res \<Rightarrow> ('a \<Rightarrow> 'b res) \<Rightarrow> 'b res" where
  "rbind (Inl e) f = Inl e"
| "rbind (Inr x) f = f x"

definition is_ok :: "'a res \<Rightarrow> bool" where
  "is_ok r \<longleftrightarrow> (case r of Inl _ \<Rightarrow> False | Inr _ \<Rightarrow> True)"

named_theorems res_simps "rewrite rules for fallible operations"
named_theorems string_simps "rewrite rules for the standard string operations"

lemma is_ok_simps [simp, res_simps]:
  "is_ok (Inr x)" "\<not> is_ok (Inl e)"
  by (simp_all add: is_ok_def)

lemma is_ok_iff: "is_ok r \<longleftrightarrow> (\<exists>x. r = Inr x)"
  by (cases r) simp_all

lemma rbind_eq_Inr [res_simps]:
  "(rbind r f = Inr y) = (\<exists>x. r = Inr x \<and> f x = Inr y)"
  by (cases r) simp_all

lemma rbind_eq_Inl [res_simps]:
  "(rbind r f = Inl e) = (r = Inl e \<or> (\<exists>x. r = Inr x \<and> f x = Inl e))"
  by (cases r) simp_all

lemma rbind_Inr [simp]: "rbind x Inr = x"
  by (cases x) simp_all

lemma rbind_assoc: "rbind (rbind x f) g = rbind x (\<lambda>y. rbind (f y) g)"
  by (cases x) simp_all

lemma rbind_cong [fundef_cong]:
  assumes "r = r'" and "\<And>x. r' = Inr x \<Longrightarrow> f x = f' x"
  shows "rbind r f = rbind r' f'"
  using assms by (cases r') simp_all

section \<open>Unsigned 64-bit arithmetic on sizes\<close>

text \<open>
  \<open>size_t\<close> values are natural numbers below \<open>2 ^ 64\<close>; the wrap-around is written where the
  code can reach it.
\<close>

definition size_max :: nat where
  "size_max = 2 ^ 64 - 1"

definition usub64 :: "nat \<Rightarrow> nat \<Rightarrow> nat" where
  "usub64 a b = (if b \<le> a then a - b else 2 ^ 64 - (b - a))"

definition wrap64 :: "int \<Rightarrow> nat" where
  "wrap64 x = nat (x mod 2 ^ 64)"

lemma usub64_le [simp]: "b \<le> a \<Longrightarrow> usub64 a b = a - b"
  by (simp add: usub64_def)

lemma usub64_self [simp]: "usub64 a a = 0"
  by (simp add: usub64_def)

lemma wrap64_small: "0 \<le> x \<Longrightarrow> x < 2 ^ 64 \<Longrightarrow> wrap64 x = nat x"
  by (simp add: wrap64_def)

lemma wrap64_neg:
  assumes "x < 0" and "- (2 ^ 64) \<le> x"
  shows "wrap64 x = nat (x + 2 ^ 64)"
proof -
  have "x mod 2 ^ 64 = (x + 2 ^ 64) mod 2 ^ 64" by (simp only: mod_add_self2)
  also have "\<dots> = x + 2 ^ 64" using assms by (intro mod_pos_pos_trivial) simp_all
  finally show ?thesis by (simp only: wrap64_def)
qed

section \<open>Lists\<close>

lemma takeWhile_all: "(\<And>x. x \<in> set xs \<Longrightarrow> P x) \<Longrightarrow> takeWhile P xs = xs"
  by (induction xs) simp_all

lemma dropWhile_all: "(\<And>x. x \<in> set xs \<Longrightarrow> P x) \<Longrightarrow> dropWhile P xs = []"
  by (induction xs) simp_all

lemma set_dropWhile_subset: "set (dropWhile P xs) \<subseteq> set xs"
  by (induction xs) auto

lemma dropWhile_idem: "dropWhile P (dropWhile P xs) = dropWhile P xs"
  by (induction xs) simp_all

lemma hd_dropWhile_not: "dropWhile P xs \<noteq> [] \<Longrightarrow> \<not> P (hd (dropWhile P xs))"
  by (induction xs) auto

lemma splice_at:
  "i < length xs \<Longrightarrow> xs = take i xs @ xs ! i # drop (Suc i) xs"
  by (simp add: id_take_nth_drop)

section \<open>Stripping both ends of a list\<close>

text \<open>
  \<open>strip P xs\<close> removes the longest prefix and the longest suffix of elements that satisfy \<open>P\<close>:
  the specification of the repository's trimming functions.
\<close>

definition strip :: "('a \<Rightarrow> bool) \<Rightarrow> 'a list \<Rightarrow> 'a list" where
  "strip P xs = dropWhile P (rev (dropWhile P (rev xs)))"

lemma strip_Nil_iff: "(strip P xs = []) = (\<forall>x \<in> set xs. P x)"
proof
  assume "strip P xs = []"
  then have all: "\<forall>x \<in> set (dropWhile P (rev xs)). P x"
    by (simp add: strip_def dropWhile_eq_Nil_conv)
  have "dropWhile P (rev xs) = []"
  proof (rule ccontr)
    assume "dropWhile P (rev xs) \<noteq> []"
    then show False using all hd_dropWhile_not hd_in_set by metis
  qed
  then show "\<forall>x \<in> set xs. P x" by (simp add: dropWhile_eq_Nil_conv)
next
  assume "\<forall>x \<in> set xs. P x"
  then show "strip P xs = []"
    unfolding strip_def using set_dropWhile_subset [of P "rev xs"]
    by (auto simp: dropWhile_eq_Nil_conv)
qed

lemma dropWhile_suffix: "\<exists>ys. xs = ys @ dropWhile P xs \<and> (\<forall>y \<in> set ys. P y)"
  by (metis takeWhile_dropWhile_id set_takeWhileD)

lemma last_dropWhile: "dropWhile P xs \<noteq> [] \<Longrightarrow> last (dropWhile P xs) = last xs"
  by (induction xs) (auto split: if_splits)

lemma strip_hd: "strip P xs \<noteq> [] \<Longrightarrow> \<not> P (hd (strip P xs))"
  by (simp add: strip_def hd_dropWhile_not)

lemma strip_last: "strip P xs \<noteq> [] \<Longrightarrow> \<not> P (last (strip P xs))"
proof -
  assume ne: "strip P xs \<noteq> []"
  let ?d = "dropWhile P (rev xs)"
  from ne have "?d \<noteq> []"
    by (rule contrapos_nn) (simp only: strip_def rev.simps dropWhile.simps)
  then have "\<not> P (hd ?d)" by (rule hd_dropWhile_not)
  moreover have "last (strip P xs) = hd ?d"
    using ne \<open>?d \<noteq> []\<close> by (simp add: strip_def last_dropWhile last_rev)
  ultimately show ?thesis by simp
qed

lemma strip_fixed: "xs = [] \<or> \<not> P (hd xs) \<and> \<not> P (last xs) \<Longrightarrow> strip P xs = xs"
proof (cases "xs = []")
  case False
  assume "xs = [] \<or> \<not> P (hd xs) \<and> \<not> P (last xs)"
  with False have h: "\<not> P (hd xs)" "\<not> P (last xs)" by auto
  from False h(2) have "dropWhile P (rev xs) = rev xs"
    by (cases xs rule: rev_cases) simp_all
  then show ?thesis using False h(1) by (cases xs) (simp_all add: strip_def)
qed (simp add: strip_def)

lemma strip_idem [simp]: "strip P (strip P xs) = strip P xs"
  using strip_hd [of P xs] strip_last [of P xs] by (intro strip_fixed) blast

lemma strip_decomp:
  "\<exists>ls rs. xs = ls @ strip P xs @ rs \<and> (\<forall>x \<in> set ls. P x) \<and> (\<forall>x \<in> set rs. P x)"
proof -
  obtain rs where rs: "rev xs = rs @ dropWhile P (rev xs)" "\<forall>y \<in> set rs. P y"
    using dropWhile_suffix [of "rev xs" P] by blast
  let ?m = "rev (dropWhile P (rev xs))"
  have xs: "xs = ?m @ rev rs"
    using arg_cong [OF rs(1), of rev] by simp
  obtain ls where ls: "?m = ls @ dropWhile P ?m" "\<forall>y \<in> set ls. P y"
    using dropWhile_suffix [of ?m P] by blast
  have "xs = ls @ strip P xs @ rev rs"
    unfolding strip_def using xs ls(1) by (metis append.assoc)
  then show ?thesis using rs(2) ls(2) by (intro exI [of _ ls] exI [of _ "rev rs"]) simp
qed

lemma set_strip_subset: "set (strip P xs) \<subseteq> set xs"
  unfolding strip_def using set_dropWhile_subset by (metis dual_order.trans set_rev)

lemma strip_surround:
  assumes "\<forall>x \<in> set ls. P x" and "\<forall>x \<in> set rs. P x"
  shows "strip P (ls @ xs @ rs) = strip P xs"
proof (cases "\<forall>x \<in> set xs. P x")
  case True
  with assms have "strip P (ls @ xs @ rs) = []" by (auto simp: strip_Nil_iff)
  with True show ?thesis by (metis strip_Nil_iff)
next
  case False
  then have "dropWhile P (rev xs @ rev ls) = dropWhile P (rev xs) @ rev ls"
    using dropWhile_append1 [of _ "rev xs" P "rev ls"] by auto
  moreover have "dropWhile P (rev rs @ rev xs @ rev ls) = dropWhile P (rev xs @ rev ls)"
    by (rule dropWhile_append2) (use assms(2) in auto)
  ultimately have "rev (dropWhile P (rev (ls @ xs @ rs))) = ls @ rev (dropWhile P (rev xs))"
    by simp
  then show ?thesis using assms(1) by (simp add: strip_def dropWhile_append2)
qed

section \<open>Queues\<close>

text \<open>The contract of a container that is filled at its end.\<close>

locale fifo =
  fixes items :: "'s \<Rightarrow> 'a list"
    and push :: "'a \<Rightarrow> 's \<Rightarrow> 's"
  assumes items_push: "items (push x s) = items s @ [x]"
begin

lemma items_push_all: "items (fold push xs s) = items s @ xs"
  by (induction xs arbitrary: s) (simp_all add: items_push)

lemma items_front: "items s = x # xs \<Longrightarrow> items (push y s) = x # xs @ [y]"
  by (simp add: items_push)

end

end
