(* ===== verification/CppString.thy ===== *)
theory CppString
  imports Prelude "HOL-Library.Word"
begin

text \<open>
  The parts of the C++ standard library the repository uses on strings: searching in a
  \<open>std::string\<close>, \<open>substr\<close> and \<open>erase\<close> with their range check, whitespace-separated
  extraction from a \<open>stringstream\<close>, integer and bool extraction, decimal output, \<open>atoi\<close>
  and C strings.  A \<open>std::string\<close> is a \<open>string\<close> (a list of 8-bit characters).

  A position is a \<open>nat option\<close>: \<open>None\<close> is \<open>std::string::npos\<close>, which exceeds the size of
  every string.  Where the code computes with a position, \<open>size_val\<close> gives its raw value
  (\<open>npos\<close> is \<open>2 ^ 64 - 1\<close>) and \<open>wrap64\<close> the result of the unsigned computation.
\<close>

section \<open>Positions and searching\<close>

type_synonym size_pos = "nat option"

definition size_val :: "size_pos \<Rightarrow> nat" where
  "size_val p = (case p of None \<Rightarrow> size_max | Some n \<Rightarrow> n)"

primrec first_index :: "('a \<Rightarrow> bool) \<Rightarrow> 'a list \<Rightarrow> size_pos" where
  "first_index p [] = None"
| "first_index p (x # xs) = (if p x then Some 0 else map_option Suc (first_index p xs))"

primrec last_index :: "('a \<Rightarrow> bool) \<Rightarrow> 'a list \<Rightarrow> size_pos" where
  "last_index p [] = None"
| "last_index p (x # xs) =
     (case last_index p xs of Some i \<Rightarrow> Some (Suc i) | None \<Rightarrow> if p x then Some 0 else None)"

definition find_char :: "char \<Rightarrow> string \<Rightarrow> size_pos" where
  "find_char c s = first_index (\<lambda>x. x = c) s"

definition find_first_not_of :: "string \<Rightarrow> string \<Rightarrow> size_pos" where
  "find_first_not_of cs s = first_index (\<lambda>x. x \<notin> set cs) s"

definition find_last_not_of :: "string \<Rightarrow> string \<Rightarrow> size_pos" where
  "find_last_not_of cs s = last_index (\<lambda>x. x \<notin> set cs) s"

definition rfind_char :: "char \<Rightarrow> string \<Rightarrow> size_pos" where
  "rfind_char c s = last_index (\<lambda>x. x = c) s"

primrec find_sub :: "string \<Rightarrow> string \<Rightarrow> size_pos" where
  "find_sub pat [] = (if pat = [] then Some 0 else None)"
| "find_sub pat (x # xs) =
     (if take (length pat) (x # xs) = pat then Some 0 else map_option Suc (find_sub pat xs))"

definition substr :: "string \<Rightarrow> size_pos \<Rightarrow> size_pos \<Rightarrow> string res" where
  "substr s pos n =
     (case pos of
        None \<Rightarrow> Inl OutOfRange
      | Some p \<Rightarrow>
          if length s < p then Inl OutOfRange
          else Inr (case n of None \<Rightarrow> drop p s | Some k \<Rightarrow> take k (drop p s)))"

definition erase :: "string \<Rightarrow> nat \<Rightarrow> size_pos \<Rightarrow> string res" where
  "erase s p n =
     (if length s < p then Inl OutOfRange
      else Inr (take p s @ (case n of None \<Rightarrow> [] | Some k \<Rightarrow> drop (p + k) s)))"

lemma first_index_None [string_simps]:
  "(first_index p s = None) = (\<forall>x \<in> set s. \<not> p x)"
  by (induction s) auto

lemma first_index_bound: "first_index p s = Some i \<Longrightarrow> i < length s"
  by (induction s arbitrary: i) (auto split: if_splits)

lemma first_index_takeWhile:
  "first_index p s = Some i \<Longrightarrow> take i s = takeWhile (\<lambda>x. \<not> p x) s"
  by (induction s arbitrary: i) (auto split: if_splits)

lemma first_index_dropWhile:
  "first_index p s = Some i \<Longrightarrow> drop i s = dropWhile (\<lambda>x. \<not> p x) s"
  by (induction s arbitrary: i) (auto split: if_splits)

lemma first_index_nth: "first_index p s = Some i \<Longrightarrow> p (s ! i)"
  by (induction s arbitrary: i) (auto split: if_splits)

lemma first_index_before: "first_index p s = Some i \<Longrightarrow> j < i \<Longrightarrow> \<not> p (s ! j)"
proof (induction s arbitrary: i j)
  case (Cons x xs)
  then show ?case by (cases j) (auto split: if_splits)
qed simp

lemma first_index_append:
  "first_index p (xs @ ys) =
     (case first_index p xs of Some i \<Rightarrow> Some i
      | None \<Rightarrow> map_option (\<lambda>i. length xs + i) (first_index p ys))"
  by (induction xs; cases "first_index p ys") (auto split: option.splits)

lemma first_index_split:
  assumes "\<And>x. x \<in> set xs \<Longrightarrow> \<not> p x" and "p y"
  shows "first_index p (xs @ y # ys) = Some (length xs)"
proof -
  have "first_index p xs = None" using assms(1) by (simp add: first_index_None)
  then show ?thesis using assms(2) by (simp add: first_index_append)
qed

lemma last_index_None [string_simps]:
  "(last_index p s = None) = (\<forall>x \<in> set s. \<not> p x)"
  by (induction s) (auto split: option.splits)

lemma last_index_bound: "last_index p s = Some i \<Longrightarrow> i < length s"
  by (induction s arbitrary: i) (auto split: if_splits option.splits)

lemma last_index_nth: "last_index p s = Some i \<Longrightarrow> p (s ! i)"
  by (induction s arbitrary: i) (auto split: if_splits option.splits)

lemma last_index_after: "last_index p s = Some i \<Longrightarrow> \<forall>x \<in> set (drop (Suc i) s). \<not> p x"
proof (induction s arbitrary: i)
  case (Cons x xs)
  then show ?case
    by (cases "last_index p xs") (auto simp: last_index_None split: if_splits)
qed simp

lemma last_index_append:
  "last_index p (xs @ ys) =
     (case last_index p ys of Some i \<Rightarrow> Some (length xs + i) | None \<Rightarrow> last_index p xs)"
  by (induction xs) (auto split: option.splits)

lemma last_index_rev_takeWhile:
  "last_index p s = Some i \<Longrightarrow>
     take (Suc i) s = rev (dropWhile (\<lambda>x. \<not> p x) (rev s))"
proof (induction s arbitrary: i rule: rev_induct)
  case (snoc x xs)
  show ?case
  proof (cases "p x")
    case True
    with snoc.prems show ?thesis by (simp add: last_index_append)
  next
    case False
    with snoc.prems have "last_index p xs = Some i" by (simp add: last_index_append)
    moreover from this have "i < length xs" by (rule last_index_bound)
    ultimately show ?thesis using snoc.IH False by simp
  qed
qed simp

lemma substr_whole [string_simps]: "substr s (Some 0) None = Inr s"
  by (simp add: substr_def)

lemma substr_prefix [string_simps]: "substr s (Some 0) (Some n) = Inr (take n s)"
  by (simp add: substr_def)

lemma substr_suffix [string_simps]: "p \<le> length s \<Longrightarrow> substr s (Some p) None = Inr (drop p s)"
  by (simp add: substr_def)

lemma substr_npos [string_simps]: "substr s None n = Inl OutOfRange"
  by (simp add: substr_def)

lemma erase_prefix [string_simps]: "erase s 0 (Some n) = Inr (drop n s)"
  by (simp add: erase_def)

lemma erase_from [string_simps]: "p \<le> length s \<Longrightarrow> erase s p None = Inr (take p s)"
  by (simp add: erase_def)

section \<open>Characters\<close>

abbreviation tab :: char where "tab \<equiv> CHR 0x09"
abbreviation nl :: char where "nl \<equiv> CHR 0x0A"
abbreviation cr :: char where "cr \<equiv> CHR 0x0D"
abbreviation nul :: char where "nul \<equiv> CHR 0x00"
abbreviation space :: char where "space \<equiv> CHR 0x20"

definition is_space :: "char \<Rightarrow> bool" where
  "is_space c \<longleftrightarrow> c \<in> {space, tab, nl, CHR 0x0B, CHR 0x0C, cr}"

definition is_digit :: "char \<Rightarrow> bool" where
  "is_digit c \<longleftrightarrow> CHR ''0'' \<le> c \<and> c \<le> CHR ''9''"

text \<open>The bytes of a C string: everything before the first NUL byte.\<close>

definition c_str :: "string \<Rightarrow> string" where
  "c_str s = takeWhile (\<lambda>c. c \<noteq> nul) s"

definition quote :: char where "quote = CHR 0x27"
definition dquote :: char where "dquote = CHR 0x22"
definition slash :: char where "slash = CHR 0x2F"
definition newline :: string where "newline = [cr, nl]"

text \<open>\<open>s[0]\<close> is NUL for the empty string, and \<open>s[s.length() - 1]\<close> is then out of bounds.\<close>

definition first_char :: "string \<Rightarrow> char" where
  "first_char s = (case s of [] \<Rightarrow> nul | c # _ \<Rightarrow> c)"

definition last_char :: "string \<Rightarrow> char res" where
  "last_char s = (if s = [] then Inl OutOfBounds else Inr (last s))"

lemma c_str_name: "nul \<notin> set name \<Longrightarrow> c_str name = name"
  unfolding c_str_def by (induction name) auto

section \<open>Extraction from a string stream\<close>

text \<open>
  \<open>extract_word old s\<close> is \<open>stream >> word\<close> on a stream that still holds \<open>s\<close>: leading white space
  is skipped; at the end of the stream the target keeps its old value.
\<close>

definition extract_word :: "string \<Rightarrow> string \<Rightarrow> string \<times> string" where
  "extract_word old s =
     (let t = dropWhile is_space s
      in if t = [] then (old, [])
         else (takeWhile (\<lambda>c. \<not> is_space c) t, dropWhile (\<lambda>c. \<not> is_space c) t))"

definition digit_val :: "char \<Rightarrow> nat" where
  "digit_val c = of_char c - 48"

definition digits_val :: "string \<Rightarrow> nat" where
  "digits_val ds = foldl (\<lambda>a c. 10 * a + digit_val c) 0 ds"

definition sign_split :: "string \<Rightarrow> bool \<times> string" where
  "sign_split t =
     (case t of
        [] \<Rightarrow> (False, [])
      | c # cs \<Rightarrow> if c = CHR ''-'' then (True, cs) else if c = CHR ''+'' then (False, cs) else (False, t))"

definition signed_val :: "string \<Rightarrow> int" where
  "signed_val t =
     (let (neg, u) = sign_split t; n = int (digits_val (takeWhile is_digit u))
      in if neg then - n else n)"

definition clamp_int :: "int \<Rightarrow> int" where
  "clamp_int x = max (-2147483648) (min 2147483647 x)"

text \<open>
  \<open>stream >> i\<close> for an \<open>int\<close>: at the end of the stream the variable keeps its old value; text with
  no leading number gives 0; a number outside the range of \<open>int\<close> gives the nearest bound.
  For a \<open>bool\<close> (without \<open>boolalpha\<close>) the number 0 is false and any other number is true.
\<close>

definition extract_int :: "int \<Rightarrow> string \<Rightarrow> int" where
  "extract_int old s =
     (let t = dropWhile is_space s in if t = [] then old else clamp_int (signed_val t))"

definition extract_bool :: "bool \<Rightarrow> string \<Rightarrow> bool" where
  "extract_bool old s =
     (let t = dropWhile is_space s in if t = [] then old else signed_val t \<noteq> 0)"

text \<open>
  \<open>atoi\<close>: the value of \<open>strtol\<close> (clamped to \<open>long\<close>) converted to \<open>int\<close>.
\<close>

definition atoi :: "string \<Rightarrow> int" where
  "atoi s =
     sint (word_of_int
       (max (- (2 ^ 63)) (min (2 ^ 63 - 1) (signed_val (dropWhile is_space (c_str s))))) :: 32 word)"

text \<open>\<open>stream << n\<close> for an unsigned number: decimal digits.\<close>

fun nat_dec :: "nat \<Rightarrow> string" where
  "nat_dec n =
     (if n < 10 then [char_of (48 + n)] else nat_dec (n div 10) @ [char_of (48 + n mod 10)])"

declare nat_dec.simps [simp del]

definition int_dec :: "int \<Rightarrow> string" where
  "int_dec i = (if i < 0 then CHR ''-'' # nat_dec (nat (- i)) else nat_dec (nat i))"

lemma is_digit_char_of [simp]: "n < 10 \<Longrightarrow> is_digit (char_of (48 + n :: nat))"
  by (simp add: is_digit_def less_eq_char_def)

lemma digit_val_char_of [simp]: "n < 10 \<Longrightarrow> digit_val (char_of (48 + n :: nat)) = n"
  by (simp add: digit_val_def)

lemma is_digit_not_space: "is_digit c \<Longrightarrow> \<not> is_space c"
  by (auto simp: is_digit_def is_space_def less_eq_char_def)

lemma nat_dec_digits: "c \<in> set (nat_dec n) \<Longrightarrow> is_digit c"
proof (induction n rule: nat_dec.induct)
  case (1 n)
  then show ?case
    by (cases "n < 10") (auto simp: nat_dec.simps [of n])
qed

lemma nat_dec_nonempty [simp]: "nat_dec n \<noteq> []"
  by (simp add: nat_dec.simps [of n])

lemma digits_val_snoc: "digits_val (ds @ [c]) = 10 * digits_val ds + digit_val c"
  by (simp add: digits_val_def)

lemma digits_val_nat_dec [simp]: "digits_val (nat_dec n) = n"
proof (induction n rule: nat_dec.induct)
  case (1 n)
  show ?case
  proof (cases "n < 10")
    case True
    then show ?thesis by (simp add: nat_dec.simps [of n] digits_val_def)
  next
    case False
    with "1.IH" show ?thesis
      by (simp add: nat_dec.simps [of n] digits_val_snoc)
  qed
qed

lemma nat_dec_length: "n < 10 ^ Suc k \<Longrightarrow> length (nat_dec n) \<le> Suc k"
proof (induction k arbitrary: n)
  case 0
  then show ?case by (simp add: nat_dec.simps [of n])
next
  case (Suc k)
  then have "n div 10 < 10 ^ Suc k" by auto
  from Suc.IH [OF this] show ?case by (simp add: nat_dec.simps [of n])
qed

lemma dropWhile_head: "xs \<noteq> [] \<Longrightarrow> \<not> P (hd xs) \<Longrightarrow> dropWhile P xs = xs"
  by (cases xs) simp_all

lemma hd_nat_dec_digit: "is_digit (hd (nat_dec n))"
  using nat_dec_digits [of "hd (nat_dec n)" n] hd_in_set [OF nat_dec_nonempty [of n]] by blast

lemma sign_split_digit: "t \<noteq> [] \<Longrightarrow> is_digit (hd t) \<Longrightarrow> sign_split t = (False, t)"
  by (cases t) (auto simp: sign_split_def is_digit_def less_eq_char_def)

lemma signed_val_nat_dec:
  assumes "rest = [] \<or> \<not> is_digit (hd rest)"
  shows "signed_val (nat_dec n @ rest) = int n"
proof -
  have h: "sign_split (nat_dec n @ rest) = (False, nat_dec n @ rest)"
    using hd_nat_dec_digit by (intro sign_split_digit) simp_all
  have tw: "takeWhile is_digit rest = []"
    using assms by (cases rest) auto
  have "takeWhile is_digit (nat_dec n @ rest) = nat_dec n @ takeWhile is_digit rest"
    by (rule takeWhile_append2) (rule nat_dec_digits)
  with h tw show ?thesis by (simp add: signed_val_def)
qed

lemma extract_int_nat_dec:
  assumes "n \<le> 2147483647" and "rest = [] \<or> \<not> is_digit (hd rest)"
  shows "extract_int old (nat_dec n @ rest) = int n"
proof -
  have "dropWhile is_space (nat_dec n @ rest) = nat_dec n @ rest"
    using hd_nat_dec_digit [of n] by (intro dropWhile_head) (auto dest: is_digit_not_space)
  then show ?thesis
    using assms by (simp add: extract_int_def signed_val_nat_dec clamp_int_def)
qed

lemma extract_int_range:
  "-2147483648 \<le> old \<Longrightarrow> old \<le> 2147483647 \<Longrightarrow>
   -2147483648 \<le> extract_int old s \<and> extract_int old s \<le> 2147483647"
  by (auto simp: extract_int_def clamp_int_def Let_def)

end
