(* ===== verification/Utils.thy ===== *)
theory Utils
  imports CppString
begin

text \<open>
  The helper functions of \<open>Utilities/\<close> and the string helpers that the protocol libraries
  duplicate in their \<open>Adds.cpp\<close>: \<open>refTrim\<close>, \<open>trim\<close>, \<open>lower\<close>, the time differences, the
  sleeping wrappers and the comparison objects of the maps.  The trimming functions are shown
  equal to the specification \<open>strip\<close>, the time difference is bounded against the exact one.
\<close>

section \<open>Trimming and case\<close>

text \<open>
  \<open>find_last_not_of(..) + 1\<close>: \<open>npos + 1\<close> wraps to 0; a real position is below the size.
\<close>

definition size_succ :: "size_pos \<Rightarrow> nat" where
  "size_succ p = (case p of None \<Rightarrow> 0 | Some i \<Rightarrow> Suc i)"

definition refTrim :: "string \<Rightarrow> string res" where
  "refTrim s =
     (let lastchar = size_succ (find_last_not_of '' '' s);
          firstchar = find_first_not_of '' '' s;
          lastchar = (if lastchar = size_max \<and> lastchar > length s then length s else lastchar);
          firstchar = (case firstchar of None \<Rightarrow> 0 | Some i \<Rightarrow> i)
      in rbind (erase s lastchar (Some (usub64 (length s) lastchar)))
           (\<lambda>s. erase s 0 (Some firstchar)))"

definition trim_ws :: string where
  "trim_ws = [space, cr, nl, tab]"

definition trim :: "string \<Rightarrow> string res" where
  "trim s =
     rbind (erase s 0 (find_first_not_of trim_ws s))
       (\<lambda>s. case find_last_not_of trim_ws s of
              None \<Rightarrow> Inr s
            | Some pos \<Rightarrow> erase s (pos + 1) None)"

definition lower_char :: "char \<Rightarrow> char" where
  "lower_char c =
     (if CHR ''A'' \<le> c \<and> c \<le> CHR ''Z'' then char_of (of_char c + 32 :: nat) else c)"

definition lower :: "string \<Rightarrow> string" where
  "lower s = map lower_char s"

definition toString_bool :: "bool \<Rightarrow> string" where
  "toString_bool b = (if b then ''true'' else ''false'')"

definition runStatus :: "bool \<Rightarrow> string" where
  "runStatus b = (if b then ''Running'' else ''Paused'')"

definition toString_size :: "nat \<Rightarrow> string" where
  "toString_size i = nat_dec i"

lemma dropWhile_take_rev:
  "last_index p s = Some i \<Longrightarrow> take (Suc i) s = rev (dropWhile (\<lambda>x. \<not> p x) (rev s))"
  by (rule last_index_rev_takeWhile)

lemma first_index_take:
  assumes "first_index p s = Some i" and "i < n"
  shows "first_index p (take n s) = Some i"
proof -
  have "take n s = take i s @ s ! i # drop (Suc i) (take n s)"
    using assms first_index_bound [OF assms(1)]
    by (metis Cons_nth_drop_Suc append_take_drop_id length_take min_less_iff_conj nth_take take_take
        min.strict_order_iff)
  moreover have "\<And>x. x \<in> set (take i s) \<Longrightarrow> \<not> p x"
    using first_index_takeWhile [OF assms(1)] set_takeWhileD by metis
  moreover have "length (take i s) = i"
    using first_index_bound [OF assms(1)] by simp
  ultimately show ?thesis
    using first_index_split [of "take i s" p "s ! i"] first_index_nth [OF assms(1)] by metis
qed

lemma first_le_last:
  assumes "first_index p s = Some i" and "last_index p s = Some j"
  shows "i \<le> j"
proof (rule ccontr)
  assume "\<not> i \<le> j"
  then have "j < i" by simp
  then show False
    using first_index_before [OF assms(1)] last_index_nth [OF assms(2)] by blast
qed

lemma strip_by_index:
  assumes "first_index (\<lambda>x. \<not> P x) s = Some i" and "last_index (\<lambda>x. \<not> P x) s = Some j"
  shows "drop i (take (Suc j) s) = strip P s"
proof -
  have "first_index (\<lambda>x. \<not> P x) (take (Suc j) s) = Some i"
    using assms first_le_last [OF assms] by (intro first_index_take) simp_all
  then have "drop i (take (Suc j) s) = dropWhile P (take (Suc j) s)"
    by (simp add: first_index_dropWhile)
  also have "take (Suc j) s = rev (dropWhile P (rev s))"
    using dropWhile_take_rev [OF assms(2)] by simp
  finally show ?thesis
    using dropWhile_take_rev [OF assms(2)] by (simp add: strip_def)
qed

lemma refTrim_strip: "refTrim s = Inr (strip (\<lambda>c. c = space) s)"
proof (cases "\<forall>x \<in> set s. x = space")
  case True
  then have f: "find_first_not_of '' '' s = None" "find_last_not_of '' '' s = None"
    by (simp_all add: find_first_not_of_def find_last_not_of_def string_simps)
  have "strip (\<lambda>c. c = space) s = []" using True by (simp add: strip_Nil_iff)
  with f show ?thesis by (simp add: refTrim_def size_succ_def erase_def size_max_def)
next
  case False
  then obtain i where i: "first_index (\<lambda>x. x \<noteq> space) s = Some i"
    using first_index_None [of "\<lambda>x. x \<noteq> space" s] by (metis not_None_eq)
  from False obtain j where j: "last_index (\<lambda>x. x \<noteq> space) s = Some j"
    using last_index_None [of "\<lambda>x. x \<noteq> space" s] by (metis not_None_eq)
  have jl: "j < length s" using j by (rule last_index_bound)
  have "drop i (take (Suc j) s) = strip (\<lambda>c. c = space) s"
    using strip_by_index [of "\<lambda>c. c = space"] i j by simp
  moreover have "find_first_not_of '' '' s = Some i" "find_last_not_of '' '' s = Some j"
    using i j by (simp_all add: find_first_not_of_def find_last_not_of_def)
  ultimately show ?thesis
    using jl by (simp add: refTrim_def size_succ_def erase_def Let_def)
qed

lemma trim_strip: "trim s = Inr (strip (\<lambda>c. c \<in> set trim_ws) s)"
proof (cases "\<forall>x \<in> set s. x \<in> set trim_ws")
  case True
  then have "find_first_not_of trim_ws s = None"
    by (simp add: find_first_not_of_def string_simps)
  moreover have "strip (\<lambda>c. c \<in> set trim_ws) s = []" using True by (simp add: strip_Nil_iff)
  ultimately show ?thesis
    by (simp add: trim_def erase_def find_last_not_of_def)
next
  case False
  then obtain i where i: "first_index (\<lambda>x. x \<notin> set trim_ws) s = Some i"
    using first_index_None [of "\<lambda>x. x \<notin> set trim_ws" s] by (metis not_None_eq)
  from False obtain j where j: "last_index (\<lambda>x. x \<notin> set trim_ws) s = Some j"
    using last_index_None [of "\<lambda>x. x \<notin> set trim_ws" s] by (metis not_None_eq)
  have jl: "j < length s" using j by (rule last_index_bound)
  have ij: "i \<le> j" using i j by (rule first_le_last)
  have lj: "last_index (\<lambda>x. x \<notin> set trim_ws) (drop i s) = Some (j - i)"
  proof -
    have "last_index (\<lambda>x. x \<notin> set trim_ws) (take i s) = None"
      using i by (simp add: last_index_None first_index_takeWhile) (auto dest: set_takeWhileD)
    moreover have "last_index (\<lambda>x. x \<notin> set trim_ws) (take i s @ drop i s) = Some j"
      using j by simp
    ultimately show ?thesis
      using first_index_bound [OF i]
      by (simp only: last_index_append) (auto split: option.splits)
  qed
  have "take (Suc (j - i)) (drop i s) = drop i (take (Suc j) s)"
    using ij by (simp add: drop_take Suc_diff_le)
  also have "\<dots> = strip (\<lambda>c. c \<in> set trim_ws) s"
    using strip_by_index [of "\<lambda>c. c \<in> set trim_ws"] i j by simp
  finally show ?thesis
    using i lj jl ij
    by (simp add: trim_def erase_def find_first_not_of_def find_last_not_of_def)
qed

lemma length_lower [simp]: "length (lower s) = length s"
  by (simp add: lower_def)

lemma lower_char_idem: "lower_char (lower_char c) = lower_char c"
  by (simp add: lower_char_def less_eq_char_def)

lemma lower_idem: "lower (lower s) = lower s"
  by (simp add: lower_def lower_char_idem)

lemma lower_fixed: "(\<And>c. c \<in> set s \<Longrightarrow> \<not> (CHR ''A'' \<le> c \<and> c \<le> CHR ''Z'')) \<Longrightarrow> lower s = s"
  unfolding lower_def by (rule map_idI) (auto simp: lower_char_def)

section \<open>Time\<close>

text \<open>
  A \<open>timeval\<close>: seconds and microseconds, both \<open>long\<close>.  Division truncates towards zero, and the
  result is converted to \<open>uint64\<close>.
\<close>

record timeval =
  tv_sec :: int
  tv_usec :: int

definition c_div :: "int \<Rightarrow> int \<Rightarrow> int" where
  "c_div a b = sgn a * sgn b * (\<bar>a\<bar> div \<bar>b\<bar>)"

definition getMsTimeDiff :: "timeval \<Rightarrow> timeval \<Rightarrow> nat" where
  "getMsTimeDiff a b =
     wrap64 ((tv_sec b - tv_sec a) * 1000 + c_div (tv_usec b - tv_usec a) 1000)"

text \<open>\<open>getMsTimeDiffToNow\<close> reads the clock; the reading is an argument.\<close>

definition getMsTimeDiffToNow :: "timeval \<Rightarrow> timeval \<Rightarrow> nat" where
  "getMsTimeDiffToNow now a =
     wrap64 ((tv_sec now - tv_sec a) * 1000 + c_div (tv_usec now - tv_usec a) 1000)"

definition micros :: "timeval \<Rightarrow> int" where
  "micros t = tv_sec t * 1000000 + tv_usec t"

definition wf_timeval :: "timeval \<Rightarrow> bool" where
  "wf_timeval t \<longleftrightarrow> 0 \<le> tv_sec t \<and> tv_sec t < 2 ^ 48 \<and> 0 \<le> tv_usec t \<and> tv_usec t < 1000000"

text \<open>
  \<open>nanosleep\<close> builds a \<open>timespec\<close> with zero seconds; the kernel accepts at most 999999999
  nanoseconds in it and fails with EINVAL otherwise, without sleeping.  The wrappers give the
  nanoseconds requested; \<open>slept\<close> is the time really slept.
\<close>

definition slept :: "nat \<Rightarrow> nat option" where
  "slept ns = (if ns < 1000000000 then Some ns else None)"

definition IN_MICROSECONDS :: nat where "IN_MICROSECONDS = 1000"
definition IN_MILLISECONDS :: nat where "IN_MILLISECONDS = IN_MICROSECONDS * IN_MICROSECONDS"

definition usleep :: "nat \<Rightarrow> nat option" where
  "usleep time = slept (time * IN_MICROSECONDS mod 2 ^ 64)"

definition msleep :: "nat \<Rightarrow> nat option" where
  "msleep time = slept (time * IN_MILLISECONDS mod 2 ^ 64)"

lemma c_div_nonneg: "0 \<le> x \<Longrightarrow> c_div x 1000 = x div 1000"
  by (cases "x = 0") (simp_all add: c_div_def)

lemma c_div_neg: "x < 0 \<Longrightarrow> c_div x 1000 = - ((- x) div 1000)"
  by (simp add: c_div_def)

lemma div_1000_bounds: "1000 * (x div 1000) \<le> (x :: int)" "x < 1000 * (x div 1000) + 1000"
  using div_mult_mod_eq [of x 1000] pos_mod_bound [of 1000 x] pos_mod_sign [of 1000 x] by linarith+

lemma c_div_bound: "\<bar>1000 * c_div x 1000 - x\<bar> < 1000"
proof (cases "0 \<le> x")
  case True
  then show ?thesis using div_1000_bounds [of x] by (simp add: c_div_nonneg)
next
  case False
  then show ?thesis using div_1000_bounds [of "- x"] by (simp add: c_div_neg)
qed

lemma c_div_sign: "0 \<le> x \<Longrightarrow> 0 \<le> c_div x 1000"
  by (simp add: c_div_nonneg pos_imp_zdiv_nonneg_iff)

lemma c_div_lower: "- 1000000 < x \<Longrightarrow> - 1000 < c_div x 1000"
proof (cases "0 \<le> x")
  case False
  assume "- 1000000 < x"
  with False show ?thesis using div_1000_bounds [of "- x"] by (simp add: c_div_neg)
qed (use c_div_sign in force)

text \<open>
  A clock that does not go backwards: the difference is the exact one, to within a millisecond.
\<close>

lemma getMsTimeDiff_exact:
  assumes "wf_timeval a" and "wf_timeval b" and "micros a \<le> micros b"
  shows "\<bar>1000 * int (getMsTimeDiff a b) - (micros b - micros a)\<bar> < 1000"
proof -
  let ?s = "tv_sec b - tv_sec a" and ?u = "tv_usec b - tv_usec a"
  let ?r = "?s * 1000 + c_div ?u 1000"
  have bound: "\<bar>1000 * c_div ?u 1000 - ?u\<bar> < 1000" by (rule c_div_bound)
  have u: "- 1000000 < ?u" "?u < 1000000"
    using assms(1,2) by (simp_all add: wf_timeval_def)
  have s: "0 \<le> ?s" using assms by (simp add: wf_timeval_def micros_def)
  have nonneg: "0 \<le> ?r"
  proof (cases "?s = 0")
    case True
    then have "0 \<le> ?u" using assms(3) by (simp add: micros_def)
    then show ?thesis using True c_div_sign [of ?u] by simp
  next
    case False
    then have "1 \<le> ?s" using s by simp
    then show ?thesis using c_div_lower [OF u(1)] by simp
  qed
  have "?s < 2 ^ 48" using assms(1,2) by (simp add: wf_timeval_def)
  then have "?r < 2 ^ 64" using bound u by simp
  with nonneg have "int (getMsTimeDiff a b) = ?r"
    by (simp add: getMsTimeDiff_def wrap64_small)
  then show ?thesis using bound by (simp add: micros_def algebra_simps)
qed

text \<open>
  A clock set back by a millisecond or more: the unsigned result is enormous.
\<close>

lemma getMsTimeDiff_backwards:
  assumes "wf_timeval a" and "wf_timeval b" and "micros b + 2000 \<le> micros a"
  shows "2 ^ 63 \<le> getMsTimeDiff a b"
proof -
  let ?s = "tv_sec b - tv_sec a" and ?u = "tv_usec b - tv_usec a"
  let ?r = "?s * 1000 + c_div ?u 1000"
  have bound: "\<bar>1000 * c_div ?u 1000 - ?u\<bar> < 1000" by (rule c_div_bound)
  have d: "?s * 1000000 + ?u \<le> - 2000" using assms(3) by (simp add: micros_def)
  have neg: "?r < 0" using bound d by simp
  have w: "0 \<le> tv_sec b" "tv_sec a < 281474976710656" "- 1000000 < ?u" "?u < 1000000"
    using assms(1,2) by (simp_all add: wf_timeval_def)
  have "- 1000 < c_div ?u 1000" using w(3) by (rule c_div_lower)
  moreover have "- 281474976710656 \<le> ?s" using w(1,2) by simp
  then have "- 281474976710656000 \<le> ?s * 1000" by simp
  ultimately have lo: "- 281474976711656 * 1000 \<le> ?r" by linarith
  have "getMsTimeDiff a b = nat (?r + 2 ^ 64)"
    unfolding getMsTimeDiff_def using neg lo by (intro wrap64_neg) simp_all
  moreover have "(2 ^ 63 :: int) \<le> ?r + 2 ^ 64" using lo by simp
  ultimately show ?thesis by (simp add: nat_le_iff le_nat_iff)
qed

lemma msleep_limit: "time < 2 ^ 32 \<Longrightarrow> (msleep time = None) = (1000 \<le> time)"
  by (simp add: msleep_def slept_def IN_MILLISECONDS_def IN_MICROSECONDS_def)

lemma usleep_limit: "time < 2 ^ 32 \<Longrightarrow> (usleep time = None) = (1000000 \<le> time)"
  by (auto simp: usleep_def slept_def IN_MICROSECONDS_def)

section \<open>Comparison objects\<close>

text \<open>
  \<open>StringComparsionObject\<close>, \<open>compStr\<close> and \<open>MapStringComparsionStruct\<close> order map keys by
  \<open>std::string::compare\<close>, byte by byte.  Two keys are the same key of a map when neither is
  below the other; this is equality of strings, which the partial functions rely on.
\<close>

fun string_less :: "string \<Rightarrow> string \<Rightarrow> bool" where
  "string_less _ [] = False"
| "string_less [] (_ # _) = True"
| "string_less (x # xs) (y # ys) = (x < y \<or> x = y \<and> string_less xs ys)"

definition strcmp_less :: "string \<Rightarrow> string \<Rightarrow> bool" where
  "strcmp_less a b = string_less (c_str a) (c_str b)"

lemma string_less_irrefl: "\<not> string_less s s"
  by (induction s) simp_all

lemma string_less_trans: "string_less a b \<Longrightarrow> string_less b c \<Longrightarrow> string_less a c"
proof (induction a c arbitrary: b rule: string_less.induct)
  case (3 x xs y ys)
  then show ?case by (cases b) (auto dest: less_trans)
next
  case (1 a)
  then show ?case by (cases a) simp_all
next
  case (2 c cs)
  then show ?case by simp
qed

lemma string_less_total: "\<not> string_less a b \<Longrightarrow> \<not> string_less b a \<Longrightarrow> a = b"
proof (induction a b rule: string_less.induct)
  case (1 a)
  then show ?case by (cases a) simp_all
next
  case (3 x xs y ys)
  then show ?case by (cases x y rule: linorder_cases) auto
qed simp

section \<open>Descriptor flags and argument lists\<close>

definition O_NONBLOCK :: int where "O_NONBLOCK = 2048"

text \<open>
  \<open>setNonblocking\<close>: \<open>getfl\<close> and \<open>setfl\<close> are the two uses of \<open>fcntl\<close>; flags that cannot be read count
  as none.
\<close>

definition setNonblocking :: "(int \<Rightarrow> int) \<Rightarrow> (int \<Rightarrow> int \<Rightarrow> int) \<Rightarrow> int \<Rightarrow> int" where
  "setNonblocking getfl setfl fd =
     (let flags = (if getfl fd = -1 then 0 else getfl fd) in setfl fd (or flags O_NONBLOCK))"

text \<open>The flags are those that the descriptor had, and the one for non-blocking calls.\<close>

lemma setNonblocking_flags:
  assumes "getfl fd \<noteq> -1"
  shows "\<exists>flags. setNonblocking getfl setfl fd = setfl fd flags
    \<and> (\<forall>i. bit flags i \<longleftrightarrow> bit (getfl fd) i \<or> i = 11)"
proof -
  have p: "O_NONBLOCK = 2 ^ 11" by (simp add: O_NONBLOCK_def)
  have "bit (or (getfl fd) O_NONBLOCK) i \<longleftrightarrow> bit (getfl fd) i \<or> i = 11" for i
    unfolding p bit_or_iff bit_exp_iff by auto
  then show ?thesis using assms by (auto simp: setNonblocking_def Let_def)
qed

text \<open>
  The variadic \<open>isWithinList\<close> takes \<open>count\<close> arguments from its list, at most up to the one that it
  looks for; taking one that was not passed is undefined.
\<close>

fun isWithinList :: "'a \<Rightarrow> nat \<Rightarrow> 'a list \<Rightarrow> bool res" where
  "isWithinList v 0 args = Inr False"
| "isWithinList v (Suc n) [] = Inl OutOfBounds"
| "isWithinList v (Suc n) (a # args) = (if v = a then Inr True else isWithinList v n args)"

lemma isWithinList_eq:
  "isWithinList v n args =
     (if v \<in> set (take n args) then Inr True else if n \<le> length args then Inr False else Inl OutOfBounds)"
  by (induction v n args rule: isWithinList.induct) auto

end
