(* ===== verification/BinData.thy ===== *)
theory BinData
  imports Utils
begin

text \<open>
  \<open>DataArrays/binData.{h,cpp}\<close>: the class \<open>BinnaryData\<close>, a growing byte buffer with a read and
  a write pointer.  The allocation behind \<open>data\<close> is a list of bytes of length \<open>maxLength\<close> (or
  \<open>None\<close> for NULL, when both pointers are NULL too); the pointers are offsets from \<open>data\<close>, as
  integers, because some operations move them before the allocation.  Every access checks the
  allocation and every pointer comparison stays within one allocation, else the result is the
  error that names the undefined behaviour.  Sizes are natural numbers; subtractions of sizes
  wrap around as \<open>size_t\<close> does.
\<close>

section \<open>State and memory accesses\<close>

record bindata =
  bd_data :: "string option"
  usedLength :: nat
  maxLength :: nat
  pget :: int
  pput :: int

datatype IOposition = Beg | End_pos

definition bd_init :: bindata where
  "bd_init = \<lparr>bd_data = None, usedLength = 0, maxLength = 0, pget = 0, pput = 0\<rparr>"

definition rd_bytes :: "bindata \<Rightarrow> int \<Rightarrow> nat \<Rightarrow> string res" where
  "rd_bytes d off n =
     (if n = 0 then Inr []
      else case bd_data d of
        None \<Rightarrow> Inl NullPointer
      | Some bs \<Rightarrow>
          if 0 \<le> off \<and> nat off + n \<le> length bs then Inr (take n (drop (nat off) bs))
          else Inl OutOfBounds)"

definition rd_byte :: "bindata \<Rightarrow> int \<Rightarrow> char res" where
  "rd_byte d off =
     (case bd_data d of
        None \<Rightarrow> Inl NullPointer
      | Some bs \<Rightarrow>
          if 0 \<le> off \<and> nat off < length bs then Inr (bs ! nat off) else Inl OutOfBounds)"

definition wr_bytes :: "bindata \<Rightarrow> int \<Rightarrow> string \<Rightarrow> bindata res" where
  "wr_bytes d off src =
     (if src = [] then Inr d
      else case bd_data d of
        None \<Rightarrow> Inl NullPointer
      | Some bs \<Rightarrow>
          if 0 \<le> off \<and> nat off + length src \<le> length bs
          then Inr (d\<lparr>bd_data :=
                 Some (take (nat off) bs @ src @ drop (nat off + length src) bs)\<rparr>)
          else Inl OutOfBounds)"

section \<open>Allocation\<close>

text \<open>
  \<open>reserve\<close>: a smaller length clears the tail; a larger one moves to a new zeroed allocation.
  When nothing is used yet the old pointers are not rebased: the comparisons that follow are
  then between two allocations, unless the pointers are NULL.
\<close>

definition rebase :: "nat \<Rightarrow> int \<Rightarrow> int" where
  "rebase len p = (if p < 0 \<or> p > int len then 0 else p)"

definition reserve :: "bindata \<Rightarrow> nat \<Rightarrow> bindata res" where
  "reserve d len =
     (if maxLength d = len then Inr d
      else if maxLength d > len then
        (case bd_data d of
           None \<Rightarrow> Inl NullPointer
         | Some bs \<Rightarrow> Inr (d\<lparr>bd_data := Some (take len bs @ replicate (maxLength d - len) nul)\<rparr>))
      else
        (if usedLength d \<noteq> 0 then
           rbind (rd_bytes d 0 (usedLength d)) (\<lambda>old.
             Inr (d\<lparr>bd_data := Some (old @ replicate (len - usedLength d) nul),
                    maxLength := len,
                    pget := rebase len (pget d), pput := rebase len (pput d)\<rparr>))
         else
           (case bd_data d of
              None \<Rightarrow> Inr (d\<lparr>bd_data := Some (replicate len nul), maxLength := len,
                              pget := 0, pput := 0\<rparr>)
            | Some _ \<Rightarrow> Inl ForeignPointer)))"

definition grow :: "bindata \<Rightarrow> nat \<Rightarrow> bindata res" where
  "grow d by = reserve d (maxLength d + by)"

text \<open>\<open>clear\<close> forgets the allocation (deleting it only when something was used).\<close>

definition bd_clear :: "bindata \<Rightarrow> bindata" where
  "bd_clear d = bd_init"

section \<open>Moving the pointers\<close>

definition seek_to :: "bindata \<Rightarrow> nat \<Rightarrow> IOposition \<Rightarrow> int" where
  "seek_to d to pos =
     (case pos of
        Beg \<Rightarrow> int (if to > maxLength d then usedLength d else to)
      | End_pos \<Rightarrow> int (if to > usedLength d then usedLength d else usedLength d - to))"

definition seek_edge :: "bindata \<Rightarrow> IOposition \<Rightarrow> int" where
  "seek_edge d pos = (case pos of Beg \<Rightarrow> 0 | End_pos \<Rightarrow> int (usedLength d))"

definition seek_by :: "bindata \<Rightarrow> int \<Rightarrow> int \<Rightarrow> int" where
  "seek_by d p by = (if p - by > 0 then p - by else int (usedLength d) + (p - by))"

definition seekg_to :: "bindata \<Rightarrow> nat \<Rightarrow> IOposition \<Rightarrow> bindata" where
  "seekg_to d to pos = d\<lparr>pget := seek_to d to pos\<rparr>"

definition seekg_edge :: "bindata \<Rightarrow> IOposition \<Rightarrow> bindata" where
  "seekg_edge d pos = d\<lparr>pget := seek_edge d pos\<rparr>"

definition seekg_by :: "bindata \<Rightarrow> int \<Rightarrow> bindata" where
  "seekg_by d by = d\<lparr>pget := seek_by d (pget d) by\<rparr>"

definition seekp_to :: "bindata \<Rightarrow> nat \<Rightarrow> IOposition \<Rightarrow> bindata" where
  "seekp_to d to pos = d\<lparr>pput := seek_to d to pos\<rparr>"

definition seekp_edge :: "bindata \<Rightarrow> IOposition \<Rightarrow> bindata" where
  "seekp_edge d pos = d\<lparr>pput := seek_edge d pos\<rparr>"

definition seekp_by :: "bindata \<Rightarrow> int \<Rightarrow> bindata" where
  "seekp_by d by = d\<lparr>pput := seek_by d (pput d) by\<rparr>"

text \<open>\<open>skip<T>\<close>: the test is on unsigned values, so it only fails for a difference of 0.\<close>

definition skip :: "bindata \<Rightarrow> nat \<Rightarrow> bindata" where
  "skip d n =
     d\<lparr>pget := (if wrap64 (pget d - int n) > 0 then pget d - int n
                 else int (usedLength d) + (pget d - int n))\<rparr>"

definition tellg :: "bindata \<Rightarrow> nat" where
  "tellg d = wrap64 (0 - pget d)"

definition teelp :: "bindata \<Rightarrow> nat" where
  "teelp d = wrap64 (0 - pput d)"

section \<open>Output\<close>

definition bd_read :: "bindata \<Rightarrow> nat \<Rightarrow> string res" where
  "bd_read d num =
     (if usedLength d = 0 then Inr []
      else rd_bytes d 0 (if usedLength d > num then num else usedLength d))"

text \<open>
  \<open>readsome\<close>: the bytes copied, the returned count (computed after the pointer has moved) and
  the new state.
\<close>

definition readsome :: "bindata \<Rightarrow> nat \<Rightarrow> (string \<times> nat \<times> bindata) res" where
  "readsome d num =
     (if bd_data d = None then Inl AssertFail
      else if usedLength d = 0 then Inr ([], 0, d)
      else
        (let remaining = wrap64 (int (usedLength d) - pget d);
             k = (if remaining > num then num else remaining)
         in rbind (rd_bytes d (pget d) k) (\<lambda>bs.
              let d' = d\<lparr>pget := pget d + int k\<rparr>;
                  remaining' = wrap64 (int (usedLength d') - pget d')
              in Inr (bs, (if remaining' > num then num else remaining'), d'))))"

definition read_T :: "bindata \<Rightarrow> nat \<Rightarrow> (string \<times> bindata) res" where
  "read_T d n = rbind (rd_bytes d (pget d) n) (\<lambda>bs. Inr (bs, d\<lparr>pget := pget d + int n\<rparr>))"

definition bd_get :: "bindata \<Rightarrow> (char \<times> bindata) res" where
  "bd_get d =
     rbind (rd_byte d (pget d)) (\<lambda>g.
       Inr (g, d\<lparr>pget := (if pget d = int (usedLength d) then int (usedLength d)
                          else pget d + 1)\<rparr>))"

definition unget :: "bindata \<Rightarrow> bindata" where
  "unget d = d\<lparr>pget := (if pget d > 0 then pget d - 1 else int (usedLength d))\<rparr>"

definition bd_index :: "bindata \<Rightarrow> nat \<Rightarrow> char res" where
  "bd_index d pos = rd_byte d (int (if pos > maxLength d then maxLength d else pos))"

section \<open>Input\<close>

definition write_buf :: "bindata \<Rightarrow> string \<Rightarrow> bindata res" where
  "write_buf d src =
     (if src = [] then Inr d
      else
        rbind (if length src + usedLength d > maxLength d then grow d (length src) else Inr d)
          (\<lambda>d. rbind (wr_bytes d (pput d) src)
            (\<lambda>d. Inr (d\<lparr>usedLength := usedLength d + length src,
                        pput := pput d + int (length src)\<rparr>))))"

definition append_buf :: "bindata \<Rightarrow> string \<Rightarrow> bindata res" where
  "append_buf d src =
     (if src = [] then Inr d
      else
        rbind (if length src + usedLength d > maxLength d then grow d (length src) else Inr d)
          (\<lambda>d. rbind (wr_bytes d (int (usedLength d)) src)
            (\<lambda>d. Inr (d\<lparr>usedLength := usedLength d + length src\<rparr>))))"

text \<open>\<open>write<T>\<close> takes the object's bytes.\<close>

definition write_T :: "bindata \<Rightarrow> string \<Rightarrow> bindata res" where
  "write_T d bs =
     (let reach = wrap64 (pput d + int (length bs))
      in rbind (if reach > usedLength d then grow d (reach - usedLength d) else Inr d)
           (\<lambda>d. rbind (wr_bytes d (pput d) bs)
             (\<lambda>d. Inr (d\<lparr>pput := pput d + int (length bs),
                         usedLength := usedLength d + length bs\<rparr>))))"

definition bd_put :: "bindata \<Rightarrow> char \<Rightarrow> bindata res" where
  "bd_put d c = write_T d [c]"

text \<open>\<open>BinnaryData(src, num)\<close>.\<close>

definition bd_make :: "string \<Rightarrow> bindata res" where
  "bd_make src = write_buf bd_init src"

section \<open>Inserters and extractors of machine integers\<close>

text \<open>
  The bytes of an object of an integer type are its value, least significant byte first
  (x86); signed and unsigned types of one width have the same bytes.
\<close>

fun le_bytes :: "nat \<Rightarrow> nat \<Rightarrow> string" where
  "le_bytes 0 x = []"
| "le_bytes (Suc n) x = char_of (x mod 256) # le_bytes n (x div 256)"

fun le_val :: "string \<Rightarrow> nat" where
  "le_val [] = 0"
| "le_val (c # cs) = of_char c + 256 * le_val cs"

definition put_u8 :: "bindata \<Rightarrow> 8 word \<Rightarrow> bindata res" where
  "put_u8 d x = write_T d (le_bytes 1 (unat x))"

definition put_u16 :: "bindata \<Rightarrow> 16 word \<Rightarrow> bindata res" where
  "put_u16 d x = write_T d (le_bytes 2 (unat x))"

definition put_u32 :: "bindata \<Rightarrow> 32 word \<Rightarrow> bindata res" where
  "put_u32 d x = write_T d (le_bytes 4 (unat x))"

definition put_u64 :: "bindata \<Rightarrow> 64 word \<Rightarrow> bindata res" where
  "put_u64 d x = write_T d (le_bytes 8 (unat x))"

definition get_u8 :: "bindata \<Rightarrow> (8 word \<times> bindata) res" where
  "get_u8 d = rbind (read_T d 1) (\<lambda>(bs, d). Inr (of_nat (le_val bs), d))"

definition get_u16 :: "bindata \<Rightarrow> (16 word \<times> bindata) res" where
  "get_u16 d = rbind (read_T d 2) (\<lambda>(bs, d). Inr (of_nat (le_val bs), d))"

definition get_u32 :: "bindata \<Rightarrow> (32 word \<times> bindata) res" where
  "get_u32 d = rbind (read_T d 4) (\<lambda>(bs, d). Inr (of_nat (le_val bs), d))"

definition get_u64 :: "bindata \<Rightarrow> (64 word \<times> bindata) res" where
  "get_u64 d = rbind (read_T d 8) (\<lambda>(bs, d). Inr (of_nat (le_val bs), d))"

definition put_cstr :: "bindata \<Rightarrow> string \<Rightarrow> bindata res" where
  "put_cstr d s = write_buf d (c_str s)"

definition put_string :: "bindata \<Rightarrow> string \<Rightarrow> bindata res" where
  "put_string d s = write_buf d s"

section \<open>Searching\<close>

text \<open>
  A scan of \<open>n\<close> bytes from offset \<open>off\<close> stops at the first match; it runs out of the allocation
  when there is none in the allocated part and \<open>n\<close> reaches past it.
\<close>

definition scan :: "bindata \<Rightarrow> int \<Rightarrow> nat \<Rightarrow> char \<Rightarrow> size_pos res" where
  "scan d off n ch =
     (if n = 0 then Inr None
      else case bd_data d of
        None \<Rightarrow> Inl NullPointer
      | Some bs \<Rightarrow>
          if off < 0 then Inl OutOfBounds
          else (case find_char ch (take n (drop (nat off) bs)) of
                  Some i \<Rightarrow> Inr (Some i)
                | None \<Rightarrow> if nat off + n \<le> length bs then Inr None else Inl OutOfBounds))"

definition bd_find :: "bindata \<Rightarrow> char \<Rightarrow> size_pos res" where
  "bd_find d ch = scan d 0 (usedLength d) ch"

text \<open>\<open>_find\<close>: from the read pointer.\<close>

definition find_from :: "bindata \<Rightarrow> char \<Rightarrow> size_pos res" where
  "find_from d ch = scan d (pget d) (wrap64 (int (usedLength d) - pget d)) ch"

text \<open>\<open>find(bytes, length)\<close>: \<open>memcmp\<close> is true where the bytes differ.\<close>

function find_mem_loop :: "bindata \<Rightarrow> string \<Rightarrow> nat \<Rightarrow> nat \<Rightarrow> size_pos res" where
  "find_mem_loop d pat lim i =
     (if i < lim then
        (case rd_bytes d (int i) (length pat) of
           Inl e \<Rightarrow> Inl e
         | Inr bs \<Rightarrow> if bs \<noteq> pat then Inr (Some i) else find_mem_loop d pat lim (Suc i))
      else Inr None)"
  by pat_completeness auto
termination
  by (relation "measure (\<lambda>(d, pat, lim, i). lim - i)") auto

declare find_mem_loop.simps [simp del]

definition find_mem :: "bindata \<Rightarrow> string \<Rightarrow> size_pos res" where
  "find_mem d pat = find_mem_loop d pat (wrap64 (int (usedLength d) - int (length pat))) 0"

text \<open>
  \<open>locate\<close> counts from the read pointer's offset and adds the read pointer again.
\<close>

function locate_loop :: "bindata \<Rightarrow> char \<Rightarrow> int \<Rightarrow> int res" where
  "locate_loop d ch i =
     (if i < int (usedLength d) then
        (case rd_byte d (pget d + i) of
           Inl e \<Rightarrow> Inl e
         | Inr c \<Rightarrow> if c = ch then Inr i else locate_loop d ch (i + 1))
      else Inr (int size_max - pget d))"
  by pat_completeness auto
termination
  by (relation "measure (\<lambda>(d, ch, i). nat (int (usedLength d) - i))") auto

declare locate_loop.simps [simp del]

definition locate :: "bindata \<Rightarrow> char \<Rightarrow> int res" where
  "locate d ch = locate_loop d ch (pget d)"

section \<open>Words and lines\<close>

text \<open>
  \<open>>> string\<close> and \<open>getline\<close> look for a delimiter and read \<open>pos\<close> bytes into a stack array of
  \<open>pos + 1\<close> bytes.  With no delimiter \<open>pos\<close> is \<open>maxpos\<close>: the array has no element, and
  everything that remains is copied into it and a terminator is read from it: out of bounds.
  (The test for a carriage return at the delimiter can never hold when there is a delimiter.)
\<close>

definition pos_min :: "size_pos \<Rightarrow> size_pos \<Rightarrow> size_pos" where
  "pos_min a b =
     (case a of None \<Rightarrow> b | Some i \<Rightarrow> (case b of None \<Rightarrow> a | Some j \<Rightarrow> Some (min i j)))"

definition pre_cr :: "bindata \<Rightarrow> size_pos \<Rightarrow> size_pos res" where
  "pre_cr d e =
     (case e of
        None \<Rightarrow> rbind (rd_byte d (pget d - 1))
                  (\<lambda>c. if c = cr then Inr (Some (size_max - 1)) else Inr None)
      | Some j \<Rightarrow> rbind (rd_byte d (pget d + int j))
                  (\<lambda>c. if c = cr then Inr (Some (j - 1)) else Inr (Some j)))"

definition read_stack :: "bindata \<Rightarrow> size_pos \<Rightarrow> (string \<times> bindata) res" where
  "read_stack d pos =
     (case pos of
        None \<Rightarrow> Inl OutOfBounds
      | Some n \<Rightarrow> if n + 1 \<ge> size_max then Inl OutOfBounds
                  else rbind (readsome d n) (\<lambda>(bs, _, d). Inr (c_str bs, d)))"

definition get_word :: "bindata \<Rightarrow> (string \<times> bindata) res" where
  "get_word d =
     rbind (find_from d space) (\<lambda>pos.
     rbind (find_from d nl) (\<lambda>endline.
     rbind (pre_cr d endline) (\<lambda>endline.
     rbind (read_stack d (pos_min pos endline)) (\<lambda>(s, d).
       Inr (s, d\<lparr>pget := pget d + 1\<rparr>)))))"

definition skip_byte :: "char \<Rightarrow> bindata \<Rightarrow> bindata res" where
  "skip_byte c d =
     rbind (rd_byte d (pget d)) (\<lambda>b. Inr (if b = c then d\<lparr>pget := pget d + 1\<rparr> else d))"

definition getline :: "bindata \<Rightarrow> (string \<times> bindata) res" where
  "getline d =
     rbind (find_from d nl) (\<lambda>pos.
     rbind (pre_cr d pos) (\<lambda>pos.
     rbind (read_stack d pos) (\<lambda>(s, d).
     rbind (skip_byte cr d) (\<lambda>d.
     rbind (skip_byte nl d) (\<lambda>d. Inr (s, d))))))"

section \<open>Text output\<close>

text \<open>
  \<open>TextLike\<close> reads a C string from \<open>data\<close>.  \<open>after\<close> are the bytes of memory that follow the
  allocation: the read goes on into them when the allocation holds no NUL byte.
\<close>

definition TextLike :: "string \<Rightarrow> bindata \<Rightarrow> string res" where
  "TextLike after d =
     (case bd_data d of
        None \<Rightarrow> Inl LogicError
      | Some bs \<Rightarrow> if nul \<in> set (bs @ after) then Inr (c_str (bs @ after)) else Inl OutOfBounds)"

definition hex_digit :: "nat \<Rightarrow> char" where
  "hex_digit n = (if n < 10 then char_of (48 + n) else char_of (87 + n))"

definition hex_byte :: "char \<Rightarrow> string" where
  "hex_byte c = [hex_digit (of_char c div 16), hex_digit (of_char c mod 16)]"

fun hex_from :: "nat \<Rightarrow> string \<Rightarrow> string" where
  "hex_from i [] = []"
| "hex_from i [c] = hex_byte c"
| "hex_from i (c # c' # cs) =
     hex_byte c @ (if i mod 8 = 0 \<and> i > 0 then [nl] else [space]) @ hex_from (Suc i) (c' # cs)"

definition HexLike :: "bindata \<Rightarrow> string res" where
  "HexLike d = rbind (rd_bytes d 0 (usedLength d)) (\<lambda>bs. Inr (hex_from 0 bs))"

end
