(* ===== verification/BinDataProps.thy ===== *)
theory BinDataProps
  imports BinData
begin

text \<open>
  The correctness of \<open>BinnaryData\<close>: the well-formedness invariant, appending through the write
  pointer as list concatenation (the contract \<open>byte_sink\<close>, which string streams satisfy too),
  the round trips of typed writes and reads, and the reading of words and lines when the
  delimiter is there; also the operations that leave the invariant.
\<close>

section \<open>Well-formed buffers\<close>

definition contents :: "bindata \<Rightarrow> string" where
  "contents d = (case bd_data d of None \<Rightarrow> [] | Some bs \<Rightarrow> take (usedLength d) bs)"

definition wf_bd :: "bindata \<Rightarrow> bool" where
  "wf_bd d \<longleftrightarrow>
     (case bd_data d of
        None \<Rightarrow> maxLength d = 0 \<and> pget d = 0 \<and> pput d = 0
      | Some bs \<Rightarrow> length bs = maxLength d)
     \<and> usedLength d \<le> maxLength d \<and> maxLength d < 2 ^ 63
     \<and> 0 \<le> pget d \<and> pget d \<le> int (usedLength d)
     \<and> 0 \<le> pput d \<and> pput d \<le> int (usedLength d)"

text \<open>A buffer that is empty or has something in it, as opposed to one reserved but unused.\<close>

definition growable :: "bindata \<Rightarrow> bool" where
  "growable d \<longleftrightarrow> bd_data d = None \<or> usedLength d > 0"

definition at_end :: "bindata \<Rightarrow> bool" where
  "at_end d \<longleftrightarrow> pput d = int (usedLength d)"

definition sink_ok :: "nat \<Rightarrow> bindata \<Rightarrow> bool" where
  "sink_ok room d \<longleftrightarrow> wf_bd d \<and> growable d \<and> at_end d \<and> maxLength d + room < 2 ^ 63"

lemma rd_all: "wf_bd d \<Longrightarrow> rd_bytes d 0 (usedLength d) = Inr (contents d)"
  by (auto simp: wf_bd_def rd_bytes_def contents_def split: option.splits)

lemma wf_init [simp]: "wf_bd bd_init"
  by (simp add: wf_bd_def bd_init_def)

lemma contents_init [simp]: "contents bd_init = []"
  by (simp add: contents_def bd_init_def)

lemma growable_init [simp]: "growable bd_init"
  by (simp add: growable_def bd_init_def)

lemma at_end_init [simp]: "at_end bd_init"
  by (simp add: at_end_def bd_init_def)

lemma length_contents: "wf_bd d \<Longrightarrow> length (contents d) = usedLength d"
  by (auto simp: wf_bd_def contents_def split: option.splits)

lemma wf_bd_used: "wf_bd d \<Longrightarrow> usedLength d \<noteq> 0 \<Longrightarrow> \<exists>bs. bd_data d = Some bs \<and> length bs = maxLength d"
  by (auto simp: wf_bd_def split: option.splits)

lemma wf_bd_simps:
  assumes "wf_bd d"
  shows "usedLength d \<le> maxLength d" "0 \<le> pget d" "pget d \<le> int (usedLength d)"
    "0 \<le> pput d" "pput d \<le> int (usedLength d)" "maxLength d < 2 ^ 63"
  using assms by (simp_all add: wf_bd_def)

text \<open>Growing keeps the contents and both pointers.\<close>

lemma grow_wf:
  assumes wf: "wf_bd d" and g: "growable d" and n: "0 < n" and room: "maxLength d + n < 2 ^ 63"
  shows "\<exists>d'. grow d n = Inr d' \<and> wf_bd d' \<and> contents d' = contents d
           \<and> usedLength d' = usedLength d \<and> pget d' = pget d \<and> pput d' = pput d
           \<and> maxLength d' = maxLength d + n \<and> bd_data d' \<noteq> None"
proof (cases "usedLength d = 0")
  case True
  with g have "bd_data d = None" by (simp add: growable_def)
  then show ?thesis
    using wf n True room by (simp add: grow_def reserve_def wf_bd_def contents_def)
next
  case False
  then obtain bs where bs: "bd_data d = Some bs" "length bs = maxLength d"
    using wf_bd_used [OF wf] by blast
  have "rebase (maxLength d + n) (pget d) = pget d" "rebase (maxLength d + n) (pput d) = pput d"
    using wf_bd_simps [OF wf] by (simp_all add: rebase_def)
  then show ?thesis
    using wf n False bs room
    by (simp add: grow_def reserve_def rd_bytes_def wf_bd_def contents_def)
qed

lemma wr_bytes_inside:
  assumes "bd_data d = Some bs" and "0 \<le> off" and "nat off + length src \<le> length bs"
  shows "wr_bytes d off src =
    Inr (d\<lparr>bd_data := Some (take (nat off) bs @ src @ drop (nat off + length src) bs)\<rparr>)"
  using assms by (simp add: wr_bytes_def)

lemma write_at_end:
  assumes "wf_bd d" and "at_end d" and "bd_data d = Some bs"
    and "src \<noteq> []" and "usedLength d + length src \<le> maxLength d"
  shows "\<exists>d'. wr_bytes d (pput d) src = Inr d'
     \<and> contents (d'\<lparr>usedLength := usedLength d + length src, pput := pput d + int (length src)\<rparr>)
         = contents d @ src
     \<and> wf_bd (d'\<lparr>usedLength := usedLength d + length src, pput := pput d + int (length src)\<rparr>)
     \<and> usedLength d' = usedLength d \<and> maxLength d' = maxLength d \<and> pget d' = pget d
     \<and> pput d' = pput d \<and> bd_data d' \<noteq> None"
proof -
  have p: "pput d = int (usedLength d)" using assms(2) by (simp add: at_end_def)
  have l: "length bs = maxLength d" using assms(1,3) by (simp add: wf_bd_def)
  show ?thesis
    using assms p l by (simp add: wr_bytes_inside [of d bs] contents_def wf_bd_def)
qed

text \<open>Appending with \<open>write\<close>: the contents grow by exactly the bytes given.\<close>

lemma write_buf_sink:
  assumes "sink_ok room d" and "length src \<le> room"
  shows "\<exists>d'. write_buf d src = Inr d' \<and> sink_ok (room - length src) d'
           \<and> contents d' = contents d @ src \<and> pget d' = pget d"
proof (cases "src = []")
  case True
  with assms show ?thesis by (simp add: write_buf_def)
next
  case False
  from assms(1) have wf: "wf_bd d" and g: "growable d" and e: "at_end d"
    and room: "maxLength d + room < 2 ^ 63"
    by (simp_all add: sink_ok_def)
  obtain d1 where d1: "(if length src + usedLength d > maxLength d then grow d (length src) else Inr d)
        = Inr d1"
    and w1: "wf_bd d1" "contents d1 = contents d" "usedLength d1 = usedLength d"
      "pget d1 = pget d" "at_end d1" "bd_data d1 \<noteq> None"
      "usedLength d + length src \<le> maxLength d1" "maxLength d1 \<le> maxLength d + length src"
  proof (cases "length src + usedLength d > maxLength d")
    case True
    obtain d' where "grow d (length src) = Inr d'" "wf_bd d'" "contents d' = contents d"
      "usedLength d' = usedLength d" "pget d' = pget d" "pput d' = pput d"
      "maxLength d' = maxLength d + length src" "bd_data d' \<noteq> None"
      using grow_wf [OF wf g, of "length src"] False room assms(2) by auto
    then show ?thesis
      using True e wf_bd_simps(1) [OF wf] by (intro that [of d']) (simp_all add: at_end_def)
  next
    case le: False
    have "bd_data d \<noteq> None" using le False wf by (cases "bd_data d") (auto simp: wf_bd_def)
    then show ?thesis using le wf e by (intro that [of d]) simp_all
  qed
  obtain bs where bs: "bd_data d1 = Some bs" using w1(6) by blast
  obtain d2 where d2: "wr_bytes d1 (pput d1) src = Inr d2"
    and c2: "contents (d2\<lparr>usedLength := usedLength d1 + length src,
                 pput := pput d1 + int (length src)\<rparr>) = contents d1 @ src"
      "wf_bd (d2\<lparr>usedLength := usedLength d1 + length src, pput := pput d1 + int (length src)\<rparr>)"
    and f2: "usedLength d2 = usedLength d1" "maxLength d2 = maxLength d1" "pget d2 = pget d1"
      "pput d2 = pput d1" "bd_data d2 \<noteq> None"
    using write_at_end [OF w1(1,5) bs False] w1(3,7) by auto
  have "write_buf d src = Inr (d2\<lparr>usedLength := usedLength d1 + length src,
                 pput := pput d1 + int (length src)\<rparr>)"
    using False d1 d2 f2 by (simp add: write_buf_def)
  then show ?thesis
    using c2 w1 f2 False room assms(2)
    by (auto simp: sink_ok_def growable_def at_end_def)
qed

lemma bd_make_eq:
  assumes "src \<noteq> []"
  shows "bd_make src = Inr \<lparr>bd_data = Some src, usedLength = length src,
           maxLength = length src, pget = 0, pput = int (length src)\<rparr>"
  using assms
  by (simp add: bd_make_def write_buf_def bd_init_def grow_def reserve_def wr_bytes_def)

lemma bd_make_wf:
  assumes "length src < 2 ^ 63"
  shows "\<exists>d. bd_make src = Inr d \<and> wf_bd d \<and> contents d = src \<and> pget d = 0"
proof (cases "src = []")
  case True
  then show ?thesis
    by (simp add: bd_make_def write_buf_def) (simp add: bd_init_def)
next
  case False
  with assms show ?thesis by (simp add: bd_make_eq wf_bd_def contents_def)
qed

section \<open>Byte sinks\<close>

text \<open>
  What the response builders of the protocols use: a destination that takes strings one after
  the other.  \<open>room_ok n b\<close> says that \<open>n\<close> more bytes fit.
\<close>

fun put_all :: "('b \<Rightarrow> string \<Rightarrow> 'b res) \<Rightarrow> 'b \<Rightarrow> string list \<Rightarrow> 'b res" where
  "put_all put b [] = Inr b"
| "put_all put b (s # ss) = rbind (put b s) (\<lambda>b. put_all put b ss)"

locale byte_sink =
  fixes put :: "'b \<Rightarrow> string \<Rightarrow> 'b res"
    and bytes :: "'b \<Rightarrow> string"
    and room_ok :: "nat \<Rightarrow> 'b \<Rightarrow> bool"
  assumes put_ok: "room_ok r b \<Longrightarrow> length s \<le> r \<Longrightarrow>
    \<exists>b'. put b s = Inr b' \<and> room_ok (r - length s) b' \<and> bytes b' = bytes b @ s"
begin

lemma put_all_ok:
  "room_ok r b \<Longrightarrow> length (concat ss) \<le> r \<Longrightarrow>
   \<exists>b'. put_all put b ss = Inr b' \<and> room_ok (r - length (concat ss)) b'
      \<and> bytes b' = bytes b @ concat ss"
proof (induction ss arbitrary: r b)
  case (Cons s ss)
  then obtain b1 where b1: "put b s = Inr b1" "room_ok (r - length s) b1" "bytes b1 = bytes b @ s"
    using put_ok [of r b s] by auto
  moreover from Cons.prems(2) have "length (concat ss) \<le> r - length s" by simp
  ultimately show ?case using Cons.IH [of "r - length s" b1] by fastforce
qed simp

lemma put_all_twice:
  assumes "room_ok r b" and "length (concat ss) + length (concat ts) \<le> r"
  shows "\<exists>b'. rbind (put_all put b ss) (\<lambda>b. put_all put b ts) = Inr b'
           \<and> bytes b' = bytes b @ concat ss @ concat ts"
proof -
  obtain b1 where "put_all put b ss = Inr b1" "room_ok (r - length (concat ss)) b1"
    "bytes b1 = bytes b @ concat ss"
    using put_all_ok [OF assms(1), of ss] assms(2) by auto
  then show ?thesis
    using put_all_ok [of "r - length (concat ss)" b1 ts] assms(2)
    by (fastforce simp: le_diff_conv2)
qed

end

text \<open>A \<open>stringstream\<close> under \<open><<\<close>.\<close>

definition stream_put :: "string \<Rightarrow> string \<Rightarrow> string res" where
  "stream_put st s = Inr (st @ s)"

interpretation stream_sink: byte_sink stream_put "\<lambda>st. st" "\<lambda>_ _. True"
  by unfold_locales (simp add: stream_put_def)

interpretation buf_sink: byte_sink put_string contents sink_ok
  using write_buf_sink by unfold_locales (fastforce simp: put_string_def)

lemma sink_ok_init: "room < 2 ^ 63 \<Longrightarrow> sink_ok room bd_init"
  by (simp add: sink_ok_def) (simp add: bd_init_def)

section \<open>Typed writes and reads\<close>

definition unread :: "bindata \<Rightarrow> string" where
  "unread d = drop (nat (pget d)) (contents d)"

lemma write_T_sink:
  assumes "sink_ok room d" and "length bs \<le> room" and "bs \<noteq> []"
  shows "\<exists>d'. write_T d bs = Inr d' \<and> sink_ok (room - length bs) d'
           \<and> contents d' = contents d @ bs \<and> pget d' = pget d"
proof -
  from assms(1) have wf: "wf_bd d" and g: "growable d" and e: "at_end d"
    and room: "maxLength d + room < 2 ^ 63"
    by (simp_all add: sink_ok_def)
  have reach: "wrap64 (pput d + int (length bs)) = usedLength d + length bs"
    using wf e room assms(2) wf_bd_simps(1) [OF wf]
    by (subst wrap64_small) (simp_all add: at_end_def)
  obtain d1 where d1: "grow d (length bs) = Inr d1"
    and w1: "wf_bd d1" "contents d1 = contents d" "usedLength d1 = usedLength d"
      "pget d1 = pget d" "pput d1 = pput d" "maxLength d1 = maxLength d + length bs"
      "bd_data d1 \<noteq> None"
    using grow_wf [OF wf g, of "length bs"] room assms(2,3) by auto
  obtain xs where xs: "bd_data d1 = Some xs" using w1(7) by blast
  have "at_end d1" using e w1 by (simp add: at_end_def)
  moreover have "usedLength d1 + length bs \<le> maxLength d1"
    using w1 wf_bd_simps(1) [OF wf] by simp
  ultimately obtain d2 where d2: "wr_bytes d1 (pput d1) bs = Inr d2"
    and c2: "contents (d2\<lparr>usedLength := usedLength d1 + length bs,
                 pput := pput d1 + int (length bs)\<rparr>) = contents d1 @ bs"
      "wf_bd (d2\<lparr>usedLength := usedLength d1 + length bs, pput := pput d1 + int (length bs)\<rparr>)"
    and f2: "usedLength d2 = usedLength d1" "maxLength d2 = maxLength d1" "pget d2 = pget d1"
      "pput d2 = pput d1" "bd_data d2 \<noteq> None"
    using write_at_end [OF w1(1) _ xs assms(3)] by auto
  have "write_T d bs = Inr (d2\<lparr>usedLength := usedLength d1 + length bs,
                 pput := pput d1 + int (length bs)\<rparr>)"
    using d1 d2 f2 assms(3) by (simp add: write_T_def reach)
  then show ?thesis
    using c2 w1 f2 e room assms(2,3) by (auto simp: sink_ok_def growable_def at_end_def)
qed

lemma read_T_unread:
  assumes wf: "wf_bd d" and n: "n \<le> length (unread d)"
  shows "read_T d n = Inr (take n (unread d), d\<lparr>pget := pget d + int n\<rparr>)
       \<and> wf_bd (d\<lparr>pget := pget d + int n\<rparr>)
       \<and> unread (d\<lparr>pget := pget d + int n\<rparr>) = drop n (unread d)"
proof (cases "n = 0")
  case True
  then show ?thesis using wf by (simp add: read_T_def rd_bytes_def)
next
  case False
  have l: "nat (pget d) + n \<le> usedLength d"
    using n False length_contents [OF wf] by (simp add: unread_def)
  then obtain bs where bs: "bd_data d = Some bs" "length bs = maxLength d"
    using wf_bd_used [OF wf] False by (cases "usedLength d = 0") auto
  have le: "nat (pget d) + n \<le> length bs" using l bs(2) wf_bd_simps(1) [OF wf] by simp
  have "take n (drop (nat (pget d)) (take (usedLength d) bs)) = take n (drop (nat (pget d)) bs)"
    using l by (simp add: drop_take)
  then have "read_T d n = Inr (take n (unread d), d\<lparr>pget := pget d + int n\<rparr>)"
    using le bs wf_bd_simps(2) [OF wf] by (simp add: read_T_def rd_bytes_def unread_def contents_def)
  moreover have "wf_bd (d\<lparr>pget := pget d + int n\<rparr>)"
    using wf l bs by (simp add: wf_bd_def)
  moreover have "unread (d\<lparr>pget := pget d + int n\<rparr>) = drop n (unread d)"
    using wf_bd_simps(2) [OF wf] bs
    by (simp add: unread_def contents_def nat_add_distrib add.commute)
  ultimately show ?thesis by blast
qed

lemma length_le_bytes [simp]: "length (le_bytes n x) = n"
  by (induction n arbitrary: x) simp_all

lemma le_val_bytes: "x < 256 ^ n \<Longrightarrow> le_val (le_bytes n x) = x"
proof (induction n arbitrary: x)
  case (Suc n)
  have "x div 256 < 256 ^ n" using Suc.prems by (simp add: less_mult_imp_div_less mult.commute)
  then show ?case using Suc.IH [of "x div 256"] by simp
qed simp

text \<open>A field of one of the integer types.\<close>

datatype field = F8 "8 word" | F16 "16 word" | F32 "32 word" | F64 "64 word"

datatype width = W8 | W16 | W32 | W64

fun width_of :: "field \<Rightarrow> width" where
  "width_of (F8 _) = W8" | "width_of (F16 _) = W16"
| "width_of (F32 _) = W32" | "width_of (F64 _) = W64"

fun put_field :: "bindata \<Rightarrow> field \<Rightarrow> bindata res" where
  "put_field d (F8 x) = put_u8 d x"
| "put_field d (F16 x) = put_u16 d x"
| "put_field d (F32 x) = put_u32 d x"
| "put_field d (F64 x) = put_u64 d x"

fun get_field :: "bindata \<Rightarrow> width \<Rightarrow> (field \<times> bindata) res" where
  "get_field d W8 = rbind (get_u8 d) (\<lambda>(x, d). Inr (F8 x, d))"
| "get_field d W16 = rbind (get_u16 d) (\<lambda>(x, d). Inr (F16 x, d))"
| "get_field d W32 = rbind (get_u32 d) (\<lambda>(x, d). Inr (F32 x, d))"
| "get_field d W64 = rbind (get_u64 d) (\<lambda>(x, d). Inr (F64 x, d))"

fun put_fields :: "bindata \<Rightarrow> field list \<Rightarrow> bindata res" where
  "put_fields d [] = Inr d"
| "put_fields d (f # fs) = rbind (put_field d f) (\<lambda>d. put_fields d fs)"

fun get_fields :: "bindata \<Rightarrow> width list \<Rightarrow> (field list \<times> bindata) res" where
  "get_fields d [] = Inr ([], d)"
| "get_fields d (w # ws) =
     rbind (get_field d w) (\<lambda>(f, d). rbind (get_fields d ws) (\<lambda>(fs, d). Inr (f # fs, d)))"

fun field_bytes :: "field \<Rightarrow> string" where
  "field_bytes (F8 x) = le_bytes 1 (unat x)"
| "field_bytes (F16 x) = le_bytes 2 (unat x)"
| "field_bytes (F32 x) = le_bytes 4 (unat x)"
| "field_bytes (F64 x) = le_bytes 8 (unat x)"

lemma put_field_T: "put_field d f = write_T d (field_bytes f)"
  by (cases f) (simp_all add: put_u8_def put_u16_def put_u32_def put_u64_def)

lemma field_bytes_length: "0 < length (field_bytes f) \<and> length (field_bytes f) \<le> 8"
  by (cases f) (simp_all del: length_greater_0_conv)

lemma field_bytes_bounds: "field_bytes f \<noteq> []" "length (field_bytes f) \<le> 8"
  using field_bytes_length [of f] by auto

lemma le_val_word:
  fixes x :: "'a::len word"
  assumes "LENGTH('a) \<le> 8 * n"
  shows "word_of_nat (le_val (le_bytes n (unat x))) = x"
proof -
  have "unat x < 2 ^ LENGTH('a)" by (rule unsigned_less)
  also have "\<dots> \<le> 2 ^ (8 * n)" using assms by simp
  also have "(2 :: nat) ^ (8 * n) = 256 ^ n" by (simp add: power_mult)
  finally show ?thesis by (simp add: le_val_bytes)
qed

lemma get_field_unread:
  assumes "wf_bd d" and "unread d = field_bytes f @ rest"
  shows "\<exists>d'. get_field d (width_of f) = Inr (f, d') \<and> wf_bd d' \<and> unread d' = rest"
  using assms read_T_unread [OF assms(1), of "length (field_bytes f)"]
  by (cases f)
    (auto simp: get_u8_def get_u16_def get_u32_def get_u64_def le_val_word simp del: le_bytes.simps
      One_nat_def)

lemma put_fields_sink:
  "sink_ok room d \<Longrightarrow> 8 * length fs \<le> room \<Longrightarrow>
   \<exists>d'. put_fields d fs = Inr d' \<and> wf_bd d' \<and> pget d' = pget d
      \<and> contents d' = contents d @ concat (map field_bytes fs)"
proof (induction fs arbitrary: room d)
  case Nil
  then show ?case by (simp add: sink_ok_def)
next
  case (Cons f fs)
  have l: "length (field_bytes f) \<le> room"
    using field_bytes_bounds(2) [of f] Cons.prems(2) by simp
  obtain d1 where d1: "put_field d f = Inr d1" "sink_ok (room - length (field_bytes f)) d1"
    "contents d1 = contents d @ field_bytes f" "pget d1 = pget d"
    using write_T_sink [OF Cons.prems(1) l field_bytes_bounds(1)] put_field_T by metis
  have "8 * length fs \<le> room - length (field_bytes f)"
    using Cons.prems(2) field_bytes_bounds(2) [of f] by simp
  then show ?case using Cons.IH [OF d1(2)] d1 by auto
qed

lemma get_fields_unread:
  "wf_bd d \<Longrightarrow> unread d = concat (map field_bytes fs) @ rest \<Longrightarrow>
   \<exists>d'. get_fields d (map width_of fs) = Inr (fs, d') \<and> wf_bd d' \<and> unread d' = rest"
proof (induction fs arbitrary: d)
  case (Cons f fs)
  then obtain d1 where "get_field d (width_of f) = Inr (f, d1)" "wf_bd d1"
    "unread d1 = concat (map field_bytes fs) @ rest"
    using get_field_unread [of d f "concat (map field_bytes fs) @ rest"] by auto
  then show ?case using Cons.IH [of d1] by auto
qed simp

section \<open>Words and lines\<close>

lemma length_unread: "wf_bd d \<Longrightarrow> length (unread d) = usedLength d - nat (pget d)"
  by (simp add: unread_def length_contents)

lemma unread_data:
  assumes "wf_bd d" and "bd_data d = Some bs"
  shows "unread d = take (usedLength d - nat (pget d)) (drop (nat (pget d)) bs)"
  using assms by (simp add: unread_def contents_def drop_take)

lemma rd_byte_unread:
  assumes "wf_bd d" and "i < length (unread d)"
  shows "rd_byte d (pget d + int i) = Inr (unread d ! i)"
proof -
  have "usedLength d \<noteq> 0" using assms length_unread [OF assms(1)] by auto
  then obtain bs where bs: "bd_data d = Some bs" "length bs = maxLength d"
    using wf_bd_used [OF assms(1)] by blast
  have "nat (pget d) + i < length bs"
    using assms length_unread [OF assms(1)] wf_bd_simps(1) [OF assms(1)] bs(2) by simp
  then show ?thesis
    using bs assms wf_bd_simps(2) [OF assms(1)]
    by (auto simp: rd_byte_def unread_data nat_add_distrib length_unread)
qed

lemma find_from_unread:
  assumes wf: "wf_bd d"
  shows "find_from d ch = Inr (first_index (\<lambda>x. x = ch) (unread d))"
proof -
  have r: "wrap64 (int (usedLength d) - pget d) = usedLength d - nat (pget d)"
    using wf_bd_simps [OF wf] by (subst wrap64_small) (simp_all add: nat_diff_distrib)
  show ?thesis
  proof (cases "usedLength d - nat (pget d) = 0")
    case True
    then have "unread d = []" using length_unread [OF wf] by simp
    then show ?thesis using True r by (simp add: find_from_def scan_def)
  next
    case False
    then obtain bs where bs: "bd_data d = Some bs" "length bs = maxLength d"
      using wf_bd_used [OF wf] by (cases "usedLength d = 0") auto
    have "nat (pget d) + (usedLength d - nat (pget d)) \<le> length bs"
      using wf_bd_simps [OF wf] bs by linarith
    then show ?thesis
      using False r bs wf_bd_simps(2) [OF wf]
      by (simp add: find_from_def scan_def find_char_def unread_data [OF wf bs(1)]
          split: option.splits)
  qed
qed

lemma readsome_unread:
  assumes wf: "wf_bd d" and n: "n < length (unread d)"
  shows "\<exists>r. readsome d n = Inr (take n (unread d), r, d\<lparr>pget := pget d + int n\<rparr>)"
proof -
  have u: "usedLength d \<noteq> 0" using n length_unread [OF wf] by auto
  then obtain bs where bs: "bd_data d = Some bs" "length bs = maxLength d"
    using wf_bd_used [OF wf] by blast
  have r: "wrap64 (int (usedLength d) - pget d) = usedLength d - nat (pget d)"
    using wf_bd_simps [OF wf] by (subst wrap64_small) (simp_all add: nat_diff_distrib)
  have "rd_bytes d (pget d) n = Inr (take n (unread d))"
    using read_T_unread [OF wf, of n] n by (auto simp: read_T_def res_simps)
  then show ?thesis
    using u bs r n length_unread [OF wf] by (simp add: readsome_def Let_def)
qed

lemma advance_unread:
  assumes "wf_bd d" and "n \<le> length (unread d)"
  shows "wf_bd (d\<lparr>pget := pget d + int n\<rparr>)"
    and "unread (d\<lparr>pget := pget d + int n\<rparr>) = drop n (unread d)"
  using read_T_unread [OF assms] by blast+

lemma first_index_min:
  "pos_min (first_index p s) (first_index q s) = first_index (\<lambda>x. p x \<or> q x) s"
  by (induction s) (auto simp: pos_min_def split: option.splits dest!: sym [of "Some _"])

lemma pre_cr_newline:
  assumes "wf_bd d" and "first_index (\<lambda>x. x = nl) (unread d) = Some j"
  shows "pre_cr d (Some j) = Inr (Some j)"
  using assms rd_byte_unread [OF assms(1), of j] first_index_bound [OF assms(2)]
    first_index_nth [OF assms(2)]
  by (simp add: pre_cr_def)

definition word_stop :: "char \<Rightarrow> bool" where
  "word_stop c \<longleftrightarrow> c = space \<or> c = nl"

lemma index_small: "wf_bd d \<Longrightarrow> n < length (unread d) \<Longrightarrow> n + 1 < size_max"
  using wf_bd_simps(1,6) [of d] by (simp add: length_unread size_max_def)

text \<open>When the unread part has a newline, \<open>>> string\<close> takes the text before the first stop.\<close>

lemma get_word_newline:
  assumes wf: "wf_bd d" and nl: "nl \<in> set (unread d)"
  shows "\<exists>d'. get_word d = Inr (c_str (takeWhile (\<lambda>c. \<not> word_stop c) (unread d)), d')
     \<and> wf_bd d' \<and> unread d' = tl (dropWhile (\<lambda>c. \<not> word_stop c) (unread d))"
proof -
  obtain j where j: "first_index (\<lambda>x. x = nl) (unread d) = Some j"
    using nl first_index_None [of "\<lambda>x. x = nl" "unread d"] by (metis not_None_eq)
  obtain k where k: "first_index word_stop (unread d) = Some k"
    using nl first_index_None [of word_stop "unread d"]
    by (metis not_None_eq word_stop_def)
  have kl: "k < length (unread d)" using k by (rule first_index_bound)
  have m: "pos_min (first_index (\<lambda>x. x = space) (unread d)) (Some j) = Some k"
    using first_index_min [of "\<lambda>x. x = space" "unread d" "\<lambda>x. x = nl"] j k
    by (simp add: word_stop_def [abs_def])
  obtain r where rs: "readsome d k = Inr (take k (unread d), r, d\<lparr>pget := pget d + int k\<rparr>)"
    using readsome_unread [OF wf kl] by blast
  let ?d = "d\<lparr>pget := pget d + int (Suc k)\<rparr>"
  have "get_word d = Inr (c_str (take k (unread d)), ?d)"
    using m rs j index_small [OF wf kl]
    by (simp add: get_word_def find_from_unread [OF wf] pre_cr_newline [OF wf j] read_stack_def
        algebra_simps)
  moreover have "wf_bd ?d" "unread ?d = drop (Suc k) (unread d)"
    using advance_unread [OF wf, of "Suc k"] kl by simp_all
  moreover have "drop (Suc k) (unread d) = tl (drop k (unread d))" by (simp add: drop_Suc tl_drop)
  ultimately show ?thesis
    using k by (auto simp: first_index_takeWhile first_index_dropWhile)
qed

text \<open>A line is the text before the newline, which is consumed.\<close>

lemma getline_newline:
  assumes wf: "wf_bd d" and nl: "nl \<in> set (unread d)"
  shows "\<exists>d'. getline d = Inr (c_str (takeWhile (\<lambda>c. c \<noteq> nl) (unread d)), d')
     \<and> wf_bd d' \<and> unread d' = tl (dropWhile (\<lambda>c. c \<noteq> nl) (unread d))"
proof -
  obtain j where j: "first_index (\<lambda>x. x = nl) (unread d) = Some j"
    using nl first_index_None [of "\<lambda>x. x = nl" "unread d"] by (metis not_None_eq)
  have jl: "j < length (unread d)" and jn: "unread d ! j = nl"
    using first_index_bound [OF j] first_index_nth [OF j] by simp_all
  obtain r where rs: "readsome d j = Inr (take j (unread d), r, d\<lparr>pget := pget d + int j\<rparr>)"
    using readsome_unread [OF wf jl] by blast
  let ?d1 = "d\<lparr>pget := pget d + int j\<rparr>"
  let ?d = "d\<lparr>pget := pget d + int (Suc j)\<rparr>"
  have d1: "wf_bd ?d1" "unread ?d1 = drop j (unread d)"
    using advance_unread [OF wf, of j] jl by simp_all
  have "rd_byte ?d1 (pget ?d1 + int 0) = Inr (unread ?d1 ! 0)"
    by (rule rd_byte_unread [OF d1(1)]) (use jl d1(2) in simp)
  then have b: "rd_byte ?d1 (pget d + int j) = Inr nl"
    using jl jn d1(2) by simp
  have "getline d = Inr (c_str (take j (unread d)), ?d)"
    using rs j b index_small [OF wf jl]
    by (simp add: getline_def find_from_unread [OF wf] pre_cr_newline [OF wf j] read_stack_def
        skip_byte_def algebra_simps)
  moreover have "wf_bd ?d" "unread ?d = drop (Suc j) (unread d)"
    using advance_unread [OF wf, of "Suc j"] jl by simp_all
  moreover have "drop (Suc j) (unread d) = tl (drop j (unread d))" by (simp add: drop_Suc tl_drop)
  ultimately show ?thesis
    using j by (auto simp: first_index_takeWhile first_index_dropWhile)
qed

text \<open>Without a newline a line cannot be read: the stack array has no room.\<close>

lemma getline_no_newline:
  assumes wf: "wf_bd d" and "nl \<notin> set (unread d)"
  shows "\<exists>e. getline d = Inl e"
proof -
  have "first_index (\<lambda>x. x = nl) (unread d) = None"
    using assms(2) by (auto simp: first_index_None)
  then show ?thesis
    by (cases "rd_byte d (pget d - 1)")
      (simp_all add: getline_def find_from_unread [OF wf] pre_cr_def read_stack_def size_max_def)
qed

lemma get_word_no_stop:
  assumes wf: "wf_bd d" and "\<forall>c \<in> set (unread d). \<not> word_stop c"
  shows "\<exists>e. get_word d = Inl e"
proof -
  have "first_index (\<lambda>x. x = nl) (unread d) = None" "first_index (\<lambda>x. x = space) (unread d) = None"
    using assms(2) by (auto simp: first_index_None word_stop_def)
  then show ?thesis
    by (cases "rd_byte d (pget d - 1)")
      (simp_all add: get_word_def find_from_unread [OF wf] pre_cr_def read_stack_def size_max_def
        pos_min_def)
qed

text \<open>Reading line after line.\<close>

fun get_lines :: "nat \<Rightarrow> bindata \<Rightarrow> (string list \<times> bindata) res" where
  "get_lines 0 d = Inr ([], d)"
| "get_lines (Suc n) d =
     rbind (getline d) (\<lambda>(l, d). rbind (get_lines n d) (\<lambda>(ls, d). Inr (l # ls, d)))"

definition plain_line :: "string \<Rightarrow> bool" where
  "plain_line l \<longleftrightarrow> nl \<notin> set l \<and> nul \<notin> set l"

lemma plain_line_c_str: "plain_line l \<Longrightarrow> c_str l = l"
  unfolding c_str_def by (rule takeWhile_all) (auto simp: plain_line_def)

lemma plain_line_split:
  assumes "plain_line l"
  shows "takeWhile (\<lambda>c. c \<noteq> nl) (l @ nl # rest) = l"
    and "tl (dropWhile (\<lambda>c. c \<noteq> nl) (l @ nl # rest)) = rest"
proof -
  have n: "\<forall>c \<in> set l. c \<noteq> nl" using assms by (auto simp: plain_line_def)
  show "takeWhile (\<lambda>c. c \<noteq> nl) (l @ nl # rest) = l"
    using n by (subst takeWhile_append2) auto
  show "tl (dropWhile (\<lambda>c. c \<noteq> nl) (l @ nl # rest)) = rest"
    using n by (subst dropWhile_append2) auto
qed

lemma get_lines_unread:
  "wf_bd d \<Longrightarrow> unread d = concat (map (\<lambda>l. l @ [nl]) ls) @ rest \<Longrightarrow> list_all plain_line ls \<Longrightarrow>
   \<exists>d'. get_lines (length ls) d = Inr (ls, d') \<and> wf_bd d' \<and> unread d' = rest"
proof (induction ls arbitrary: d)
  case (Cons l ls)
  let ?r = "concat (map (\<lambda>l. l @ [nl]) ls) @ rest"
  have u: "unread d = l @ nl # ?r" and p: "plain_line l" using Cons.prems by simp_all
  obtain d1 where d1: "getline d = Inr (l, d1)" "wf_bd d1" "unread d1 = ?r"
    using getline_newline [OF Cons.prems(1)] u plain_line_split [OF p] plain_line_c_str [OF p]
    by auto
  then show ?case using Cons.IH [of d1] Cons.prems(3) by auto
qed simp

section \<open>Hexadecimal text\<close>

text \<open>\<open>HexLike\<close> writes two digits for a byte and one separator between bytes; so it can be read back.\<close>

definition digit_hex :: "char \<Rightarrow> nat" where
  "digit_hex c = (let n = of_char c in if n < 87 then n - 48 else n - 87)"

fun unhex :: "string \<Rightarrow> string" where
  "unhex (a # b # _ # cs) = char_of (16 * digit_hex a + digit_hex b) # unhex cs"
| "unhex [a, b] = [char_of (16 * digit_hex a + digit_hex b)]"
| "unhex _ = []"

lemma digit_hex_digit: "n < 16 \<Longrightarrow> digit_hex (hex_digit n) = n"
  by (simp add: digit_hex_def hex_digit_def)

lemma of_char_less_256: "(of_char c :: nat) < 256"
  using of_char_mod_256 [of c, where 'a = nat] by (metis mod_less_divisor zero_less_numeral)

lemma hex_byte_value:
  "hex_byte c = [a, b] \<Longrightarrow> char_of (16 * digit_hex a + digit_hex b) = c"
proof -
  assume "hex_byte c = [a, b]"
  then have "a = hex_digit (of_char c div 16)" "b = hex_digit (of_char c mod 16)"
    by (simp_all add: hex_byte_def)
  moreover have "of_char c div 16 < (16 :: nat)"
    using of_char_less_256 [of c] by (simp add: div_less_iff_less_mult)
  ultimately have "16 * digit_hex a + digit_hex b = (of_char c :: nat)"
    by (simp add: digit_hex_digit)
  then show ?thesis by (simp only: char_of_char)
qed

lemma unhex_hex_from: "unhex (hex_from i bs) = bs"
proof (induction i bs rule: hex_from.induct)
  case (2 i c)
  then show ?case using hex_byte_value [of c] by (simp add: hex_byte_def)
next
  case (3 i c c' cs)
  then show ?case using hex_byte_value [of c] by (simp add: hex_byte_def)
qed simp

lemma HexLike_contents:
  assumes "wf_bd d"
  shows "HexLike d = Inr (hex_from 0 (contents d))"
proof (cases "bd_data d")
  case None
  then show ?thesis using assms by (simp add: HexLike_def rd_bytes_def wf_bd_def contents_def)
next
  case (Some bs)
  then show ?thesis using assms by (auto simp: HexLike_def rd_bytes_def wf_bd_def contents_def)
qed

section \<open>Blocks of text\<close>

abbreviation trimmed :: "string \<Rightarrow> string" where
  "trimmed s \<equiv> strip (\<lambda>c. c \<in> set trim_ws) s"

lemma bd_make_unread:
  assumes "length src < 2 ^ 63"
  shows "\<exists>d. bd_make src = Inr d \<and> wf_bd d \<and> unread d = src
    \<and> bd_data d = (if src = [] then None else Some src)"
proof (cases "src = []")
  case True
  have "bd_make [] = Inr bd_init" by (simp add: bd_make_def write_buf_def)
  moreover have "unread bd_init = []" by (simp add: unread_def)
  moreover have "bd_data bd_init = None" by (simp add: bd_init_def)
  ultimately show ?thesis using True by simp
next
  case False
  then show ?thesis using assms bd_make_eq [OF False] by (simp add: wf_bd_def unread_def contents_def)
qed

definition plain_word :: "string \<Rightarrow> bool" where
  "plain_word w \<longleftrightarrow> (\<forall>c \<in> set w. \<not> word_stop c \<and> c \<noteq> nul)"

lemma plain_word_nul: "plain_word a \<Longrightarrow> nul \<notin> set a"
  by (auto simp: plain_word_def)

lemma word_split:
  assumes "plain_word w" and "word_stop c"
  shows "c_str (takeWhile (\<lambda>c. \<not> word_stop c) (w @ c # rest)) = w"
    and "tl (dropWhile (\<lambda>c. \<not> word_stop c) (w @ c # rest)) = rest"
proof -
  have w: "\<forall>x \<in> set w. \<not> word_stop x" "nul \<notin> set w" using assms(1) by (auto simp: plain_word_def)
  have "takeWhile (\<lambda>c. \<not> word_stop c) (w @ c # rest) = w"
    using w assms(2) by (subst takeWhile_append2) auto
  then show "c_str (takeWhile (\<lambda>c. \<not> word_stop c) (w @ c # rest)) = w"
    using w by (simp add: c_str_name)
  show "tl (dropWhile (\<lambda>c. \<not> word_stop c) (w @ c # rest)) = rest"
    using w assms(2) by (subst dropWhile_append2) auto
qed

lemma get_word_split:
  assumes "wf_bd d" and "unread d = w @ c # rest" and "plain_word w" and "word_stop c"
    and "nl \<in> set (c # rest)"
  shows "\<exists>d'. get_word d = Inr (w, d') \<and> wf_bd d' \<and> unread d' = rest"
  using get_word_newline [OF assms(1)] word_split [OF assms(3,4), of rest] assms(2,5) by auto

section \<open>Properties\<close>

text \<open>
  C29. Integer fields of any widths written one after the other to an empty buffer with \<open><<\<close>
  are read back with \<open>>>\<close>, in order and unchanged, and nothing is left unread.
\<close>

theorem fields_roundtrip:
  assumes "8 * length fs < 2 ^ 63"
  shows "\<exists>d d'. put_fields bd_init fs = Inr d \<and> get_fields d (map width_of fs) = Inr (fs, d')
           \<and> unread d' = []"
proof -
  obtain d where d: "put_fields bd_init fs = Inr d" "wf_bd d" "pget d = pget bd_init"
    "contents d = concat (map field_bytes fs)"
    using put_fields_sink [OF sink_ok_init [OF assms] le_refl] by auto
  then have "unread d = concat (map field_bytes fs) @ []" by (simp add: unread_def bd_init_def)
  then show ?thesis using get_fields_unread [OF d(2), of fs "[]"] d(1) by blast
qed

theorem fields_roundtrip_witness:
  "\<exists>d d'. put_fields bd_init [F8 200, F16 513, F64 7] = Inr d
     \<and> get_fields d (map width_of [F8 200, F16 513, F64 7]) = Inr ([F8 200, F16 513, F64 7], d')
     \<and> unread d' = []"
  by (rule fields_roundtrip) simp

text \<open>
  C30. Lines written to a buffer, each followed by a newline, are read back one by one with
  \<open>getline\<close>, unchanged, whatever bytes follow them.
\<close>

theorem lines_roundtrip:
  assumes "list_all plain_line ls" and "length (concat (map (\<lambda>l. l @ [nl]) ls) @ rest) < 2 ^ 63"
  shows "\<exists>d d'. bd_make (concat (map (\<lambda>l. l @ [nl]) ls) @ rest) = Inr d
           \<and> get_lines (length ls) d = Inr (ls, d') \<and> unread d' = rest"
proof -
  obtain d where d: "bd_make (concat (map (\<lambda>l. l @ [nl]) ls) @ rest) = Inr d" "wf_bd d"
    "contents d = concat (map (\<lambda>l. l @ [nl]) ls) @ rest" "pget d = 0"
    using bd_make_wf [OF assms(2)] by blast
  then show ?thesis using get_lines_unread [OF d(2) _ assms(1)] by (auto simp: unread_def)
qed

theorem lines_roundtrip_witness:
  "\<exists>d d'. bd_make (concat (map (\<lambda>l. l @ [nl]) [''HELO me'', []]) @ ''QUIT'') = Inr d
     \<and> get_lines (length [''HELO me'', []]) d = Inr ([''HELO me'', []], d') \<and> unread d' = ''QUIT''"
  by (rule lines_roundtrip) (simp_all add: plain_line_def)

text \<open>
  When no newline is left to read, \<open>getline\<close> has undefined behaviour: its stack array is
  made for \<open>maxpos + 1 = 0\<close> bytes.
\<close>

theorem getline_needs_newline:
  assumes "wf_bd d" and "nl \<notin> set (unread d)"
  shows "\<exists>e. getline d = Inl e"
  using getline_no_newline [OF assms] .

theorem getline_needs_newline_witness:
  "\<exists>e. getline \<lparr>bd_data = Some ''QUIT'', usedLength = 4, maxLength = 4, pget = 0, pput = 4\<rparr> = Inl e"
  by (rule getline_needs_newline) (simp_all add: wf_bd_def unread_def contents_def)

text \<open>
  The hexadecimal text of a buffer determines its contents.
\<close>

theorem hex_roundtrip:
  assumes "wf_bd d"
  shows "\<exists>t. HexLike d = Inr t \<and> unhex t = contents d"
  using HexLike_contents [OF assms] unhex_hex_from by simp

theorem hex_roundtrip_witness:
  "\<exists>t. HexLike \<lparr>bd_data = Some ''OK'', usedLength = 2, maxLength = 2, pget = 0, pput = 2\<rparr> = Inr t
     \<and> unhex t = contents \<lparr>bd_data = Some ''OK'', usedLength = 2, maxLength = 2, pget = 0, pput = 2\<rparr>"
  by (rule hex_roundtrip) (simp add: wf_bd_def)

end
