(* ===== verification/StdMap.thy ===== *)
theory StdMap
  imports CppString
begin

text \<open>
  \<open>std::map\<close> as a partial function, with the three ways in which the repository writes to it:
  \<open>insert\<close> (which keeps an existing entry), \<open>operator[]\<close> as an assignment, and \<open>erase\<close>.

  The locale \<open>insert_once\<close> is the contract of \<open>std::map::insert\<close> over any representation.
  Its clients fill tables by repeated insertion: the first entry for a key wins, and a table
  filled from a list answers exactly as the list does.
\<close>

section \<open>The interface\<close>

locale insert_once =
  fixes lookup :: "'m \<Rightarrow> 'k \<Rightarrow> 'v option"
    and insert :: "'k \<Rightarrow> 'v \<Rightarrow> 'm \<Rightarrow> 'm"
  assumes lookup_insert:
    "lookup (insert k v m) =
       (case lookup m k of None \<Rightarrow> (lookup m)(k \<mapsto> v) | Some _ \<Rightarrow> lookup m)"
begin

lemma insert_absent: "lookup m k = None \<Longrightarrow> lookup (insert k v m) k = Some v"
  by (simp add: lookup_insert)

lemma insert_present: "lookup m k = Some w \<Longrightarrow> lookup (insert k v m) = lookup m"
  by (simp add: lookup_insert)

lemma insert_other: "k' \<noteq> k \<Longrightarrow> lookup (insert k v m) k' = lookup m k'"
  by (simp add: lookup_insert split: option.splits)

lemma insert_dom: "dom (lookup (insert k v m)) = Set.insert k (dom (lookup m))"
  by (auto simp: lookup_insert split: option.splits if_splits)

lemma insert_keeps: "lookup m k' = Some w \<Longrightarrow> lookup (insert k v m) k' = Some w"
  by (cases "k' = k") (simp_all add: insert_present insert_other)

lemma fill_lookup:
  "lookup (foldl (\<lambda>m (k, v). insert k v m) m kvs) k =
     (case lookup m k of Some v \<Rightarrow> Some v | None \<Rightarrow> map_of kvs k)"
proof (induction kvs arbitrary: m)
  case (Cons kv kvs)
  obtain a b where kv: "kv = (a, b)" by (cases kv)
  show ?case
    using Cons.IH [of "insert a b m"]
    by (cases "k = a"; cases "lookup m k")
      (simp_all add: kv insert_absent insert_present insert_other split: option.splits)
qed (simp split: option.splits)

lemma fill_dom:
  "dom (lookup (foldl (\<lambda>m (k, v). insert k v m) m kvs)) = dom (lookup m) \<union> fst ` set kvs"
  by (auto simp: dom_def fill_lookup map_of_eq_None_iff split: option.splits)
     (metis image_eqI fst_conv map_of_SomeD, metis map_of_eq_None_iff not_None_eq fst_conv image_eqI)

end

section \<open>Partial functions\<close>

definition map_insert :: "'k \<Rightarrow> 'v \<Rightarrow> ('k \<rightharpoonup> 'v) \<Rightarrow> ('k \<rightharpoonup> 'v)" where
  "map_insert k v m = (case m k of None \<Rightarrow> m(k \<mapsto> v) | Some _ \<Rightarrow> m)"

definition map_erase :: "'k \<Rightarrow> ('k \<rightharpoonup> 'v) \<Rightarrow> ('k \<rightharpoonup> 'v)" where
  "map_erase k m = m(k := None)"

text \<open>\<open>m[k]\<close> as an expression inserts a default value for a missing key.\<close>

definition map_index :: "'v \<Rightarrow> 'k \<Rightarrow> ('k \<rightharpoonup> 'v) \<Rightarrow> 'v \<times> ('k \<rightharpoonup> 'v)" where
  "map_index d k m = (case m k of Some v \<Rightarrow> (v, m) | None \<Rightarrow> (d, m(k \<mapsto> d)))"

lemma map_insert_simps [simp]:
  "m k = None \<Longrightarrow> map_insert k v m = m(k \<mapsto> v)"
  "m k = Some w \<Longrightarrow> map_insert k v m = m"
  by (simp_all add: map_insert_def)

lemma map_index_simps [simp]:
  "m k = Some v \<Longrightarrow> map_index d k m = (v, m)"
  "m k = None \<Longrightarrow> map_index d k m = (d, m(k \<mapsto> d))"
  by (simp_all add: map_index_def)

lemma map_index_fst: "fst (map_index d k m) = (case m k of Some v \<Rightarrow> v | None \<Rightarrow> d)"
  by (simp add: map_index_def split: option.splits)

lemma map_index_other: "k' \<noteq> k \<Longrightarrow> snd (map_index d k m) k' = m k'"
  by (simp add: map_index_def split: option.splits)

lemma map_erase_apply [simp]: "map_erase k m k' = (if k' = k then None else m k')"
  by (simp add: map_erase_def)

interpretation std_map: insert_once "\<lambda>m k. m k" map_insert
  by unfold_locales (simp add: map_insert_def split: option.splits)

section \<open>Iterators of two containers\<close>

text \<open>
  An iterator belongs to a container: an element of it or its end.  The code sometimes compares
  an iterator with the end of another container; the two ends are different nodes.
\<close>

datatype ('c, 'k) map_iter = At 'c 'k | End 'c

definition iter_find :: "'c \<Rightarrow> ('k \<rightharpoonup> 'v) \<Rightarrow> 'k \<Rightarrow> ('c, 'k) map_iter" where
  "iter_find c m k = (case m k of None \<Rightarrow> End c | Some _ \<Rightarrow> At c k)"

lemma iter_find_own_end: "(iter_find c m k = End c) = (m k = None)"
  by (simp add: iter_find_def split: option.splits)

lemma iter_find_other_end: "c' \<noteq> c \<Longrightarrow> iter_find c m k \<noteq> End c'"
  by (simp add: iter_find_def split: option.splits)

end
