(* ===== verification/ConfigMgr.thy ===== *)
theory ConfigMgr
  imports StdMap Utils
begin

text \<open>
  \<open>ConfigMgr/ConfigMgr.{h,cpp}\<close>: options from the command line and from a configuration file,
  and the typed lookups.  The parsing code is the same in \<open>Application::Application\<close>, whose
  model uses the definitions of this theory.

  Options are an association list filled by \<open>std::map::insert\<close>, which keeps the first entry for
  a key.  The file is the text that the stream reads; \<open>istream_getline\<close> models
  \<open>istream::getline(buff, n)\<close> with its end-of-file and fail bits.  The reading loop of the source
  tests only the end-of-file bit: it is a \<open>partial_function\<close>, whose value is \<open>None\<close> when the loop
  does not end.
\<close>

section \<open>Options\<close>

type_synonym options = "(string \<times> string) list"

definition opt_insert :: "string \<Rightarrow> string \<Rightarrow> options \<Rightarrow> options" where
  "opt_insert k v m = (case map_of m k of None \<Rightarrow> m @ [(k, v)] | Some _ \<Rightarrow> m)"

interpretation opt: insert_once map_of opt_insert
proof
  fix k v :: string and m :: options
  show "map_of (opt_insert k v m) =
     (case map_of m k of None \<Rightarrow> (map_of m)(k \<mapsto> v) | Some _ \<Rightarrow> map_of m)"
    by (rule ext) (auto simp: opt_insert_def map_add_def split: option.splits)
qed

section \<open>Command line\<close>

definition eq_sign :: char where
  "eq_sign = CHR ''=''"

definition parse_arg :: "string \<Rightarrow> (string \<times> string) res" where
  "parse_arg arg =
     rbind (refTrim arg) (\<lambda>arg.
       if find_char eq_sign arg \<noteq> None then
         rbind (substr arg (find_first_not_of ''-'' arg)
                 (Some (wrap64 (int (size_val (find_char eq_sign arg))
                                - int (size_val (find_first_not_of ''-'' arg))))))
           (\<lambda>property. rbind (refTrim property)
           (\<lambda>property. rbind (substr arg (Some (size_succ (find_char eq_sign arg))) None)
           (\<lambda>value. rbind (refTrim value) (\<lambda>value. Inr (property, value)))))
       else
         rbind (substr arg (find_first_not_of ''-'' arg) None)
           (\<lambda>property. Inr (property, ''1'')))"

fun parse_args :: "options \<Rightarrow> string list \<Rightarrow> options res" where
  "parse_args m [] = Inr m"
| "parse_args m (a # as) = rbind (parse_arg a) (\<lambda>(k, v). parse_args (opt_insert k v m) as)"

section \<open>Configuration file\<close>

record istream =
  is_rest :: string
  is_eof :: bool
  is_fail :: bool

definition istream_of :: "string \<Rightarrow> istream" where
  "istream_of s = \<lparr>is_rest = s, is_eof = False, is_fail = False\<rparr>"

definition istream_getline :: "nat \<Rightarrow> istream \<Rightarrow> string \<times> istream" where
  "istream_getline n st =
     (if is_eof st \<or> is_fail st then ([], st\<lparr>is_fail := True\<rparr>)
      else
        (let l = takeWhile (\<lambda>c. c \<noteq> nl) (is_rest st)
         in if length l < n then
              (if length l < length (is_rest st)
               then (l, st\<lparr>is_rest := drop (Suc (length l)) (is_rest st)\<rparr>)
               else (l, st\<lparr>is_rest := [], is_eof := True, is_fail := (l = [])\<rparr>))
            else (take (n - 1) (is_rest st),
                  st\<lparr>is_rest := drop (n - 1) (is_rest st), is_fail := True\<rparr>)))"

definition config_line :: "string \<Rightarrow> options \<Rightarrow> options res" where
  "config_line line m =
     (if length line > 0 \<and> hd line \<noteq> CHR ''#'' \<and> hd line \<noteq> CHR '';''
         \<and> find_char eq_sign line \<noteq> None
      then
        rbind (refTrim line) (\<lambda>line.
        rbind (substr line (Some 0) (find_char eq_sign line)) (\<lambda>property.
        rbind (refTrim property) (\<lambda>property.
        rbind (substr line (Some (size_succ (find_char eq_sign line))) None) (\<lambda>value.
        rbind (refTrim value) (\<lambda>value.
          if length property \<noteq> 0 \<and> length value \<noteq> 0
          then Inr (opt_insert property value m) else Inr m)))))
      else Inr m)"

partial_function (option) config_loop :: "istream \<Rightarrow> options \<Rightarrow> options res option" where
  "config_loop st m =
     (let (buff, st') = istream_getline 1024 st
      in case config_line (c_str buff) m of
           Inl e \<Rightarrow> Some (Inl e)
         | Inr m' \<Rightarrow> if is_eof st' then Some (Inr m') else config_loop st' m')"

record config_mgr =
  FileOptions :: options
  RunOptions :: options

text \<open>
  The constructor: \<open>argv\<close> without the program name (no arguments when \<open>argc\<close> is 0), and the
  text of the file when it could be opened.
\<close>

definition ConfigMgr :: "string option \<Rightarrow> string list \<Rightarrow> config_mgr res option" where
  "ConfigMgr file args =
     (case parse_args [] args of
        Inl e \<Rightarrow> Some (Inl e)
      | Inr run \<Rightarrow>
          (case file of
             None \<Rightarrow> Some (Inr \<lparr>FileOptions = [], RunOptions = run\<rparr>)
           | Some text \<Rightarrow>
               map_option (\<lambda>r. rbind r (\<lambda>m. Inr \<lparr>FileOptions = m, RunOptions = run\<rparr>))
                 (config_loop (istream_of text) [])))"

section \<open>Typed lookups\<close>

definition LoadIntConfig :: "config_mgr \<Rightarrow> string \<Rightarrow> int \<Rightarrow> int" where
  "LoadIntConfig c name def =
     (if length (FileOptions c) > 0 then
        (case map_of (FileOptions c) name of Some s \<Rightarrow> extract_int 0 s | None \<Rightarrow> def)
      else def)"

definition LoadStringConfig :: "config_mgr \<Rightarrow> string \<Rightarrow> string \<Rightarrow> string" where
  "LoadStringConfig c name def =
     (if length (FileOptions c) > 0 then
        (case map_of (FileOptions c) name of Some s \<Rightarrow> s | None \<Rightarrow> def)
      else def)"

definition LoadBoolConfig :: "config_mgr \<Rightarrow> string \<Rightarrow> bool \<Rightarrow> bool" where
  "LoadBoolConfig c name def =
     (if length (FileOptions c) > 0 then
        (case map_of (FileOptions c) name of Some s \<Rightarrow> extract_bool False s | None \<Rightarrow> def)
      else def)"

definition LoadIntRunConfig :: "config_mgr \<Rightarrow> string \<Rightarrow> string \<Rightarrow> int \<Rightarrow> int" where
  "LoadIntRunConfig c name short def =
     (if length (RunOptions c) > 0 then
        (case map_of (RunOptions c) name of
           Some s \<Rightarrow> extract_int 0 s
         | None \<Rightarrow> (case map_of (RunOptions c) short of
                      Some s \<Rightarrow> extract_int 0 s | None \<Rightarrow> def))
      else def)"

definition LoadStringRunConfig :: "config_mgr \<Rightarrow> string \<Rightarrow> string \<Rightarrow> string \<Rightarrow> string" where
  "LoadStringRunConfig c name short def =
     (if length (RunOptions c) > 0 then
        (case map_of (RunOptions c) name of
           Some s \<Rightarrow> s
         | None \<Rightarrow> (case map_of (RunOptions c) short of Some s \<Rightarrow> s | None \<Rightarrow> def))
      else def)"

definition LoadBoolRunConfig :: "config_mgr \<Rightarrow> string \<Rightarrow> string \<Rightarrow> bool \<Rightarrow> bool" where
  "LoadBoolRunConfig c name short def =
     (if length (RunOptions c) > 0 then
        (case map_of (RunOptions c) name of
           Some s \<Rightarrow> extract_bool False s
         | None \<Rightarrow> (case map_of (RunOptions c) short of
                      Some s \<Rightarrow> extract_bool False s | None \<Rightarrow> def))
      else def)"

definition RunPropertyExist :: "config_mgr \<Rightarrow> string \<Rightarrow> string \<Rightarrow> bool" where
  "RunPropertyExist c name short =
     (if length (RunOptions c) > 0 then
        (if map_of (RunOptions c) name \<noteq> None then True
         else if map_of (RunOptions c) short \<noteq> None then True
         else False)
      else False)"

text \<open>
  \<open>FilePropertyExist\<close> compares an iterator of the file options with the end of the run options.
\<close>

datatype option_map = FileMap | RunMap

definition FilePropertyExist :: "config_mgr \<Rightarrow> string \<Rightarrow> bool" where
  "FilePropertyExist c name =
     (if length (FileOptions c) > 0 then
        (if iter_find FileMap (map_of (FileOptions c)) name \<noteq> End RunMap then True else False)
      else False)"

section \<open>The text of a file as entries\<close>

text \<open>
  The specification: a line gives an entry unless it is a comment, has no equals sign, or has
  an empty name or value after trimming.
\<close>

definition config_entry :: "string \<Rightarrow> (string \<times> string) option" where
  "config_entry line =
     (let blank = (\<lambda>c. c = space);
          k = strip blank (takeWhile (\<lambda>c. c \<noteq> eq_sign) line);
          v = strip blank (tl (dropWhile (\<lambda>c. c \<noteq> eq_sign) line))
      in if line = [] \<or> hd line \<in> {CHR ''#'', CHR '';''} \<or> eq_sign \<notin> set line
            \<or> k = [] \<or> v = []
         then None else Some (k, v))"

function lines_of :: "string \<Rightarrow> string list" where
  "lines_of s =
     (if nl \<in> set s
      then takeWhile (\<lambda>c. c \<noteq> nl) s # lines_of (tl (dropWhile (\<lambda>c. c \<noteq> nl) s))
      else [s])"
  by pat_completeness auto
termination
proof (relation "measure length")
  fix s :: string
  assume "nl \<in> set s"
  then have "dropWhile (\<lambda>c. c \<noteq> nl) s \<noteq> []" by (auto simp: dropWhile_eq_Nil_conv)
  moreover have "length (dropWhile (\<lambda>c. c \<noteq> nl) s) \<le> length s" by (rule length_dropWhile_le)
  ultimately show "(tl (dropWhile (\<lambda>c. c \<noteq> nl) s), s) \<in> measure length"
    by (cases "dropWhile (\<lambda>c. c \<noteq> nl) s") simp_all
qed simp

declare lines_of.simps [simp del]

definition entries_of :: "string \<Rightarrow> (string \<times> string) list" where
  "entries_of s = List.map_filter config_entry (lines_of s)"

end
