(* ===== verification/ConfigProps.thy ===== *)
theory ConfigProps
  imports ConfigMgr
begin

text \<open>
  What the configuration code guarantees: a line adds exactly the entry its specification gives
  and never fails; a text whose lines fit the 1024-byte buffer is read to the end, and the options
  are its entries with the first entry for a name winning; a longer line makes the reading loop
  run for ever; a command-line argument is parsed as name and value, or fails when it consists of
  dashes and blanks only.
\<close>

section \<open>Lines\<close>

lemma find_char_Some_conv:
  "c \<in> set s \<Longrightarrow> find_char c s = Some (length (takeWhile (\<lambda>x. x \<noteq> c) s))"
proof -
  assume "c \<in> set s"
  then obtain i where i: "find_char c s = Some i"
    using first_index_None [of "\<lambda>x. x = c" s] unfolding find_char_def by (metis not_None_eq)
  then have "take i s = takeWhile (\<lambda>x. x \<noteq> c) s" "i < length s"
    using first_index_takeWhile [of "\<lambda>x. x = c"] first_index_bound [of "\<lambda>x. x = c"]
    by (simp_all add: find_char_def)
  then have "i = length (takeWhile (\<lambda>x. x \<noteq> c) s)" by (metis length_take less_imp_le min.absorb2)
  then show ?thesis using i by simp
qed

lemma find_char_None_conv: "(find_char c s = None) = (c \<notin> set s)"
  by (auto simp: find_char_def first_index_None)

lemma drop_Suc_takeWhile:
  "c \<in> set s \<Longrightarrow> drop (Suc (length (takeWhile (\<lambda>x. x \<noteq> c) s))) s = tl (dropWhile (\<lambda>x. x \<noteq> c) s)"
  by (simp add: drop_Suc tl_drop dropWhile_eq_drop)

lemma takeWhile_found_length:
  "c \<in> set s \<Longrightarrow> length (takeWhile (\<lambda>x. x \<noteq> c) s) < length s"
  by (induction s) auto

lemma strip_before:
  assumes "c \<in> set line" and "\<not> P c"
  shows "strip P (takeWhile (\<lambda>x. x \<noteq> c) (strip P line)) = strip P (takeWhile (\<lambda>x. x \<noteq> c) line)"
    and "strip P (tl (dropWhile (\<lambda>x. x \<noteq> c) (strip P line))) = strip P (tl (dropWhile (\<lambda>x. x \<noteq> c) line))"
    and "c \<in> set (strip P line)"
proof -
  obtain ls rs where d: "line = ls @ strip P line @ rs" "\<forall>x \<in> set ls. P x" "\<forall>x \<in> set rs. P x"
    using strip_decomp [of line P] by blast
  let ?m = "strip P line"
  show m: "c \<in> set ?m" using assms d by (metis Un_iff set_append)
  have "takeWhile (\<lambda>x. x \<noteq> c) (ls @ ?m @ rs) = ls @ takeWhile (\<lambda>x. x \<noteq> c) ?m @ []"
    using d(2) assms(2) m by (subst takeWhile_append2) (auto simp: takeWhile_append1)
  then have "takeWhile (\<lambda>x. x \<noteq> c) line = ls @ takeWhile (\<lambda>x. x \<noteq> c) ?m @ []" using d(1) by simp
  then show "strip P (takeWhile (\<lambda>x. x \<noteq> c) ?m) = strip P (takeWhile (\<lambda>x. x \<noteq> c) line)"
    using strip_surround [of ls P "[]" "takeWhile (\<lambda>x. x \<noteq> c) ?m"] d(2) by simp
  have "dropWhile (\<lambda>x. x \<noteq> c) (ls @ ?m @ rs) = dropWhile (\<lambda>x. x \<noteq> c) ?m @ rs"
    using d(2) assms(2) m by (subst dropWhile_append2) (auto simp: dropWhile_append1)
  moreover have "dropWhile (\<lambda>x. x \<noteq> c) ?m \<noteq> []" using m by (auto simp: dropWhile_eq_Nil_conv)
  ultimately have "tl (dropWhile (\<lambda>x. x \<noteq> c) line) = [] @ tl (dropWhile (\<lambda>x. x \<noteq> c) ?m) @ rs"
    using d(1) by simp
  then show "strip P (tl (dropWhile (\<lambda>x. x \<noteq> c) ?m)) = strip P (tl (dropWhile (\<lambda>x. x \<noteq> c) line))"
    using strip_surround [of "[]" P rs "tl (dropWhile (\<lambda>x. x \<noteq> c) ?m)"] d(3) by simp
qed

lemma substr_value:
  "c \<in> set s \<Longrightarrow> substr s (Some (size_succ (find_char c s))) None = Inr (tl (dropWhile (\<lambda>x. x \<noteq> c) s))"
  using takeWhile_found_length [of c s]
  by (simp add: find_char_Some_conv size_succ_def string_simps drop_Suc_takeWhile)

lemma substr_name:
  "c \<in> set s \<Longrightarrow> substr s (Some 0) (find_char c s) = Inr (takeWhile (\<lambda>x. x \<noteq> c) s)"
  by (simp add: find_char_Some_conv string_simps takeWhile_eq_take [symmetric])

lemma config_line_entry:
  "config_line line m =
     Inr (case config_entry line of None \<Rightarrow> m | Some (k, v) \<Rightarrow> opt_insert k v m)"
proof (cases "line = [] \<or> hd line \<in> {CHR ''#'', CHR '';''} \<or> eq_sign \<notin> set line")
  case True
  then show ?thesis
    by (auto simp: config_line_def config_entry_def find_char_None_conv Let_def)
next
  case False
  then have e: "eq_sign \<in> set line" by simp
  have sp: "\<not> eq_sign = space" by (simp add: eq_sign_def)
  note b = strip_before [where P = "\<lambda>c. c = space", OF e sp]
  show ?thesis
    using False b
    by (simp add: config_line_def config_entry_def find_char_None_conv refTrim_strip substr_name
        substr_value Let_def split: option.splits)
qed

section \<open>Files\<close>

lemma getline_fits:
  assumes "length (takeWhile (\<lambda>c. c \<noteq> nl) s) < n"
  shows "istream_getline n (istream_of s) =
    (takeWhile (\<lambda>c. c \<noteq> nl) s,
     if nl \<in> set s then istream_of (tl (dropWhile (\<lambda>c. c \<noteq> nl) s))
     else \<lparr>is_rest = [], is_eof = True, is_fail = (s = [])\<rparr>)"
proof (cases "nl \<in> set s")
  case True
  then show ?thesis
    using assms takeWhile_found_length [OF True]
    by (simp add: istream_getline_def istream_of_def drop_Suc_takeWhile)
next
  case False
  then have tw: "takeWhile (\<lambda>c. c \<noteq> nl) s = s" by (intro takeWhile_all) auto
  have "length s < n" using assms unfolding tw .
  then show ?thesis
    unfolding istream_getline_def Let_def istream_of_def istream.simps tw by (simp add: False)
qed

definition fits_buffer :: "string \<Rightarrow> bool" where
  "fits_buffer s \<longleftrightarrow> (\<forall>l \<in> set (lines_of s). length l < 1024) \<and> nul \<notin> set s"

lemma lines_of_newline:
  "nl \<in> set s \<Longrightarrow> lines_of s =
     takeWhile (\<lambda>c. c \<noteq> nl) s # lines_of (tl (dropWhile (\<lambda>c. c \<noteq> nl) s))"
  by (simp add: lines_of.simps [of s])

lemma lines_of_last: "nl \<notin> set s \<Longrightarrow> lines_of s = [s]"
  by (simp add: lines_of.simps [of s])

lemma c_str_id: "nul \<notin> set s \<Longrightarrow> c_str s = s"
  unfolding c_str_def by (rule takeWhile_all) auto

lemma set_tl_dropWhile: "set (tl (dropWhile P s)) \<subseteq> set s"
proof -
  have "set (tl xs) \<subseteq> set xs" for xs :: "'a list" by (cases xs) auto
  then show ?thesis using set_dropWhile_subset [of P s] by (rule subset_trans)
qed

text \<open>One entry after the other, as a fold over the lines.\<close>

definition add_line :: "options \<Rightarrow> string \<Rightarrow> options" where
  "add_line m line = (case config_entry line of None \<Rightarrow> m | Some (k, v) \<Rightarrow> opt_insert k v m)"

lemma fold_entries:
  "foldl add_line m ls = foldl (\<lambda>m (k, v). opt_insert k v m) m (List.map_filter config_entry ls)"
  by (induction ls arbitrary: m)
    (auto simp: add_line_def List.map_filter_simps split: option.splits)

lemma config_loop_lines:
  "fits_buffer s \<Longrightarrow>
   config_loop (istream_of s) m = Some (Inr (foldl add_line m (lines_of s)))"
proof (induction s arbitrary: m rule: lines_of.induct)
  case (1 s)
  show ?case
  proof (cases "nl \<in> set s")
    case True
    let ?l = "takeWhile (\<lambda>c. c \<noteq> nl) s" and ?r = "tl (dropWhile (\<lambda>c. c \<noteq> nl) s)"
    have ls: "lines_of s = ?l # lines_of ?r" using True by (rule lines_of_newline)
    have len: "length ?l < 1024" using "1.prems" ls by (simp add: fits_buffer_def)
    have "c_str ?l = ?l"
      using "1.prems" by (intro c_str_id) (auto simp: fits_buffer_def dest: set_takeWhileD)
    moreover have "fits_buffer ?r"
      using "1.prems" ls set_tl_dropWhile by (fastforce simp: fits_buffer_def)
    then have "config_loop (istream_of ?r) (add_line m ?l) =
        Some (Inr (foldl add_line (add_line m ?l) (lines_of ?r)))"
      using True by (intro "1.IH")
    moreover have "\<not> is_eof (istream_of ?r)" by (simp add: istream_of_def)
    ultimately show ?thesis
      using ls getline_fits [OF len] True
      by (subst config_loop.simps) (simp add: config_line_entry add_line_def)
  next
    case False
    have ls: "lines_of s = [s]" using False by (rule lines_of_last)
    have tw: "takeWhile (\<lambda>c. c \<noteq> nl) s = s" using False by (intro takeWhile_all) auto
    have len: "length (takeWhile (\<lambda>c. c \<noteq> nl) s) < 1024"
      using "1.prems" ls unfolding tw by (simp add: fits_buffer_def)
    have "c_str s = s" using "1.prems" by (intro c_str_id) (simp add: fits_buffer_def)
    moreover have "istream_getline 1024 (istream_of s) =
        (s, \<lparr>is_rest = [], is_eof = True, is_fail = (s = [])\<rparr>)"
      using getline_fits [OF len] False unfolding tw by simp
    ultimately show ?thesis
      using ls by (subst config_loop.simps) (simp add: config_line_entry add_line_def)
  qed
qed

text \<open>After a failed read that did not reach the end of the file the loop never returns.\<close>

lemma config_loop_stuck:
  assumes "config_loop st m = Some r"
  shows "is_eof st \<or> \<not> is_fail st"
proof (rule config_loop.raw_induct [where P = "\<lambda>st m r. is_eof st \<or> \<not> is_fail st", OF _ assms])
  fix loop :: "istream \<Rightarrow> options \<Rightarrow> options res option" and st m r
  assume IH: "\<And>st m r. loop st m = Some r \<Longrightarrow> is_eof st \<or> \<not> is_fail st"
    and eq: "(let (buff, st') = istream_getline 1024 st
      in case config_line (c_str buff) m of
           Inl e \<Rightarrow> Some (Inl e)
         | Inr m' \<Rightarrow> if is_eof st' then Some (Inr m') else loop st' m') = Some r"
  show "is_eof st \<or> \<not> is_fail st"
  proof (rule ccontr)
    assume "\<not> (is_eof st \<or> \<not> is_fail st)"
    then have g: "istream_getline 1024 st = ([], st)" "\<not> is_eof st" "is_fail st"
      by (simp_all add: istream_getline_def)
    then have "loop st m = Some r"
      using eq by (simp add: config_line_entry config_entry_def c_str_def)
    then show False using IH g by blast
  qed
qed

lemma config_loop_long_line:
  assumes "1024 \<le> length (takeWhile (\<lambda>c. c \<noteq> nl) s)"
  shows "config_loop (istream_of s) m = None"
proof (rule ccontr)
  assume "config_loop (istream_of s) m \<noteq> None"
  then obtain r where r: "config_loop (istream_of s) m = Some r" by blast
  let ?st = "\<lparr>is_rest = drop 1023 s, is_eof = False, is_fail = True\<rparr>"
  have "istream_getline 1024 (istream_of s) = (take 1023 s, ?st)"
    using assms by (simp add: istream_getline_def istream_of_def)
  with r have "\<exists>m'. config_loop ?st m' = Some r"
    by (subst (asm) config_loop.simps) (auto simp: config_line_entry)
  then show False using config_loop_stuck by fastforce
qed

text \<open>A line too long anywhere in the file, after lines that fit.\<close>

lemma config_loop_long_line_later:
  "nul \<notin> set s \<Longrightarrow> \<exists>l \<in> set (lines_of s). 1024 \<le> length l \<Longrightarrow>
   config_loop (istream_of s) m = None"
proof (induction s arbitrary: m rule: lines_of.induct)
  case (1 s)
  show ?case
  proof (cases "1024 \<le> length (takeWhile (\<lambda>c. c \<noteq> nl) s)")
    case True
    then show ?thesis by (rule config_loop_long_line)
  next
    case False
    let ?r = "tl (dropWhile (\<lambda>c. c \<noteq> nl) s)"
    have nl: "nl \<in> set s"
    proof (rule ccontr)
      assume n: "nl \<notin> set s"
      then have tw: "takeWhile (\<lambda>c. c \<noteq> nl) s = s" by (intro takeWhile_all) auto
      show False using "1.prems"(2) False n unfolding tw by (simp add: lines_of_last)
    qed
    then have "\<exists>l \<in> set (lines_of ?r). 1024 \<le> length l"
      using "1.prems"(2) False by (simp add: lines_of_newline)
    moreover have "nul \<notin> set ?r" using "1.prems"(1) set_tl_dropWhile by fastforce
    ultimately have "config_loop (istream_of ?r) m' = None" for m'
      using "1.IH" nl by blast
    moreover have "\<not> is_eof (istream_of ?r)" by (simp add: istream_of_def)
    ultimately show ?thesis
      using getline_fits [of s 1024] False nl
      by (subst config_loop.simps) (simp add: config_line_entry)
  qed
qed

section \<open>Arguments\<close>

lemma first_not_dash:
  "\<forall>c \<in> set ds. c = CHR ''-'' \<Longrightarrow> t \<noteq> [] \<Longrightarrow> hd t \<noteq> CHR ''-'' \<Longrightarrow>
   find_first_not_of ''-'' (ds @ t) = Some (length ds)"
proof -
  assume ds: "\<forall>c \<in> set ds. c = CHR ''-''" and t: "t \<noteq> []" "hd t \<noteq> CHR ''-''"
  then obtain x xs where tx: "t = x # xs" by (cases t) auto
  then show ?thesis
    using ds t by (auto simp: find_first_not_of_def intro!: first_index_split)
qed

text \<open>An argument made of dashes and blanks has no first character that is not a dash.\<close>

lemma strip_all_dashes:
  assumes "s = replicate i space @ replicate n CHR ''-'' @ replicate j space"
  shows "strip (\<lambda>c. c = space) s = replicate n CHR ''-''"
proof (cases n)
  case 0
  then show ?thesis using assms by (auto simp: strip_Nil_iff)
next
  case (Suc m)
  have f: "strip (\<lambda>c. c = space) (replicate n CHR ''-'') = replicate n CHR ''-''"
    using Suc by (intro strip_fixed) (auto simp: last_replicate)
  have "strip (\<lambda>c. c = space) s = strip (\<lambda>c. c = space) (replicate n CHR ''-'')"
    unfolding assms by (rule strip_surround) auto
  then show ?thesis using f by simp
qed

lemma parse_arg_dashes:
  assumes "s = replicate i space @ replicate n CHR ''-'' @ replicate j space"
  shows "parse_arg s = Inl OutOfRange"
proof -
  have e: "find_char eq_sign (replicate n CHR ''-'') = None"
    by (simp add: find_char_None_conv eq_sign_def)
  have d: "find_first_not_of ''-'' (replicate n CHR ''-'') = None"
    by (simp add: find_first_not_of_def first_index_None)
  show ?thesis
    by (simp add: parse_arg_def refTrim_strip strip_all_dashes [OF assms] e d substr_npos)
qed

text \<open>A word that is neither empty nor begins or ends with a blank, and has no equals sign.\<close>

definition option_word :: "string \<Rightarrow> bool" where
  "option_word w \<longleftrightarrow> w \<noteq> [] \<and> eq_sign \<notin> set w \<and> hd w \<noteq> space \<and> last w \<noteq> space \<and> hd w \<noteq> CHR ''-''"

lemma strip_word: "option_word w \<Longrightarrow> strip (\<lambda>c. c = space) w = w"
  by (intro strip_fixed) (simp_all add: option_word_def)

lemma parse_arg_flag:
  assumes "option_word w" and "0 < n"
  shows "parse_arg (replicate n CHR ''-'' @ w) = Inr (w, ''1'')"
proof -
  let ?a = "replicate n CHR ''-'' @ w"
  have w: "w \<noteq> []" "hd w \<noteq> CHR ''-''" "last w \<noteq> space" "eq_sign \<notin> set w"
    using assms(1) by (simp_all add: option_word_def)
  have s: "strip (\<lambda>c. c = space) ?a = ?a"
    using w assms(2) by (intro strip_fixed) (auto simp: hd_append)
  have f: "find_first_not_of ''-'' ?a = Some n" using first_not_dash [of "replicate n CHR ''-''" w] w by simp
  have e: "find_char eq_sign ?a = None" using w(4) by (auto simp: find_char_None_conv eq_sign_def)
  show ?thesis by (simp add: parse_arg_def refTrim_strip s f e substr_suffix)
qed

lemma parse_arg_value:
  assumes "option_word w" and "v \<noteq> []" and "hd v \<noteq> space" and "last v \<noteq> space"
    and "n + length w < 2 ^ 63"
  shows "parse_arg (replicate n CHR ''-'' @ w @ eq_sign # v) = Inr (w, v)"
proof -
  let ?a = "replicate n CHR ''-'' @ w @ eq_sign # v"
  have w: "w \<noteq> []" "hd w \<noteq> CHR ''-''" "eq_sign \<notin> set w" "hd w \<noteq> space"
    using assms(1) by (simp_all add: option_word_def)
  have s: "strip (\<lambda>c. c = space) ?a = ?a"
    using w assms(2,4) by (intro strip_fixed) (auto simp: hd_append)
  have f: "find_first_not_of ''-'' ?a = Some n"
    using first_not_dash [of "replicate n CHR ''-''" "w @ eq_sign # v"] w by simp
  have "find_char eq_sign ((replicate n CHR ''-'' @ w) @ eq_sign # v) =
      Some (length (replicate n CHR ''-'' @ w))"
    unfolding find_char_def using w(3) by (intro first_index_split) (auto simp: eq_sign_def)
  then have e: "find_char eq_sign ?a = Some (n + length w)" by simp
  have "wrap64 (int (n + length w) - int n) = length w"
    using assms(5) by (subst wrap64_small) simp_all
  then have nm: "substr ?a (Some n) (Some (wrap64 (int (n + length w) - int n))) = Inr w"
    by (simp add: substr_def)
  have vl: "substr ?a (Some (Suc (n + length w))) None = Inr v" by (simp add: substr_def)
  have sv: "strip (\<lambda>c. c = space) v = v" using assms(2-4) by (intro strip_fixed) simp_all
  show ?thesis
    using nm vl
    by (simp add: parse_arg_def refTrim_strip s f e size_val_def size_succ_def strip_word [OF assms(1)] sv
        del: of_nat_add)
qed

section \<open>Properties\<close>

lemma file_options:
  assumes "fits_buffer text"
  shows "ConfigMgr (Some text) [] =
    Some (Inr \<lparr>FileOptions = foldl (\<lambda>m (k, v). opt_insert k v m) [] (entries_of text), RunOptions = []\<rparr>)"
  using config_loop_lines [OF assms, of "[]"] fold_entries [of "[]" "lines_of text"]
  by (simp add: ConfigMgr_def entries_of_def)

text \<open>
  C27. A configuration file whose lines fit the buffer is read to its end without error, and the
  options are the name-value pairs of its lines (trimmed, comments and incomplete lines left
  out); of several lines with the same name the first one counts.
\<close>

theorem config_file_loaded:
  assumes "fits_buffer text"
  shows "\<exists>c. ConfigMgr (Some text) [] = Some (Inr c)
     \<and> (\<forall>name. map_of (FileOptions c) name = map_of (entries_of text) name)"
  using file_options [OF assms] opt.fill_lookup [of "[]" "entries_of text"] by simp

theorem config_file_loaded_witness:
  "\<exists>c. ConfigMgr (Some (''Port = 21'' @ [nl] @ ''# x'' @ [nl])) [] = Some (Inr c)
     \<and> (\<forall>name. map_of (FileOptions c) name =
          map_of (entries_of (''Port = 21'' @ [nl] @ ''# x'' @ [nl])) name)"
  by (rule config_file_loaded) (simp add: fits_buffer_def lines_of.simps)

text \<open>
  C35. A file with a line of 1024 characters or more is never read to its end: \<open>getline\<close> sets the
  fail bit, the loop waits for the end-of-file bit, and the constructor does not return.
\<close>

theorem config_long_line_hangs:
  assumes "nul \<notin> set text" and "\<exists>l \<in> set (lines_of text). 1024 \<le> length l"
  shows "ConfigMgr (Some text) [] = None"
  using config_loop_long_line_later [OF assms] by (simp add: ConfigMgr_def)

theorem config_long_line_hangs_witness:
  "ConfigMgr (Some (replicate 1024 CHR ''x'')) [] = None"
  by (rule config_long_line_hangs) (simp_all add: lines_of.simps)

text \<open>
  An integer option written in decimal is read back as this integer, whatever the default.
\<close>

theorem int_option_roundtrip:
  assumes "fits_buffer text" and "map_of (entries_of text) name = Some (nat_dec n)" and "n \<le> 2147483647"
  shows "\<exists>c. ConfigMgr (Some text) [] = Some (Inr c) \<and> LoadIntConfig c name def = int n"
proof -
  let ?m = "foldl (\<lambda>m (k, v). opt_insert k v m) [] (entries_of text)"
  have "map_of ?m name = Some (nat_dec n)"
    using opt.fill_lookup [of "[]" "entries_of text" name] assms(2) by simp
  moreover from this have "?m \<noteq> []" by auto
  ultimately show ?thesis
    using file_options [OF assms(1)] extract_int_nat_dec [OF assms(3), of "[]" 0]
    by (simp add: LoadIntConfig_def)
qed

lemma nat_dec_21: "nat_dec 21 = ''21''"
  by code_simp

theorem int_option_roundtrip_witness:
  "\<exists>c. ConfigMgr (Some ''Port = 21'') [] = Some (Inr c) \<and> LoadIntConfig c ''Port'' 3535 = int 21"
proof (rule int_option_roundtrip)
  show "fits_buffer ''Port = 21''" by (simp add: fits_buffer_def lines_of.simps)
  show "map_of (entries_of ''Port = 21'') ''Port'' = Some (nat_dec 21)"
    unfolding nat_dec_21 by code_simp
qed simp

text \<open>
  A command-line argument \<open>--name=value\<close> is parsed to the name and the value, for any number of
  dashes, when name and value do not begin or end with a blank.
\<close>

theorem argument_parsed:
  assumes "option_word w" and "v \<noteq> []" and "hd v \<noteq> space" and "last v \<noteq> space"
    and "n + length w < 2 ^ 63"
  shows "parse_args [] [replicate n CHR ''-'' @ w @ eq_sign # v] = Inr [(w, v)]"
  using parse_arg_value [OF assms] by (simp add: opt_insert_def)

theorem argument_parsed_witness:
  "parse_args [] [replicate 2 CHR ''-'' @ ''loglevel'' @ eq_sign # ''3''] = Inr [(''loglevel'', ''3'')]"
  by (rule argument_parsed) (simp_all add: option_word_def eq_sign_def)

text \<open>
  An argument of dashes and blanks only ends the program with an uncaught exception.
\<close>

theorem dash_argument_uncaught:
  "parse_args m ((replicate i space @ replicate n CHR ''-'' @ replicate j space) # as) = Inl OutOfRange"
  by (simp add: parse_arg_dashes [OF refl])

text \<open>
  \<open>FilePropertyExist\<close> answers yes for every name as soon as the file has any option, since it
  compares with the end of the other map.
\<close>

theorem file_property_always_exists:
  "FilePropertyExist c name = (FileOptions c \<noteq> [])"
  by (simp add: FilePropertyExist_def iter_find_other_end)

end
