(* ===== verification/Sockets.thy ===== *)
theory Sockets
  imports StdMap BinData
begin

text \<open>
  \<open>Sockets/Socket.{h,cpp}\<close>: the two socket classes.  The kernel is an argument: a script of
  what successive \<open>send\<close> calls do, the outcome of one \<open>recv\<close>, and for connecting the results
  of \<open>connect\<close>, \<open>inet_addr\<close> and \<open>gethostbyname\<close>.  \<open>Socket_Send\<close> consumes the script; when it
  is used up before the loop ends the call has not returned, which is \<open>None\<close>.
\<close>

section \<open>The class Socket\<close>

record sock =
  sock_fd :: int
  sock_error :: int
  isConnected :: bool

text \<open>The member \<open>error\<close> is not initialised by the constructors; \<open>junk\<close> is what it holds.\<close>

definition Socket :: "int \<Rightarrow> int \<Rightarrow> sock" where
  "Socket junk fd = \<lparr>sock_fd = fd, sock_error = junk, isConnected = True\<rparr>"

text \<open>
  One call of \<open>send\<close>: the kernel takes up to \<open>n\<close> of the bytes offered (so the value returned is
  at most their number), or fails with an error number.
\<close>

datatype send_event = Accept nat | SendErr int

definition EAGAIN :: int where "EAGAIN = 11"

function Send_loop ::
  "send_event list \<Rightarrow> sock \<Rightarrow> string \<Rightarrow> nat \<Rightarrow> string \<Rightarrow> (int \<times> string \<times> sock) option" where
  "Send_loop evs so buffer sended wire =
     (if length buffer > sended then
        (if sock_fd so < 0 then Some (-1, wire, so)
         else (case evs of
                 [] \<Rightarrow> None
               | Accept n # evs' \<Rightarrow>
                   (let ret = min n (length buffer - sended)
                    in if ret > 0 then
                         Send_loop evs' so buffer (sended + ret)
                           (wire @ take ret (drop sended buffer))
                       else Some (0, wire, so\<lparr>isConnected := False, sock_error := 0\<rparr>))
               | SendErr e # evs' \<Rightarrow>
                   (if e = EAGAIN then Send_loop evs' (so\<lparr>sock_error := e\<rparr>) buffer sended wire
                    else Some (-1, wire, so\<lparr>sock_error := e\<rparr>))))
      else Some (int sended, wire, so))"
  by pat_completeness auto
termination
  by (relation "measure (\<lambda>(evs, so, buffer, sended, wire). length evs)") auto

declare Send_loop.simps [simp del]

text \<open>
  \<open>Send(buffer, len)\<close> with the bytes written to \<open>wire\<close>.  (Buffers are shorter than 2 GB, so
  the count fits the returned \<open>int\<close>; \<open>errno\<close> is 0 when \<open>send\<close> returns 0.)
\<close>

definition Socket_Send :: "send_event list \<Rightarrow> sock \<Rightarrow> string \<Rightarrow> (int \<times> string \<times> sock) option" where
  "Socket_Send evs so buffer = Send_loop evs so buffer 0 []"

text \<open>\<open>Send(stringstream&)\<close> and \<open>Send(BinnaryData&)\<close> send what the object holds.\<close>

definition Send_data :: "send_event list \<Rightarrow> sock \<Rightarrow> bindata \<Rightarrow> (int \<times> string \<times> sock) option res" where
  "Send_data evs so d =
     rbind (rd_bytes d 0 (usedLength d)) (\<lambda>bs. Inr (Socket_Send evs so bs))"

text \<open>One call of \<open>recv\<close>: data (cut to the room given), the end of the stream, or an error.\<close>

datatype recv_event = Data string | Eof | RecvErr int

definition Socket_Recieve :: "recv_event \<Rightarrow> sock \<Rightarrow> nat \<Rightarrow> int \<times> string \<times> sock" where
  "Socket_Recieve ev so len =
     (case ev of
        Data bs \<Rightarrow>
          (let got = take len bs
           in if got = [] then (0, [], so\<lparr>isConnected := False, sock_error := 0\<rparr>)
              else (int (length got), got, so))
      | Eof \<Rightarrow> (0, [], so\<lparr>isConnected := False, sock_error := 0\<rparr>)
      | RecvErr e \<Rightarrow> (-1, [], so\<lparr>sock_error := e\<rparr>))"

text \<open>
  \<open>Recieve(BinnaryData&)\<close> offers the whole capacity and writes to the start of the allocation
  without setting the used length.
\<close>

definition Recieve_data :: "recv_event \<Rightarrow> sock \<Rightarrow> bindata \<Rightarrow> (int \<times> bindata \<times> sock) res" where
  "Recieve_data ev so d =
     (let (ret, got, so') = Socket_Recieve ev so (maxLength d)
      in rbind (wr_bytes d 0 got) (\<lambda>d. Inr (ret, d, so')))"

section \<open>Dotted addresses\<close>

text \<open>
  \<open>_isIPv4\<close> looks at all characters but the last.  \<open>ip_scan\<close> is its second loop: at the
  \<open>posc\<close>-th dot it checks the length of the segment before and reads the number after it.
\<close>

definition strlen_pred :: "string \<Rightarrow> nat" where
  "strlen_pred s = wrap64 (int (length s) - 1)"

fun ip_scan :: "string \<Rightarrow> nat \<Rightarrow> nat \<Rightarrow> int \<Rightarrow> int list \<Rightarrow> int list option" where
  "ip_scan ip 0 i prev bytes = Some bytes"
| "ip_scan ip (Suc n) i prev bytes =
     (if ip ! i = CHR ''.'' then
        (if length bytes = 4 then None
         else if \<bar>prev - int i\<bar> - 1 > 3 then None
         else ip_scan ip n (Suc i) (int i) (bytes @ [atoi (drop (Suc i) ip)]))
      else ip_scan ip n (Suc i) prev bytes)"

definition isIPv4 :: "string \<Rightarrow> bool" where
  "isIPv4 ip =
     (let len = strlen_pred ip
      in if len < 7 then False
         else if len > 15 then False
         else if length (filter (\<lambda>c. c = CHR ''.'') (take len ip)) \<noteq> 3 then False
         else (case ip_scan ip len 0 (-1) [atoi ip] of
                 None \<Rightarrow> False
               | Some bytes \<Rightarrow> list_all (\<lambda>b. \<not> (b < 0 \<or> b > 255)) bytes))"

section \<open>The class TCPSocket\<close>

text \<open>
  Addresses and ports are the numbers that \<open>connect\<close> gets, in host order.  \<open>tcp_connected\<close> is
  uninitialised in a new object.
\<close>

record net =
  net_connect :: "nat \<Rightarrow> nat \<Rightarrow> int"
  net_inet_addr :: "string \<Rightarrow> nat"
  net_resolve :: "string \<Rightarrow> nat option"

record tcp_sock =
  tcp_fd :: int
  tcp_connected :: bool
  tcp_dest :: "(nat \<times> nat) option"

definition TCPSocket :: "int \<Rightarrow> bool \<Rightarrow> tcp_sock" where
  "TCPSocket fd junk = \<lparr>tcp_fd = fd, tcp_connected = junk, tcp_dest = None\<rparr>"

definition tcp_connect_to :: "net \<Rightarrow> nat \<Rightarrow> nat \<Rightarrow> tcp_sock \<Rightarrow> int \<times> tcp_sock" where
  "tcp_connect_to net addr port t =
     (let ret = net_connect net addr port
      in (ret, t\<lparr>tcp_dest := Some (addr, port), tcp_connected := (ret = 0)\<rparr>))"

definition u16 :: "int \<Rightarrow> nat" where
  "u16 x = nat (x mod 65536)"

text \<open>\<open>DNSConnect(char*, char*)\<close> checks the result of the lookup, \<open>DNSConnect(char*, uint16)\<close> does not.\<close>

definition DNSConnect_text :: "net \<Rightarrow> string \<Rightarrow> string \<Rightarrow> tcp_sock \<Rightarrow> int \<times> tcp_sock" where
  "DNSConnect_text net name port t =
     (case net_resolve net name of
        None \<Rightarrow> (-1, t)
      | Some addr \<Rightarrow> tcp_connect_to net addr (u16 (atoi port)) t)"

definition DNSConnect :: "net \<Rightarrow> string \<Rightarrow> nat \<Rightarrow> tcp_sock \<Rightarrow> (int \<times> tcp_sock) res" where
  "DNSConnect net name port t =
     (case net_resolve net name of
        None \<Rightarrow> Inl NullPointer
      | Some addr \<Rightarrow> Inr (tcp_connect_to net addr port t))"

definition Connect_text :: "net \<Rightarrow> string \<Rightarrow> string \<Rightarrow> tcp_sock \<Rightarrow> int \<times> tcp_sock" where
  "Connect_text net ip port t =
     (if isIPv4 ip then tcp_connect_to net (net_inet_addr net ip) (u16 (atoi port)) t
      else DNSConnect_text net ip port t)"

definition Connect :: "net \<Rightarrow> string \<Rightarrow> nat \<Rightarrow> tcp_sock \<Rightarrow> (int \<times> tcp_sock) res" where
  "Connect net ip port t =
     (if isIPv4 ip then Inr (tcp_connect_to net (net_inet_addr net ip) port t)
      else DNSConnect net ip port t)"

text \<open>
  \<open>Connect("host:port")\<close>: the port begins after the first colon, the host ends at the last one;
  without a colon the pointers are NULL.
\<close>

definition Connect_colon :: "net \<Rightarrow> string \<Rightarrow> tcp_sock \<Rightarrow> (int \<times> tcp_sock) res" where
  "Connect_colon net addr t =
     (case (find_char CHR '':'' addr, rfind_char CHR '':'' addr) of
        (Some i, Some j) \<Rightarrow>
          Inr (if isIPv4 (take j addr) then Connect_text net (take j addr) (drop (Suc i) addr) t
               else DNSConnect_text net (take j addr) (drop (Suc i) addr) t)
      | _ \<Rightarrow> Inl NullPointer)"

definition TCP_Send :: "send_event \<Rightarrow> tcp_sock \<Rightarrow> string \<Rightarrow> (int \<times> string \<times> tcp_sock)" where
  "TCP_Send ev t buff =
     (case ev of
        Accept n \<Rightarrow> (let ret = min n (length buff)
                     in (int ret, take ret buff, t\<lparr>tcp_connected := (ret \<noteq> 0)\<rparr>))
      | SendErr e \<Rightarrow> (-1, [], t\<lparr>tcp_connected := True\<rparr>))"

text \<open>The length parameter of \<open>Send\<close> and \<open>Recv\<close> is 16 bits wide: longer requests are cut modulo 65536.\<close>

definition TCP_Send_len :: "send_event \<Rightarrow> tcp_sock \<Rightarrow> string \<Rightarrow> nat \<Rightarrow> int \<times> string \<times> tcp_sock" where
  "TCP_Send_len ev t buff len = TCP_Send ev t (take (u16 (int len)) buff)"

definition TCP_Recv :: "recv_event \<Rightarrow> tcp_sock \<Rightarrow> nat \<Rightarrow> int \<times> string \<times> tcp_sock" where
  "TCP_Recv ev t len =
     (case ev of
        Data bs \<Rightarrow> (let got = take (u16 (int len)) bs
                    in (int (length got), got, t\<lparr>tcp_connected := (got \<noteq> [])\<rparr>))
      | Eof \<Rightarrow> (0, [], t\<lparr>tcp_connected := False\<rparr>)
      | RecvErr e \<Rightarrow> (-1, [], t\<lparr>tcp_connected := True\<rparr>))"

section \<open>Closing and options\<close>

text \<open>
  The calls to the kernel; \<open>close\<close> is an argument where its result is returned.  The destructor of
  \<open>Socket\<close> closes the descriptor whether or not \<open>Close\<close> was called, that of \<open>TCPSocket\<close> does nothing.
\<close>

datatype sock_call = ShutdownSock int | CloseSock int | OptionSock int int int string

definition Socket_Close :: "(int \<Rightarrow> int) \<Rightarrow> sock \<Rightarrow> sock_call list \<times> int" where
  "Socket_Close close so = ([ShutdownSock (sock_fd so), CloseSock (sock_fd so)], close (sock_fd so))"

definition Socket_destroy :: "sock \<Rightarrow> sock_call list" where
  "Socket_destroy so = fst (Socket_Close (\<lambda>_. 0) so)"

definition SetSocketOption :: "int \<Rightarrow> int \<Rightarrow> string \<Rightarrow> sock \<Rightarrow> sock_call" where
  "SetSocketOption level opt val so = OptionSock (sock_fd so) level opt val"

definition TCP_setSockOpt :: "int \<Rightarrow> int \<Rightarrow> string \<Rightarrow> tcp_sock \<Rightarrow> sock_call" where
  "TCP_setSockOpt level opt val t = OptionSock (tcp_fd t) level opt val"

definition TCP_Close :: "tcp_sock \<Rightarrow> sock_call list" where
  "TCP_Close t = [CloseSock (tcp_fd t)]"

definition TCP_Disconnect :: "tcp_sock \<Rightarrow> sock_call list" where
  "TCP_Disconnect t = TCP_Close t"

definition TCP_destroy :: "tcp_sock \<Rightarrow> sock_call list" where
  "TCP_destroy t = []"

section \<open>Properties of sending\<close>

fun accepted :: "send_event list \<Rightarrow> nat" where
  "accepted [] = 0"
| "accepted (Accept n # evs) = n + accepted evs"
| "accepted (SendErr _ # evs) = accepted evs"

text \<open>A connection that stays up: every call takes something or asks to try again.\<close>

definition steady :: "send_event \<Rightarrow> bool" where
  "steady ev \<longleftrightarrow> (case ev of Accept n \<Rightarrow> n > 0 | SendErr e \<Rightarrow> e = EAGAIN)"

lemma Send_loop_prefix:
  "Send_loop evs so buffer sended wire = Some (ret, wire', so') \<Longrightarrow> sended \<le> length buffer \<Longrightarrow>
   \<exists>k \<le> length buffer. sended \<le> k \<and> wire' = wire @ take (k - sended) (drop sended buffer)
     \<and> (ret > 0 \<longrightarrow> k = length buffer)"
proof (induction evs so buffer sended wire rule: Send_loop.induct)
  case (1 evs so buffer sended wire)
  note IH = "1.IH" and res = "1.prems"(1) and le = "1.prems"(2)
  show ?case
  proof (cases "length buffer > sended \<and> sock_fd so \<ge> 0")
    case False
    then show ?thesis
      using res le by (subst (asm) Send_loop.simps) (auto split: if_splits intro: exI [of _ sended])
  next
    case run: True
    show ?thesis
    proof (cases evs)
      case Nil
      then show ?thesis using res run by (subst (asm) Send_loop.simps) simp
    next
      case (Cons ev evs')
      show ?thesis
      proof (cases ev)
        case (Accept n)
        let ?r = "min n (length buffer - sended)"
        show ?thesis
        proof (cases "?r > 0")
          case True
          have "Send_loop evs' so buffer (sended + ?r) (wire @ take ?r (drop sended buffer)) =
              Some (ret, wire', so')"
            using res run True unfolding Cons Accept
            by (subst (asm) Send_loop.simps) (simp add: Let_def split: if_splits)
          moreover have "sended + ?r \<le> length buffer" using run by (auto simp: min_def)
          ultimately obtain k where k: "k \<le> length buffer" "sended + ?r \<le> k"
            "wire' = (wire @ take ?r (drop sended buffer)) @
               take (k - (sended + ?r)) (drop (sended + ?r) buffer)"
            "ret > 0 \<longrightarrow> k = length buffer"
            using IH(1) [of ev evs' n ?r] run True Cons Accept by auto
          have "take (k - sended) (drop sended buffer) =
              take ?r (drop sended buffer) @ take (k - (sended + ?r)) (drop (sended + ?r) buffer)"
            using k(2) take_add [of ?r "k - sended - ?r" "drop sended buffer"]
            by (simp add: add.commute)
          then show ?thesis using k by (intro exI [of _ k]) simp
        next
          case False
          then show ?thesis
            using res run unfolding Cons Accept
            by (subst (asm) Send_loop.simps) (auto simp: Let_def intro: exI [of _ sended])
        qed
      next
        case (SendErr e)
        then show ?thesis
          using res run le IH(2) [of ev evs' e] Cons
          by (subst (asm) Send_loop.simps) (auto split: if_splits intro: exI [of _ sended])
      qed
    qed
  qed
qed

lemma Send_loop_steady:
  "sock_fd so \<ge> 0 \<Longrightarrow> sended \<le> length buffer \<Longrightarrow> list_all steady evs \<Longrightarrow>
   length buffer - sended \<le> accepted evs \<Longrightarrow>
   \<exists>so'. Send_loop evs so buffer sended wire =
     Some (int (length buffer), wire @ drop sended buffer, so') \<and> isConnected so' = isConnected so"
proof (induction evs arbitrary: so sended wire)
  case Nil
  then show ?case by (subst Send_loop.simps) simp
next
  case (Cons ev evs)
  show ?case
  proof (cases "length buffer > sended")
    case False
    then show ?thesis using Cons.prems by (subst Send_loop.simps) simp
  next
    case run: True
    show ?thesis
    proof (cases ev)
      case (Accept n)
      let ?r = "min n (length buffer - sended)"
      have r: "?r > 0" using Cons.prems(3) Accept run by (simp add: steady_def)
      have "length buffer - (sended + ?r) \<le> accepted evs"
        using Cons.prems(4) Accept by (auto simp: min_def)
      then have "\<exists>so'. Send_loop evs so buffer (sended + ?r) (wire @ take ?r (drop sended buffer)) =
          Some (int (length buffer),
            (wire @ take ?r (drop sended buffer)) @ drop (sended + ?r) buffer, so')
          \<and> isConnected so' = isConnected so"
        using Cons.prems by (intro Cons.IH) auto
      moreover have "take ?r (drop sended buffer) @ drop (sended + ?r) buffer = drop sended buffer"
        by (metis append_take_drop_id drop_drop add.commute)
      ultimately show ?thesis
        using run r Cons.prems(1) Accept by (subst Send_loop.simps) (simp add: Let_def)
    next
      case (SendErr e)
      then have "e = EAGAIN" using Cons.prems(3) by (simp add: steady_def)
      then show ?thesis
        using Cons.IH [of "so\<lparr>sock_error := e\<rparr>" sended wire] Cons.prems SendErr run
        by (subst Send_loop.simps) simp
    qed
  qed
qed

lemma Send_loop_fd:
  "Send_loop evs so buffer sended wire = Some (ret, wire', so') \<Longrightarrow> sock_fd so' = sock_fd so"
proof (induction evs arbitrary: so sended wire)
  case Nil
  then show ?case by (subst (asm) Send_loop.simps) (auto split: if_splits)
next
  case (Cons ev evs)
  show ?case
  proof (cases ev)
    case (Accept n)
    show ?thesis
      using Cons.prems Cons.IH unfolding Accept
      by (subst (asm) Send_loop.simps) (auto simp: Let_def split: if_splits)
  next
    case (SendErr e)
    then show ?thesis
      using Cons.prems Cons.IH [of "so\<lparr>sock_error := e\<rparr>"]
      by (subst (asm) Send_loop.simps) (auto split: if_splits)
  qed
qed

text \<open>\<open>Socket::Send\<close> on a connection that stays up sends the whole buffer.\<close>

lemma Socket_Send_steady:
  assumes "sock_fd so \<ge> 0" and "list_all steady evs" and "length buffer \<le> accepted evs"
  shows "\<exists>so'. Socket_Send evs so buffer = Some (int (length buffer), buffer, so') \<and> sock_fd so' = sock_fd so"
  using Send_loop_steady [OF assms(1) _ assms(2), of 0 buffer "[]"] assms(3)
    Send_loop_fd [of evs so buffer 0 "[]"]
  by (auto simp: Socket_Send_def)

text \<open>While the kernel answers only EAGAIN, the call does not return.\<close>

lemma Send_loop_spins:
  "sock_fd so \<ge> 0 \<Longrightarrow> sended < length buffer \<Longrightarrow>
   Send_loop (replicate n (SendErr EAGAIN)) so buffer sended wire = None"
  by (induction n arbitrary: so) (subst Send_loop.simps, simp)+

lemma Socket_Send_missing: "sock_fd so < 0 \<Longrightarrow> buffer \<noteq> [] \<Longrightarrow> Socket_Send evs so buffer = Some (-1, [], so)"
  by (simp add: Socket_Send_def Send_loop.simps [of evs so buffer])

end
