(* ===== verification/SocketMgr.thy ===== *)
theory SocketMgr
  imports Sockets
begin

text \<open>
  \<open>Sockets/SocketMgr.{h,cpp}\<close>: \<open>ConnectionMgr\<close>, the table of connected sockets ordered by
  file descriptor, and the queue of sockets to be closed.

  A node of the \<open>std::map\<close> has an identity, \<open>node_id\<close>, which is what an iterator holds: an
  iterator stays valid until its node is erased, also when another node for the same key is
  inserted later.  \<open>closed\<close> records the descriptors passed to \<open>close\<close>, in order.
\<close>

section \<open>State\<close>

record node =
  node_id :: nat
  node_key :: int
  node_sock :: sock

datatype sock_iter = NodeAt nat | SocketsEnd

record conn_mgr =
  sockets :: "node list"
  queue :: "sock_iter list"
  closeImmediatly :: bool
  next_id :: nat
  closed :: "int list"

definition ConnectionMgr :: conn_mgr where
  "ConnectionMgr = \<lparr>sockets = [], queue = [], closeImmediatly = False, next_id = 0, closed = []\<rparr>"

definition find_key :: "node list \<Rightarrow> int \<Rightarrow> node option" where
  "find_key ns fd = find (\<lambda>n. node_key n = fd) ns"

definition find_id :: "node list \<Rightarrow> nat \<Rightarrow> node option" where
  "find_id ns i = find (\<lambda>n. node_id n = i) ns"

text \<open>Dereferencing an iterator: the end and erased nodes have no element.\<close>

definition deref :: "conn_mgr \<Rightarrow> sock_iter \<Rightarrow> node res" where
  "deref m it =
     (case it of
        SocketsEnd \<Rightarrow> Inl DanglingIterator
      | NodeAt i \<Rightarrow> (case find_id (sockets m) i of None \<Rightarrow> Inl DanglingIterator | Some n \<Rightarrow> Inr n))"

text \<open>\<open>it->second->Close(); sockets.erase(it)\<close>.\<close>

definition close_node :: "conn_mgr \<Rightarrow> sock_iter \<Rightarrow> conn_mgr res" where
  "close_node m it =
     rbind (deref m it) (\<lambda>n.
       Inr (m\<lparr>sockets := filter (\<lambda>n'. node_id n' \<noteq> node_id n) (sockets m),
              closed := closed m @ [sock_fd (node_sock n)]\<rparr>))"

section \<open>Operations\<close>

definition CanCloseImmediatly :: "bool \<Rightarrow> conn_mgr \<Rightarrow> bool \<times> conn_mgr" where
  "CanCloseImmediatly s m = (s, m\<lparr>closeImmediatly := s\<rparr>)"

definition ConnectionsCount :: "conn_mgr \<Rightarrow> nat" where
  "ConnectionsCount m = length (sockets m)"

text \<open>\<open>sockets.insert(pair(fd, s))\<close>.\<close>

definition sockets_insert :: "int \<Rightarrow> sock \<Rightarrow> conn_mgr \<Rightarrow> conn_mgr" where
  "sockets_insert fd s m =
     (case find_key (sockets m) fd of
        Some _ \<Rightarrow> m
      | None \<Rightarrow>
          m\<lparr>sockets := insort_key node_key
               \<lparr>node_id = next_id m, node_key = fd, node_sock = s\<rparr> (sockets m),
            next_id := Suc (next_id m)\<rparr>)"

definition AddSocket :: "sock \<Rightarrow> conn_mgr \<Rightarrow> conn_mgr" where
  "AddSocket s m =
     (if find_key (sockets m) (sock_fd s) \<noteq> None then m else sockets_insert (sock_fd s) s m)"

function close_all_loop :: "node list \<Rightarrow> int list \<Rightarrow> int list" where
  "close_all_loop ns cl =
     (if length ns > 0 then close_all_loop (tl ns) (cl @ [sock_fd (node_sock (hd ns))]) else cl)"
  by pat_completeness auto
termination
  by (relation "measure (\<lambda>(ns, cl). length ns)") auto

declare close_all_loop.simps [simp del]

definition CloseAllSockets :: "conn_mgr \<Rightarrow> conn_mgr" where
  "CloseAllSockets m = m\<lparr>sockets := [], closed := close_all_loop (sockets m) (closed m)\<rparr>"

function CloseAllPendingSockets :: "conn_mgr \<Rightarrow> conn_mgr res" where
  "CloseAllPendingSockets m =
     (if length (queue m) > 0 then
        (case close_node m (hd (queue m)) of
           Inl e \<Rightarrow> Inl e
         | Inr m' \<Rightarrow> CloseAllPendingSockets (m'\<lparr>queue := tl (queue m)\<rparr>))
      else Inr m)"
  by pat_completeness auto
termination
  by (relation "measure (\<lambda>m. length (queue m))") auto

declare CloseAllPendingSockets.simps [simp del]

text \<open>The common tail of the three ways to close: at once, or by the queue.\<close>

definition CloseSocket :: "sock_iter \<Rightarrow> conn_mgr \<Rightarrow> conn_mgr res" where
  "CloseSocket it m =
     (if closeImmediatly m then close_node m it else Inr (m\<lparr>queue := queue m @ [it]\<rparr>))"

definition GetSocketMapElementById :: "nat \<Rightarrow> conn_mgr \<Rightarrow> sock_iter" where
  "GetSocketMapElementById i m =
     (if i > length (sockets m) then SocketsEnd
      else if i = length (sockets m) then SocketsEnd
      else NodeAt (node_id (sockets m ! i)))"

definition CloseSocketById :: "nat \<Rightarrow> conn_mgr \<Rightarrow> conn_mgr res" where
  "CloseSocketById i m =
     (if i > length (sockets m) then Inr m
      else
        (let it = GetSocketMapElementById i m
         in if it = SocketsEnd then Inr m
            else if closeImmediatly m then close_node m it
            else Inr (m\<lparr>queue := queue m @ [it]\<rparr>)))"

definition CloseSocketByFd :: "int \<Rightarrow> conn_mgr \<Rightarrow> conn_mgr res" where
  "CloseSocketByFd fd m =
     (case find_key (sockets m) fd of
        None \<Rightarrow> Inr m
      | Some n \<Rightarrow>
          if closeImmediatly m then close_node m (NodeAt (node_id n))
          else Inr (m\<lparr>queue := queue m @ [NodeAt (node_id n)]\<rparr>))"

definition GetSocketByFd :: "int \<Rightarrow> conn_mgr \<Rightarrow> sock option" where
  "GetSocketByFd fd m = map_option node_sock (find_key (sockets m) fd)"

definition GetSocketById :: "nat \<Rightarrow> conn_mgr \<Rightarrow> sock res" where
  "GetSocketById i m =
     (if i > length (sockets m) then
        (case sockets m of [] \<Rightarrow> Inl DanglingIterator | n # _ \<Rightarrow> Inr (node_sock n))
      else rbind (deref m (GetSocketMapElementById i m)) (\<lambda>n. Inr (node_sock n)))"

definition GetHighestFd :: "conn_mgr \<Rightarrow> int res" where
  "GetHighestFd m =
     (if length (sockets m) = 0 then Inr 0
      else rbind (deref m (GetSocketMapElementById (length (sockets m) - 1) m))
             (\<lambda>n. Inr (sock_fd (node_sock n))))"

section \<open>The invariant\<close>

text \<open>
  The table is ordered by descriptor, its nodes are different, and every node is filed under
  its socket's descriptor.
\<close>

definition wf_mgr :: "conn_mgr \<Rightarrow> bool" where
  "wf_mgr m \<longleftrightarrow>
     sorted (map node_key (sockets m)) \<and> distinct (map node_key (sockets m))
     \<and> distinct (map node_id (sockets m))
     \<and> (\<forall>n \<in> set (sockets m). node_id n < next_id m \<and> node_key n = sock_fd (node_sock n))"

definition fds :: "conn_mgr \<Rightarrow> int list" where
  "fds m = map node_key (sockets m)"

text \<open>An iterator that may be dereferenced.\<close>

definition live :: "conn_mgr \<Rightarrow> sock_iter \<Rightarrow> bool" where
  "live m it \<longleftrightarrow> (\<exists>n \<in> set (sockets m). it = NodeAt (node_id n))"

definition queue_ok :: "conn_mgr \<Rightarrow> bool" where
  "queue_ok m \<longleftrightarrow> distinct (queue m) \<and> list_all (live m) (queue m)"

lemma find_key_Some: "find_key ns fd = Some n \<Longrightarrow> n \<in> set ns \<and> node_key n = fd"
  by (auto simp: find_key_def find_Some_iff)

lemma find_key_None: "(find_key ns fd = None) = (fd \<notin> node_key ` set ns)"
  by (auto simp: find_key_def find_None_iff)

lemma find_id_member: "distinct (map node_id ns) \<Longrightarrow> n \<in> set ns \<Longrightarrow> find_id ns (node_id n) = Some n"
  by (induction ns) (auto simp: find_id_def)

lemma deref_member: "wf_mgr m \<Longrightarrow> n \<in> set (sockets m) \<Longrightarrow> deref m (NodeAt (node_id n)) = Inr n"
  by (simp add: deref_def wf_mgr_def find_id_member)

lemma deref_dead: "\<not> live m it \<Longrightarrow> deref m it = Inl DanglingIterator"
  by (cases it) (auto simp: deref_def live_def find_id_def find_Some_iff split: option.splits)

lemma wf_init_mgr [simp]: "wf_mgr ConnectionMgr"
  by (simp add: wf_mgr_def ConnectionMgr_def)

lemma sorted_map_filter: "sorted (map f xs) \<Longrightarrow> sorted (map f (filter P xs))"
  by (induction xs) (auto simp: sorted_wrt_map)

lemma distinct_map_filter: "distinct (map f xs) \<Longrightarrow> distinct (map f (filter P xs))"
  by (induction xs) auto

lemma wf_filter: "wf_mgr m \<Longrightarrow> wf_mgr (m\<lparr>sockets := filter P (sockets m), closed := c\<rparr>)"
  by (auto simp: wf_mgr_def sorted_map_filter distinct_map_filter)

lemma close_node_wf: "wf_mgr m \<Longrightarrow> close_node m it = Inr m' \<Longrightarrow> wf_mgr m'"
  by (auto simp: close_node_def res_simps wf_filter)

lemma wf_queue: "wf_mgr m \<Longrightarrow> wf_mgr (m\<lparr>queue := q\<rparr>)"
  by (simp add: wf_mgr_def)

lemma distinct_insort_map: "distinct (map f (insort_key g x xs)) = (f x \<notin> f ` set xs \<and> distinct (map f xs))"
  by (induction xs) (auto simp: set_insort_key)

lemma AddSocket_wf:
  assumes "wf_mgr m"
  shows "wf_mgr (AddSocket s m)"
proof (cases "find_key (sockets m) (sock_fd s)")
  case None
  then have "sock_fd s \<notin> node_key ` set (sockets m)" by (simp add: find_key_None)
  moreover have "next_id m \<notin> node_id ` set (sockets m)" using assms by (auto simp: wf_mgr_def)
  ultimately show ?thesis
    using assms None
    by (auto simp: AddSocket_def sockets_insert_def wf_mgr_def sorted_insort_key distinct_insort_map set_insort_key)
next
  case (Some n)
  then show ?thesis using assms by (simp add: AddSocket_def)
qed

lemma AddSocket_keys: "set (fds (AddSocket s m)) = insert (sock_fd s) (set (fds m))"
  using find_key_None [of "sockets m" "sock_fd s"]
  by (auto simp: AddSocket_def sockets_insert_def fds_def set_insort_key)

lemma find_insort:
  "find_key (insort_key node_key n ns) fd =
     (if fd = node_key n \<and> fd \<notin> node_key ` set ns then Some n else
      if fd = node_key n then find_key (insort_key node_key n ns) fd else find_key ns fd)"
proof -
  have "find_key (insort_key node_key n ns) fd = Some n"
    if "fd = node_key n" "fd \<notin> node_key ` set ns"
    using that by (induction ns) (auto simp: find_key_def)
  moreover have "find_key (insort_key node_key n ns) fd = find_key ns fd" if "fd \<noteq> node_key n"
    using that by (induction ns) (auto simp: find_key_def)
  ultimately show ?thesis by auto
qed

lemma AddSocket_insert: "AddSocket s m = sockets_insert (sock_fd s) s m"
  by (simp add: AddSocket_def sockets_insert_def split: option.splits)

text \<open>The table fulfils the contract of \<open>std::map::insert\<close>.\<close>

interpretation socket_table: insert_once "\<lambda>m fd. GetSocketByFd fd m" sockets_insert
proof
  fix fd :: int and s :: sock and m :: conn_mgr
  show "(\<lambda>fd'. GetSocketByFd fd' (sockets_insert fd s m)) =
     (case GetSocketByFd fd m of
        None \<Rightarrow> (\<lambda>fd'. GetSocketByFd fd' m)(fd \<mapsto> s) | Some _ \<Rightarrow> (\<lambda>fd'. GetSocketByFd fd' m))"
    using find_key_None [of "sockets m" fd]
    by (auto simp: GetSocketByFd_def sockets_insert_def find_insort fun_eq_iff split: option.splits)
qed

section \<open>Closing\<close>

lemma close_node_live:
  assumes "wf_mgr m" and "n \<in> set (sockets m)"
  shows "close_node m (NodeAt (node_id n)) =
    Inr (m\<lparr>sockets := filter (\<lambda>n'. node_id n' \<noteq> node_id n) (sockets m),
           closed := closed m @ [node_key n]\<rparr>)"
  using assms deref_member [OF assms] by (simp add: close_node_def wf_mgr_def)

lemma CloseSocket_wf: "wf_mgr m \<Longrightarrow> CloseSocket it m = Inr m' \<Longrightarrow> wf_mgr m'"
  by (auto simp: CloseSocket_def wf_queue close_node_wf split: if_splits)

lemma CloseSocketById_wf: "wf_mgr m \<Longrightarrow> CloseSocketById i m = Inr m' \<Longrightarrow> wf_mgr m'"
  by (auto simp: CloseSocketById_def wf_queue close_node_wf Let_def split: if_splits)

lemma CloseSocketByFd_wf: "wf_mgr m \<Longrightarrow> CloseSocketByFd fd m = Inr m' \<Longrightarrow> wf_mgr m'"
  by (auto simp: CloseSocketByFd_def wf_queue close_node_wf split: if_splits option.splits)

lemma pending_wf: "wf_mgr m \<Longrightarrow> CloseAllPendingSockets m = Inr m' \<Longrightarrow> wf_mgr m'"
proof (induction m rule: CloseAllPendingSockets.induct)
  case (1 m)
  show ?case
  proof (cases "length (queue m) > 0")
    case True
    then obtain m1 where m1: "close_node m (hd (queue m)) = Inr m1"
      "CloseAllPendingSockets (m1\<lparr>queue := tl (queue m)\<rparr>) = Inr m'"
      using "1.prems"(2) by (subst (asm) CloseAllPendingSockets.simps) (auto split: sum.splits)
    show ?thesis
      using "1.IH" [OF True m1(1)] m1 "1.prems"(1) by (auto intro: close_node_wf wf_queue)
  next
    case False
    then show ?thesis using "1.prems" by (subst (asm) CloseAllPendingSockets.simps) simp
  qed
qed

lemma close_all_loop_keys: "close_all_loop ns cl = cl @ map (\<lambda>n. sock_fd (node_sock n)) ns"
  by (induction ns arbitrary: cl) (simp_all add: close_all_loop.simps)

text \<open>The descriptors of the nodes waiting in the queue.\<close>

definition queue_nodes :: "conn_mgr \<Rightarrow> node list" where
  "queue_nodes m = map (\<lambda>it. case deref m it of Inr n \<Rightarrow> n | Inl _ \<Rightarrow> undefined) (queue m)"

lemma live_node: "live m it \<Longrightarrow> \<exists>n \<in> set (sockets m). it = NodeAt (node_id n)"
  by (simp add: live_def)

text \<open>A queue of different live nodes is closed in order, each node once, and nothing else.\<close>

lemma pending_closes:
  "wf_mgr m \<Longrightarrow> queue m = map (\<lambda>n. NodeAt (node_id n)) ns \<Longrightarrow> set ns \<subseteq> set (sockets m) \<Longrightarrow>
   distinct (map node_id ns) \<Longrightarrow>
   CloseAllPendingSockets m =
     Inr (m\<lparr>sockets := filter (\<lambda>n. node_id n \<notin> node_id ` set ns) (sockets m),
            queue := [], closed := closed m @ map node_key ns\<rparr>)"
proof (induction ns arbitrary: m)
  case Nil
  then show ?case by (subst CloseAllPendingSockets.simps) simp
next
  case (Cons n ns)
  let ?m = "m\<lparr>sockets := filter (\<lambda>n'. node_id n' \<noteq> node_id n) (sockets m),
              closed := closed m @ [node_key n]\<rparr>"
  let ?m' = "?m\<lparr>queue := map (\<lambda>n. NodeAt (node_id n)) ns\<rparr>"
  have n: "n \<in> set (sockets m)" using Cons.prems(3) by simp
  have "CloseAllPendingSockets m = CloseAllPendingSockets ?m'"
    using Cons.prems(2) close_node_live [OF Cons.prems(1) n]
    by (subst CloseAllPendingSockets.simps) simp
  also have "\<dots> = Inr (?m'\<lparr>sockets := filter (\<lambda>n. node_id n \<notin> node_id ` set ns) (sockets ?m'),
            queue := [], closed := closed ?m' @ map node_key ns\<rparr>)"
  proof (rule Cons.IH)
    show "wf_mgr ?m'"
      using Cons.prems(1) wf_filter [of m] by (intro wf_queue) simp
    show "set ns \<subseteq> set (sockets ?m')"
    proof
      fix x assume x: "x \<in> set ns"
      then have "node_id x \<noteq> node_id n" using Cons.prems(4) by (metis distinct.simps(2) image_eqI list.map(2) set_map)
      then show "x \<in> set (sockets ?m')" using x Cons.prems(3) by auto
    qed
    show "distinct (map node_id ns)" using Cons.prems(4) by simp
  qed simp
  finally show ?case by (simp add: conj_commute)
qed

text \<open>A node queued twice is used after it was erased.\<close>

lemma pending_twice:
  assumes "wf_mgr m" and "n \<in> set (sockets m)"
    and "queue m = NodeAt (node_id n) # NodeAt (node_id n) # rest"
  shows "CloseAllPendingSockets m = Inl DanglingIterator"
proof -
  let ?m = "m\<lparr>sockets := filter (\<lambda>n'. node_id n' \<noteq> node_id n) (sockets m),
              closed := closed m @ [node_key n], queue := NodeAt (node_id n) # rest\<rparr>"
  have "\<not> live ?m (NodeAt (node_id n))" by (auto simp: live_def)
  then have "close_node ?m (NodeAt (node_id n)) = Inl DanglingIterator"
    by (simp add: close_node_def deref_dead)
  then have "CloseAllPendingSockets ?m = Inl DanglingIterator"
    by (subst CloseAllPendingSockets.simps) simp
  then show ?thesis
    using assms(3) close_node_live [OF assms(1,2)]
    by (subst CloseAllPendingSockets.simps) simp
qed

lemma find_key_member:
  "wf_mgr m \<Longrightarrow> n \<in> set (sockets m) \<Longrightarrow> find_key (sockets m) (node_key n) = Some n"
proof -
  assume w: "wf_mgr m" and n: "n \<in> set (sockets m)"
  have "distinct (map node_key ns) \<Longrightarrow> n \<in> set ns \<Longrightarrow> find_key ns (node_key n) = Some n" for ns
    by (induction ns) (auto simp: find_key_def)
  then show ?thesis using w n by (simp add: wf_mgr_def)
qed

lemma GetSocketByFd_fd: "wf_mgr m \<Longrightarrow> GetSocketByFd fd m = Some s \<Longrightarrow> sock_fd s = fd"
  by (auto simp: GetSocketByFd_def wf_mgr_def dest!: find_key_Some)

text \<open>\<open>GetHighestFd\<close> is what \<open>select\<close> needs: no descriptor of the table exceeds it.\<close>

lemma GetHighestFd_max:
  assumes "wf_mgr m"
  shows "GetHighestFd m = Inr (if sockets m = [] then 0 else Max (set (fds m)))"
proof (cases "sockets m = []")
  case False
  let ?i = "length (sockets m) - 1"
  let ?n = "sockets m ! ?i"
  have l: "?i < length (sockets m)" using False by (cases "sockets m") auto
  have n: "?n \<in> set (sockets m)" using l by simp
  have "Max (set (fds m)) = node_key ?n"
  proof (rule Max_eqI)
    fix fd assume "fd \<in> set (fds m)"
    then obtain j where j: "j < length (sockets m)" "fd = map node_key (sockets m) ! j"
      by (auto simp: fds_def in_set_conv_nth)
    then have "fd \<le> map node_key (sockets m) ! ?i"
      using assms l sorted_nth_mono [of "map node_key (sockets m)" j ?i] by (simp add: wf_mgr_def)
    then show "fd \<le> node_key ?n" using l by simp
  qed (use n in \<open>auto simp: fds_def\<close>)
  moreover have "GetHighestFd m = Inr (sock_fd (node_sock ?n))"
    using False l deref_member [OF assms n]
    by (cases "sockets m") (simp_all add: GetHighestFd_def GetSocketMapElementById_def)
  ultimately show ?thesis using False assms n by (simp add: wf_mgr_def)
qed (simp add: GetHighestFd_def)

section \<open>Reachable tables\<close>

inductive mgr_step :: "conn_mgr \<Rightarrow> conn_mgr \<Rightarrow> bool" where
  step_add: "mgr_step m (AddSocket s m)"
| step_fd: "CloseSocketByFd fd m = Inr m' \<Longrightarrow> mgr_step m m'"
| step_id: "CloseSocketById i m = Inr m' \<Longrightarrow> mgr_step m m'"
| step_iter: "CloseSocket it m = Inr m' \<Longrightarrow> mgr_step m m'"
| step_pending: "CloseAllPendingSockets m = Inr m' \<Longrightarrow> mgr_step m m'"
| step_all: "mgr_step m (CloseAllSockets m)"
| step_immediate: "mgr_step m (snd (CanCloseImmediatly b m))"

inductive mgr_reach :: "conn_mgr \<Rightarrow> bool" where
  reach_init: "mgr_reach ConnectionMgr"
| reach_step: "mgr_reach m \<Longrightarrow> mgr_step m m' \<Longrightarrow> mgr_reach m'"

lemma mgr_step_wf: "mgr_step m m' \<Longrightarrow> wf_mgr m \<Longrightarrow> wf_mgr m'"
proof (induction rule: mgr_step.induct)
  case (step_all m)
  then show ?case by (simp add: wf_mgr_def CloseAllSockets_def)
next
  case (step_immediate b m)
  then show ?case by (simp add: wf_mgr_def CanCloseImmediatly_def)
qed (blast intro: AddSocket_wf CloseSocketByFd_wf CloseSocketById_wf CloseSocket_wf pending_wf)+

lemma mgr_reach_wf: "mgr_reach m \<Longrightarrow> wf_mgr m"
  by (induction rule: mgr_reach.induct) (auto intro: mgr_step_wf)

section \<open>Closing by descriptor\<close>

fun close_fds :: "int list \<Rightarrow> conn_mgr \<Rightarrow> conn_mgr res" where
  "close_fds [] m = Inr m"
| "close_fds (fd # fs) m = rbind (CloseSocketByFd fd m) (close_fds fs)"

lemma close_fds_queue:
  assumes "\<not> closeImmediatly m" and "set l \<subseteq> set (fds m)"
  shows "close_fds l m =
    Inr (m\<lparr>queue := queue m @ map (\<lambda>fd. NodeAt (node_id (the (find_key (sockets m) fd)))) l\<rparr>)"
  using assms
proof (induction l arbitrary: m)
  case (Cons fd l)
  obtain n where n: "find_key (sockets m) fd = Some n"
    using Cons.prems(2) find_key_None [of "sockets m" fd] by (auto simp: fds_def)
  let ?m = "m\<lparr>queue := queue m @ [NodeAt (node_id n)]\<rparr>"
  have "CloseSocketByFd fd m = Inr ?m" using n Cons.prems(1) by (simp add: CloseSocketByFd_def)
  then show ?case using n Cons.IH [of ?m] Cons.prems by (simp add: fds_def)
qed simp

lemma find_key_fd:
  assumes "wf_mgr m" and "fd \<in> set (fds m)"
  shows "\<exists>n \<in> set (sockets m). find_key (sockets m) fd = Some n \<and> node_key n = fd"
  using assms find_key_None [of "sockets m" fd] find_key_Some [of "sockets m" fd]
  by (auto simp: fds_def)

lemma node_by_id: "wf_mgr m \<Longrightarrow> n \<in> set (sockets m) \<Longrightarrow> n' \<in> set (sockets m) \<Longrightarrow>
  node_id n = node_id n' \<Longrightarrow> n = n'"
  unfolding wf_mgr_def distinct_map inj_on_def by blast

lemma node_by_key: "wf_mgr m \<Longrightarrow> n \<in> set (sockets m) \<Longrightarrow> n' \<in> set (sockets m) \<Longrightarrow>
  node_key n = node_key n' \<Longrightarrow> n = n'"
  unfolding wf_mgr_def distinct_map inj_on_def by blast

lemma close_fds_pending:
  assumes wf: "wf_mgr m" and q: "queue m = []" and imm: "\<not> closeImmediatly m"
    and l: "distinct l" "set l \<subseteq> set (fds m)"
  shows "\<exists>m'. rbind (close_fds l m) CloseAllPendingSockets = Inr m' \<and> wf_mgr m' \<and> queue m' = []
    \<and> closed m' = closed m @ l \<and> fds m' = filter (\<lambda>fd. fd \<notin> set l) (fds m)"
proof -
  let ?node = "\<lambda>fd. the (find_key (sockets m) fd)"
  let ?ns = "map ?node l"
  let ?m = "m\<lparr>queue := map (\<lambda>n. NodeAt (node_id n)) ?ns\<rparr>"
  have node: "?node fd \<in> set (sockets m) \<and> node_key (?node fd) = fd" if "fd \<in> set l" for fd
  proof -
    have "fd \<in> set (fds m)" using that l(2) by blast
    then show ?thesis using find_key_fd [OF wf] by fastforce
  qed
  have sub: "set ?ns \<subseteq> set (sockets ?m)" using node by auto
  have "inj_on (\<lambda>fd. node_id (?node fd)) (set l)"
    by (rule inj_onI) (metis node node_by_id [OF wf])
  then have dis: "distinct (map node_id ?ns)" using l(1) by (simp add: distinct_map comp_def)
  have keys: "map node_key ?ns = l" using node by (simp add: map_idI)
  have "(node_id n \<in> node_id ` set ?ns) = (node_key n \<in> set l)" if n: "n \<in> set (sockets m)" for n
  proof
    assume "node_id n \<in> node_id ` set ?ns"
    then obtain fd where "fd \<in> set l" "node_id n = node_id (?node fd)" by auto
    then show "node_key n \<in> set l" using node [of fd] node_by_id [OF wf n, of "?node fd"] by auto
  next
    assume k: "node_key n \<in> set l"
    then have "n = ?node (node_key n)" using node [OF k] node_by_key [OF wf n] by auto
    then show "node_id n \<in> node_id ` set ?ns" using k by auto
  qed
  then have flt: "filter (\<lambda>n. node_id n \<notin> node_id ` set ?ns) (sockets m) =
      filter (\<lambda>n. node_key n \<notin> set l) (sockets m)"
    by (intro filter_cong) auto
  have "close_fds l m = Inr ?m" using close_fds_queue [OF imm l(2)] q by (simp add: comp_def)
  then have "rbind (close_fds l m) CloseAllPendingSockets =
      Inr (?m\<lparr>sockets := filter (\<lambda>n. node_key n \<notin> set l) (sockets m), queue := [],
              closed := closed m @ l\<rparr>)"
    using pending_closes [OF wf_queue [OF wf] _ sub dis] keys flt by simp
  moreover have "wf_mgr (?m\<lparr>sockets := filter (\<lambda>n. node_key n \<notin> set l) (sockets m), queue := [],
              closed := closed m @ l\<rparr>)"
    using wf by (auto simp: wf_mgr_def sorted_map_filter distinct_map_filter)
  ultimately show ?thesis by (simp add: fds_def filter_map comp_def)
qed

lemma close_fd_twice:
  assumes "wf_mgr m" and "queue m = []" and "\<not> closeImmediatly m" and "fd \<in> set (fds m)"
  shows "rbind (close_fds [fd, fd] m) CloseAllPendingSockets = Inl DanglingIterator"
proof -
  obtain n where n: "n \<in> set (sockets m)" "find_key (sockets m) fd = Some n"
    using find_key_fd [OF assms(1,4)] by blast
  let ?m = "m\<lparr>queue := [NodeAt (node_id n), NodeAt (node_id n)]\<rparr>"
  have "close_fds [fd, fd] m = Inr ?m"
    using close_fds_queue [OF assms(3), of "[fd, fd]"] assms(2,4) n by simp
  moreover have "CloseAllPendingSockets ?m = Inl DanglingIterator"
    using pending_twice [OF wf_queue [OF assms(1)], of n] n by simp
  ultimately show ?thesis by simp
qed

section \<open>Properties\<close>

text \<open>
  C13. In every state that the operations of \<open>ConnectionMgr\<close> can reach, the table is ordered by
  descriptor without duplicates, every node has its own identity, and every socket is filed
  under its own descriptor.
\<close>

theorem socket_table_invariant:
  assumes "mgr_reach m"
  shows "wf_mgr m"
  using assms by (rule mgr_reach_wf)

theorem socket_table_invariant_witness:
  "wf_mgr (AddSocket (Socket 0 4) (AddSocket (Socket 0 7) ConnectionMgr))"
  by (rule socket_table_invariant) (intro reach_step [OF _ step_add] reach_init)

text \<open>
  C14. Closing is deferred: descriptors handed to \<open>CloseSocketByFd\<close> stay in the table until
  \<open>CloseAllPendingSockets\<close>, which closes exactly these, each once and in the order of the calls,
  and leaves the others.
\<close>

theorem deferred_close_exact:
  assumes "wf_mgr m" and "queue m = []" and "\<not> closeImmediatly m"
    and "distinct l" and "set l \<subseteq> set (fds m)"
  shows "\<exists>m'. rbind (close_fds l m) CloseAllPendingSockets = Inr m' \<and> queue m' = []
    \<and> closed m' = closed m @ l \<and> fds m' = filter (\<lambda>fd. fd \<notin> set l) (fds m)"
  using close_fds_pending [OF assms] by blast

definition sample_mgr :: conn_mgr where
  "sample_mgr = fold AddSocket [Socket 0 7, Socket 0 4, Socket 0 9] ConnectionMgr"

lemma sample_mgr_wf: "wf_mgr sample_mgr"
  by (simp add: sample_mgr_def AddSocket_wf)

lemma sample_mgr_simps:
  "fds sample_mgr = [4, 7, 9]" "queue sample_mgr = []" "\<not> closeImmediatly sample_mgr"
  by (simp_all add: sample_mgr_def AddSocket_def sockets_insert_def find_key_def ConnectionMgr_def
      Socket_def fds_def)

theorem deferred_close_exact_witness:
  "\<exists>m'. rbind (close_fds [9, 4] sample_mgr) CloseAllPendingSockets = Inr m' \<and> queue m' = []
    \<and> closed m' = closed sample_mgr @ [9, 4]
    \<and> fds m' = filter (\<lambda>fd. fd \<notin> set [9, 4]) (fds sample_mgr)"
  by (rule deferred_close_exact) (simp_all add: sample_mgr_wf sample_mgr_simps)

text \<open>
  A socket queued twice before the queue is worked off (once by the protocol's QUIT, once by
  the network thread that finds the descriptor closed) is erased twice: the second time through
  an iterator that is no longer valid.
\<close>

theorem closing_twice_undefined:
  assumes "wf_mgr m" and "queue m = []" and "\<not> closeImmediatly m" and "fd \<in> set (fds m)"
  shows "rbind (close_fds [fd, fd] m) CloseAllPendingSockets = Inl DanglingIterator"
  using close_fd_twice [OF assms] .

theorem closing_twice_undefined_witness:
  "rbind (close_fds [7, 7] sample_mgr) CloseAllPendingSockets = Inl DanglingIterator"
  by (rule closing_twice_undefined) (simp_all add: sample_mgr_wf sample_mgr_simps)

text \<open>
  \<open>GetHighestFd\<close> gives the bound that \<open>select\<close> needs: the maximum of the descriptors in the
  table, 0 for an empty one, in every reachable state and without undefined behaviour.
\<close>

theorem highest_fd_is_max:
  assumes "mgr_reach m"
  shows "GetHighestFd m = Inr (if sockets m = [] then 0 else Max (set (fds m)))"
  using GetHighestFd_max [OF mgr_reach_wf [OF assms]] .

theorem highest_fd_is_max_witness:
  "GetHighestFd sample_mgr =
     Inr (if sockets sample_mgr = [] then 0 else Max (set (fds sample_mgr)))"
  by (rule highest_fd_is_max)
    (auto simp: sample_mgr_def intro!: reach_step [OF _ step_add] reach_init)

end
