(* ===== verification/Handler.thy ===== *)
theory Handler
  imports BinDataProps
begin

text \<open>
  \<open>Handling/Handler.{h,cpp}\<close>: \<open>PacketHandler\<close>, the queue through which the network thread hands
  events to the protocol, and the list of delayed events.

  An event holds a reference to a \<open>BinnaryData\<close> on the heap; copying the event copies the
  reference.  The heap maps references to live objects, and \<open>delete &event.data\<close> removes one:
  using or deleting an object that is gone is \<open>DoubleFree\<close>.  The calls into the protocol library
  are recorded in \<open>calls\<close>, with what the library can see of the data.
\<close>

section \<open>Events\<close>

datatype event_type =
    EVENT_CONNECT | EVENT_RECIEVE | EVENT_SEND | EVENT_DISCONNECT
  | EVENT_CONNECT_DELAYED | EVENT_RECIEVE_DELAYED | EVENT_SEND_DELAYED | EVENT_DISCONNECT_DELAYED

record event =
  EventType :: event_type
  ev_fd :: int
  ev_address :: nat
  ev_data :: nat
  ev_recieved :: int
  ev_errorcode :: int

record delayed_event =
  de_event :: event
  msDelay :: nat
  updated :: timeval

definition DelayedEvent :: "timeval \<Rightarrow> nat \<Rightarrow> event \<Rightarrow> delayed_event" where
  "DelayedEvent now delay e = \<lparr>de_event = e, msDelay = delay, updated = now\<rparr>"

definition DelayedEvent_default :: "timeval \<Rightarrow> event \<Rightarrow> delayed_event" where
  "DelayedEvent_default now e = \<lparr>de_event = e, msDelay = 1000, updated = now\<rparr>"

definition Execute :: "delayed_event \<Rightarrow> bool" where
  "Execute d \<longleftrightarrow> msDelay d = 0"

definition Update_delay :: "timeval \<Rightarrow> nat \<Rightarrow> delayed_event \<Rightarrow> delayed_event" where
  "Update_delay now diff d =
     d\<lparr>msDelay := msDelay d - (if msDelay d > diff then diff else msDelay d), updated := now\<rparr>"

definition SetDelay :: "timeval \<Rightarrow> nat \<Rightarrow> delayed_event \<Rightarrow> delayed_event" where
  "SetDelay now delay d = d\<lparr>msDelay := delay, updated := now\<rparr>"

section \<open>The handler\<close>

text \<open>The library's functions; \<open>None\<close> in a call is the NULL of an empty buffer.\<close>

datatype call =
    OnConnect nat int
  | OnRecieve nat int "string option"
  | OnSend "string option"
  | OnDisconnect nat int
  | OnConnectDelayed nat int
  | OnRecieveDelayed nat int "string option"
  | OnSendDelayed "string option"
  | OnDisconnectDelayed nat int

record protocol =
  hasConnect :: bool
  hasRecieve :: bool
  hasSend :: bool
  hasDisconnect :: bool
  hasConnectDelayed :: bool
  hasRecieveDelayed :: bool
  hasSendDelayed :: bool
  hasDisconnectDelayed :: bool

record handler =
  ev_queue :: "event list"
  delayedQueue :: "delayed_event list"
  process :: bool
  diffTime :: nat
  heap :: "nat \<Rightarrow> bindata option"
  calls :: "call list"

definition PacketHandler :: handler where
  "PacketHandler =
     \<lparr>ev_queue = [], delayedQueue = [], process = True, diffTime = 0, heap = (\<lambda>_. None), calls = []\<rparr>"

definition AddEvent :: "event \<Rightarrow> handler \<Rightarrow> handler" where
  "AddEvent e h = h\<lparr>ev_queue := ev_queue h @ [e]\<rparr>"

definition AddDelayedEvent :: "delayed_event \<Rightarrow> handler \<Rightarrow> handler" where
  "AddDelayedEvent e h = h\<lparr>delayedQueue := delayedQueue h @ [e]\<rparr>"

definition Terminate_handler :: "handler \<Rightarrow> handler" where
  "Terminate_handler h = h\<lparr>delayedQueue := [], ev_queue := [], process := False\<rparr>"

section \<open>Delayed events\<close>

text \<open>
  The first loop of \<open>UpdateDelayed\<close> advances every delay to the time \<open>now\<close> and queues the events
  that are due.
\<close>

fun advance_loop :: "timeval \<Rightarrow> delayed_event list \<Rightarrow> event list \<Rightarrow> delayed_event list \<times> event list" where
  "advance_loop now [] q = ([], q)"
| "advance_loop now (d # ds) q =
     (let d' = Update_delay now (getMsTimeDiffToNow now (updated d)) d;
          q' = (if Execute d' then q @ [de_event d'] else q);
          (ds', q'') = advance_loop now ds q'
      in (d' # ds', q''))"

text \<open>
  The second loop erases what is due.  After an erasure the iterator is set to the first element
  and then advanced by the loop header, so the first element is not looked at again.
\<close>

function erase_loop :: "delayed_event list \<Rightarrow> nat \<Rightarrow> delayed_event list" where
  "erase_loop ds i =
     (if i < length ds then
        (if Execute (ds ! i) then
           (let ds' = take i ds @ drop (Suc i) ds
            in if ds' = [] then [] else erase_loop ds' (Suc 0))
         else erase_loop ds (Suc i))
      else ds)"
  by pat_completeness auto
termination
  by (relation "measures [\<lambda>(ds, i). length ds, \<lambda>(ds, i). length ds - i]") auto

declare erase_loop.simps [simp del]

definition UpdateDelayed :: "timeval \<Rightarrow> handler \<Rightarrow> handler" where
  "UpdateDelayed now h =
     (if length (delayedQueue h) = 0 then h
      else
        (let (ds, q) = advance_loop now (delayedQueue h) (ev_queue h)
         in h\<lparr>delayedQueue := erase_loop ds 0, ev_queue := q\<rparr>))"

section \<open>Dispatch\<close>

definition call_with :: "(string option \<Rightarrow> call) \<Rightarrow> nat \<Rightarrow> handler \<Rightarrow> handler res" where
  "call_with c r h =
     (case heap h r of
        None \<Rightarrow> Inl DoubleFree
      | Some d \<Rightarrow> Inr (h\<lparr>calls := calls h @ [c (bd_data d)]\<rparr>))"

definition delete_data :: "nat \<Rightarrow> handler \<Rightarrow> handler res" where
  "delete_data r h =
     (case heap h r of
        None \<Rightarrow> Inl DoubleFree
      | Some _ \<Rightarrow> Inr (h\<lparr>heap := (heap h)(r := None)\<rparr>))"

definition call_plain :: "call \<Rightarrow> handler \<Rightarrow> handler" where
  "call_plain c h = h\<lparr>calls := calls h @ [c]\<rparr>"

definition dispatch :: "protocol \<Rightarrow> event \<Rightarrow> handler \<Rightarrow> handler res" where
  "dispatch p e h =
     (case EventType e of
        EVENT_CONNECT \<Rightarrow>
          Inr (if hasConnect p then call_plain (OnConnect (ev_address e) (ev_fd e)) h else h)
      | EVENT_RECIEVE \<Rightarrow>
          rbind (if hasRecieve p then call_with (OnRecieve (ev_address e) (ev_fd e)) (ev_data e) h
                 else Inr h) (delete_data (ev_data e))
      | EVENT_SEND \<Rightarrow>
          rbind (if hasSend p then call_with OnSend (ev_data e) h else Inr h)
            (delete_data (ev_data e))
      | EVENT_DISCONNECT \<Rightarrow>
          Inr (if hasDisconnect p then call_plain (OnDisconnect (ev_address e) (ev_fd e)) h else h)
      | EVENT_CONNECT_DELAYED \<Rightarrow>
          Inr (if hasConnectDelayed p
               then call_plain (OnConnectDelayed (ev_address e) (ev_fd e)) h else h)
      | EVENT_RECIEVE_DELAYED \<Rightarrow>
          rbind (if hasRecieveDelayed p
                 then call_with (OnRecieveDelayed (ev_address e) (ev_fd e)) (ev_data e) h
                 else Inr h) (delete_data (ev_data e))
      | EVENT_SEND_DELAYED \<Rightarrow>
          rbind (if hasSendDelayed p then call_with OnSendDelayed (ev_data e) h else Inr h)
            (delete_data (ev_data e))
      | EVENT_DISCONNECT_DELAYED \<Rightarrow>
          Inr (if hasDisconnectDelayed p
               then call_plain (OnDisconnectDelayed (ev_address e) (ev_fd e)) h else h))"

text \<open>
  One round of \<open>ProcessQueue\<close>: the delayed events are advanced, then the front of the queue is
  processed and popped.  \<open>began\<close> is the start of the previous round; the flag tells that the
  thread suspends itself because nothing is left to do (it goes on with the front of the queue
  as it is when it is resumed, which is the queue given to the next round).
\<close>

definition process_round ::
  "protocol \<Rightarrow> timeval \<Rightarrow> timeval \<Rightarrow> handler \<Rightarrow> (bool \<times> handler) res" where
  "process_round p began now h =
     (let h1 = UpdateDelayed now h;
          h2 = h1\<lparr>diffTime := getMsTimeDiffToNow now began\<rparr>
      in (case ev_queue h2 of
            [] \<Rightarrow> Inr (length (delayedQueue h2) = 0, h2)
          | e # q \<Rightarrow> rbind (dispatch p e h2) (\<lambda>h3. Inr (False, h3\<lparr>ev_queue := q\<rparr>))))"

text \<open>Rounds that follow each other while nothing is added.\<close>

fun process_rounds :: "protocol \<Rightarrow> timeval \<Rightarrow> nat \<Rightarrow> handler \<Rightarrow> handler res" where
  "process_rounds p now 0 h = Inr h"
| "process_rounds p now (Suc n) h =
     (if process h then rbind (process_round p now now h) (\<lambda>(_, h). process_rounds p now n h)
      else Inr h)"

section \<open>What the loops over delayed events compute\<close>

definition due :: "timeval \<Rightarrow> delayed_event \<Rightarrow> bool" where
  "due now d \<longleftrightarrow> msDelay d \<le> getMsTimeDiffToNow now (updated d)"

definition tick :: "timeval \<Rightarrow> delayed_event \<Rightarrow> delayed_event" where
  "tick now d = Update_delay now (getMsTimeDiffToNow now (updated d)) d"

lemma Execute_tick: "Execute (tick now d) = due now d"
  by (auto simp: Execute_def tick_def Update_delay_def due_def)

lemma de_event_tick [simp]: "de_event (tick now d) = de_event d"
  by (simp add: tick_def Update_delay_def)

lemma advance_loop_eq:
  "advance_loop now ds q = (map (tick now) ds, q @ map de_event (filter (due now) ds))"
proof (induction ds arbitrary: q)
  case (Cons d ds)
  then show ?case
    using Execute_tick [of now d] de_event_tick [of now d]
    by (simp add: tick_def [symmetric] Let_def)
qed simp

definition erased :: "delayed_event list \<Rightarrow> delayed_event list" where
  "erased ds =
     (case ds of
        [] \<Rightarrow> []
      | x # xs \<Rightarrow>
          if Execute x then (case xs of [] \<Rightarrow> [] | y # ys \<Rightarrow> y # filter (\<lambda>d. \<not> Execute d) ys)
          else x # filter (\<lambda>d. \<not> Execute d) xs)"

lemma erase_loop_from:
  "list_all (\<lambda>d. \<not> Execute d) (tl (take i ds)) \<Longrightarrow> 0 < i \<Longrightarrow> ds \<noteq> [] \<Longrightarrow>
   erase_loop ds i = hd ds # filter (\<lambda>d. \<not> Execute d) (tl ds)"
proof (induction ds i rule: erase_loop.induct)
  case (1 ds i)
  obtain x xs where ds: "ds = x # xs" using "1.prems"(3) by (cases ds) auto
  obtain j where i: "i = Suc j" using "1.prems"(2) by (cases i) auto
  have before: "list_all (\<lambda>d. \<not> Execute d) (take j xs)" using "1.prems"(1) ds i by simp
  show ?case
  proof (cases "i < length ds")
    case False
    then have "take j xs = xs" using ds i by simp
    then have "filter (\<lambda>d. \<not> Execute d) xs = xs"
      using before by (metis filter_True list_all_iff)
    then show ?thesis using False ds by (subst erase_loop.simps) simp
  next
    case True
    then have j: "j < length xs" using ds i by simp
    then have xs: "xs = take j xs @ xs ! j # drop (Suc j) xs" by (rule id_take_nth_drop)
    show ?thesis
    proof (cases "Execute (ds ! i)")
      case ex: True
      let ?ds = "take i ds @ drop (Suc i) ds"
      have "erase_loop ds i = erase_loop ?ds (Suc 0)"
        using True ex ds i by (subst erase_loop.simps) simp
      also have "\<dots> = hd ?ds # filter (\<lambda>d. \<not> Execute d) (tl ?ds)"
        using "1.IH"(1) [OF True ex refl] ds i by simp
      also have "\<dots> = x # filter (\<lambda>d. \<not> Execute d) xs"
      proof -
        have nx: "Execute (xs ! j)" using ex ds i by simp
        have "filter (\<lambda>d. \<not> Execute d) xs =
            filter (\<lambda>d. \<not> Execute d) (take j xs @ xs ! j # drop (Suc j) xs)"
          using xs by (rule arg_cong)
        then show ?thesis using ds i nx by simp
      qed
      finally show ?thesis using ds by simp
    next
      case no: False
      have "list_all (\<lambda>d. \<not> Execute d) (take (Suc j) xs)"
        using before no ds i j by (simp add: take_Suc_conv_app_nth)
      then have "erase_loop ds (Suc i) = hd ds # filter (\<lambda>d. \<not> Execute d) (tl ds)"
        using "1.IH"(2) [OF True no] ds i by simp
      then show ?thesis using True no by (subst erase_loop.simps) simp
    qed
  qed
qed

lemma erase_loop_eq: "erase_loop ds 0 = erased ds"
proof (cases ds)
  case Nil
  then show ?thesis by (subst erase_loop.simps) (simp add: erased_def)
next
  case (Cons x xs)
  show ?thesis
  proof (cases "Execute x")
    case True
    then show ?thesis
      using Cons erase_loop_from [of "Suc 0" xs]
      by (subst erase_loop.simps) (auto simp: erased_def split: list.splits)
  next
    case False
    then show ?thesis
      using Cons erase_loop_from [of "Suc 0" ds]
      by (subst erase_loop.simps) (simp add: erased_def)
  qed
qed

lemma UpdateDelayed_eq:
  "UpdateDelayed now h =
     h\<lparr>delayedQueue := erased (map (tick now) (delayedQueue h)),
       ev_queue := ev_queue h @ map de_event (filter (due now) (delayedQueue h))\<rparr>"
  by (cases "delayedQueue h = []")
    (simp_all add: UpdateDelayed_def advance_loop_eq erase_loop_eq, simp add: erased_def)

text \<open>With at most one due event in the list, exactly the events that are not due stay.\<close>

lemma erased_single:
  assumes "length (filter Execute ds) \<le> 1"
  shows "erased ds = filter (\<lambda>d. \<not> Execute d) ds"
proof (cases ds)
  case (Cons x xs)
  have none: "\<forall>d \<in> set xs. \<not> Execute d" if "Execute x"
    using assms Cons that by (auto simp: filter_empty_conv)
  then have "filter (\<lambda>d. \<not> Execute d) xs = xs" if "Execute x"
    using that by (intro filter_True) blast
  then show ?thesis
    using Cons none by (cases xs) (auto simp: erased_def)
qed (simp add: erased_def)

lemma filter_Execute_tick:
  "filter Execute (map (tick now) ds) = map (tick now) (filter (due now) ds)"
  by (induction ds) (simp_all add: Execute_tick)

lemma filter_not_Execute_tick:
  "filter (\<lambda>d. \<not> Execute d) (map (tick now) ds) = map (tick now) (filter (\<lambda>d. \<not> due now d) ds)"
  by (induction ds) (simp_all add: Execute_tick)

section \<open>Order of dispatch\<close>

interpretation event_fifo: fifo ev_queue AddEvent
  by unfold_locales (simp add: AddEvent_def)

interpretation delayed_fifo: fifo delayedQueue AddDelayedEvent
  by unfold_locales (simp add: AddDelayedEvent_def)

definition owns_data :: "event \<Rightarrow> bool" where
  "owns_data e \<longleftrightarrow> EventType e \<in> {EVENT_RECIEVE, EVENT_SEND, EVENT_RECIEVE_DELAYED, EVENT_SEND_DELAYED}"

text \<open>The specification of one dispatch: which call is made for the event, if any.\<close>

definition call_of :: "protocol \<Rightarrow> (nat \<Rightarrow> bindata option) \<Rightarrow> event \<Rightarrow> call list" where
  "call_of p hp e =
     (let d = (case hp (ev_data e) of Some d \<Rightarrow> bd_data d | None \<Rightarrow> None);
          a = ev_address e; f = ev_fd e
      in (case EventType e of
            EVENT_CONNECT \<Rightarrow> if hasConnect p then [OnConnect a f] else []
          | EVENT_RECIEVE \<Rightarrow> if hasRecieve p then [OnRecieve a f d] else []
          | EVENT_SEND \<Rightarrow> if hasSend p then [OnSend d] else []
          | EVENT_DISCONNECT \<Rightarrow> if hasDisconnect p then [OnDisconnect a f] else []
          | EVENT_CONNECT_DELAYED \<Rightarrow> if hasConnectDelayed p then [OnConnectDelayed a f] else []
          | EVENT_RECIEVE_DELAYED \<Rightarrow> if hasRecieveDelayed p then [OnRecieveDelayed a f d] else []
          | EVENT_SEND_DELAYED \<Rightarrow> if hasSendDelayed p then [OnSendDelayed d] else []
          | EVENT_DISCONNECT_DELAYED \<Rightarrow>
              if hasDisconnectDelayed p then [OnDisconnectDelayed a f] else []))"

lemmas dispatch_defs =
  dispatch_def call_with_def delete_data_def call_plain_def call_of_def owns_data_def

lemma dispatch_live:
  assumes "owns_data e \<longrightarrow> heap h (ev_data e) \<noteq> None"
  shows "dispatch p e h = Inr (h\<lparr>calls := calls h @ call_of p (heap h) e,
           heap := (if owns_data e then (heap h)(ev_data e := None) else heap h)\<rparr>)"
  using assms by (cases "EventType e") (auto simp: dispatch_defs Let_def)

lemma dispatch_dead:
  assumes "owns_data e" and "heap h (ev_data e) = None"
  shows "dispatch p e h = Inl DoubleFree"
  using assms by (cases "EventType e") (auto simp: dispatch_defs)

lemma call_of_other:
  "r \<noteq> ev_data e \<Longrightarrow> call_of p (hp(r := None)) e = call_of p hp e"
  by (simp add: call_of_def)

lemma call_of_plain: "\<not> owns_data e \<Longrightarrow> call_of p hp e = call_of p hp' e"
  by (cases "EventType e") (simp_all add: call_of_def owns_data_def)

definition refs :: "event list \<Rightarrow> nat list" where
  "refs es = map ev_data (filter owns_data es)"

lemma process_round_immediate:
  assumes "delayedQueue h = []" and "ev_queue h = e # q"
    and "owns_data e \<longrightarrow> heap h (ev_data e) \<noteq> None"
  shows "process_round p now now h = Inr (False, h\<lparr>diffTime := getMsTimeDiffToNow now now,
           calls := calls h @ call_of p (heap h) e,
           heap := (if owns_data e then (heap h)(ev_data e := None) else heap h),
           ev_queue := q\<rparr>)"
  using assms by (simp add: process_round_def UpdateDelayed_def dispatch_live)

text \<open>All events queued are handled in the order of the queue, each once.\<close>

lemma process_rounds_fifo:
  "process h \<Longrightarrow> delayedQueue h = [] \<Longrightarrow> ev_queue h = es \<Longrightarrow> distinct (refs es) \<Longrightarrow>
   (\<forall>r \<in> set (refs es). heap h r \<noteq> None) \<Longrightarrow>
   \<exists>h'. process_rounds p now (length es) h = Inr h' \<and> ev_queue h' = []
      \<and> calls h' = calls h @ concat (map (call_of p (heap h)) es)
      \<and> heap h' = (\<lambda>r. if r \<in> set (refs es) then None else heap h r)"
proof (induction es arbitrary: h)
  case Nil
  then show ?case by (simp add: refs_def)
next
  case (Cons e es)
  let ?hp = "if owns_data e then (heap h)(ev_data e := None) else heap h"
  let ?h = "h\<lparr>diffTime := getMsTimeDiffToNow now now, calls := calls h @ call_of p (heap h) e,
      heap := ?hp, ev_queue := es\<rparr>"
  have r: "process_round p now now h = Inr (False, ?h)"
    using Cons.prems by (intro process_round_immediate) (auto simp: refs_def)
  have d: "distinct (refs es)" "owns_data e \<Longrightarrow> ev_data e \<notin> set (refs es)"
    using Cons.prems(4) by (auto simp: refs_def split: if_splits)
  have "\<forall>r \<in> set (refs es). heap ?h r \<noteq> None"
  proof
    fix r assume r: "r \<in> set (refs es)"
    then have "heap h r \<noteq> None" using Cons.prems(5) by (auto simp: refs_def)
    then show "heap ?h r \<noteq> None" using d(2) r by auto
  qed
  then obtain h' where h': "process_rounds p now (length es) ?h = Inr h'" "ev_queue h' = []"
    "calls h' = calls ?h @ concat (map (call_of p ?hp) es)"
    "heap h' = (\<lambda>r. if r \<in> set (refs es) then None else ?hp r)"
  proof -
    have hp: "heap ?h = ?hp" "calls ?h = calls h @ call_of p (heap h) e" "process ?h"
      "delayedQueue ?h = []" "ev_queue ?h = es"
      using Cons.prems by simp_all
    show ?thesis
      using Cons.IH [OF hp(3,4,5) d(1)] \<open>\<forall>r \<in> set (refs es). heap ?h r \<noteq> None\<close> that
      unfolding hp(1) by blast
  qed
  have "call_of p ?hp e' = call_of p (heap h) e'" if "e' \<in> set es" for e'
  proof (cases "owns_data e \<and> owns_data e'")
    case True
    then have "ev_data e \<noteq> ev_data e'" using d(2) that by (auto simp: refs_def)
    then show ?thesis using True by (simp add: call_of_other)
  next
    case False
    then show ?thesis by (auto intro: call_of_plain)
  qed
  then have m: "map (call_of p ?hp) es = map (call_of p (heap h)) es" by simp
  have hp: "heap h' = (\<lambda>r. if r \<in> set (refs (e # es)) then None else heap h r)"
    unfolding h'(4) by (rule ext) (simp add: refs_def)
  show ?case
    using h'(1,2,3) hp r Cons.prems(1) m by simp
qed

text \<open>A delayed event that shares its data with an event already handled is used after the delete.\<close>

lemma shared_data_freed_twice:
  assumes "owns_data e" and "owns_data e'" and "ev_data e' = ev_data e"
  shows "rbind (dispatch p e h) (dispatch p e') = Inl DoubleFree"
proof (cases "heap h (ev_data e)")
  case None
  then show ?thesis using assms by (simp add: dispatch_dead)
next
  case (Some d)
  then show ?thesis using assms by (simp add: dispatch_live dispatch_dead)
qed

text \<open>An event that is due again in the next round, whatever the clock says then.\<close>

lemma erased_second:
  assumes "Execute x" and "Execute y"
  shows "erased (x # y # ys) = y # filter (\<lambda>d. \<not> Execute d) ys"
  using assms by (simp add: erased_def)

lemma Execute_due: "Execute d \<Longrightarrow> due now d"
  by (simp add: Execute_def due_def)

section \<open>Properties\<close>

text \<open>
  C12. The packet handler is a first-in first-out dispatcher: with no delayed events, as many
  rounds as there are queued events make exactly the calls of these events into the protocol
  library, in queue order, with the data received, and delete every event's data once.
\<close>

theorem queue_dispatched_in_order:
  assumes "process h" and "delayedQueue h = []" and "distinct (refs (ev_queue h))"
    and "\<forall>r \<in> set (refs (ev_queue h)). heap h r \<noteq> None"
  shows "\<exists>h'. process_rounds p now (length (ev_queue h)) h = Inr h' \<and> ev_queue h' = []
      \<and> calls h' = calls h @ concat (map (call_of p (heap h)) (ev_queue h))
      \<and> heap h' = (\<lambda>r. if r \<in> set (refs (ev_queue h)) then None else heap h r)"
  by (rule process_rounds_fifo) (use assms in simp_all)

definition sample_protocol :: protocol where
  "sample_protocol =
     \<lparr>hasConnect = True, hasRecieve = True, hasSend = False, hasDisconnect = True,
      hasConnectDelayed = False, hasRecieveDelayed = True, hasSendDelayed = False,
      hasDisconnectDelayed = False\<rparr>"

definition sample_event :: "event_type \<Rightarrow> nat \<Rightarrow> event" where
  "sample_event t r =
     \<lparr>EventType = t, ev_fd = 5, ev_address = 1, ev_data = r, ev_recieved = 2, ev_errorcode = 0\<rparr>"

definition sample_handler :: handler where
  "sample_handler =
     fold AddEvent [sample_event EVENT_CONNECT 0, sample_event EVENT_RECIEVE 7]
       (PacketHandler\<lparr>heap := [7 \<mapsto> bd_init]\<rparr>)"

theorem queue_dispatched_in_order_witness:
  "\<exists>h'. process_rounds sample_protocol (\<lparr>tv_sec = 0, tv_usec = 0\<rparr>) (length (ev_queue sample_handler))
        sample_handler = Inr h' \<and> ev_queue h' = []
      \<and> calls h' = calls sample_handler @
          concat (map (call_of sample_protocol (heap sample_handler)) (ev_queue sample_handler))
      \<and> heap h' = (\<lambda>r. if r \<in> set (refs (ev_queue sample_handler)) then None
                     else heap sample_handler r)"
  by (rule queue_dispatched_in_order)
    (simp_all add: sample_handler_def sample_event_def AddEvent_def PacketHandler_def refs_def
      owns_data_def)

text \<open>
  When at most one delayed event is due, \<open>UpdateDelayed\<close> queues exactly the due events and
  keeps exactly the others, in order and with their delays advanced.
\<close>

theorem delayed_update_exact:
  assumes "length (filter (due now) (delayedQueue h)) \<le> 1"
  shows "UpdateDelayed now h =
     h\<lparr>delayedQueue := map (tick now) (filter (\<lambda>d. \<not> due now d) (delayedQueue h)),
       ev_queue := ev_queue h @ map de_event (filter (due now) (delayedQueue h))\<rparr>"
  using assms erased_single [of "map (tick now) (delayedQueue h)"]
  by (simp add: UpdateDelayed_eq filter_Execute_tick filter_not_Execute_tick)

theorem delayed_update_exact_witness:
  "UpdateDelayed \<lparr>tv_sec = 10, tv_usec = 0\<rparr>
       (AddDelayedEvent (DelayedEvent \<lparr>tv_sec = 0, tv_usec = 0\<rparr> 300 (sample_event EVENT_CONNECT_DELAYED 0))
         PacketHandler) =
     (AddDelayedEvent (DelayedEvent \<lparr>tv_sec = 0, tv_usec = 0\<rparr> 300 (sample_event EVENT_CONNECT_DELAYED 0))
         PacketHandler)\<lparr>delayedQueue := [], ev_queue := [sample_event EVENT_CONNECT_DELAYED 0]\<rparr>"
  by (subst delayed_update_exact)
    (simp_all add: AddDelayedEvent_def PacketHandler_def DelayedEvent_def due_def
      getMsTimeDiffToNow_def c_div_def wrap64_def)

text \<open>
  When the first two delayed events are due together, the second is queued but stays in the
  list, and the next update queues it again: it is handled twice.
\<close>

theorem second_due_event_fires_twice:
  assumes "delayedQueue h = x # y # ds" and "due now x" and "due now y"
  shows "\<exists>q q'. ev_queue (UpdateDelayed now h) = ev_queue h @ de_event x # de_event y # q
     \<and> ev_queue (UpdateDelayed later (UpdateDelayed now h)) =
         ev_queue (UpdateDelayed now h) @ de_event y # q'"
proof -
  have e: "Execute (tick now x)" "Execute (tick now y)" using assms by (simp_all add: Execute_tick)
  have "erased (map (tick now) (delayedQueue h)) =
      tick now y # filter (\<lambda>d. \<not> Execute d) (map (tick now) ds)"
    using assms(1) erased_second [OF e] by simp
  then show ?thesis
    using assms Execute_due [OF e(2), of later] by (simp add: UpdateDelayed_eq)
qed

definition sample_due :: handler where
  "sample_due = PacketHandler\<lparr>delayedQueue :=
     [DelayedEvent \<lparr>tv_sec = 0, tv_usec = 0\<rparr> 300 (sample_event EVENT_CONNECT_DELAYED 0),
      DelayedEvent \<lparr>tv_sec = 0, tv_usec = 0\<rparr> 400 (sample_event EVENT_DISCONNECT_DELAYED 0)]\<rparr>"

definition sample_now :: timeval where
  "sample_now = \<lparr>tv_sec = 1, tv_usec = 0\<rparr>"

theorem second_due_event_fires_twice_witness:
  "\<exists>q q'. ev_queue (UpdateDelayed sample_now sample_due) = ev_queue sample_due @
       de_event (delayedQueue sample_due ! 0) # de_event (delayedQueue sample_due ! 1) # q
     \<and> ev_queue (UpdateDelayed sample_now (UpdateDelayed sample_now sample_due)) =
         ev_queue (UpdateDelayed sample_now sample_due) @ de_event (delayedQueue sample_due ! 1) # q'"
  by (rule second_due_event_fires_twice [where ds = "[]"])
    (simp_all add: sample_due_def sample_now_def DelayedEvent_def due_def getMsTimeDiffToNow_def
      c_div_def wrap64_def)

text \<open>
  The network thread hands the same data object to the immediate and to the delayed receive
  event; handling the first deletes it, and handling the second uses it after the delete.
\<close>

theorem delayed_recieve_after_delete:
  "rbind (dispatch p (e\<lparr>EventType := EVENT_RECIEVE\<rparr>) h)
     (dispatch p (e\<lparr>EventType := EVENT_RECIEVE_DELAYED\<rparr>)) = Inl DoubleFree"
  by (rule shared_data_freed_twice) (simp_all add: owns_data_def)

end
