(* ===== verification/Sessions.thy ===== *)
theory Sessions
  imports StdMap
begin

text \<open>
  The contract that the protocol servers share: the state holds one session per descriptor, and
  handling an input of one connection leaves the sessions of all other connections as they are.
  What a client experiences is then determined by its own inputs: a run and the run without the
  others' inputs agree on its session whenever the handler looks at nothing else.
\<close>

fun run_inputs :: "('i \<Rightarrow> 'st \<Rightarrow> 'st res) \<Rightarrow> 'i list \<Rightarrow> 'st \<Rightarrow> 'st res" where
  "run_inputs handle [] st = Inr st"
| "run_inputs handle (i # is) st = rbind (handle i st) (run_inputs handle is)"

lemma run_inputs_append:
  "run_inputs handle (is @ js) st = rbind (run_inputs handle is st) (run_inputs handle js)"
proof (induction "is" arbitrary: st)
  case (Cons i "is")
  then show ?case by (cases "handle i st") simp_all
qed simp

locale session_server =
  fixes handle :: "'i \<Rightarrow> 'st \<Rightarrow> 'st res"
    and owner :: "'i \<Rightarrow> int"
    and sess :: "'st \<Rightarrow> int \<Rightarrow> 's option"
  assumes others_kept: "handle i st = Inr st' \<Longrightarrow> fd \<noteq> owner i \<Longrightarrow> sess st' fd = sess st fd"
begin

lemma run_keeps:
  "run_inputs handle is st = Inr st' \<Longrightarrow> \<forall>i \<in> set is. owner i \<noteq> fd \<Longrightarrow> sess st' fd = sess st fd"
proof (induction "is" arbitrary: st)
  case (Cons i "is")
  then obtain st1 where st1: "handle i st = Inr st1" "run_inputs handle is st1 = Inr st'"
    by (auto simp: res_simps)
  then have "sess st' fd = sess st1 fd" using Cons by auto
  also have "\<dots> = sess st fd" using others_kept [OF st1(1)] Cons.prems(2) by auto
  finally show ?case .
qed simp

text \<open>No session appears for a descriptor that has not sent anything.\<close>

lemma run_no_session:
  "run_inputs handle is st = Inr st' \<Longrightarrow> sess st fd = None \<Longrightarrow> sess st' fd \<noteq> None \<Longrightarrow>
   \<exists>i \<in> set is. owner i = fd"
  by (metis run_keeps)

text \<open>
  What is left of a plan of inputs of one connection: the others' inputs in between do not change it.
\<close>

lemma run_follows:
  assumes step: "\<And>i rest st st'. handle i st = Inr st' \<Longrightarrow> owner i = fd \<Longrightarrow> Q (i # rest) (sess st fd) \<Longrightarrow>
      Q rest (sess st' fd)"
  shows "run_inputs handle is st = Inr st' \<Longrightarrow> Q (filter (\<lambda>i. owner i = fd) is) (sess st fd) \<Longrightarrow>
      Q [] (sess st' fd)"
proof (induction "is" arbitrary: st)
  case (Cons i "is")
  then obtain st1 where st1: "handle i st = Inr st1" "run_inputs handle is st1 = Inr st'"
    by (auto simp: res_simps)
  show ?case
  proof (cases "owner i = fd")
    case True
    then show ?thesis using step [OF st1(1) True] Cons.IH [OF st1(2)] Cons.prems(2) by simp
  next
    case False
    then show ?thesis using others_kept [OF st1(1)] Cons.IH [OF st1(2)] Cons.prems(2) by simp
  qed
qed simp

text \<open>An invariant of the session of the connection served is an invariant of all sessions.\<close>

lemma run_session_invariant:
  assumes own: "\<And>i st st' s. handle i st = Inr st' \<Longrightarrow> (\<And>s. sess st (owner i) = Some s \<Longrightarrow> P s) \<Longrightarrow>
      sess st' (owner i) = Some s \<Longrightarrow> P s"
  shows "run_inputs handle is st = Inr st' \<Longrightarrow> (\<And>fd s. sess st fd = Some s \<Longrightarrow> P s) \<Longrightarrow>
      sess st' fd = Some s \<Longrightarrow> P s"
proof (induction "is" arbitrary: st)
  case (Cons i "is")
  then obtain st1 where st1: "handle i st = Inr st1" "run_inputs handle is st1 = Inr st'"
    by (auto simp: res_simps)
  have "P s1" if "sess st1 fd1 = Some s1" for fd1 s1
  proof (cases "fd1 = owner i")
    case True
    then show ?thesis using own [OF st1(1)] Cons.prems(2) that by blast
  next
    case False
    then show ?thesis using others_kept [OF st1(1) False] Cons.prems(2) that by simp
  qed
  then show ?case using Cons.IH [OF st1(2)] Cons.prems(3) by blast
qed simp

end

end
