(* ===== verification/Ftp.thy ===== *)
theory Ftp
  imports SocketMgr ConfigMgr
begin

text \<open>
  \<open>Protocol/FTP\<close>: the control connection of the FTP server (\<open>FTP.h\<close>, \<open>Base.cpp\<close>, the senders
  and \<open>InitPassiveSock\<close> of \<open>FTP.cpp\<close>).

  A session is the record \<open>session\<close>; \<open>ftp_state\<close> holds the sessions by descriptor, the socket
  table of the application, and the static buffer of \<open>inet_ntoa\<close>, to which the text form of
  every \<open>IP\<close> object points.  A command handler maps a session to a new session and the list of
  its effects, in order, or fails with the exception or undefined behaviour it runs into.  What
  the operating system and the database answer is the argument \<open>ftp_env\<close>.
\<close>

section \<open>Data\<close>

datatype FTPStates =
    FTP_LOGIN_USER | FTP_LOGIN_PASS | FTP_CHANGE_WORKING_DIRECTORY | FTP_PRINT_WORKING_DIRECTORY
  | FTP_CHANGE_WORKING_DIRECTORY_TO_PARENT | FTP_LIST | FTP_QUIT | FTP_STORAGE_STORE
  | FTP_TRANSFER_TYPE | FTP_STORAGE_RETRIEVE | FTP_STORAGE_DELETE | FTP_MAKE_DIR
  | FTP_REMOVE_DIR | FTP_HELP | FTP_NOOP | FTP_SYST | FTP_SESSION_PORT | FTP_SESSION_PASSIVE
  | FTP_UNKNOWN

datatype TransferType = TRANSFER_BINARY | TRANSFER_ASCII

text \<open>The argument block of a sending thread: the data in memory or the name of a file.\<close>

record transfer =
  tr_data :: "string option"
  tr_file :: "string option"
  tr_length :: nat

text \<open>
  \<open>ip_bytes\<close> are the four bytes of the \<open>IP\<close> object and \<open>ip_text\<close> tells whether its \<open>ipC\<close> points
  to the buffer of \<open>inet_ntoa\<close> (NULL at first).  The transfer type is not initialised.
\<close>

record session =
  username :: string
  password :: string
  parentDir :: string
  actualDir :: string
  homeDirectory :: string
  transferType :: "TransferType option"
  ip_bytes :: "nat list"
  ip_text :: bool
  ftp_port :: nat
  passiveSock :: int
  loginPrompted :: bool
  loggedIn :: bool
  isPassive :: bool
  DTPActive :: bool
  abortTranfser :: bool
  activeSend :: "transfer option"
  activeRecv :: "string option"

definition SessionDataStruct :: session where
  "SessionDataStruct =
     \<lparr>username = [], password = [], parentDir = ''/'', actualDir = ''/'', homeDirectory = ''.'',
      transferType = None, ip_bytes = [0, 0, 0, 0], ip_text = False, ftp_port = 20,
      passiveSock = 0, loginPrompted = False, loggedIn = False, isPassive = False,
      DTPActive = False, abortTranfser = False, activeSend = None, activeRecv = None\<rparr>"

record ftp_config =
  cfg_greetings :: string
  cfg_root :: string
  cfg_use_db_auth :: bool
  cfg_allow_guests :: bool
  cfg_max_segment :: int
  cfg_send_wait :: int
  cfg_send_error_wait :: int
  cfg_recv_wait :: int
  cfg_recv_error_wait :: int
  cfg_debug :: bool
  cfg_control :: bool
  cfg_db_host :: string
  cfg_db_user :: string
  cfg_db_password :: string
  cfg_db_name :: string

text \<open>
  The answers of the system: directory tests, \<open>stat\<close>, opening a file for reading and writing and
  its length, \<open>mkdir\<close> and \<open>remove\<close>, the output of a shell command, the home directory of the row
  that the login query finds, and the calls that make a passive socket.
\<close>

record ftp_env =
  env_is_dir :: "string \<Rightarrow> bool"
  env_stat :: "string \<Rightarrow> bool"
  env_opens :: "string \<Rightarrow> bool"
  env_length :: "string \<Rightarrow> nat"
  env_mkdir :: "string \<Rightarrow> bool"
  env_remove :: "string \<Rightarrow> bool"
  env_shell :: "string \<Rightarrow> string"
  env_auth :: "string \<Rightarrow> string \<Rightarrow> string option"
  env_socket :: int
  env_bind :: bool
  env_listen :: bool
  env_sockname :: "(nat list \<times> nat) option"

datatype effect =
    Reply string
  | Mkdir string
  | Remove string
  | Shell string
  | CloseFd int
  | StartSend transfer
  | StartRecv string

section \<open>Tables\<close>

definition command_list :: "(string \<times> FTPStates) list" where
  "command_list =
     [(''user'', FTP_LOGIN_USER), (''pass'', FTP_LOGIN_PASS),
      (''cwd'', FTP_CHANGE_WORKING_DIRECTORY), (''pwd'', FTP_PRINT_WORKING_DIRECTORY),
      (''cdup'', FTP_CHANGE_WORKING_DIRECTORY_TO_PARENT), (''mkd'', FTP_MAKE_DIR),
      (''rmd'', FTP_REMOVE_DIR), (''port'', FTP_SESSION_PORT), (''pasv'', FTP_SESSION_PASSIVE),
      (''type'', FTP_TRANSFER_TYPE), (''quit'', FTP_QUIT), (''help'', FTP_HELP),
      (''noop'', FTP_NOOP), (''syst'', FTP_SYST), (''stor'', FTP_STORAGE_STORE),
      (''retr'', FTP_STORAGE_RETRIEVE), (''dele'', FTP_STORAGE_DELETE), (''list'', FTP_LIST)]"

definition commandTable :: "string \<Rightarrow> FTPStates option" where
  "commandTable = foldl (\<lambda>m (k, v). map_insert k v m) (\<lambda>_. None) command_list"

definition response_list :: "(int \<times> string) list" where
  "response_list =
     [(220, ''Welcome to Ikaros SMTP Server''),
      (231, ''User logged out; service terminated.''),
      (421, ''Service not avaliable, closing control channel''),
      (500, ''Syntax error, command uncategorized''),
      (501, ''Syntax error in parameters or arguments.''),
      (502, ''Not Implemented''),
      (530, ''Not Logged In''),
      (550, ''Requested Action not taken''),
      (221, ''Bye''),
      (331, ''User name okay, need password.''),
      (230, ''User logged in, proceed.''),
      (200, ''Ok Command successfull.''),
      (227, ''Entering Passive mode.''),
      (250, ''Requested file action okay, completed.''),
      (257, CHR 0x22 # ''PATH'' @ CHR 0x22 # '' created.''),
      (150, ''File status okay; about to open data connection.''),
      (226, ''Closing data connection. Requested file action successful.''),
      (425, [CHR ''C'', CHR ''a'', CHR ''n'', CHR 0x27, CHR ''t''] @ '' open data connection.''),
      (426, ''Connection closed; transfer aborted.''),
      (450, ''Requested file action not taken.''),
      (550, ''Requested action not taken.'')]"

definition responseCodeMessage :: "int \<Rightarrow> string option" where
  "responseCodeMessage = foldl (\<lambda>m (k, v). map_insert k v m) (\<lambda>_. None) response_list"

section \<open>Replies\<close>

text \<open>
  \<open>sock\<close> is what \<open>GetSocketByFd\<close> found.  \<open>Socket::Send\<close> on NULL returns \<open>-1\<close> without sending.
\<close>

definition send_line :: "sock option \<Rightarrow> string \<Rightarrow> effect list" where
  "send_line so s = (case so of None \<Rightarrow> [] | Some _ \<Rightarrow> [Reply s])"

definition SendGreetings :: "ftp_config \<Rightarrow> sock option \<Rightarrow> effect list" where
  "SendGreetings cfg so = send_line so (''220 Server-Ikaros '' @ cfg_greetings cfg @ newline)"

definition SendHelloResponse :: "sock option \<Rightarrow> string \<Rightarrow> effect list" where
  "SendHelloResponse so name = send_line so (''250 Hello '' @ name @ newline)"

definition SendCommandResponse :: "sock option \<Rightarrow> int \<Rightarrow> effect list" where
  "SendCommandResponse so code =
     (case responseCodeMessage code of
        None \<Rightarrow> []
      | Some msg \<Rightarrow> send_line so (int_dec code @ '' '' @ msg @ newline))"

definition SendSpecialCommandResponse :: "sock option \<Rightarrow> int \<Rightarrow> string \<Rightarrow> effect list" where
  "SendSpecialCommandResponse so code text =
     (case responseCodeMessage code of
        None \<Rightarrow> []
      | Some _ \<Rightarrow> send_line so (int_dec code @ '' '' @ text @ newline))"

section \<open>Starting a transfer\<close>

definition SendOverDTP :: "string option \<Rightarrow> nat \<Rightarrow> string option \<Rightarrow> session \<Rightarrow> session \<times> effect list" where
  "SendOverDTP data len file s =
     (if data = None \<and> file = None then (s, [])
      else
        (let t = \<lparr>tr_data = data, tr_file = file, tr_length = len\<rparr>
         in (s\<lparr>DTPActive := True, activeSend := Some t, abortTranfser := False\<rparr>, [StartSend t])))"

definition RecieveOverDTP :: "string \<Rightarrow> session \<Rightarrow> session \<times> effect list" where
  "RecieveOverDTP file s =
     (s\<lparr>DTPActive := True, activeRecv := Some file, abortTranfser := False\<rparr>, [StartRecv file])"

section \<open>Commands\<close>

type_synonym handled = "(session \<times> effect list) res"

definition gate :: "sock option \<Rightarrow> session \<Rightarrow> handled \<Rightarrow> handled" where
  "gate so s r = (if loggedIn s then r else Inr (s, SendCommandResponse so 530))"

definition ftp_user :: "sock option \<Rightarrow> string \<Rightarrow> session \<Rightarrow> handled" where
  "ftp_user so rest s =
     (if loginPrompted s then Inr (s, [])
      else
        (let user = fst (extract_word [] rest)
         in if length user = 0 then Inr (s, SendCommandResponse so 500)
            else Inr (s\<lparr>username := user, loginPrompted := True\<rparr>, SendCommandResponse so 331)))"

definition ftp_pass :: "ftp_config \<Rightarrow> ftp_env \<Rightarrow> sock option \<Rightarrow> string \<Rightarrow> session \<Rightarrow> handled" where
  "ftp_pass cfg env so strdata s =
     (if \<not> loginPrompted s then Inr (s, [])
      else
        rbind (substr strdata (Some (size_succ (find_char space strdata))) None) (\<lambda>pass.
          if lower (username s) = ''anonymous'' \<and> cfg_allow_guests cfg then
            Inr (s\<lparr>loginPrompted := False, loggedIn := True\<rparr>, SendCommandResponse so 230)
          else if length pass = 0 then
            Inr (s\<lparr>loginPrompted := False\<rparr>, SendCommandResponse so 500)
          else
            (let s = s\<lparr>password := pass\<rparr>
             in if cfg_use_db_auth cfg then
                  (case env_auth env (username s) (password s) of
                     None \<Rightarrow> Inr (s\<lparr>loginPrompted := False\<rparr>, SendCommandResponse so 530)
                   | Some home \<Rightarrow>
                       Inr (s\<lparr>homeDirectory := home, loginPrompted := False, loggedIn := True\<rparr>,
                            SendCommandResponse so 230))
                else
                  Inr (s\<lparr>loginPrompted := False, loggedIn := True\<rparr>, SendCommandResponse so 230))))"

definition is_actual :: "string \<Rightarrow> string" where
  "is_actual dir = [quote] @ dir @ [quote] @ '' is actual directory.''"

definition does_not_exist :: "string \<Rightarrow> string" where
  "does_not_exist dir = ''Directory '' @ [quote] @ dir @ [quote] @ '' does not exists.''"

definition ftp_pwd :: "sock option \<Rightarrow> session \<Rightarrow> handled" where
  "ftp_pwd so s =
     gate so s (Inr (s, SendSpecialCommandResponse so 200 (is_actual (actualDir s))))"

definition ftp_type :: "sock option \<Rightarrow> string \<Rightarrow> session \<Rightarrow> handled" where
  "ftp_type so rest s =
     gate so s
       (let c = first_char (lower (fst (extract_word [] rest)))
        in if c = CHR ''i'' then
             Inr (s\<lparr>transferType := Some TRANSFER_BINARY\<rparr>, SendCommandResponse so 200)
           else if c = CHR ''a'' then
             Inr (s\<lparr>transferType := Some TRANSFER_ASCII\<rparr>, SendCommandResponse so 200)
           else Inr (s, SendCommandResponse so 500))"

text \<open>
  The loop over the fields of a PORT argument: \<open>a\<close> are the numbers read so far, stored into an
  array of nine.
\<close>

function port_loop :: "string \<Rightarrow> int list \<Rightarrow> int list res" where
  "port_loop remaining a =
     (case find_char CHR '','' remaining of
        None \<Rightarrow> Inr a
      | Some i \<Rightarrow>
          (let part = take i remaining;
               remaining' = drop (Suc i) remaining
           in if length a \<ge> 9 then Inl OutOfBounds
              else
                (let a' = a @ [extract_int 0 part]
                 in if find_char CHR '','' remaining' = None then
                      (if length a' \<ge> 9 then Inl OutOfBounds
                       else port_loop remaining' (a' @ [extract_int 0 remaining']))
                    else port_loop remaining' a')))"
  by pat_completeness auto
termination
proof (relation "measure (\<lambda>(remaining, a). length remaining)", goal_cases)
  case (2 remaining a i part remaining' a')
  then show ?case using first_index_bound [of "\<lambda>x. x = CHR '',''" remaining i]
    by (simp add: find_char_def)
next
  case (3 remaining a i part remaining' a')
  then show ?case using first_index_bound [of "\<lambda>x. x = CHR '',''" remaining i]
    by (simp add: find_char_def)
qed simp

declare port_loop.simps [simp del]

definition array9 :: "int list \<Rightarrow> nat \<Rightarrow> int" where
  "array9 a i = (if i < length a then a ! i else 0)"

definition int_ok :: "int \<Rightarrow> bool" where
  "int_ok x \<longleftrightarrow> -2147483648 \<le> x \<and> x \<le> 2147483647"

definition byte_of :: "int \<Rightarrow> nat" where
  "byte_of x = nat (x mod 256)"

definition inet_ntoa :: "nat list \<Rightarrow> string" where
  "inet_ntoa bs = nat_dec (bs ! 0) @ ''.'' @ nat_dec (bs ! 1) @ ''.'' @ nat_dec (bs ! 2) @ ''.''
     @ nat_dec (bs ! 3)"

text \<open>PORT: the session and its effects, and the new content of the buffer of \<open>inet_ntoa\<close>.\<close>

definition ftp_port_cmd :: "sock option \<Rightarrow> string \<Rightarrow> session \<Rightarrow> (session \<times> effect list \<times> string option) res" where
  "ftp_port_cmd so strdata s =
     (if \<not> loggedIn s then Inr (s, SendCommandResponse so 530, None)
      else
        rbind (substr strdata (find_char space strdata) None) (\<lambda>addr.
        rbind (port_loop addr []) (\<lambda>a.
          let ip = map (\<lambda>i. byte_of (array9 a i)) [0, 1, 2, 3];
              p = array9 a 4 * 256 + array9 a 5
          in if \<not> int_ok (array9 a 4 * 256) \<or> \<not> int_ok p then Inl SignedOverflow
             else
               Inr (s\<lparr>ip_bytes := ip, ip_text := True, ftp_port := u16 p, isPassive := False\<rparr>,
                    SendCommandResponse so 200, Some (inet_ntoa ip)))))"

definition ftp_cdup :: "sock option \<Rightarrow> session \<Rightarrow> handled" where
  "ftp_cdup so s =
     gate so s
       (rbind (substr (actualDir s) (Some 0) (find_last_not_of [slash] (actualDir s))) (\<lambda>to.
        rbind (substr to (Some 0) (rfind_char slash to)) (\<lambda>to.
          let to = (if length to = 0 then [slash] else to)
          in Inr (s\<lparr>actualDir := to\<rparr>, SendSpecialCommandResponse so 250 ''CDUP successfull''))))"

text \<open>\<open>InitPassiveSock\<close>: also closes the previous descriptor, whatever it is.\<close>

definition InitPassiveSock :: "ftp_env \<Rightarrow> session \<Rightarrow> session \<times> effect list \<times> string option" where
  "InitPassiveSock env s =
     (let effs = [CloseFd (passiveSock s)];
          s = s\<lparr>passiveSock := env_socket env\<rparr>;
          effs = (if env_bind env then effs else effs @ [CloseFd (passiveSock s)])
      in if \<not> env_listen env then (s, effs @ [CloseFd (passiveSock s)], None)
         else
           (case env_sockname env of
              Some (ip, p) \<Rightarrow>
                (s\<lparr>isPassive := True, ftp_port := p, ip_bytes := ip, ip_text := True\<rparr>, effs,
                 Some (inet_ntoa ip))
            | None \<Rightarrow> (s\<lparr>isPassive := False, ftp_port := 0\<rparr>, effs, None)))"

definition pasv_text :: "nat list \<Rightarrow> nat \<Rightarrow> string" where
  "pasv_text ip p =
     ''Entering passive mode ('' @ nat_dec (ip ! 0) @ '','' @ nat_dec (ip ! 1) @ '','' @
     nat_dec (ip ! 2) @ '','' @ nat_dec (ip ! 3) @ '','' @ nat_dec (p div 256) @ '','' @
     nat_dec (p mod 256) @ '').''"

definition ftp_pasv :: "ftp_env \<Rightarrow> sock option \<Rightarrow> session \<Rightarrow> (session \<times> effect list \<times> string option) res" where
  "ftp_pasv env so s =
     (if \<not> loggedIn s then Inr (s, SendCommandResponse so 530, None)
      else
        (let (s, effs, buf) = InitPassiveSock env s
         in Inr (s, effs @ SendSpecialCommandResponse so 227
                     (c_str (pasv_text (ip_bytes s) (ftp_port s))), buf)))"

text \<open>\<open>TerminalFuction::RunWithCallback\<close> for \<open>ls\<close>.\<close>

definition RunWithCallback :: "ftp_env \<Rightarrow> string \<Rightarrow> string \<Rightarrow> string \<times> effect list" where
  "RunWithCallback env program args =
     (let call = program @ '' '' @ args @ '' > tmpfile.txt''
      in (c_str (env_shell env call), [Shell call, Remove ''tmpfile.txt'']))"

definition ftp_list :: "ftp_env \<Rightarrow> sock option \<Rightarrow> session \<Rightarrow> handled" where
  "ftp_list env so s =
     gate so s
       (if \<not> env_is_dir env (homeDirectory s @ actualDir s) then Inr (s, SendCommandResponse so 550)
        else
          (let (output, effs) = RunWithCallback env ''ls''
                 (''-la '' @ [dquote] @ homeDirectory s @ actualDir s @ [dquote]);
               (s, effs') = SendOverDTP (Some output) (length output) None s
           in Inr (s, effs @ effs')))"

definition with_slash :: "string \<Rightarrow> string res" where
  "with_slash s = rbind (last_char s) (\<lambda>c. Inr (if c \<noteq> slash then s @ [slash] else s))"

text \<open>The argument after the first blank of the whole command line.\<close>

definition argument :: "string \<Rightarrow> string res" where
  "argument data = rbind (substr data (find_char space data) None) trim"

definition dir_reply :: "ftp_env \<Rightarrow> sock option \<Rightarrow> session \<Rightarrow> session \<times> effect list" where
  "dir_reply env so s =
     (s, if \<not> env_is_dir env (homeDirectory s @ actualDir s)
         then SendSpecialCommandResponse so 550 (does_not_exist (actualDir s))
         else SendSpecialCommandResponse so 200 (is_actual (actualDir s)))"

definition ftp_cwd_up :: "ftp_env \<Rightarrow> sock option \<Rightarrow> session \<Rightarrow> handled" where
  "ftp_cwd_up env so s =
     (if actualDir s = ''/'' then
        Inr (s, SendSpecialCommandResponse so 200 (is_actual (actualDir s)))
      else
        rbind (last_char (actualDir s)) (\<lambda>c.
        rbind (if c = slash then erase (actualDir s) (length (actualDir s) - 1) None
               else Inr (actualDir s)) (\<lambda>dir.
        rbind (case rfind_char slash dir of
                 None \<Rightarrow> Inl OutOfRange
               | Some i \<Rightarrow> erase dir i None) (\<lambda>dir.
          let dir = (if length dir = 0 \<or> last dir \<noteq> slash then dir @ [slash] else dir)
          in Inr (dir_reply env so (s\<lparr>actualDir := dir\<rparr>))))))"

definition ftp_cwd :: "ftp_env \<Rightarrow> sock option \<Rightarrow> string \<Rightarrow> session \<Rightarrow> handled" where
  "ftp_cwd env so data s =
     gate so s
       (rbind (argument data) (\<lambda>dir.
          if dir = ''.'' then Inr (dir_reply env so s)
          else if first_char dir = slash then
            rbind (with_slash dir) (\<lambda>dir. Inr (dir_reply env so (s\<lparr>actualDir := dir\<rparr>)))
          else if dir = ''..'' then ftp_cwd_up env so s
          else if \<not> env_is_dir env (homeDirectory s @ actualDir s @ dir) then
            Inr (s, SendSpecialCommandResponse so 550 (does_not_exist (actualDir s @ dir)))
          else
            rbind (with_slash (actualDir s @ dir)) (\<lambda>dir.
              Inr (s\<lparr>actualDir := dir\<rparr>, SendCommandResponse so 250))))"

definition ftp_mkd :: "ftp_env \<Rightarrow> sock option \<Rightarrow> string \<Rightarrow> session \<Rightarrow> handled" where
  "ftp_mkd env so data s =
     gate so s
       (rbind (argument data) (\<lambda>dirname.
          let address = homeDirectory s @ actualDir s @ dirname
          in Inr (s, Mkdir address #
               (if env_mkdir env address then
                  SendSpecialCommandResponse so 257 ([dquote] @ dirname @ [dquote] @ '' created.'')
                else SendCommandResponse so 450))))"

definition file_address :: "session \<Rightarrow> string \<Rightarrow> string" where
  "file_address s filename =
     (if first_char filename = slash then homeDirectory s @ filename
      else homeDirectory s @ actualDir s @ filename)"

definition ftp_delete :: "ftp_env \<Rightarrow> sock option \<Rightarrow> string \<Rightarrow> session \<Rightarrow> handled" where
  "ftp_delete env so data s =
     gate so s
       (rbind (argument data) (\<lambda>filename.
          let address = file_address s filename
          in Inr (s, Remove address #
               (if env_remove env address then SendCommandResponse so 250
                else SendCommandResponse so 550))))"

definition ftp_stor :: "sock option \<Rightarrow> string \<Rightarrow> session \<Rightarrow> handled" where
  "ftp_stor so data s =
     gate so s
       (rbind (argument data) (\<lambda>filename. Inr (RecieveOverDTP (c_str (file_address s filename)) s)))"

definition ftp_retr :: "ftp_env \<Rightarrow> sock option \<Rightarrow> string \<Rightarrow> session \<Rightarrow> handled" where
  "ftp_retr env so data s =
     gate so s
       (rbind (argument data) (\<lambda>filename.
          let address = file_address s filename
          in if \<not> env_stat env address then Inr (s, SendCommandResponse so 550)
             else if \<not> env_opens env address then Inr (s, SendCommandResponse so 450)
             else Inr (SendOverDTP None (env_length env address) (Some (c_str address)) s)))"

definition ftp_help :: "sock option \<Rightarrow> string \<Rightarrow> session \<Rightarrow> handled" where
  "ftp_help so command s =
     Inr (s, SendSpecialCommandResponse so 502
       (''Command '' @ [quote] @ command @ [quote] @ '' '' @ the (responseCodeMessage 502)))"

section \<open>The server\<close>

record ftp_state =
  sessionStatus :: "int \<Rightarrow> int option"
  sessionData :: "int \<Rightarrow> session option"
  ftp_sockets :: conn_mgr
  ntoa_buffer :: string

definition ftp_init :: "conn_mgr \<Rightarrow> ftp_state" where
  "ftp_init m = \<lparr>sessionStatus = (\<lambda>_. None), sessionData = (\<lambda>_. None), ftp_sockets = m, ntoa_buffer = []\<rparr>"

definition ftp_processConnect :: "ftp_config \<Rightarrow> nat list \<Rightarrow> int \<Rightarrow> ftp_state \<Rightarrow> ftp_state \<times> effect list" where
  "ftp_processConnect cfg address fd st =
     (let so = GetSocketByFd fd (ftp_sockets st);
          (s, _) = map_index SessionDataStruct fd (sessionData st)
      in (st\<lparr>sessionData := (sessionData st)(fd \<mapsto> s\<lparr>homeDirectory := cfg_root cfg\<rparr>),
             ntoa_buffer := inet_ntoa address\<rparr>,
          SendGreetings cfg so))"

definition ftp_processDisconnect :: "int \<Rightarrow> ftp_state \<Rightarrow> ftp_state" where
  "ftp_processDisconnect fd st =
     st\<lparr>sessionStatus := map_erase fd (sessionStatus st), sessionData := map_erase fd (sessionData st)\<rparr>"

definition ftp_quit :: "sock option \<Rightarrow> int \<Rightarrow> ftp_state \<Rightarrow> (ftp_state \<times> effect list) res" where
  "ftp_quit so fd st =
     (case so of
        None \<Rightarrow> Inl NullPointer
      | Some k \<Rightarrow>
          rbind (CloseSocketByFd fd (ftp_sockets st)) (\<lambda>m.
            Inr (st\<lparr>sessionStatus := map_erase fd (sessionStatus st),
                    sessionData := map_erase fd (sessionData st), ftp_sockets := m\<rparr>,
                 SendCommandResponse so 221 @ [CloseFd (sock_fd k)])))"

definition parse_command :: "string \<Rightarrow> FTPStates" where
  "parse_command command =
     (case commandTable (lower command) of Some c \<Rightarrow> c | None \<Rightarrow> FTP_UNKNOWN)"

definition valid_start :: "string \<Rightarrow> bool" where
  "valid_start command \<longleftrightarrow>
     (let c = first_char command
      in (CHR ''a'' \<le> c \<and> c \<le> CHR ''z'') \<or> (CHR ''A'' \<le> c \<and> c \<le> CHR ''Z''))"

text \<open>A handler that only touches its session, and one that also prints an address.\<close>

definition in_session :: "int \<Rightarrow> ftp_state \<Rightarrow> handled \<Rightarrow> (ftp_state \<times> effect list) res" where
  "in_session fd st r =
     rbind r (\<lambda>(s, effs). Inr (st\<lparr>sessionData := (sessionData st)(fd \<mapsto> s)\<rparr>, effs))"

definition in_session_ip ::
  "int \<Rightarrow> ftp_state \<Rightarrow> (session \<times> effect list \<times> string option) res \<Rightarrow> (ftp_state \<times> effect list) res" where
  "in_session_ip fd st r =
     rbind r (\<lambda>(s, effs, buf).
       Inr (st\<lparr>sessionData := (sessionData st)(fd \<mapsto> s),
               ntoa_buffer := (case buf of Some b \<Rightarrow> b | None \<Rightarrow> ntoa_buffer st)\<rparr>, effs))"

text \<open>
  The switch of \<open>processRecieve\<close>.  \<open>data\<close> is the whole text received, \<open>strdata\<close> the trimmed
  text, \<open>command\<close> the first word and \<open>rest\<close> what the stream still holds after it.
\<close>

fun ftp_command ::
  "FTPStates \<Rightarrow> ftp_config \<Rightarrow> ftp_env \<Rightarrow> int \<Rightarrow> string \<Rightarrow> string \<Rightarrow> string \<Rightarrow> string \<Rightarrow> sock option
     \<Rightarrow> session \<Rightarrow> ftp_state \<Rightarrow> (ftp_state \<times> effect list) res" where
  "ftp_command FTP_LOGIN_USER cfg env fd data strdata command rest so s st =
     in_session fd st (ftp_user so rest s)"
| "ftp_command FTP_LOGIN_PASS cfg env fd data strdata command rest so s st =
     in_session fd st (ftp_pass cfg env so strdata s)"
| "ftp_command FTP_PRINT_WORKING_DIRECTORY cfg env fd data strdata command rest so s st =
     in_session fd st (ftp_pwd so s)"
| "ftp_command FTP_TRANSFER_TYPE cfg env fd data strdata command rest so s st =
     in_session fd st (ftp_type so rest s)"
| "ftp_command FTP_SESSION_PORT cfg env fd data strdata command rest so s st =
     in_session_ip fd st (ftp_port_cmd so strdata s)"
| "ftp_command FTP_CHANGE_WORKING_DIRECTORY_TO_PARENT cfg env fd data strdata command rest so s st =
     in_session fd st (ftp_cdup so s)"
| "ftp_command FTP_SESSION_PASSIVE cfg env fd data strdata command rest so s st =
     in_session_ip fd st (ftp_pasv env so s)"
| "ftp_command FTP_LIST cfg env fd data strdata command rest so s st =
     in_session fd st (ftp_list env so s)"
| "ftp_command FTP_CHANGE_WORKING_DIRECTORY cfg env fd data strdata command rest so s st =
     in_session fd st (ftp_cwd env so data s)"
| "ftp_command FTP_NOOP cfg env fd data strdata command rest so s st =
     Inr (st, SendSpecialCommandResponse so 200 ''Noop'')"
| "ftp_command FTP_SYST cfg env fd data strdata command rest so s st =
     Inr (st, SendSpecialCommandResponse so 200 ''Ikaros'')"
| "ftp_command FTP_QUIT cfg env fd data strdata command rest so s st =
     ftp_quit so fd st"
| "ftp_command FTP_MAKE_DIR cfg env fd data strdata command rest so s st =
     in_session fd st (ftp_mkd env so data s)"
| "ftp_command FTP_STORAGE_DELETE cfg env fd data strdata command rest so s st =
     in_session fd st (ftp_delete env so data s)"
| "ftp_command FTP_REMOVE_DIR cfg env fd data strdata command rest so s st =
     in_session fd st (ftp_delete env so data s)"
| "ftp_command FTP_STORAGE_STORE cfg env fd data strdata command rest so s st =
     in_session fd st (ftp_stor so data s)"
| "ftp_command FTP_STORAGE_RETRIEVE cfg env fd data strdata command rest so s st =
     in_session fd st (ftp_retr env so data s)"
| "ftp_command FTP_HELP cfg env fd data strdata command rest so s st =
     in_session fd st (ftp_help so command s)"
| "ftp_command FTP_UNKNOWN cfg env fd data strdata command rest so s st =
     in_session fd st (ftp_help so command s)"

definition ftp_processRecieve ::
  "ftp_config \<Rightarrow> ftp_env \<Rightarrow> int \<Rightarrow> string \<Rightarrow> ftp_state \<Rightarrow> (ftp_state \<times> effect list) res" where
  "ftp_processRecieve cfg env fd bytes st =
     (let data = c_str bytes;
          so = GetSocketByFd fd (ftp_sockets st);
          (s, m) = map_index SessionDataStruct fd (sessionData st);
          st = st\<lparr>sessionData := m\<rparr>;
          (command, rest) = extract_word [] data
      in rbind (trim data) (\<lambda>strdata.
         if \<not> valid_start command then Inr (st, [])
         else ftp_command (parse_command command) cfg env fd data strdata command rest so s st))"

section \<open>Configuration\<close>

text \<open>
  \<open>LoadConfigs\<close> of \<open>Base.cpp\<close>; its lines of debug output print the values and have no other
  effect.
\<close>

definition ftp_LoadConfigs :: "(string \<Rightarrow> bool) \<Rightarrow> config_mgr \<Rightarrow> ftp_config" where
  "ftp_LoadConfigs is_dir c =
     (let root = LoadStringConfig c ''RootDirectory'' ''.'';
          host = LoadStringConfig c ''Database.Host'' ''localhost''
      in \<lparr>cfg_greetings = LoadStringConfig c ''Greetings'' ''Welcome to FTP Server'',
          cfg_root = (if is_dir root then root else ''.''),
          cfg_use_db_auth = LoadBoolConfig c ''UseDBAuth'' True,
          cfg_allow_guests = LoadBoolConfig c ''AllowGuests'' True,
          cfg_max_segment = LoadIntConfig c ''MaxSegmentSize'' 40000,
          cfg_send_wait = LoadIntConfig c ''SendWaitTime'' 0,
          cfg_send_error_wait = LoadIntConfig c ''SendErrorWaitTime'' 20,
          cfg_recv_wait = LoadIntConfig c ''RecvWaitTime'' 0,
          cfg_recv_error_wait = LoadIntConfig c ''RecvErrorWaitTime'' 20,
          cfg_debug = LoadBoolConfig c ''Debug'' True,
          cfg_control = LoadBoolConfig c ''Control'' True,
          cfg_db_host = (if length host = 0 then ''localhost'' else host),
          cfg_db_user = LoadStringConfig c ''Database.Username'' ''root'',
          cfg_db_password = LoadStringConfig c ''Database.Password'' ''0'',
          cfg_db_name = LoadStringConfig c ''Database.Name'' ''ikaros''\<rparr>)"

end
