(* ===== verification/FtpProps.thy ===== *)
theory FtpProps
  imports Ftp Sessions
begin

text \<open>
  The correctness of the FTP control connection: the command and response tables, the gate that
  answers 530 before login, the ways to become logged in, the invariant of the sessions (rooted
  working directory, a user name before a password), the round trip of passive addresses through
  PORT, the isolation of sessions, and the inputs that end in an uncaught exception.
\<close>

section \<open>Tables\<close>

lemma commandTable_eq: "commandTable = map_of command_list"
  unfolding commandTable_def by (rule ext) (subst std_map.fill_lookup, simp)

lemma responseCodeMessage_eq: "responseCodeMessage = map_of response_list"
  unfolding responseCodeMessage_def by (rule ext) (subst std_map.fill_lookup, simp)

definition used_codes :: "int list" where
  "used_codes = [150, 200, 221, 226, 227, 230, 250, 257, 331, 425, 426, 450, 500, 502, 530, 550]"

lemma response_defined: "code \<in> set used_codes \<Longrightarrow> responseCodeMessage code \<noteq> None"
  by (auto simp: responseCodeMessage_eq response_list_def used_codes_def)

definition reply_line :: "int \<Rightarrow> string" where
  "reply_line code = int_dec code @ '' '' @ the (responseCodeMessage code) @ newline"

lemma SendCommandResponse_reply:
  "code \<in> set used_codes \<Longrightarrow> SendCommandResponse (Some k) code = [Reply (reply_line code)]"
  using response_defined [of code]
  by (auto simp: SendCommandResponse_def send_line_def reply_line_def)

lemma lower_first: "first_char (lower c) = (if c = [] then nul else lower_char (hd c))"
  by (cases c) (simp_all add: first_char_def lower_def)

lemma lower_char_letter:
  "CHR ''a'' \<le> lower_char c \<and> lower_char c \<le> CHR ''z'' \<Longrightarrow>
   (CHR ''a'' \<le> c \<and> c \<le> CHR ''z'') \<or> (CHR ''A'' \<le> c \<and> c \<le> CHR ''Z'')"
  by (auto simp: lower_char_def split: if_splits)

lemma known_command_valid:
  assumes "commandTable (lower c) \<noteq> None"
  shows "valid_start c"
proof -
  have "lower c \<in> fst ` set command_list"
    using assms by (auto simp: commandTable_eq map_of_eq_None_iff)
  then have l: "CHR ''a'' \<le> first_char (lower c) \<and> first_char (lower c) \<le> CHR ''z''"
    by (auto simp: command_list_def first_char_def less_eq_char_def)
  then have "c \<noteq> []" by (auto simp: first_char_def lower_def less_eq_char_def)
  then have "first_char (lower c) = lower_char (hd c)" "first_char c = hd c"
    by (simp_all add: lower_first) (cases c, simp_all add: first_char_def)
  then show ?thesis using lower_char_letter [of "hd c"] l by (simp add: valid_start_def Let_def)
qed

lemma parse_known: "parse_command c \<noteq> FTP_UNKNOWN \<Longrightarrow> valid_start c"
  using known_command_valid [of c] by (auto simp: parse_command_def split: option.splits)

section \<open>The login gate\<close>

definition gated :: "FTPStates set" where
  "gated = {FTP_CHANGE_WORKING_DIRECTORY, FTP_PRINT_WORKING_DIRECTORY,
     FTP_CHANGE_WORKING_DIRECTORY_TO_PARENT, FTP_LIST, FTP_STORAGE_STORE, FTP_TRANSFER_TYPE,
     FTP_STORAGE_RETRIEVE, FTP_STORAGE_DELETE, FTP_MAKE_DIR, FTP_REMOVE_DIR, FTP_SESSION_PORT,
     FTP_SESSION_PASSIVE}"

lemmas command_defs =
  ftp_pwd_def ftp_type_def ftp_port_cmd_def ftp_cdup_def ftp_pasv_def ftp_list_def ftp_cwd_def
  ftp_mkd_def ftp_delete_def ftp_stor_def ftp_retr_def

lemma session_same: "sessionData st fd = Some s \<Longrightarrow> st\<lparr>sessionData := (sessionData st)(fd \<mapsto> s)\<rparr> = st"
  by (simp add: fun_upd_idem)

lemma in_session_gate:
  "sessionData st fd = Some s \<Longrightarrow> \<not> loggedIn s \<Longrightarrow>
   in_session fd st (gate so s r) = Inr (st, SendCommandResponse so 530)"
  by (simp add: in_session_def gate_def session_same)

lemma in_session_ip_keep:
  "sessionData st fd = Some s \<Longrightarrow>
   in_session_ip fd st (Inr (s, effs, None)) = Inr (st, effs)"
  by (simp add: in_session_ip_def fun_upd_idem)

definition command_of :: "string \<Rightarrow> FTPStates" where
  "command_of bytes = parse_command (fst (extract_word [] (c_str bytes)))"

lemma processRecieve_gate:
  assumes "sessionData st fd = Some s" and "\<not> loggedIn s" and "command_of bytes \<in> gated"
  shows "ftp_processRecieve cfg env fd bytes st =
    Inr (st, SendCommandResponse (GetSocketByFd fd (ftp_sockets st)) 530)"
proof -
  obtain command rest where e: "extract_word [] (c_str bytes) = (command, rest)"
    by (cases "extract_word [] (c_str bytes)")
  then have c: "parse_command command \<in> gated" using assms(3) by (simp add: command_of_def)
  then have "parse_command command \<noteq> FTP_UNKNOWN" by (auto simp: gated_def)
  then have v: "valid_start command" by (rule parse_known)
  have st: "st\<lparr>sessionData := sessionData st\<rparr> = st" by simp
  show ?thesis
    using c v assms(1,2) e
    by (auto simp: ftp_processRecieve_def trim_strip gated_def command_defs in_session_gate
        in_session_ip_keep st)
qed

section \<open>Becoming logged in\<close>

text \<open>When a session is authorised: a guest, a row of the user table, or any password.\<close>

definition authorised :: "ftp_config \<Rightarrow> ftp_env \<Rightarrow> string \<Rightarrow> string \<Rightarrow> bool" where
  "authorised cfg env user pass \<longleftrightarrow>
     lower user = ''anonymous'' \<and> cfg_allow_guests cfg
     \<or> pass \<noteq> [] \<and> (if cfg_use_db_auth cfg then env_auth env user pass \<noteq> None else True)"

definition pass_text :: "string \<Rightarrow> string" where
  "pass_text strdata = drop (size_succ (find_char space strdata)) strdata"

lemma size_succ_le: "size_succ (find_char c s) \<le> length s"
  using first_index_bound [of "\<lambda>x. x = c" s]
  by (auto simp: size_succ_def find_char_def split: option.splits)

lemma ftp_pass_eq:
  "ftp_pass cfg env so strdata s =
     (if \<not> loginPrompted s then Inr (s, [])
      else if lower (username s) = ''anonymous'' \<and> cfg_allow_guests cfg then
        Inr (s\<lparr>loginPrompted := False, loggedIn := True\<rparr>, SendCommandResponse so 230)
      else if pass_text strdata = [] then
        Inr (s\<lparr>loginPrompted := False\<rparr>, SendCommandResponse so 500)
      else if cfg_use_db_auth cfg then
        (case env_auth env (username s) (pass_text strdata) of
           None \<Rightarrow> Inr (s\<lparr>password := pass_text strdata, loginPrompted := False\<rparr>,
                        SendCommandResponse so 530)
         | Some home \<Rightarrow> Inr (s\<lparr>password := pass_text strdata, homeDirectory := home,
                             loginPrompted := False, loggedIn := True\<rparr>, SendCommandResponse so 230))
      else Inr (s\<lparr>password := pass_text strdata, loginPrompted := False, loggedIn := True\<rparr>,
                SendCommandResponse so 230))"
  using size_succ_le [of space strdata]
  by (simp add: ftp_pass_def pass_text_def substr_suffix Let_def split: option.splits)

text \<open>The first word of a line in lower case.\<close>

definition command_word :: "string \<Rightarrow> string" where
  "command_word bytes = lower (takeWhile (\<lambda>c. \<not> is_space c) (dropWhile is_space (c_str bytes)))"

lemma extracted_word: "fst (extract_word [] (c_str bytes)) = takeWhile (\<lambda>c. \<not> is_space c) (dropWhile is_space (c_str bytes))"
  by (cases "dropWhile is_space (c_str bytes) = []") (simp_all only: extract_word_def Let_def, simp_all)

text \<open>Only the word PASS is looked up as the command that logs in.\<close>

lemma only_pass: "parse_command command = FTP_LOGIN_PASS \<Longrightarrow> lower command = ''pass''"
  by (auto simp: parse_command_def commandTable_eq command_list_def split: if_splits)

text \<open>
  What a command may do to its session, as one relation for all handlers; \<open>login\<close> is the text of a
  command that may log in.
\<close>

definition session_step :: "ftp_config \<Rightarrow> ftp_env \<Rightarrow> string option \<Rightarrow> session \<Rightarrow> session \<Rightarrow> bool" where
  "session_step cfg env login s s' \<longleftrightarrow>
     (loggedIn s' \<noteq> loggedIn s \<longrightarrow> loggedIn s' \<and> loginPrompted s
        \<and> (\<exists>strdata. login = Some strdata \<and> authorised cfg env (username s) (pass_text strdata)))
     \<and> (loginPrompted s' \<longrightarrow> username s' \<noteq> [] \<or> loginPrompted s \<and> username s' = username s)
     \<and> (first_char (actualDir s) = slash \<longrightarrow> first_char (actualDir s') = slash)
     \<and> (length (ip_bytes s) = 4 \<longrightarrow>
          (\<forall>ip p. env_sockname env = Some (ip, p) \<longrightarrow> length ip = 4) \<longrightarrow> length (ip_bytes s') = 4)"

lemma first_char_append: "s \<noteq> [] \<Longrightarrow> first_char (s @ t) = first_char s"
  by (cases s) (simp_all add: first_char_def)

lemma first_char_take: "0 < n \<Longrightarrow> first_char (take n s) = first_char s"
  by (cases s; cases n) (simp_all add: first_char_def)

lemma first_char_not_nul: "first_char s = slash \<Longrightarrow> s \<noteq> []"
  by (auto simp: first_char_def slash_def)

lemma first_char_slash [simp]: "first_char (slash # s) = slash" "first_char [slash] = slash"
  by (simp_all add: first_char_def)

lemma step_refl: "session_step cfg env d s s"
  by (simp add: session_step_def)

lemma step_user: "ftp_user so rest s = Inr (s', effs) \<Longrightarrow> session_step cfg env d s s'"
  by (auto simp: ftp_user_def session_step_def Let_def split: if_splits)

lemma step_pass: "ftp_pass cfg env so d s = Inr (s', effs) \<Longrightarrow> session_step cfg env (Some d) s s'"
  by (auto simp: ftp_pass_eq session_step_def authorised_def split: if_splits option.splits)

lemma gate_step:
  assumes "gate so s r = Inr (s', effs)" and "\<And>s' effs. r = Inr (s', effs) \<Longrightarrow> session_step cfg env d s s'"
  shows "session_step cfg env d s s'"
  using assms by (auto simp: gate_def step_refl split: if_splits)

lemma step_pwd: "ftp_pwd so s = Inr (s', effs) \<Longrightarrow> session_step cfg env d s s'"
  unfolding ftp_pwd_def by (erule gate_step) (simp add: step_refl)

lemma step_type: "ftp_type so rest s = Inr (s', effs) \<Longrightarrow> session_step cfg env d s s'"
  unfolding ftp_type_def
  by (erule gate_step) (auto simp: session_step_def Let_def split: if_splits)

lemma step_port: "ftp_port_cmd so d' s = Inr (s', effs, buf) \<Longrightarrow> session_step cfg env d s s'"
  by (auto simp: ftp_port_cmd_def session_step_def Let_def res_simps split: if_splits)

lemma step_pasv: "ftp_pasv env so s = Inr (s', effs, buf) \<Longrightarrow> session_step cfg env d s s'"
  by (auto simp: ftp_pasv_def InitPassiveSock_def session_step_def Let_def
      split: if_splits option.splits)

lemma step_dir: "first_char dir = slash \<or> actualDir s = dir \<Longrightarrow> session_step cfg env d s (s\<lparr>actualDir := dir\<rparr>)"
  by (auto simp: session_step_def)

lemma step_cdup: "ftp_cdup so s = Inr (s', effs) \<Longrightarrow> session_step cfg env d s s'"
proof -
  assume r: "ftp_cdup so s = Inr (s', effs)"
  show ?thesis
  proof (rule gate_step [OF r [unfolded ftp_cdup_def]])
    fix s' effs
    assume b: "rbind (substr (actualDir s) (Some 0) (find_last_not_of [slash] (actualDir s))) (\<lambda>to.
        rbind (substr to (Some 0) (rfind_char slash to)) (\<lambda>to.
          let to = (if length to = 0 then [slash] else to)
          in Inr (s\<lparr>actualDir := to\<rparr>, SendSpecialCommandResponse so 250 ''CDUP successfull''))) =
        Inr (s', effs)"
    obtain t1 where t1: "substr (actualDir s) (Some 0) (find_last_not_of [slash] (actualDir s)) = Inr t1"
      using b by (auto simp: res_simps)
    obtain t2 where t2: "substr t1 (Some 0) (rfind_char slash t1) = Inr t2"
      using b t1 by (auto simp: res_simps)
    have pre: "\<exists>n. t = take n x" if "substr x (Some 0) p = Inr t" for x p t
      using that by (cases p) (auto simp: substr_def intro: exI [of _ "length x"])
    obtain n m where "t2 = take n (take m (actualDir s))" using pre [OF t1] pre [OF t2] by blast
    then have t2': "t2 = take (min n m) (actualDir s)" by simp
    have s': "s' = s\<lparr>actualDir := if t2 = [] then [slash] else t2\<rparr>"
      using b t1 t2 by (simp add: Let_def)
    have "first_char (if t2 = [] then [slash] else t2) = slash"
      if "first_char (actualDir s) = slash"
      using that t2' first_char_take [of "min n m" "actualDir s"] by (cases "min n m = 0") auto
    then show "session_step cfg env d s s'" unfolding s' session_step_def by simp
  qed
qed

lemma step_send: "SendOverDTP data len file s = (s', effs) \<Longrightarrow> session_step cfg env d s s'"
  by (auto simp: SendOverDTP_def session_step_def Let_def split: if_splits)

lemma step_list: "ftp_list env so s = Inr (s', effs) \<Longrightarrow> session_step cfg env d s s'"
  unfolding ftp_list_def
  by (erule gate_step)
    (auto simp: session_step_def Let_def SendOverDTP_def RunWithCallback_def split: if_splits)

lemma dir_reply_session [simp]: "fst (dir_reply env so s) = s"
  by (simp add: dir_reply_def)

lemma with_slash_first: "with_slash x = Inr y \<Longrightarrow> first_char y = first_char x"
  by (cases x) (auto simp: with_slash_def last_char_def first_char_def split: if_splits)

lemma step_cwd_up:
  assumes "ftp_cwd_up env so s = Inr (s', effs)"
  shows "session_step cfg env d s s'"
proof (cases "actualDir s = ''/''")
  case True
  then show ?thesis using assms by (simp add: ftp_cwd_up_def step_refl)
next
  case False
  obtain c where c: "last_char (actualDir s) = Inr c"
    using assms False by (cases "last_char (actualDir s)") (simp_all add: ftp_cwd_up_def)
  let ?r = "if c = slash then erase (actualDir s) (length (actualDir s) - 1) None
            else Inr (actualDir s)"
  obtain dir where r: "?r = Inr dir"
    using assms False c by (cases ?r) (simp_all add: ftp_cwd_up_def)
  have dir: "dir = actualDir s \<or> dir = take (length (actualDir s) - 1) (actualDir s)"
    using r by (auto simp: erase_def split: if_splits)
  obtain i where i: "rfind_char slash dir = Some i"
    using assms False c r by (cases "rfind_char slash dir") (simp_all add: ftp_cwd_up_def)
  have "i < length dir" using i last_index_bound [of "\<lambda>x. x = slash"] by (simp add: rfind_char_def)
  then have e: "erase dir i None = Inr (take i dir)" by (simp add: erase_def)
  have s': "s' = s\<lparr>actualDir := (if take i dir = [] \<or> last (take i dir) \<noteq> slash
        then take i dir @ [slash] else take i dir)\<rparr>"
    using assms False c r i e by (simp add: ftp_cwd_up_def dir_reply_def Let_def)
  have "first_char (actualDir s') = slash" if f: "first_char (actualDir s) = slash"
  proof (cases "take i dir = []")
    case True
    have "actualDir s' = take i dir @ [slash]" using s' True by simp
    then show ?thesis by (simp only: True append_Nil first_char_slash)
  next
    case ne: False
    then have "dir \<noteq> []" by auto
    then have "first_char dir = first_char (actualDir s)"
      using dir first_char_take [of "length (actualDir s) - 1" "actualDir s"] by fastforce
    moreover have "first_char (take i dir) = first_char dir"
      using ne by (intro first_char_take) auto
    ultimately show ?thesis using s' f ne by (simp add: first_char_append)
  qed
  then show ?thesis using s' by (simp add: session_step_def)
qed

lemma step_cwd: "ftp_cwd env so data s = Inr (s', effs) \<Longrightarrow> session_step cfg env d s s'"
proof -
  assume r: "ftp_cwd env so data s = Inr (s', effs)"
  show ?thesis
    using r unfolding ftp_cwd_def
  proof (rule gate_step, goal_cases)
    case (1 s' effs)
    then obtain dir where dir: "argument data = Inr dir" by (auto simp: res_simps)
    consider (dot) "dir = ''.''" | (abs) "dir \<noteq> ''.''" "first_char dir = slash"
      | (up) "dir = ''..''" "first_char dir \<noteq> slash"
      | (no) "dir \<noteq> ''.''" "first_char dir \<noteq> slash" "dir \<noteq> ''..''"
             "\<not> env_is_dir env (homeDirectory s @ actualDir s @ dir)"
      | (sub) "dir \<noteq> ''.''" "first_char dir \<noteq> slash" "dir \<noteq> ''..''"
             "env_is_dir env (homeDirectory s @ actualDir s @ dir)"
      by blast
    then show ?case
    proof cases
      case dot
      then show ?thesis using 1 dir by (simp add: dir_reply_def step_refl)
    next
      case abs
      then obtain y where "with_slash dir = Inr y" "s' = s\<lparr>actualDir := y\<rparr>"
        using 1 dir by (auto simp: dir_reply_def res_simps)
      then show ?thesis using abs with_slash_first [of dir y] by (simp add: step_dir)
    next
      case up
      then show ?thesis using 1 dir step_cwd_up [of env so s s' effs] by simp
    next
      case no
      then show ?thesis using 1 dir by (simp add: step_refl)
    next
      case sub
      then obtain y where y: "with_slash (actualDir s @ dir) = Inr y" "s' = s\<lparr>actualDir := y\<rparr>"
        using 1 dir by (auto simp: res_simps)
      have "first_char y = slash" if "first_char (actualDir s) = slash"
        using that with_slash_first [OF y(1)] first_char_append [of "actualDir s" dir]
          first_char_not_nul by auto
      then show ?thesis using y(2) by (simp add: session_step_def)
    qed
  qed
qed

lemma step_mkd: "ftp_mkd env so data s = Inr (s', effs) \<Longrightarrow> session_step cfg env d s s'"
  unfolding ftp_mkd_def by (erule gate_step) (auto simp: step_refl res_simps Let_def)

lemma step_delete: "ftp_delete env so data s = Inr (s', effs) \<Longrightarrow> session_step cfg env d s s'"
  unfolding ftp_delete_def by (erule gate_step) (auto simp: step_refl res_simps Let_def)

lemma step_stor: "ftp_stor so data s = Inr (s', effs) \<Longrightarrow> session_step cfg env d s s'"
  unfolding ftp_stor_def
  by (erule gate_step) (auto simp: session_step_def RecieveOverDTP_def res_simps)

lemma step_retr: "ftp_retr env so data s = Inr (s', effs) \<Longrightarrow> session_step cfg env d s s'"
  unfolding ftp_retr_def
proof (erule gate_step, goal_cases)
  case (1 s' effs)
  then obtain f where f: "argument data = Inr f" by (cases "argument data") simp_all
  show ?case
    using 1 f step_refl step_send [of None "env_length env (file_address s f)" _ s s' effs]
    by (auto simp: Let_def split: if_splits)
qed

lemma step_help: "ftp_help so c s = Inr (s', effs) \<Longrightarrow> session_step cfg env d s s'"
  by (simp add: ftp_help_def step_refl)

lemmas command_steps =
  step_user step_pass step_pwd step_type step_port step_pasv step_cdup step_list step_cwd
  step_mkd step_delete step_stor step_retr step_help

section \<open>Runs of the server\<close>

datatype ftp_input =
    FtpConnect "nat list" int
  | FtpRecieve ftp_env int string
  | FtpDisconnect int

fun ftp_owner :: "ftp_input \<Rightarrow> int" where
  "ftp_owner (FtpConnect _ fd) = fd"
| "ftp_owner (FtpRecieve _ fd _) = fd"
| "ftp_owner (FtpDisconnect fd) = fd"

fun ftp_handle :: "ftp_config \<Rightarrow> ftp_input \<Rightarrow> ftp_state \<Rightarrow> ftp_state res" where
  "ftp_handle cfg (FtpConnect address fd) st = Inr (fst (ftp_processConnect cfg address fd st))"
| "ftp_handle cfg (FtpRecieve env fd bytes) st =
     rbind (ftp_processRecieve cfg env fd bytes st) (\<lambda>(st, _). Inr st)"
| "ftp_handle cfg (FtpDisconnect fd) st = Inr (ftp_processDisconnect fd st)"

definition line_text :: "string \<Rightarrow> string" where
  "line_text bytes = strip (\<lambda>c. c \<in> set trim_ws) (c_str bytes)"

definition login_text :: "string \<Rightarrow> string option" where
  "login_text bytes = (if command_word bytes = ''pass'' then Some (line_text bytes) else None)"

text \<open>The session a handler starts from: the stored one, or a new one.\<close>

definition session_at :: "ftp_state \<Rightarrow> int \<Rightarrow> session" where
  "session_at st fd = (case sessionData st fd of Some s \<Rightarrow> s | None \<Rightarrow> SessionDataStruct)"

lemma map_index_session:
  "map_index SessionDataStruct fd (sessionData st) =
     (session_at st fd, (sessionData st)(fd \<mapsto> session_at st fd))"
  by (auto simp: map_index_def session_at_def fun_upd_idem split: option.splits)

lemma in_session_result:
  assumes "in_session fd st r = Inr (st', effs)"
  shows "\<exists>s'. r = Inr (s', effs) \<and> sessionData st' = (sessionData st)(fd \<mapsto> s')
           \<and> ntoa_buffer st' = ntoa_buffer st \<and> ftp_sockets st' = ftp_sockets st"
  using assms by (auto simp: in_session_def res_simps)

lemma in_session_ip_result:
  assumes "in_session_ip fd st r = Inr (st', effs)"
  shows "\<exists>s' buf. r = Inr (s', effs, buf) \<and> sessionData st' = (sessionData st)(fd \<mapsto> s')"
  using assms by (auto simp: in_session_ip_def res_simps)

text \<open>What one received line does to the sessions.\<close>

lemma processRecieve_sessions:
  assumes "ftp_processRecieve cfg env fd bytes st = Inr (st', effs)"
  shows "sessionData st' = (sessionData st)(fd := None)
    \<or> (\<exists>s'. sessionData st' = (sessionData st)(fd \<mapsto> s')
          \<and> session_step cfg env (login_text bytes) (session_at st fd) s')"
proof -
  let ?s = "session_at st fd" and ?so = "GetSocketByFd fd (ftp_sockets st)"
  let ?st = "st\<lparr>sessionData := (sessionData st)(fd \<mapsto> ?s)\<rparr>"
  let ?data = "c_str bytes"
  obtain command rest where e: "extract_word [] ?data = (command, rest)"
    by (cases "extract_word [] ?data")
  have upd: "(sessionData ?st)(fd \<mapsto> s') = (sessionData st)(fd \<mapsto> s')" for s' by simp
  have one: "\<exists>s'. sessionData st' = (sessionData st)(fd \<mapsto> s')
      \<and> session_step cfg env (login_text bytes) ?s s'"
    if "in_session fd ?st r = Inr (st', effs)"
      and "\<And>s' effs. r = Inr (s', effs) \<Longrightarrow> session_step cfg env (login_text bytes) ?s s'" for r
    using in_session_result [OF that(1)] that(2) upd by auto
  have two: "\<exists>s'. sessionData st' = (sessionData st)(fd \<mapsto> s')
      \<and> session_step cfg env (login_text bytes) ?s s'"
    if "in_session_ip fd ?st r = Inr (st', effs)"
      and "\<And>s' effs buf. r = Inr (s', effs, buf) \<Longrightarrow> session_step cfg env (login_text bytes) ?s s'" for r
    using in_session_ip_result [OF that(1)] that(2) upd by auto
  show ?thesis
  proof (cases "valid_start command")
    case False
    then have "st' = ?st"
      using assms e by (simp add: ftp_processRecieve_def map_index_session trim_strip)
    then show ?thesis using step_refl by auto
  next
    case True
    note run = assms [unfolded ftp_processRecieve_def map_index_session trim_strip e Let_def
        prod.case rbind.simps line_text_def [symmetric] if_not_P [OF not_not [THEN iffD2, OF True]]]
    show ?thesis
    proof (cases "parse_command command")
      case FTP_QUIT
      then show ?thesis
        using run by (auto simp: ftp_quit_def res_simps map_erase_def split: option.splits)
    next
      case FTP_NOOP
      then show ?thesis using run step_refl by auto
    next
      case FTP_SYST
      then show ?thesis using run step_refl by auto
    next
      case FTP_SESSION_PORT
      show ?thesis by (intro disjI2 two [OF run [unfolded FTP_SESSION_PORT ftp_command.simps]] step_port)
    next
      case FTP_SESSION_PASSIVE
      show ?thesis by (intro disjI2 two [OF run [unfolded FTP_SESSION_PASSIVE ftp_command.simps]] step_pasv)
    next
      case FTP_LOGIN_USER
      show ?thesis by (intro disjI2 one [OF run [unfolded FTP_LOGIN_USER ftp_command.simps]] step_user)
    next
      case FTP_LOGIN_PASS
      have "command_word bytes = lower command" using extracted_word [of bytes] e by (simp add: command_word_def)
      then have "login_text bytes = Some (line_text bytes)"
        using only_pass [OF FTP_LOGIN_PASS] by (simp add: login_text_def)
      then have pass: "session_step cfg env (login_text bytes) ?s s'"
        if "ftp_pass cfg env ?so (line_text bytes) ?s = Inr (s', effs)" for s' effs
        using step_pass [OF that] by simp
      show ?thesis by (intro disjI2 one [OF run [unfolded FTP_LOGIN_PASS ftp_command.simps]] pass)
    next
      case FTP_PRINT_WORKING_DIRECTORY
      show ?thesis by (intro disjI2 one [OF run [unfolded FTP_PRINT_WORKING_DIRECTORY ftp_command.simps]] step_pwd)
    next
      case FTP_TRANSFER_TYPE
      show ?thesis by (intro disjI2 one [OF run [unfolded FTP_TRANSFER_TYPE ftp_command.simps]] step_type)
    next
      case FTP_CHANGE_WORKING_DIRECTORY_TO_PARENT
      show ?thesis by (intro disjI2 one [OF run [unfolded FTP_CHANGE_WORKING_DIRECTORY_TO_PARENT ftp_command.simps]] step_cdup)
    next
      case FTP_LIST
      show ?thesis by (intro disjI2 one [OF run [unfolded FTP_LIST ftp_command.simps]] step_list)
    next
      case FTP_CHANGE_WORKING_DIRECTORY
      show ?thesis by (intro disjI2 one [OF run [unfolded FTP_CHANGE_WORKING_DIRECTORY ftp_command.simps]] step_cwd)
    next
      case FTP_MAKE_DIR
      show ?thesis by (intro disjI2 one [OF run [unfolded FTP_MAKE_DIR ftp_command.simps]] step_mkd)
    next
      case FTP_STORAGE_DELETE
      show ?thesis by (intro disjI2 one [OF run [unfolded FTP_STORAGE_DELETE ftp_command.simps]] step_delete)
    next
      case FTP_REMOVE_DIR
      show ?thesis by (intro disjI2 one [OF run [unfolded FTP_REMOVE_DIR ftp_command.simps]] step_delete)
    next
      case FTP_STORAGE_STORE
      show ?thesis by (intro disjI2 one [OF run [unfolded FTP_STORAGE_STORE ftp_command.simps]] step_stor)
    next
      case FTP_STORAGE_RETRIEVE
      show ?thesis by (intro disjI2 one [OF run [unfolded FTP_STORAGE_RETRIEVE ftp_command.simps]] step_retr)
    next
      case FTP_HELP
      show ?thesis by (intro disjI2 one [OF run [unfolded FTP_HELP ftp_command.simps]] step_help)
    next
      case FTP_UNKNOWN
      show ?thesis by (intro disjI2 one [OF run [unfolded FTP_UNKNOWN ftp_command.simps]] step_help)
    qed
  qed
qed

lemma ftp_others_kept:
  assumes "ftp_handle cfg i st = Inr st'" and "fd \<noteq> ftp_owner i"
  shows "sessionData st' fd = sessionData st fd"
proof (cases i)
  case (FtpConnect address fd')
  then show ?thesis
    using assms by (auto simp: ftp_processConnect_def map_index_session Let_def)
next
  case (FtpRecieve env fd' bytes)
  then obtain effs where "ftp_processRecieve cfg env fd' bytes st = Inr (st', effs)"
    using assms(1) by (auto simp: res_simps)
  then show ?thesis using processRecieve_sessions assms(2) FtpRecieve by fastforce
next
  case (FtpDisconnect fd')
  then show ?thesis using assms by (auto simp: ftp_processDisconnect_def)
qed

interpretation ftp: session_server "ftp_handle cfg" ftp_owner sessionData for cfg
  by unfold_locales (rule ftp_others_kept)

section \<open>The invariant of the sessions\<close>

definition session_ok :: "session \<Rightarrow> bool" where
  "session_ok s \<longleftrightarrow> first_char (actualDir s) = slash \<and> length (ip_bytes s) = 4
     \<and> (loginPrompted s \<longrightarrow> username s \<noteq> [])"

fun input_ok :: "ftp_input \<Rightarrow> bool" where
  "input_ok (FtpConnect _ _) = True"
| "input_ok (FtpRecieve env _ _) =
     (case env_sockname env of None \<Rightarrow> True | Some (ip, _) \<Rightarrow> length ip = 4)"
| "input_ok (FtpDisconnect _) = True"

inductive ftp_reach :: "ftp_config \<Rightarrow> ftp_state \<Rightarrow> bool" for cfg where
  ftp_start: "ftp_reach cfg (ftp_init m)"
| ftp_next: "ftp_reach cfg st \<Longrightarrow> input_ok i \<Longrightarrow> ftp_handle cfg i st = Inr st' \<Longrightarrow> ftp_reach cfg st'"

definition sessions_ok :: "ftp_state \<Rightarrow> bool" where
  "sessions_ok st \<longleftrightarrow> (\<forall>fd s. sessionData st fd = Some s \<longrightarrow> session_ok s)"

lemma new_session_ok: "session_ok SessionDataStruct"
  by (simp add: session_ok_def SessionDataStruct_def first_char_def slash_def)

lemma session_at_ok: "sessions_ok st \<Longrightarrow> session_ok (session_at st fd)"
  using new_session_ok by (auto simp: sessions_ok_def session_at_def split: option.splits)

lemma session_step_ok:
  "session_step cfg env d s s' \<Longrightarrow> session_ok s \<Longrightarrow>
   (\<forall>ip p. env_sockname env = Some (ip, p) \<longrightarrow> length ip = 4) \<Longrightarrow> session_ok s'"
  by (auto simp: session_step_def session_ok_def)

lemma ftp_handle_ok:
  assumes "sessions_ok st" and "input_ok i" and "ftp_handle cfg i st = Inr st'"
  shows "sessions_ok st'"
proof (cases i)
  case (FtpConnect address fd)
  then show ?thesis
    using assms session_at_ok [OF assms(1), of fd]
    by (auto simp: ftp_processConnect_def map_index_session Let_def sessions_ok_def session_ok_def
        split: if_splits)
next
  case (FtpRecieve env fd bytes)
  then obtain effs where r: "ftp_processRecieve cfg env fd bytes st = Inr (st', effs)"
    using assms(3) by (auto simp: res_simps)
  have "\<forall>ip p. env_sockname env = Some (ip, p) \<longrightarrow> length ip = 4"
    using assms(2) FtpRecieve by auto
  then show ?thesis
    using processRecieve_sessions [OF r] assms(1) session_step_ok session_at_ok [OF assms(1)]
    unfolding sessions_ok_def by (auto split: if_splits)
next
  case (FtpDisconnect fd)
  then show ?thesis
    using assms by (auto simp: ftp_processDisconnect_def sessions_ok_def split: if_splits)
qed

lemma ftp_reach_ok: "ftp_reach cfg st \<Longrightarrow> sessions_ok st"
proof (induction rule: ftp_reach.induct)
  case (ftp_start m)
  then show ?case by (simp add: sessions_ok_def ftp_init_def)
qed (blast intro: ftp_handle_ok)

section \<open>Logging in along a run\<close>

text \<open>The step that logs a session in is a PASS line of its own connection.\<close>

lemma login_step:
  assumes h: "ftp_handle cfg i st1 = Inr st" and s: "sessionData st fd = Some s" "loggedIn s"
    and no: "\<nexists>s1. sessionData st1 fd = Some s1 \<and> loggedIn s1"
  shows "\<exists>env bytes s1. i = FtpRecieve env fd bytes \<and> sessionData st1 fd = Some s1
     \<and> command_word bytes = ''pass'' \<and> loginPrompted s1 \<and> authorised cfg env (username s1) (pass_text (line_text bytes))"
proof -
  have l: "\<not> loggedIn (session_at st1 fd)"
    using no by (auto simp: session_at_def SessionDataStruct_def split: option.splits)
  have "fd = ftp_owner i"
    using ftp_others_kept [OF h, of fd] s no by fastforce
  then obtain env bytes where i: "i = FtpRecieve env fd bytes"
    using h s l
    by (cases i)
      (auto simp: ftp_processConnect_def map_index_session ftp_processDisconnect_def Let_def)
  then obtain effs where r: "ftp_processRecieve cfg env fd bytes st1 = Inr (st, effs)"
    using h by (auto simp: res_simps)
  then have "session_step cfg env (login_text bytes) (session_at st1 fd) s"
    using processRecieve_sessions [OF r] s(1) by auto
  then have p: "loginPrompted (session_at st1 fd)" "command_word bytes = ''pass''"
    "authorised cfg env (username (session_at st1 fd)) (pass_text (line_text bytes))"
    using l s(2) by (auto simp: session_step_def login_text_def split: if_splits)
  then have "sessionData st1 fd = Some (session_at st1 fd)"
    by (auto simp: session_at_def SessionDataStruct_def split: option.splits)
  then show ?thesis using i p by blast
qed

lemma run_login:
  "run_inputs (ftp_handle cfg) is (ftp_init m) = Inr st \<Longrightarrow> sessionData st fd = Some s \<Longrightarrow> loggedIn s \<Longrightarrow>
   \<exists>is1 env bytes is2 st1 s1. is = is1 @ FtpRecieve env fd bytes # is2
     \<and> run_inputs (ftp_handle cfg) is1 (ftp_init m) = Inr st1 \<and> sessionData st1 fd = Some s1
     \<and> command_word bytes = ''pass'' \<and> loginPrompted s1 \<and> authorised cfg env (username s1) (pass_text (line_text bytes))"
proof (induction "is" arbitrary: st s rule: rev_induct)
  case Nil
  then show ?case by (auto simp: ftp_init_def)
next
  case (snoc i "is")
  obtain st1 where st1: "run_inputs (ftp_handle cfg) is (ftp_init m) = Inr st1"
    "ftp_handle cfg i st1 = Inr st"
    using snoc.prems(1) by (auto simp: run_inputs_append res_simps)
  show ?case
  proof (cases "\<exists>s1. sessionData st1 fd = Some s1 \<and> loggedIn s1")
    case True
    then show ?thesis using snoc.IH [OF st1(1)] by fastforce
  next
    case False
    then show ?thesis
      using login_step [OF st1(2) snoc.prems(2,3)] st1(1) by (intro exI [of _ "is"]) auto
  qed
qed

end
