(* ===== verification/FtpCommands.thy ===== *)
theory FtpCommands
  imports FtpProps
begin

text \<open>
  The commands of the FTP server in detail: addresses sent by PASV are understood by PORT,
  \<open>CWD ..\<close> undoes \<open>CWD name\<close>, and the inputs for which a command ends in an exception or in
  undefined behaviour.  The last section states the properties of the control connection.
\<close>

section \<open>Addresses\<close>

fun commas :: "nat list \<Rightarrow> string" where
  "commas [] = []"
| "commas [n] = nat_dec n"
| "commas (n # m # ns) = nat_dec n @ CHR '','' # commas (m # ns)"

lemma comma_not_digit: "\<not> is_digit (CHR '','')"
  by (simp add: is_digit_def less_eq_char_def)

lemma nat_dec_no_comma: "CHR '','' \<notin> set (nat_dec n)"
  using nat_dec_digits comma_not_digit by blast

lemma find_comma_head: "find_char CHR '','' (nat_dec n @ CHR '','' # r) = Some (length (nat_dec n))"
  unfolding find_char_def using nat_dec_no_comma by (intro first_index_split) auto

lemma find_comma_none: "find_char CHR '','' (nat_dec n) = None"
  using nat_dec_no_comma by (auto simp: find_char_def first_index_None)

lemma extract_int_dec: "n \<le> 2147483647 \<Longrightarrow> extract_int 0 (nat_dec n) = int n"
  using extract_int_nat_dec [of n "[]" 0] by simp

lemma extract_int_space: "extract_int old (space # s) = extract_int old s"
  by (simp add: extract_int_def is_space_def)

lemma find_comma_space:
  "find_char CHR '','' (space # s) = map_option Suc (find_char CHR '','' s)"
  by (simp add: find_char_def split: option.splits)

lemma port_loop_none: "find_char CHR '','' r = None \<Longrightarrow> port_loop r a = Inr a"
  by (simp add: port_loop.simps [of r a])

lemma port_loop_some:
  "find_char CHR '','' r = Some i \<Longrightarrow> length a < 9 \<Longrightarrow>
   port_loop r a =
     (if find_char CHR '','' (drop (Suc i) r) = None then
        (if length a = 8 then Inl OutOfBounds
         else Inr (a @ [extract_int 0 (take i r), extract_int 0 (drop (Suc i) r)]))
      else port_loop (drop (Suc i) r) (a @ [extract_int 0 (take i r)]))"
  by (subst port_loop.simps) (simp add: Let_def port_loop_none)

lemma port_loop_commas:
  "length a + length ns < 9 \<Longrightarrow> 2 \<le> length ns \<Longrightarrow> \<forall>n \<in> set ns. n \<le> 2147483647 \<Longrightarrow>
   port_loop (commas ns) a = Inr (a @ map int ns)"
proof (induction ns arbitrary: a rule: commas.induct)
  case (3 n m ns)
  have d: "drop (Suc (length (nat_dec n))) (nat_dec n @ CHR '','' # commas (m # ns)) = commas (m # ns)"
    by simp
  show ?case
  proof (cases ns)
    case Nil
    then show ?thesis
      using "3.prems" by (simp add: port_loop_some [OF find_comma_head] find_comma_none extract_int_dec)
  next
    case (Cons k ks)
    obtain l where f: "find_char CHR '','' (commas (m # ns)) = Some l"
      by (simp add: Cons find_comma_head)
    have "port_loop (commas (n # m # ns)) a = port_loop (commas (m # ns)) (a @ [int n])"
      using "3.prems" f d
      by (subst commas.simps, subst port_loop_some [OF find_comma_head])
        (simp_all add: extract_int_dec del: commas.simps)
    also have "\<dots> = Inr ((a @ [int n]) @ map int (m # ns))"
      using "3.prems" Cons by (intro "3.IH") auto
    finally show ?thesis by simp
  qed
qed simp_all

text \<open>The blank before the first number is skipped by the extraction.\<close>

lemma port_loop_space:
  assumes "length ns < 9" and "2 \<le> length ns" and "\<forall>n \<in> set ns. n \<le> 2147483647"
  shows "port_loop (space # commas ns) [] = Inr (map int ns)"
proof -
  obtain n m ns' where ns: "ns = n # m # ns'" using assms(2) by (cases ns; cases "tl ns") auto
  let ?l = "length (nat_dec n)"
  have f: "find_char CHR '','' (space # commas ns) = Some (Suc ?l)"
    by (simp add: find_comma_space ns find_comma_head)
  have h: "find_char CHR '','' (commas ns) = Some ?l" by (simp add: ns find_comma_head)
  have "port_loop (space # commas ns) [] = port_loop (commas ns) []"
    using port_loop_some [OF f, of "[]"] port_loop_some [OF h, of "[]"]
    by (simp add: extract_int_space)
  then show ?thesis using port_loop_commas [of "[]" ns] assms by simp
qed

definition ip_ok :: "nat list \<Rightarrow> bool" where
  "ip_ok ip \<longleftrightarrow> length ip = 4 \<and> (\<forall>b \<in> set ip. b < 256)"

definition host_port :: "nat list \<Rightarrow> nat \<Rightarrow> string" where
  "host_port ip p = commas (ip @ [p div 256, p mod 256])"

lemma ip_cases: "ip_ok ip \<Longrightarrow> \<exists>a b c d. ip = [a, b, c, d] \<and> a < 256 \<and> b < 256 \<and> c < 256 \<and> d < 256"
  by (auto simp: ip_ok_def numeral_eq_Suc length_Suc_conv)

lemma pasv_text_host_port:
  "ip_ok ip \<Longrightarrow> pasv_text ip p = ''Entering passive mode ('' @ host_port ip p @ '').''"
  using ip_cases [of ip] by (auto simp: pasv_text_def host_port_def)

lemma ftp_port_host_port:
  assumes "ip_ok ip" and "p < 65536" and "loggedIn s"
  shows "ftp_port_cmd so (''PORT '' @ host_port ip p) s =
    Inr (s\<lparr>ip_bytes := ip, ip_text := True, ftp_port := p, isPassive := False\<rparr>,
         SendCommandResponse so 200, Some (inet_ntoa ip))"
proof -
  obtain a b c d where ip: "ip = [a, b, c, d]" and le: "a < 256" "b < 256" "c < 256" "d < 256"
    using ip_cases [OF assms(1)] by blast
  let ?ns = "ip @ [p div 256, p mod 256]"
  have hi: "p div 256 < 256" using assms(2) by (simp add: less_mult_imp_div_less)
  have lo: "p mod 256 < 256" by simp
  define line where "line = ''PORT '' @ host_port ip p"
  have "find_char space line = Some 4" by (simp add: find_char_def line_def)
  then have sub: "substr line (find_char space line) None = Inr (space # host_port ip p)"
    by (simp add: substr_def line_def)
  have loop: "port_loop (space # host_port ip p) [] = Inr (map int ?ns)"
    unfolding host_port_def using ip le hi lo by (intro port_loop_space) auto
  have "int (p div 256) * 256 + int (p mod 256) = int p"
    by (metis div_mult_mod_eq of_nat_add of_nat_mult of_nat_numeral)
  moreover have "int (p div 256) * 256 \<le> 65280" using hi by linarith
  ultimately show ?thesis
    using assms(2,3) le unfolding line_def [symmetric]
    by (simp add: ftp_port_cmd_def sub loop) (simp add: Let_def ip array9_def byte_of_def int_ok_def u16_def)
qed

text \<open>Nine commas or more overflow the array of nine numbers.\<close>

definition comma_count :: "string \<Rightarrow> nat" where
  "comma_count s = length (filter (\<lambda>c. c = CHR '','') s)"

lemma comma_count_split:
  assumes "find_char CHR '','' s = Some i"
  shows "comma_count s = Suc (comma_count (drop (Suc i) s))"
proof -
  have i: "i < length s" "s ! i = CHR '',''" "\<And>j. j < i \<Longrightarrow> s ! j \<noteq> CHR '',''"
    using assms first_index_bound first_index_nth first_index_before
    unfolding find_char_def by (blast, fastforce, blast)
  have "s = take i s @ s ! i # drop (Suc i) s" using i(1) by (rule id_take_nth_drop)
  then have "comma_count s = comma_count (take i s @ s ! i # drop (Suc i) s)" by simp
  moreover have "filter (\<lambda>c. c = CHR '','') (take i s) = []"
    using i by (auto simp: filter_empty_conv in_set_conv_nth)
  ultimately show ?thesis using i(2) by (simp add: comma_count_def)
qed

lemma comma_count_none: "find_char CHR '','' s = None \<longleftrightarrow> comma_count s = 0"
  by (auto simp: find_char_def first_index_None comma_count_def filter_empty_conv)

lemma port_loop_overflow:
  "length a \<le> 9 \<Longrightarrow> 9 \<le> length a + comma_count r \<Longrightarrow> 0 < comma_count r \<Longrightarrow>
   port_loop r a = Inl OutOfBounds"
proof (induction r a rule: port_loop.induct)
  case (1 r a)
  obtain i where i: "find_char CHR '','' r = Some i"
    using "1.prems"(3) comma_count_none [of r] by (cases "find_char CHR '','' r") auto
  let ?r = "drop (Suc i) r" and ?a = "a @ [extract_int 0 (take i r)]"
  note c = comma_count_split [OF i]
  show ?case
  proof (cases "9 \<le> length a")
    case True
    then show ?thesis using i by (subst port_loop.simps) simp
  next
    case False
    show ?thesis
    proof (cases "find_char CHR '','' ?r = None")
      case True
      then show ?thesis
        using i False c "1.prems"(2) comma_count_none [of ?r] by (simp add: port_loop_some)
    next
      case nxt: False
      then have "0 < comma_count ?r" using comma_count_none [of ?r] by simp
      then have "port_loop ?r ?a = Inl OutOfBounds"
        using "1.IH"(2) [OF i refl refl _ refl nxt] False c "1.prems" by simp
      then show ?thesis using i False nxt by (simp add: port_loop_some)
    qed
  qed
qed

section \<open>Working directories\<close>

lemma rfind_last_slash:
  "slash \<notin> set n \<Longrightarrow> rfind_char slash (d @ slash # n) = Some (length d)"
proof -
  assume "slash \<notin> set n"
  then have "last_index (\<lambda>x. x = slash) n = None" by (auto simp: last_index_None)
  then show ?thesis by (simp add: rfind_char_def last_index_append)
qed

text \<open>Going up from a directory entered by name leads back.\<close>

lemma cwd_up_from:
  assumes "slash \<notin> set n" and "n \<noteq> []"
  shows "ftp_cwd_up env so (s\<lparr>actualDir := d @ slash # n @ [slash]\<rparr>) =
    Inr (dir_reply env so (s\<lparr>actualDir := if d = [] \<or> last d \<noteq> slash then d @ [slash] else d\<rparr>))"
proof -
  let ?dir = "d @ slash # n @ [slash]"
  have ne: "?dir \<noteq> ''/''" using assms(2) by (cases d) (auto simp: slash_def)
  have b: "take (length ?dir - 1) ?dir = d @ slash # n" by simp
  then have e: "erase ?dir (length ?dir - 1) None = Inr (d @ slash # n)"
    by (simp only: erase_def) simp
  have e2: "erase (d @ slash # n) (length d) None = Inr d" by (simp add: erase_def)
  show ?thesis
    using ne e e2 rfind_last_slash [OF assms(1)]
    by (simp add: ftp_cwd_up_def last_char_def del: One_nat_def)
qed

lemma find_last_not_slash:
  assumes "n \<noteq> []" and "slash \<notin> set n"
  shows "find_last_not_of [slash] (d @ n @ [slash]) = Some (length d + length n - 1)"
proof -
  obtain m c where n: "n = m @ [c]" using assms(1) by (cases n rule: rev_cases) auto
  then have "c \<noteq> slash" using assms(2) by auto
  then show ?thesis by (simp add: find_last_not_of_def n last_index_append)
qed

text \<open>CDUP drops the slash between the directory and what is appended to it later.\<close>

lemma cdup_from:
  assumes "loggedIn s" and "slash \<notin> set n" and "n \<noteq> []" and "d \<noteq> []"
  shows "ftp_cdup so (s\<lparr>actualDir := d @ slash # n @ [slash]\<rparr>) =
    Inr (s\<lparr>actualDir := d\<rparr>, SendSpecialCommandResponse so 250 ''CDUP successfull'')"
proof -
  let ?dir = "d @ slash # n @ [slash]"
  have f: "find_last_not_of [slash] ?dir = Some (length d + length n)"
    using find_last_not_slash [OF assms(3,2), of "d @ [slash]"] assms(3) by simp
  have "take (length d + length n) ?dir = d @ slash # butlast n"
    using assms(3) by (simp add: take_Cons' butlast_conv_take)
  then have s1: "substr ?dir (Some 0) (Some (length d + length n)) = Inr (d @ slash # butlast n)"
    by (simp add: substr_prefix)
  have "slash \<notin> set (butlast n)" using assms(2) by (auto dest: in_set_butlastD)
  then have r: "rfind_char slash (d @ slash # butlast n) = Some (length d)"
    by (rule rfind_last_slash)
  show ?thesis
    using assms(1,4) f s1 r
    by (simp add: ftp_cdup_def gate_def substr_prefix Let_def)
qed

section \<open>Lines without an argument\<close>

definition wants_argument :: "FTPStates set" where
  "wants_argument = {FTP_CHANGE_WORKING_DIRECTORY, FTP_MAKE_DIR, FTP_REMOVE_DIR, FTP_STORAGE_DELETE,
     FTP_STORAGE_STORE, FTP_STORAGE_RETRIEVE, FTP_SESSION_PORT}"

lemma find_space_none: "space \<notin> set d \<Longrightarrow> find_char space d = None"
  by (auto simp: find_char_def first_index_None)

lemma argument_missing: "space \<notin> set data \<Longrightarrow> argument data = Inl OutOfRange"
  by (simp add: argument_def find_space_none substr_npos)

lemma port_missing: "loggedIn s \<Longrightarrow> space \<notin> set d \<Longrightarrow> ftp_port_cmd so d s = Inl OutOfRange"
  by (simp add: ftp_port_cmd_def find_space_none substr_npos)

lemma commands_missing:
  assumes "loggedIn s" and "space \<notin> set data"
  shows "ftp_cwd env so data s = Inl OutOfRange" "ftp_mkd env so data s = Inl OutOfRange"
    "ftp_delete env so data s = Inl OutOfRange" "ftp_stor so data s = Inl OutOfRange"
    "ftp_retr env so data s = Inl OutOfRange"
  using assms(1) argument_missing [OF assms(2)]
  by (simp_all add: ftp_cwd_def ftp_mkd_def ftp_delete_def ftp_stor_def ftp_retr_def gate_def)

lemma processRecieve_missing:
  assumes s: "sessionData st fd = Some s" "loggedIn s" and "command_of bytes \<in> wants_argument"
    and sp: "space \<notin> set (c_str bytes)"
  shows "ftp_processRecieve cfg env fd bytes st = Inl OutOfRange"
proof -
  obtain command rest where e: "extract_word [] (c_str bytes) = (command, rest)"
    by (cases "extract_word [] (c_str bytes)")
  then have c: "parse_command command \<in> wants_argument" using assms(3) by (simp add: command_of_def)
  then have "parse_command command \<noteq> FTP_UNKNOWN" by (auto simp: wants_argument_def)
  then have v: "valid_start command" by (rule parse_known)
  have "space \<notin> set (strip (\<lambda>c. c \<in> set trim_ws) (c_str bytes))"
    using sp set_strip_subset [of "\<lambda>c. c \<in> set trim_ws" "c_str bytes"] by blast
  note m = commands_missing [OF s(2) sp] port_missing [OF s(2) this]
  have err: "in_session fd st' (Inl x) = Inl x" "in_session_ip fd st' (Inl x) = Inl x" for st' x
    by (simp_all add: in_session_def in_session_ip_def)
  have "ftp_command (parse_command command) cfg env fd (c_str bytes)
      (strip (\<lambda>c. c \<in> set trim_ws) (c_str bytes)) command rest so s st' = Inl OutOfRange" for so st'
    using c unfolding wants_argument_def by (elim insertE emptyE) (simp_all only: ftp_command.simps m err)
  then show ?thesis
    using s(1) by (simp add: ftp_processRecieve_def trim_strip e v)
qed

section \<open>Properties\<close>

definition sample_ftp_config :: ftp_config where
  "sample_ftp_config =
     \<lparr>cfg_greetings = ''hello'', cfg_root = ''.'', cfg_use_db_auth = False, cfg_allow_guests = True,
      cfg_max_segment = 35000, cfg_send_wait = 0, cfg_send_error_wait = 20, cfg_recv_wait = 0,
      cfg_recv_error_wait = 20, cfg_debug = True, cfg_control = True, cfg_db_host = ''localhost'',
      cfg_db_user = ''root'', cfg_db_password = ''0'', cfg_db_name = ''ikaros''\<rparr>"

definition sample_env :: ftp_env where
  "sample_env =
     \<lparr>env_is_dir = (\<lambda>_. True), env_stat = (\<lambda>_. True), env_opens = (\<lambda>_. True),
      env_length = (\<lambda>_. 3), env_mkdir = (\<lambda>_. True), env_remove = (\<lambda>_. True),
      env_shell = (\<lambda>_. []), env_auth = (\<lambda>_ _. None), env_socket = 6, env_bind = True,
      env_listen = True, env_sockname = Some ([10, 0, 0, 1], 4321)\<rparr>"

definition sample_ftp_state :: ftp_state where
  "sample_ftp_state = fst (ftp_processConnect sample_ftp_config [10, 0, 0, 9] 4
     (ftp_init (AddSocket (Socket 0 4) ConnectionMgr)))"

definition logged_in_state :: ftp_state where
  "logged_in_state = sample_ftp_state\<lparr>sessionData := [4 \<mapsto> SessionDataStruct\<lparr>loggedIn := True\<rparr>]\<rparr>"

text \<open>
  C10. Before a session is logged in, every command that touches files, directories or the data
  connection is answered with exactly the line "530 Not Logged In", and changes nothing.
\<close>

theorem not_logged_in_refused:
  assumes "sessionData st fd = Some s" and "\<not> loggedIn s" and "command_of bytes \<in> gated"
    and "GetSocketByFd fd (ftp_sockets st) = Some k"
  shows "ftp_processRecieve cfg env fd bytes st = Inr (st, [Reply (''530 Not Logged In'' @ newline)])"
proof -
  have "int_dec 530 = ''530''" by code_simp
  then have "SendCommandResponse (Some k) 530 = [Reply (''530 Not Logged In'' @ newline)]"
    by (simp add: SendCommandResponse_def responseCodeMessage_eq response_list_def send_line_def)
  then show ?thesis using processRecieve_gate [OF assms(1-3)] assms(4) by simp
qed

theorem not_logged_in_refused_witness:
  "ftp_processRecieve sample_ftp_config sample_env 4 ''RETR /etc/passwd'' sample_ftp_state =
     Inr (sample_ftp_state, [Reply (''530 Not Logged In'' @ newline)])"
proof (rule not_logged_in_refused)
  show "sessionData sample_ftp_state 4 = Some (SessionDataStruct\<lparr>homeDirectory := ''.''\<rparr>)"
    by (simp add: sample_ftp_state_def ftp_processConnect_def ftp_init_def map_index_def
        sample_ftp_config_def)
  show "command_of ''RETR /etc/passwd'' \<in> gated"
    unfolding gated_def by code_simp
  show "GetSocketByFd 4 (ftp_sockets sample_ftp_state) = Some (Socket 0 4)"
    by (simp add: sample_ftp_state_def ftp_processConnect_def ftp_init_def map_index_def
        AddSocket_def sockets_insert_def GetSocketByFd_def find_key_def ConnectionMgr_def Socket_def)
qed (simp add: SessionDataStruct_def)

text \<open>
  A session is logged in only after a PASS line of the same connection, sent while a user name
  was pending, that authorised it: as guest when guests are allowed, by a row of the user table
  when the database is used, or else with a password that is not empty.
\<close>

theorem login_was_authorised:
  assumes "run_inputs (ftp_handle cfg) is (ftp_init m) = Inr st"
    and "sessionData st fd = Some s" and "loggedIn s"
  shows "\<exists>is1 env bytes is2 st1 s1. is = is1 @ FtpRecieve env fd bytes # is2
     \<and> run_inputs (ftp_handle cfg) is1 (ftp_init m) = Inr st1 \<and> sessionData st1 fd = Some s1
     \<and> command_word bytes = ''pass'' \<and> loginPrompted s1 \<and> authorised cfg env (username s1) (pass_text (line_text bytes))"
  using run_login [OF assms] .

definition sample_inputs :: "ftp_input list" where
  "sample_inputs =
     [FtpConnect [10, 0, 0, 9] 4, FtpRecieve sample_env 4 ''USER bob'',
      FtpRecieve sample_env 4 ''PASS pw'']"

definition sample_login :: "ftp_state res" where
  "sample_login = run_inputs (ftp_handle sample_ftp_config) sample_inputs
     (ftp_init (AddSocket (Socket 0 4) ConnectionMgr))"

lemma sample_login_result:
  "case sample_login of Inl _ \<Rightarrow> False
   | Inr st \<Rightarrow> (case sessionData st 4 of None \<Rightarrow> False | Some s \<Rightarrow> loggedIn s)"
  by code_simp

lemma sample_login_run: "\<exists>st s. sample_login = Inr st \<and> sessionData st 4 = Some s \<and> loggedIn s"
  using sample_login_result by (auto split: sum.splits option.splits)

theorem login_was_authorised_witness:
  "\<exists>is1 env bytes is2 st1 s1. sample_inputs = is1 @ FtpRecieve env 4 bytes # is2
     \<and> run_inputs (ftp_handle sample_ftp_config) is1
         (ftp_init (AddSocket (Socket 0 4) ConnectionMgr)) = Inr st1 \<and> sessionData st1 4 = Some s1
     \<and> command_word bytes = ''pass'' \<and> loginPrompted s1 \<and> authorised sample_ftp_config env (username s1) (pass_text (line_text bytes))"
proof -
  obtain st s where "sample_login = Inr st" "sessionData st 4 = Some s" "loggedIn s"
    using sample_login_run by blast
  then show ?thesis unfolding sample_login_def by (rule login_was_authorised)
qed

text \<open>
  C11. In every reachable state of the server each session's working directory begins with a slash,
  its address has four bytes, and a pending login has a user name.
\<close>

theorem sessions_well_formed:
  assumes "ftp_reach cfg st" and "sessionData st fd = Some s"
  shows "first_char (actualDir s) = slash \<and> length (ip_bytes s) = 4
     \<and> (loginPrompted s \<longrightarrow> username s \<noteq> [])"
  using ftp_reach_ok [OF assms(1)] assms(2) by (auto simp: sessions_ok_def session_ok_def)

definition sample_user :: "ftp_state res" where
  "sample_user = ftp_handle sample_ftp_config (FtpRecieve sample_env 4 ''USER bob'') sample_ftp_state"

lemma sample_user_result:
  "case sample_user of Inl _ \<Rightarrow> False
   | Inr st \<Rightarrow> (case sessionData st 4 of None \<Rightarrow> False | Some s \<Rightarrow> loginPrompted s)"
  by code_simp

lemma sample_user_run: "\<exists>st s. sample_user = Inr st \<and> sessionData st 4 = Some s \<and> loginPrompted s"
  using sample_user_result by (auto split: sum.splits option.splits)

theorem sessions_well_formed_witness:
  "\<exists>st s. sample_user = Inr st \<and> sessionData st 4 = Some s \<and> loginPrompted s
     \<and> first_char (actualDir s) = slash \<and> length (ip_bytes s) = 4 \<and> username s \<noteq> []"
proof -
  obtain st s where st: "sample_user = Inr st" "sessionData st 4 = Some s" "loginPrompted s"
    using sample_user_run by blast
  have "ftp_reach sample_ftp_config sample_ftp_state"
    unfolding sample_ftp_state_def
    by (rule ftp_next [OF ftp_start, where i = "FtpConnect [10, 0, 0, 9] 4"]) simp_all
  then have "ftp_reach sample_ftp_config st"
    by (rule ftp_next [where i = "FtpRecieve sample_env 4 ''USER bob''"])
      (use st(1) in \<open>simp_all add: sample_user_def sample_env_def\<close>)
  from sessions_well_formed [OF this st(2)] st show ?thesis by blast
qed

text \<open>
  The text that PASV announces for an address and a port, sent as the argument of PORT, sets
  the session to this address and port: the two commands use the same notation.
\<close>

theorem pasv_port_roundtrip:
  assumes "ip_ok ip" and "p < 65536" and "loggedIn s"
  shows "\<exists>args. pasv_text ip p = ''Entering passive mode ('' @ args @ '').''
    \<and> ftp_port_cmd so (''PORT '' @ args) s =
        Inr (s\<lparr>ip_bytes := ip, ip_text := True, ftp_port := p, isPassive := False\<rparr>,
             SendCommandResponse so 200, Some (inet_ntoa ip))"
  using pasv_text_host_port [OF assms(1)] ftp_port_host_port [OF assms] by blast

theorem pasv_port_roundtrip_witness:
  "\<exists>args. pasv_text [10, 0, 0, 1] 4321 = ''Entering passive mode ('' @ args @ '').''
    \<and> ftp_port_cmd None (''PORT '' @ args) (SessionDataStruct\<lparr>loggedIn := True\<rparr>) =
        Inr (SessionDataStruct\<lparr>loggedIn := True, ip_bytes := [10, 0, 0, 1], ip_text := True,
               ftp_port := 4321, isPassive := False\<rparr>,
             SendCommandResponse None 200, Some (inet_ntoa [10, 0, 0, 1]))"
  using pasv_port_roundtrip [of "[10, 0, 0, 1]" 4321 "SessionDataStruct\<lparr>loggedIn := True\<rparr>" None]
  by (simp add: ip_ok_def)

text \<open>
  A PORT argument with nine commas or more writes past the end of the array of nine numbers.
\<close>

theorem port_argument_overflow:
  assumes "loggedIn s" and "find_char space line = Some i" and "9 \<le> comma_count (drop i line)"
  shows "ftp_port_cmd so line s = Inl OutOfBounds"
proof -
  have "i < length line"
    using assms(2) first_index_bound [of "\<lambda>x. x = space" line] by (simp add: find_char_def)
  then have "substr line (find_char space line) None = Inr (drop i line)"
    using assms(2) by (simp add: substr_def)
  moreover have "port_loop (drop i line) [] = Inl OutOfBounds"
    using assms(3) by (intro port_loop_overflow) auto
  ultimately show ?thesis using assms(1) by (simp add: ftp_port_cmd_def)
qed

theorem port_argument_overflow_witness:
  "ftp_port_cmd None ''PORT 1,2,3,4,5,6,7,8,9,10'' (SessionDataStruct\<lparr>loggedIn := True\<rparr>) = Inl OutOfBounds"
  by (rule port_argument_overflow [where i = 4]) (simp_all add: find_char_def comma_count_def)

text \<open>
  C36. A logged-in client that sends CWD, MKD, RMD, DELE, STOR, RETR or PORT without a blank
  ends the server: \<open>substr\<close> throws an \<open>out_of_range\<close> that nothing catches.
\<close>

theorem missing_argument_uncaught:
  assumes "sessionData st fd = Some s" and "loggedIn s" and "command_of bytes \<in> wants_argument"
    and "space \<notin> set (c_str bytes)"
  shows "ftp_processRecieve cfg env fd bytes st = Inl OutOfRange"
  using processRecieve_missing [OF assms] .

theorem missing_argument_uncaught_witness:
  "ftp_processRecieve sample_ftp_config sample_env 4 ''CWD'' logged_in_state = Inl OutOfRange"
proof (rule missing_argument_uncaught)
  show "sessionData logged_in_state 4 = Some (SessionDataStruct\<lparr>loggedIn := True\<rparr>)"
    by (simp add: logged_in_state_def)
  show "command_of ''CWD'' \<in> wants_argument" unfolding wants_argument_def by code_simp
qed (simp_all add: c_str_def)

text \<open>
  \<open>CWD name\<close> followed by \<open>CWD ..\<close> leads back to the directory it started from, which ends
  in a slash, for every name without a slash.
\<close>

theorem cwd_up_undoes_cwd:
  assumes "slash \<notin> set name" and "name \<noteq> []"
  shows "\<exists>effs. ftp_cwd_up env so (s\<lparr>actualDir := d @ slash # name @ [slash]\<rparr>) =
    Inr (s\<lparr>actualDir := if d = [] \<or> last d \<noteq> slash then d @ [slash] else d\<rparr>, effs)"
  using cwd_up_from [OF assms] by (auto simp: dir_reply_def)

theorem cwd_up_undoes_cwd_witness:
  "\<exists>effs. ftp_cwd_up sample_env None (SessionDataStruct\<lparr>actualDir := ''/a'' @ slash # ''b'' @ [slash]\<rparr>) =
    Inr (SessionDataStruct\<lparr>actualDir :=
      if ''/a'' = [] \<or> last ''/a'' \<noteq> slash then ''/a'' @ [slash] else ''/a''\<rparr>, effs)"
  by (rule cwd_up_undoes_cwd) (simp_all add: slash_def)

text \<open>
  CDUP from a directory below another leaves the parent without its final slash, so that the
  file names of later commands are glued to the last component of the directory.
\<close>

theorem cdup_loses_slash:
  assumes "loggedIn s" and "slash \<notin> set name" and "name \<noteq> []" and "d \<noteq> []"
    and "first_char filename \<noteq> slash"
  shows "\<exists>s' effs. ftp_cdup so (s\<lparr>actualDir := d @ slash # name @ [slash]\<rparr>) = Inr (s', effs)
    \<and> file_address s' filename = homeDirectory s @ d @ filename"
  using cdup_from [OF assms(1-4)] assms(5) by (simp add: file_address_def)

theorem cdup_loses_slash_witness:
  "\<exists>s' effs. ftp_cdup None (SessionDataStruct\<lparr>loggedIn := True, actualDir := ''/a'' @ slash # ''b'' @ [slash]\<rparr>)
      = Inr (s', effs)
    \<and> file_address s' ''f'' = homeDirectory (SessionDataStruct\<lparr>loggedIn := True\<rparr>) @ ''/a'' @ ''f''"
  using cdup_loses_slash [of "SessionDataStruct\<lparr>loggedIn := True\<rparr>" "''b''" "''/a''" "''f''" None]
  by (simp add: slash_def first_char_def)

text \<open>
  Sessions are isolated: whatever other connections send, disconnect or connect, the session
  of a connection stays as it is, as long as the server goes on.
\<close>

theorem ftp_sessions_isolated:
  assumes "run_inputs (ftp_handle cfg) inputs st = Inr st'" and "\<forall>i \<in> set inputs. ftp_owner i \<noteq> fd"
  shows "sessionData st' fd = sessionData st fd"
  using ftp.run_keeps [OF assms] .

theorem ftp_sessions_isolated_witness:
  "\<exists>st'. sample_login = Inr st' \<and> sessionData st' 5 =
     sessionData (ftp_init (AddSocket (Socket 0 4) ConnectionMgr)) 5"
proof -
  obtain st where st: "sample_login = Inr st" using sample_login_run by blast
  have "sessionData st 5 = sessionData (ftp_init (AddSocket (Socket 0 4) ConnectionMgr)) 5"
    by (rule ftp_sessions_isolated [where cfg = sample_ftp_config and inputs = sample_inputs])
      (use st in \<open>simp_all add: sample_login_def sample_inputs_def\<close>)
  then show ?thesis using st by blast
qed

end
