(* ===== verification/Files.thy ===== *)
theory Files
  imports BinDataProps
begin

text \<open>
  \<open>DataArrays/file.{h,cpp}\<close>: \<open>AsciiFile\<close> and \<open>BinFile\<close>, file streams with a copy of their
  content.  The file system is a map from names to contents, holding the files that can be
  opened for reading and writing (the default mode of \<open>fstream::open\<close>, which creates nothing).
  Opening a stream that is open already fails and sets the fail bit, after which seeking,
  reading and writing do nothing and \<open>tellg\<close> is \<open>-1\<close>.
\<close>

type_synonym file_system = "string \<Rightarrow> string option"

section \<open>The stream part\<close>

record fstream =
  fs_path :: "string option"
  fs_fail :: bool

definition fstream_closed :: fstream where
  "fstream_closed = \<lparr>fs_path = None, fs_fail = False\<rparr>"

definition is_open :: "fstream \<Rightarrow> bool" where
  "is_open f \<longleftrightarrow> fs_path f \<noteq> None"

definition fstream_open :: "file_system \<Rightarrow> string \<Rightarrow> fstream \<Rightarrow> fstream" where
  "fstream_open fs name f =
     (if is_open f then f\<lparr>fs_fail := True\<rparr>
      else if fs name \<noteq> None then \<lparr>fs_path = Some name, fs_fail = False\<rparr>
      else f\<lparr>fs_fail := True\<rparr>)"

definition stream_content :: "file_system \<Rightarrow> fstream \<Rightarrow> string" where
  "stream_content fs f =
     (case fs_path f of None \<Rightarrow> [] | Some p \<Rightarrow> (case fs p of None \<Rightarrow> [] | Some c \<Rightarrow> c))"

text \<open>\<open>seekg(0, end); tellg(); seekg(0, beg)\<close>; the same code in both classes.\<close>

definition getLength :: "file_system \<Rightarrow> fstream \<Rightarrow> nat" where
  "getLength fs f =
     (if \<not> is_open f then 0
      else if fs_fail f then size_max else length (stream_content fs f))"

text \<open>\<open>seekp(beg); write(bytes)\<close>: the file keeps what lies behind the bytes written.\<close>

definition overwrite :: "string \<Rightarrow> string \<Rightarrow> string" where
  "overwrite old new = new @ drop (length new) old"

definition write_at_begin :: "fstream \<Rightarrow> string \<Rightarrow> file_system \<Rightarrow> file_system" where
  "write_at_begin f bytes fs =
     (case fs_path f of
        None \<Rightarrow> fs
      | Some p \<Rightarrow> if fs_fail f then fs else fs(p \<mapsto> overwrite (stream_content fs f) bytes))"

section \<open>AsciiFile\<close>

record ascii_file =
  af_stream :: fstream
  af_length :: nat
  af_content :: string
  af_FileName :: string

definition AsciiFile_empty :: ascii_file where
  "AsciiFile_empty = \<lparr>af_stream = fstream_closed, af_length = 0, af_content = [], af_FileName = []\<rparr>"

definition af_openFile :: "file_system \<Rightarrow> string \<Rightarrow> ascii_file \<Rightarrow> ascii_file" where
  "af_openFile fs name f =
     (let f = (if af_FileName f \<noteq> name \<and> length name > 0
               then f\<lparr>af_stream := fstream_open fs name (af_stream f), af_FileName := name\<rparr> else f)
      in if \<not> is_open (af_stream f)
         then f\<lparr>af_stream := fstream_open fs (af_FileName f) (af_stream f)\<rparr> else f)"

definition AsciiFile :: "file_system \<Rightarrow> string \<Rightarrow> ascii_file" where
  "AsciiFile fs name = af_openFile fs name AsciiFile_empty"

text \<open>
  \<open>_readFile\<close>: with the fail bit set the length is \<open>(size_t)-1\<close>, the buffer has no byte and the
  string is built from it.
\<close>

definition af_readFile :: "file_system \<Rightarrow> ascii_file \<Rightarrow> ascii_file res" where
  "af_readFile fs f =
     (if \<not> is_open (af_stream f) then Inr f
      else
        (let len = getLength fs (af_stream f);
             f = (if af_length f \<noteq> len then f\<lparr>af_length := len\<rparr> else f)
         in if af_length f = 0 then Inr f
            else if af_length f = size_max then Inl OutOfBounds
            else Inr (f\<lparr>af_content := c_str (stream_content fs (af_stream f))\<rparr>)))"

definition sreadFile :: "file_system \<Rightarrow> string \<Rightarrow> ascii_file \<Rightarrow> (string \<times> ascii_file) res" where
  "sreadFile fs name f =
     rbind (af_readFile fs (af_openFile fs name f)) (\<lambda>f. Inr (af_content f, f))"

definition af_writeFile :: "string \<Rightarrow> ascii_file \<Rightarrow> ascii_file" where
  "af_writeFile content f = f\<lparr>af_content := content\<rparr>"

definition af_append :: "string \<Rightarrow> ascii_file \<Rightarrow> ascii_file" where
  "af_append content f = f\<lparr>af_content := af_content f @ content\<rparr>"

definition af_SaveToFile :: "ascii_file \<Rightarrow> file_system \<Rightarrow> file_system" where
  "af_SaveToFile f fs =
     (if \<not> is_open (af_stream f) then fs else write_at_begin (af_stream f) (af_content f) fs)"

section \<open>BinFile\<close>

record bin_file =
  bf_stream :: fstream
  bf_length :: nat
  bf_content :: bindata
  bf_FileName :: string

definition BinFile_empty :: bin_file where
  "BinFile_empty = \<lparr>bf_stream = fstream_closed, bf_length = 0, bf_content = bd_init, bf_FileName = []\<rparr>"

definition bf_openFile :: "file_system \<Rightarrow> string \<Rightarrow> bin_file \<Rightarrow> bin_file" where
  "bf_openFile fs name f =
     (let f = (if bf_FileName f \<noteq> c_str name \<and> length (c_str name) > 0
               then f\<lparr>bf_stream := fstream_open fs (c_str name) (bf_stream f), bf_FileName := c_str name\<rparr>
               else f)
      in if \<not> is_open (bf_stream f)
         then f\<lparr>bf_stream := fstream_open fs (c_str (bf_FileName f)) (bf_stream f)\<rparr> else f)"

definition BinFile :: "file_system \<Rightarrow> string \<Rightarrow> bin_file" where
  "BinFile fs name = bf_openFile fs name BinFile_empty"

text \<open>
  \<open>_readFile\<close> reserves the length and reads the bytes to the start of the allocation; the used
  length of the buffer stays 0.  A length of \<open>(size_t)-1\<close> cannot be allocated
  (\<open>std::bad_alloc\<close>, counted as a logic error).
\<close>

definition bf_readFile :: "file_system \<Rightarrow> bin_file \<Rightarrow> bin_file res" where
  "bf_readFile fs f =
     (if \<not> is_open (bf_stream f) then Inr f
      else
        (let len = getLength fs (bf_stream f);
             f = (if bf_length f \<noteq> len then f\<lparr>bf_length := len\<rparr> else f)
         in if bf_length f = 0 then Inr f
            else if bf_length f = size_max then Inl LogicError
            else
              rbind (reserve (bd_clear (bf_content f)) (bf_length f)) (\<lambda>d.
              rbind (wr_bytes d 0 (stream_content fs (bf_stream f))) (\<lambda>d.
                Inr (f\<lparr>bf_content := d\<rparr>)))))"

definition bf_read :: "file_system \<Rightarrow> string \<Rightarrow> bin_file \<Rightarrow> bin_file res" where
  "bf_read fs name f = bf_readFile fs (bf_openFile fs name f)"

definition bf_writeFile :: "string \<Rightarrow> bin_file \<Rightarrow> bin_file res" where
  "bf_writeFile content f =
     rbind (write_buf (bd_clear (bf_content f)) content) (\<lambda>d. Inr (f\<lparr>bf_content := d\<rparr>))"

definition bf_append :: "string \<Rightarrow> bin_file \<Rightarrow> bin_file res" where
  "bf_append content f =
     rbind (append_buf (bf_content f) content) (\<lambda>d. Inr (f\<lparr>bf_content := d\<rparr>))"

definition bf_SaveToFile :: "bin_file \<Rightarrow> file_system \<Rightarrow> file_system res" where
  "bf_SaveToFile f fs =
     (if \<not> is_open (bf_stream f) then Inr fs
      else rbind (rd_bytes (bf_content f) 0 (usedLength (bf_content f)))
             (\<lambda>bytes. Inr (write_at_begin (bf_stream f) bytes fs)))"

definition bf_SaveToFile_as :: "file_system \<Rightarrow> string \<Rightarrow> bin_file \<Rightarrow> file_system res" where
  "bf_SaveToFile_as fs name f = bf_SaveToFile (bf_openFile fs name f) fs"

section \<open>Reading and writing whole files\<close>

lemma AsciiFile_open:
  "fs name = Some c \<Longrightarrow> name \<noteq> [] \<Longrightarrow>
   AsciiFile fs name = \<lparr>af_stream = \<lparr>fs_path = Some name, fs_fail = False\<rparr>, af_length = 0,
     af_content = [], af_FileName = name\<rparr>"
  by (simp add: AsciiFile_def af_openFile_def AsciiFile_empty_def fstream_closed_def
      fstream_open_def is_open_def)

lemma AsciiFile_missing:
  "fs name = None \<Longrightarrow> name \<noteq> [] \<Longrightarrow> fs_path (af_stream (AsciiFile fs name)) = None"
  by (simp add: AsciiFile_def af_openFile_def AsciiFile_empty_def fstream_closed_def
      fstream_open_def is_open_def)

lemma save_new:
  "name \<noteq> [] \<Longrightarrow>
   af_SaveToFile (af_writeFile content (AsciiFile fs name)) fs =
     (case fs name of None \<Rightarrow> fs | Some old \<Rightarrow> fs(name \<mapsto> overwrite old content))"
  by (cases "fs name")
    (simp_all add: AsciiFile_open AsciiFile_missing af_writeFile_def
      af_SaveToFile_def is_open_def write_at_begin_def stream_content_def)

lemma read_new:
  assumes "fs name = Some c" and "name \<noteq> []" and "length c < size_max"
  shows "\<exists>f. sreadFile fs name AsciiFile_empty = Inr (c_str c, f)"
proof (cases "c = []")
  case True
  then show ?thesis
    using assms AsciiFile_open [of fs name c, unfolded AsciiFile_def]
    by (simp add: sreadFile_def af_readFile_def getLength_def is_open_def stream_content_def c_str_def)
next
  case False
  then show ?thesis
    using assms AsciiFile_open [of fs name c, unfolded AsciiFile_def]
    by (simp add: sreadFile_def af_readFile_def getLength_def is_open_def stream_content_def)
qed

lemma sread_length:
  assumes "fs name = Some c" and "name \<noteq> []" and "length c < size_max"
  shows "\<exists>t f. sreadFile fs name AsciiFile_empty = Inr (t, f) \<and> getLength fs (af_stream f) = length c"
  using assms AsciiFile_open [of fs name c, unfolded AsciiFile_def]
  by (simp add: sreadFile_def af_readFile_def getLength_def is_open_def stream_content_def)

lemma BinFile_open:
  assumes "fs name = Some c" and "name \<noteq> []" and "nul \<notin> set name"
  shows "bf_openFile fs name BinFile_empty = \<lparr>bf_stream = \<lparr>fs_path = Some name, fs_fail = False\<rparr>,
     bf_length = 0, bf_content = bd_init, bf_FileName = name\<rparr>"
  using assms by (simp add: bf_openFile_def BinFile_empty_def fstream_closed_def
      fstream_open_def is_open_def c_str_name)

text \<open>The bytes read are in the allocation, although the buffer counts none as used.\<close>

lemma bf_read_new:
  assumes "fs name = Some c" and "name \<noteq> []" and "nul \<notin> set name" and "length c < size_max"
  shows "\<exists>f. bf_read fs name BinFile_empty = Inr f \<and> getLength fs (bf_stream f) = length c
    \<and> usedLength (bf_content f) = 0 \<and> rd_bytes (bf_content f) 0 (length c) = Inr c"
proof (cases "c = []")
  case True
  then show ?thesis
    using assms
    by (simp add: bf_read_def BinFile_open bf_readFile_def getLength_def is_open_def
        stream_content_def rd_bytes_def bd_init_def)
next
  case False
  then show ?thesis
    using assms
    by (simp add: bf_read_def BinFile_open bf_readFile_def getLength_def is_open_def
        stream_content_def rd_bytes_def bd_init_def bd_clear_def reserve_def wr_bytes_def Let_def)
qed

lemma bf_read_missing:
  assumes "fs name = None" and "name \<noteq> []" and "nul \<notin> set name"
  shows "\<exists>f. bf_read fs name BinFile_empty = Inr f \<and> getLength fs (bf_stream f) = 0
    \<and> bd_data (bf_content f) = None"
  using assms
  by (simp add: bf_read_def bf_openFile_def BinFile_empty_def fstream_closed_def bf_readFile_def
      fstream_open_def is_open_def c_str_name getLength_def bd_init_def)

section \<open>Properties\<close>

text \<open>
  Saving a text to an existing file and reading the file with a new object gives the text up
  to its first NUL byte when it is at least as long as the old content; of a longer old content
  the tail stays behind the text.
\<close>

theorem ascii_save_read:
  assumes "fs name = Some old" and "name \<noteq> []" and "length content + length old < size_max"
  shows "\<exists>f. sreadFile (af_SaveToFile (af_writeFile content (AsciiFile fs name)) fs) name AsciiFile_empty
      = Inr (c_str (content @ drop (length content) old), f)"
proof -
  have "af_SaveToFile (af_writeFile content (AsciiFile fs name)) fs = fs(name \<mapsto> overwrite old content)"
    using save_new [OF assms(2)] assms(1) by simp
  moreover have "length (overwrite old content) < size_max"
    using assms(3) by (simp add: overwrite_def)
  ultimately show ?thesis
    using read_new [of "fs(name \<mapsto> overwrite old content)" name "overwrite old content"] assms(2)
    by (simp add: overwrite_def)
qed

theorem ascii_save_read_witness:
  "\<exists>f. sreadFile (af_SaveToFile (af_writeFile ''new'' (AsciiFile [''m'' \<mapsto> ''older''] ''m'')) [''m'' \<mapsto> ''older''])
      ''m'' AsciiFile_empty = Inr (c_str (''new'' @ drop (length ''new'') ''older''), f)"
  by (rule ascii_save_read) (simp_all add: size_max_def)

text \<open>
  \<open>BinFile::readFile\<close> puts exactly the bytes of the file into memory, NUL bytes included, and
  \<open>getLength\<close> is their number; the used length of the buffer that holds them stays 0.
\<close>

theorem binfile_read_exact:
  assumes "fs name = Some c" and "name \<noteq> []" and "nul \<notin> set name" and "length c < size_max"
  shows "\<exists>f. bf_read fs name BinFile_empty = Inr f \<and> getLength fs (bf_stream f) = length c
    \<and> usedLength (bf_content f) = 0 \<and> rd_bytes (bf_content f) 0 (length c) = Inr c"
  using assms by (rule bf_read_new)

theorem binfile_read_exact_witness:
  "\<exists>f. bf_read [''m'' \<mapsto> [nul, CHR ''x'']] ''m'' BinFile_empty = Inr f
    \<and> getLength [''m'' \<mapsto> [nul, CHR ''x'']] (bf_stream f) = length [nul, CHR ''x'']
    \<and> usedLength (bf_content f) = 0
    \<and> rd_bytes (bf_content f) 0 (length [nul, CHR ''x'']) = Inr [nul, CHR ''x'']"
  by (rule binfile_read_exact) (simp_all add: size_max_def)

end
