(* ===== verification/Smtp.thy ===== *)
theory Smtp
  imports Files SocketMgr ConfigMgr Sessions
begin

text \<open>
  \<open>Protocol/SMTP\<close>: the mail server (\<open>Base.cpp\<close>, \<open>SMTP.{h,cpp}\<close>, \<open>Adds.cpp\<close>, \<open>defines.h\<close>).
  A connection has a state and a session; a received block is processed by the state that its
  first word selects, or, for any other word, by the state left from the block before.  The
  finished mail is written over the file whose name is the first recipient.

  \<open>after\<close> is the memory behind the copy of the block that \<open>TextLike\<close> reads as a C string.
\<close>

section \<open>Data\<close>

datatype SMTPStates =
    SMTP_GREETINGS | SMTP_HELLO | SMTP_MAIL_FROM | SMTP_MAIL_RCPT | SMTP_MAIL_DATA_START
  | SMTP_MAIL_DATA | SMTP_QUIT | SMTP_EHLO

record smtp_session =
  Host :: string
  mailFrom :: string
  mailTo :: "string list"
  mail_data :: string

definition SMTPSessionData :: smtp_session where
  "SMTPSessionData = \<lparr>Host = [], mailFrom = [], mailTo = [], mail_data = []\<rparr>"

record smtp_state =
  smtp_status :: "int \<Rightarrow> SMTPStates option"
  smtp_sessions :: "int \<Rightarrow> smtp_session option"
  smtp_sockets :: conn_mgr
  smtp_files :: file_system

datatype smtp_effect = SmtpReply string

definition smtp_responses :: "int \<Rightarrow> string option" where
  "smtp_responses = foldl (\<lambda>m (k, v). map_insert k v m) (\<lambda>_. None)
     [(220, ''Welcome to Ikaros SMTP Server''),
      (421, ''Service not avaliable, closing transmission channel''),
      (550, ''Not Implemented''),
      (250, ''Ok''),
      (354, ''Start mail input; end with <CRLF>.<CRLF>'')]"

definition crlf :: string where "crlf = [cr, nl]"

definition smtp_send :: "sock option \<Rightarrow> string \<Rightarrow> smtp_effect list" where
  "smtp_send so s = (case so of None \<Rightarrow> [] | Some _ \<Rightarrow> [SmtpReply s])"

definition smtp_SendGreetings :: "sock option \<Rightarrow> smtp_effect list" where
  "smtp_SendGreetings so = smtp_send so (''220 Server-Ikaros '' @ ''Welcome to Ikaros SMTP Server'' @ crlf)"

definition smtp_SendHelloResponse :: "sock option \<Rightarrow> string \<Rightarrow> smtp_effect list" where
  "smtp_SendHelloResponse so name = smtp_send so (''250 Hello '' @ name @ crlf)"

definition smtp_SendCommandResponse :: "sock option \<Rightarrow> int \<Rightarrow> smtp_effect list" where
  "smtp_SendCommandResponse so code =
     (case smtp_responses code of
        None \<Rightarrow> []
      | Some msg \<Rightarrow> smtp_send so (int_dec code @ '' '' @ msg @ crlf))"

section \<open>Connecting\<close>

definition smtp_processConnect :: "int \<Rightarrow> smtp_state \<Rightarrow> smtp_state \<times> smtp_effect list" where
  "smtp_processConnect fd st =
     (let so = GetSocketByFd fd (smtp_sockets st);
          status = map_insert fd SMTP_GREETINGS (smtp_status st)
      in (st\<lparr>smtp_status := status(fd \<mapsto> SMTP_HELLO)\<rparr>, smtp_SendGreetings so))"

definition smtp_processDisconnect :: "int \<Rightarrow> smtp_state \<Rightarrow> smtp_state" where
  "smtp_processDisconnect fd st =
     st\<lparr>smtp_status := map_erase fd (smtp_status st), smtp_sessions := map_erase fd (smtp_sessions st)\<rparr>"

section \<open>Receiving\<close>

text \<open>The state after the first word: each comparison that holds overwrites the state.\<close>

definition select_state :: "string \<Rightarrow> SMTPStates \<Rightarrow> SMTPStates" where
  "select_state command s =
     (let c = lower command;
          s = (if c = ''helo'' then SMTP_HELLO else s);
          s = (if c = ''mail'' then SMTP_MAIL_FROM else s);
          s = (if c = ''rcpt'' then SMTP_MAIL_RCPT else s);
          s = (if c = ''data'' then SMTP_MAIL_DATA_START else s);
          s = (if c = ''quit'' then SMTP_QUIT else s)
      in s)"

text \<open>The text between the first \<open><\<close> and the last \<open>>\<close> of a word, with the wrap-around of the length.\<close>

definition mail_address :: "string \<Rightarrow> string res" where
  "mail_address w =
     (let a = find_char CHR ''<'' w; b = rfind_char CHR ''>'' w
      in substr w (Some (size_succ a)) (Some (wrap64 (int (size_val b) - int (size_val a) - 1))))"

definition session_of :: "int \<Rightarrow> smtp_state \<Rightarrow> smtp_session" where
  "session_of fd st = (case smtp_sessions st fd of Some s \<Rightarrow> s | None \<Rightarrow> SMTPSessionData)"

definition set_session :: "int \<Rightarrow> smtp_session \<Rightarrow> smtp_state \<Rightarrow> smtp_state" where
  "set_session fd s st = st\<lparr>smtp_sessions := (smtp_sessions st)(fd \<mapsto> s)\<rparr>"

definition set_status :: "int \<Rightarrow> SMTPStates \<Rightarrow> smtp_state \<Rightarrow> smtp_state" where
  "set_status fd s st = st\<lparr>smtp_status := (smtp_status st)(fd \<mapsto> s)\<rparr>"

definition mail_end :: string where
  "mail_end = crlf @ ''.'' @ crlf"

type_synonym smtp_result = "(smtp_state \<times> smtp_effect list) res"

definition smtp_hello :: "sock option \<Rightarrow> int \<Rightarrow> bindata \<Rightarrow> smtp_state \<Rightarrow> smtp_result" where
  "smtp_hello so fd dat st =
     rbind (get_word dat) (\<lambda>(name, _).
       Inr (set_session fd ((session_of fd st)\<lparr>Host := name\<rparr>) st, smtp_SendHelloResponse so name))"

definition smtp_mail :: "sock option \<Rightarrow> int \<Rightarrow> bindata \<Rightarrow> smtp_state \<Rightarrow> smtp_result" where
  "smtp_mail so fd dat st =
     rbind (get_word dat) (\<lambda>(w, _). rbind (trim w) (\<lambda>w. rbind (mail_address w) (\<lambda>a.
       Inr (set_session fd ((session_of fd st)\<lparr>mailFrom := a\<rparr>) st, smtp_SendCommandResponse so 250))))"

definition smtp_rcpt :: "sock option \<Rightarrow> int \<Rightarrow> bindata \<Rightarrow> smtp_state \<Rightarrow> smtp_result" where
  "smtp_rcpt so fd dat st =
     rbind (get_word dat) (\<lambda>(w, _). rbind (trim w) (\<lambda>w. rbind (mail_address w) (\<lambda>a.
       let s = session_of fd st
       in Inr (set_session fd (s\<lparr>mailTo := mailTo s @ [a]\<rparr>) st, smtp_SendCommandResponse so 250))))"

definition smtp_data_block :: "sock option \<Rightarrow> int \<Rightarrow> string \<Rightarrow> smtp_state \<Rightarrow> smtp_result" where
  "smtp_data_block so fd data st =
     (let s = session_of fd st;
          s = s\<lparr>mail_data := mail_data s @ data\<rparr>
      in if find_sub mail_end (mail_data s) \<noteq> None then
           (case mailTo s of
              [] \<Rightarrow> Inl OutOfBounds
            | r # _ \<Rightarrow>
                (let st = set_status fd SMTP_GREETINGS st;
                     file = af_writeFile (mail_data s) (AsciiFile (smtp_files st) r);
                     st = st\<lparr>smtp_files := af_SaveToFile file (smtp_files st)\<rparr>
                 in Inr (set_session fd (s\<lparr>mail_data := [], mailTo := []\<rparr>) st,
                         smtp_SendCommandResponse so 250)))
         else Inr (set_session fd s st, []))"

definition smtp_quit :: "int \<Rightarrow> smtp_state \<Rightarrow> smtp_result" where
  "smtp_quit fd st =
     rbind (CloseSocketByFd fd (smtp_sockets st)) (\<lambda>m. Inr (st\<lparr>smtp_sockets := m\<rparr>, []))"

text \<open>The switch over the state.\<close>

fun smtp_switch ::
  "SMTPStates \<Rightarrow> sock option \<Rightarrow> int \<Rightarrow> string \<Rightarrow> bindata \<Rightarrow> smtp_state \<Rightarrow> smtp_result" where
  "smtp_switch SMTP_GREETINGS so fd data dat st = Inr (st, [])"
| "smtp_switch SMTP_HELLO so fd data dat st = smtp_hello so fd dat st"
| "smtp_switch SMTP_MAIL_FROM so fd data dat st = smtp_mail so fd dat st"
| "smtp_switch SMTP_MAIL_RCPT so fd data dat st = smtp_rcpt so fd dat st"
| "smtp_switch SMTP_MAIL_DATA_START so fd data dat st =
     Inr (set_status fd SMTP_MAIL_DATA st, smtp_SendCommandResponse so 354)"
| "smtp_switch SMTP_MAIL_DATA so fd data dat st = smtp_data_block so fd data st"
| "smtp_switch SMTP_QUIT so fd data dat st = smtp_quit fd st"
| "smtp_switch SMTP_EHLO so fd data dat st = Inr (st, smtp_SendCommandResponse so 550)"

definition smtp_processRecieve :: "string \<Rightarrow> int \<Rightarrow> string \<Rightarrow> smtp_state \<Rightarrow> smtp_result" where
  "smtp_processRecieve after fd bytes st =
     (let data = c_str bytes;
          so = GetSocketByFd fd (smtp_sockets st)
      in rbind (bd_make data) (\<lambda>dat.
         rbind (TextLike after dat) (\<lambda>_.
           let (status, m) = map_index SMTP_GREETINGS fd (smtp_status st);
               st = st\<lparr>smtp_status := m\<rparr>
           in if status \<noteq> SMTP_MAIL_DATA then
                rbind (trim data) (\<lambda>_.
                rbind (get_word dat) (\<lambda>(command, dat).
                rbind (trim command) (\<lambda>command.
                  let status = select_state command status
                  in smtp_switch status so fd data dat (set_status fd status st))))
              else smtp_switch status so fd data dat st)))"

section \<open>The session contract\<close>

datatype smtp_input =
    SmtpConnect int
  | SmtpRecieve string int string
  | SmtpDisconnect int

fun smtp_owner :: "smtp_input \<Rightarrow> int" where
  "smtp_owner (SmtpConnect fd) = fd"
| "smtp_owner (SmtpRecieve _ fd _) = fd"
| "smtp_owner (SmtpDisconnect fd) = fd"

fun smtp_handle :: "smtp_input \<Rightarrow> smtp_state \<Rightarrow> smtp_state res" where
  "smtp_handle (SmtpConnect fd) st = Inr (fst (smtp_processConnect fd st))"
| "smtp_handle (SmtpRecieve after fd bytes) st =
     rbind (smtp_processRecieve after fd bytes st) (\<lambda>(st, _). Inr st)"
| "smtp_handle (SmtpDisconnect fd) st = Inr (smtp_processDisconnect fd st)"

definition smtp_view :: "smtp_state \<Rightarrow> int \<Rightarrow> (SMTPStates option \<times> smtp_session option) option" where
  "smtp_view st fd =
     (if smtp_status st fd = None \<and> smtp_sessions st fd = None then None
      else Some (smtp_status st fd, smtp_sessions st fd))"

lemma set_simps [simp]:
  "smtp_status (set_session fd s st) = smtp_status st"
  "smtp_sessions (set_session fd s st) = (smtp_sessions st)(fd \<mapsto> s)"
  "smtp_files (set_session fd s st) = smtp_files st"
  "smtp_sockets (set_session fd s st) = smtp_sockets st"
  "smtp_status (set_status fd x st) = (smtp_status st)(fd \<mapsto> x)"
  "smtp_sessions (set_status fd x st) = smtp_sessions st"
  "smtp_files (set_status fd x st) = smtp_files st"
  "smtp_sockets (set_status fd x st) = smtp_sockets st"
  by (simp_all add: set_session_def set_status_def)

lemma switch_others:
  assumes "smtp_switch x so fd data dat st = Inr (st', effs)" and "fd' \<noteq> fd"
  shows "smtp_status st' fd' = smtp_status st fd' \<and> smtp_sessions st' fd' = smtp_sessions st fd'"
  using assms
  by (cases x)
    (auto simp: smtp_hello_def smtp_mail_def smtp_rcpt_def smtp_data_block_def smtp_quit_def
      res_simps Let_def split: if_splits list.splits)

lemma processRecieve_switch:
  assumes "smtp_processRecieve after fd bytes st = Inr (st', effs)"
  shows "\<exists>x dat st1. smtp_switch x (GetSocketByFd fd (smtp_sockets st)) fd (c_str bytes) dat st1 = Inr (st', effs)
    \<and> (\<forall>fd'. fd' \<noteq> fd \<longrightarrow> smtp_status st1 fd' = smtp_status st fd')
    \<and> smtp_sessions st1 = smtp_sessions st \<and> smtp_files st1 = smtp_files st"
proof -
  obtain status m where i: "map_index SMTP_GREETINGS fd (smtp_status st) = (status, m)"
    by (cases "map_index SMTP_GREETINGS fd (smtp_status st)")
  have m: "\<forall>fd'. fd' \<noteq> fd \<longrightarrow> m fd' = smtp_status st fd'"
    using map_index_other [of _ fd SMTP_GREETINGS "smtp_status st"] i by auto
  show ?thesis
  proof (cases "status \<noteq> SMTP_MAIL_DATA")
    case True
    then obtain command dat where "smtp_switch (select_state command status)
        (GetSocketByFd fd (smtp_sockets st)) fd (c_str bytes) dat
        (set_status fd (select_state command status) (st\<lparr>smtp_status := m\<rparr>)) = Inr (st', effs)"
      using assms i by (auto simp: smtp_processRecieve_def res_simps Let_def)
    then show ?thesis using m by fastforce
  next
    case False
    then obtain dat where "smtp_switch status (GetSocketByFd fd (smtp_sockets st)) fd (c_str bytes)
        dat (st\<lparr>smtp_status := m\<rparr>) = Inr (st', effs)"
      using assms i by (auto simp: smtp_processRecieve_def res_simps Let_def)
    then show ?thesis using m by fastforce
  qed
qed

lemma smtp_others_kept:
  assumes "smtp_handle i st = Inr st'" and "fd \<noteq> smtp_owner i"
  shows "smtp_view st' fd = smtp_view st fd"
proof (cases i)
  case (SmtpConnect fd')
  then show ?thesis
    using assms
    by (auto simp: smtp_processConnect_def smtp_view_def map_insert_def Let_def split: option.splits)
next
  case (SmtpRecieve after fd' bytes)
  then obtain effs where r: "smtp_processRecieve after fd' bytes st = Inr (st', effs)"
    using assms(1) by (auto simp: res_simps)
  have ne: "fd \<noteq> fd'" using assms(2) SmtpRecieve by simp
  show ?thesis
    using processRecieve_switch [OF r] switch_others [OF _ ne] ne
    by (auto simp: smtp_view_def)
next
  case (SmtpDisconnect fd')
  then show ?thesis using assms by (auto simp: smtp_processDisconnect_def smtp_view_def)
qed

interpretation smtp: session_server smtp_handle smtp_owner smtp_view
  by unfold_locales (rule smtp_others_kept)

end
