(* ===== verification/SmtpProps.thy ===== *)
theory SmtpProps
  imports Smtp
begin

text \<open>
  The correctness of the mail server: the processing of a command line, the delivery of a mail
  through a whole dialogue, the replies that can be sent in reachable states, and the inputs and
  sequences for which the server fails or mixes up sessions.
\<close>

section \<open>A command line\<close>

definition status_of :: "int \<Rightarrow> smtp_state \<Rightarrow> SMTPStates" where
  "status_of fd st = (case smtp_status st fd of Some s \<Rightarrow> s | None \<Rightarrow> SMTP_GREETINGS)"

lemma map_index_status:
  "map_index SMTP_GREETINGS fd (smtp_status st) =
     (status_of fd st, (smtp_status st)(fd \<mapsto> status_of fd st))"
  by (auto simp: map_index_def status_of_def fun_upd_idem split: option.splits)

lemma set_status_twice:
  "set_status fd x (st\<lparr>smtp_status := (smtp_status st)(fd \<mapsto> y)\<rparr>) = set_status fd x st"
  by (simp add: set_status_def)

lemma set_session_twice [simp]: "set_session fd a (set_session fd b st) = set_session fd a st"
  by (simp add: set_session_def)

lemma session_of_set [simp]:
  "session_of fd (set_session fd s st) = s"
  "session_of fd (set_status fd x st) = session_of fd st"
  by (simp_all add: session_of_def)

lemma recieve_command:
  assumes "c_str bytes = w @ c # rest" and "length (c_str bytes) < 2 ^ 63" and "plain_word w"
    and "word_stop c" and "nl \<in> set (c # rest)" and "nul \<in> set after"
    and "status_of fd st \<noteq> SMTP_MAIL_DATA"
  shows "\<exists>dat. wf_bd dat \<and> unread dat = rest \<and> smtp_processRecieve after fd bytes st =
    smtp_switch (select_state (trimmed w) (status_of fd st)) (GetSocketByFd fd (smtp_sockets st)) fd
      (c_str bytes) dat (set_status fd (select_state (trimmed w) (status_of fd st)) st)"
proof -
  obtain d where d: "bd_make (c_str bytes) = Inr d" "wf_bd d" "unread d = c_str bytes"
    "bd_data d = Some (c_str bytes)"
    using bd_make_unread [OF assms(2)] assms(1) by auto
  obtain d' where d': "get_word d = Inr (w, d')" "wf_bd d'" "unread d' = rest"
    using get_word_split [OF d(2) _ assms(3-5)] d(3) assms(1) by auto
  have "TextLike after d = Inr (c_str (c_str bytes @ after))"
    using d(4) assms(6) by (simp add: TextLike_def)
  then show ?thesis
    using d' d(1) assms(7)
    by (intro exI [of _ d'])
      (simp add: smtp_processRecieve_def map_index_status trim_strip set_status_twice Let_def)
qed

lemma recieve_data:
  assumes "c_str bytes \<noteq> []" and "length (c_str bytes) < 2 ^ 63" and "nul \<in> set after"
    and "smtp_status st fd = Some SMTP_MAIL_DATA"
  shows "smtp_processRecieve after fd bytes st =
    smtp_data_block (GetSocketByFd fd (smtp_sockets st)) fd (c_str bytes) st"
proof -
  obtain d where d: "bd_make (c_str bytes) = Inr d" "bd_data d = Some (c_str bytes)"
    using bd_make_unread [OF assms(2)] assms(1) by auto
  have "TextLike after d = Inr (c_str (c_str bytes @ after))"
    using d(2) assms(3) by (simp add: TextLike_def)
  moreover have "st\<lparr>smtp_status := (smtp_status st)(fd \<mapsto> SMTP_MAIL_DATA)\<rparr> = st"
    using assms(4) by (simp add: fun_upd_idem)
  ultimately show ?thesis
    using d(1) assms(4) by (simp add: smtp_processRecieve_def map_index_status status_of_def Let_def)
qed

section \<open>Addresses\<close>

definition plain_address :: "string \<Rightarrow> bool" where
  "plain_address a \<longleftrightarrow> a \<noteq> [] \<and> plain_word a \<and> CHR ''<'' \<notin> set a \<and> CHR ''>'' \<notin> set a
     \<and> length a < 2 ^ 32"

lemma mail_address_between:
  assumes "CHR ''<'' \<notin> set p" and "plain_address a" and "length p < 2 ^ 32"
  shows "mail_address (p @ CHR ''<'' # a @ ''>'') = Inr a"
proof -
  let ?w = "p @ CHR ''<'' # a @ ''>''"
  have a: "find_char CHR ''<'' ?w = Some (length p)"
    unfolding find_char_def using assms(1) by (intro first_index_split) auto
  have "last_index (\<lambda>x. x = CHR ''>'') ?w = Some (Suc (length p + length a))"
    by (simp add: last_index_append)
  then have b: "rfind_char CHR ''>'' ?w = Some (Suc (length p + length a))" by (simp add: rfind_char_def)
  have "wrap64 (int (Suc (length p + length a)) - int (length p) - 1) = length a"
    using assms(2) by (subst wrap64_small) (simp_all add: plain_address_def)
  then show ?thesis
    by (simp add: mail_address_def a b size_succ_def size_val_def substr_def del: of_nat_Suc)
qed

text \<open>The word that \<open>>>\<close> reads still has the carriage return of the line.\<close>

lemma trimmed_word:
  assumes "w \<noteq> []" and "hd w \<notin> set trim_ws" and "last w \<notin> set trim_ws"
  shows "trimmed (w @ [cr]) = w"
proof -
  have "trimmed ([] @ w @ [cr]) = trimmed w" by (rule strip_surround) (auto simp: trim_ws_def)
  also have "\<dots> = w" using assms by (intro strip_fixed) auto
  finally show ?thesis by simp
qed

lemma plain_word_cr: "plain_word w \<Longrightarrow> plain_word (w @ [cr])"
  by (auto simp: plain_word_def word_stop_def)

lemma stops [simp]: "word_stop space" "word_stop nl"
  by (simp_all add: word_stop_def)

section \<open>The dialogue\<close>

definition line :: "string \<Rightarrow> string" where
  "line s = s @ crlf"

lemma smtp_codes:
  "smtp_SendCommandResponse (Some k) 250 = [SmtpReply (line ''250 Ok'')]"
  "smtp_SendCommandResponse (Some k) 354 =
     [SmtpReply (line ''354 Start mail input; end with <CRLF>.<CRLF>'')]"
proof -
  have "int_dec 250 = ''250''" "int_dec 354 = ''354''" by code_simp+
  then show "smtp_SendCommandResponse (Some k) 250 = [SmtpReply (line ''250 Ok'')]"
    "smtp_SendCommandResponse (Some k) 354 =
     [SmtpReply (line ''354 Start mail input; end with <CRLF>.<CRLF>'')]"
    by (simp_all add: smtp_SendCommandResponse_def smtp_responses_def smtp_send_def line_def)
qed

lemma c_str_plain: "nul \<notin> set s \<Longrightarrow> c_str s = s"
  by (rule c_str_name)


lemma select_lower:
  assumes "lower (trimmed w) = c"
  shows "select_state (trimmed w) s =
    (if c = ''quit'' then SMTP_QUIT else if c = ''data'' then SMTP_MAIL_DATA_START
     else if c = ''rcpt'' then SMTP_MAIL_RCPT else if c = ''mail'' then SMTP_MAIL_FROM
     else if c = ''helo'' then SMTP_HELLO else s)"
  using assms by (simp add: select_state_def)

lemma words:
  "lower (trimmed ''MAIL'') = ''mail''" "lower (trimmed ''RCPT'') = ''rcpt''"
  "lower (trimmed ''HELO'') = ''helo''" "lower (trimmed (''DATA'' @ [cr])) = ''data''"
  "lower (trimmed (''QUIT'' @ [cr])) = ''quit''"
  by code_simp+

lemma select_words:
  "select_state (trimmed ''MAIL'') s = SMTP_MAIL_FROM"
  "select_state (trimmed ''RCPT'') s = SMTP_MAIL_RCPT"
  "select_state (trimmed ''HELO'') s = SMTP_HELLO"
  "select_state (trimmed (''DATA'' @ [cr])) s = SMTP_MAIL_DATA_START"
  "select_state (trimmed (''QUIT'' @ [cr])) s = SMTP_QUIT"
  using select_lower [OF words(1), of s] select_lower [OF words(2), of s]
    select_lower [OF words(3), of s] select_lower [OF words(4), of s] select_lower [OF words(5), of s]
  by simp_all

lemma mail_line:
  assumes "plain_address a" and "nul \<in> set after" and "status_of fd st \<noteq> SMTP_MAIL_DATA"
    and "GetSocketByFd fd (smtp_sockets st) = Some k"
  shows "smtp_processRecieve after fd (line (''MAIL FROM:<'' @ a @ ''>'')) st =
    Inr (set_session fd ((session_of fd st)\<lparr>mailFrom := a\<rparr>) (set_status fd SMTP_MAIL_FROM st),
         [SmtpReply (line ''250 Ok'')])"
proof -
  let ?w = "''FROM:<'' @ a @ ''>''"
  let ?b = "line (''MAIL FROM:<'' @ a @ ''>'')"
  have pa: "plain_word a" "length a < 2 ^ 32" using assms(1) by (auto simp: plain_address_def)
  have b: "c_str ?b = ?b" using plain_word_nul [OF pa(1)] by (intro c_str_plain) (simp add: line_def crlf_def)
  have sp: "?b = ''MAIL'' @ space # ?w @ crlf" by (simp add: line_def)
  have "plain_word ''MAIL''" by (simp add: plain_word_def word_stop_def)
  moreover have "length (c_str ?b) < 2 ^ 63" using pa(2) unfolding b by (simp add: line_def crlf_def)
  ultimately obtain dat where dat: "wf_bd dat" "unread dat = ?w @ crlf"
    "smtp_processRecieve after fd ?b st = smtp_switch SMTP_MAIL_FROM (Some k) fd (c_str ?b) dat
      (set_status fd SMTP_MAIL_FROM st)"
    using recieve_command [of ?b "''MAIL''" space "?w @ crlf" after fd st] assms(2-4) b sp
    unfolding select_words by (auto simp: crlf_def)
  have "plain_word (?w @ [cr])"
    using pa(1) by (intro plain_word_cr) (auto simp: plain_word_def word_stop_def)
  then obtain d where d: "get_word dat = Inr (?w @ [cr], d)"
    using get_word_split [OF dat(1), of "?w @ [cr]" nl "[]"] dat(2) by (auto simp: crlf_def)
  have t: "trimmed (?w @ [cr]) = ?w" by (rule trimmed_word) (simp_all add: trim_ws_def)
  have "mail_address (''FROM:'' @ CHR ''<'' # a @ ''>'') = Inr a"
    using assms(1) by (intro mail_address_between) simp_all
  then have m: "mail_address ?w = Inr a" by simp
  have "smtp_mail (Some k) fd dat (set_status fd SMTP_MAIL_FROM st) =
    Inr (set_session fd ((session_of fd st)\<lparr>mailFrom := a\<rparr>) (set_status fd SMTP_MAIL_FROM st),
         [SmtpReply (line ''250 Ok'')])"
    unfolding smtp_mail_def d rbind.simps prod.case trim_strip t m session_of_set smtp_codes ..
  then show ?thesis using dat(3) by simp
qed

lemma rcpt_line:
  assumes "plain_address a" and "nul \<in> set after" and "status_of fd st \<noteq> SMTP_MAIL_DATA"
    and "GetSocketByFd fd (smtp_sockets st) = Some k"
  shows "smtp_processRecieve after fd (line (''RCPT TO:<'' @ a @ ''>'')) st =
    Inr (set_session fd ((session_of fd st)\<lparr>mailTo := mailTo (session_of fd st) @ [a]\<rparr>)
           (set_status fd SMTP_MAIL_RCPT st), [SmtpReply (line ''250 Ok'')])"
proof -
  let ?w = "''TO:<'' @ a @ ''>''"
  let ?b = "line (''RCPT TO:<'' @ a @ ''>'')"
  have pa: "plain_word a" "length a < 2 ^ 32" using assms(1) by (auto simp: plain_address_def)
  have b: "c_str ?b = ?b" using plain_word_nul [OF pa(1)] by (intro c_str_plain) (simp add: line_def crlf_def)
  have sp: "?b = ''RCPT'' @ space # ?w @ crlf" by (simp add: line_def)
  have "plain_word ''RCPT''" by (simp add: plain_word_def word_stop_def)
  moreover have "length (c_str ?b) < 2 ^ 63" using pa(2) unfolding b by (simp add: line_def crlf_def)
  ultimately obtain dat where dat: "wf_bd dat" "unread dat = ?w @ crlf"
    "smtp_processRecieve after fd ?b st = smtp_switch SMTP_MAIL_RCPT (Some k) fd (c_str ?b) dat
      (set_status fd SMTP_MAIL_RCPT st)"
    using recieve_command [of ?b "''RCPT''" space "?w @ crlf" after fd st] assms(2-4) b sp
    unfolding select_words by (auto simp: crlf_def)
  have "plain_word (?w @ [cr])"
    using pa(1) by (intro plain_word_cr) (auto simp: plain_word_def word_stop_def)
  then obtain d where d: "get_word dat = Inr (?w @ [cr], d)"
    using get_word_split [OF dat(1), of "?w @ [cr]" nl "[]"] dat(2) by (auto simp: crlf_def)
  have t: "trimmed (?w @ [cr]) = ?w" by (rule trimmed_word) (simp_all add: trim_ws_def)
  have "mail_address (''TO:'' @ CHR ''<'' # a @ ''>'') = Inr a"
    using assms(1) by (intro mail_address_between) simp_all
  then have m: "mail_address ?w = Inr a" by simp
  have "smtp_rcpt (Some k) fd dat (set_status fd SMTP_MAIL_RCPT st) =
    Inr (set_session fd ((session_of fd st)\<lparr>mailTo := mailTo (session_of fd st) @ [a]\<rparr>)
           (set_status fd SMTP_MAIL_RCPT st), [SmtpReply (line ''250 Ok'')])"
    unfolding smtp_rcpt_def d rbind.simps prod.case trim_strip t m session_of_set smtp_codes Let_def ..
  then show ?thesis using dat(3) by simp
qed

lemma data_line:
  assumes "nul \<in> set after" and "status_of fd st \<noteq> SMTP_MAIL_DATA"
    and "GetSocketByFd fd (smtp_sockets st) = Some k"
  shows "smtp_processRecieve after fd (line ''DATA'') st =
    Inr (set_status fd SMTP_MAIL_DATA st,
         [SmtpReply (line ''354 Start mail input; end with <CRLF>.<CRLF>'')])"
proof -
  have b: "c_str (line ''DATA'') = line ''DATA''" by (intro c_str_plain) (simp add: line_def crlf_def)
  have sp: "line ''DATA'' = (''DATA'' @ [cr]) @ nl # []" by (simp add: line_def crlf_def)
  have "plain_word (''DATA'' @ [cr])" by (simp add: plain_word_def word_stop_def)
  moreover have "length (c_str (line ''DATA'')) < 2 ^ 63" unfolding b by (simp add: line_def crlf_def)
  ultimately obtain dat where
    "smtp_processRecieve after fd (line ''DATA'') st = smtp_switch SMTP_MAIL_DATA_START (Some k) fd
      (c_str (line ''DATA'')) dat (set_status fd SMTP_MAIL_DATA_START st)"
    using recieve_command [of "line ''DATA''" "''DATA'' @ [cr]" nl "[]" after fd st] assms b sp
    unfolding select_words by auto
  then show ?thesis by (simp add: smtp_codes set_status_def)
qed

section \<open>Blocks of the mail\<close>

fun recieve_blocks :: "string \<Rightarrow> int \<Rightarrow> string list \<Rightarrow> smtp_state \<Rightarrow> smtp_result" where
  "recieve_blocks after fd [] st = Inr (st, [])"
| "recieve_blocks after fd (b # bs) st =
     rbind (smtp_processRecieve after fd b st) (\<lambda>(st, e).
     rbind (recieve_blocks after fd bs st) (\<lambda>(st, es). Inr (st, e @ es)))"

definition block_ok :: "string \<Rightarrow> bool" where
  "block_ok b \<longleftrightarrow> b \<noteq> [] \<and> nul \<notin> set b \<and> length b < 2 ^ 63"

text \<open>Blocks before the end of the mail are collected, without a reply.\<close>

lemma collect_blocks:
  assumes "nul \<in> set after"
  shows "smtp_status st fd = Some SMTP_MAIL_DATA \<Longrightarrow> list_all block_ok bs \<Longrightarrow>
    (\<forall>n \<le> length bs. find_sub mail_end (mail_data (session_of fd st) @ concat (take n bs)) = None) \<Longrightarrow>
    bs \<noteq> [] \<Longrightarrow>
    recieve_blocks after fd bs st =
      Inr (set_session fd ((session_of fd st)\<lparr>mail_data := mail_data (session_of fd st) @ concat bs\<rparr>) st, [])"
proof (induction bs arbitrary: st)
  case (Cons b bs)
  let ?s = "session_of fd st"
  let ?st = "set_session fd (?s\<lparr>mail_data := mail_data ?s @ b\<rparr>) st"
  have b: "c_str b = b" "b \<noteq> []" "length (c_str b) < 2 ^ 63"
    using Cons.prems(2) c_str_plain [of b] by (auto simp: block_ok_def)
  have "find_sub mail_end (mail_data ?s @ b) = None"
    using Cons.prems(3) by (auto dest: spec [of _ 1])
  then have r: "smtp_processRecieve after fd b st = Inr (?st, [])"
    using recieve_data [of b after st fd] b assms Cons.prems(1)
    by (simp add: smtp_data_block_def Let_def)
  show ?case
  proof (cases "bs = []")
    case True
    then show ?thesis using r by simp
  next
    case False
    have "recieve_blocks after fd bs ?st =
      Inr (set_session fd ((session_of fd ?st)\<lparr>mail_data := mail_data (session_of fd ?st) @ concat bs\<rparr>) ?st, [])"
    proof (rule Cons.IH)
      show "\<forall>n \<le> length bs. find_sub mail_end (mail_data (session_of fd ?st) @ concat (take n bs)) = None"
      proof (intro allI impI)
        fix n assume "n \<le> length bs"
        then have "find_sub mail_end (mail_data ?s @ concat (take (Suc n) (b # bs))) = None"
          using Cons.prems(3) by (metis Suc_le_mono length_Cons)
        then show "find_sub mail_end (mail_data (session_of fd ?st) @ concat (take n bs)) = None"
          by simp
      qed
    qed (use Cons.prems False in simp_all)
    then show ?thesis using r by simp
  qed
qed simp

text \<open>The block that completes the mail saves it under the first recipient.\<close>

lemma last_block:
  assumes "nul \<in> set after" and "smtp_status st fd = Some SMTP_MAIL_DATA" and "block_ok b"
    and "find_sub mail_end (mail_data (session_of fd st) @ b) \<noteq> None"
    and "GetSocketByFd fd (smtp_sockets st) = Some k"
  shows "smtp_processRecieve after fd b st =
    (case mailTo (session_of fd st) of
       [] \<Rightarrow> Inl OutOfBounds
     | r # _ \<Rightarrow> Inr (set_session fd ((session_of fd st)\<lparr>mail_data := [], mailTo := []\<rparr>)
         ((set_status fd SMTP_GREETINGS st)\<lparr>smtp_files :=
            af_SaveToFile (af_writeFile (mail_data (session_of fd st) @ b) (AsciiFile (smtp_files st) r))
              (smtp_files st)\<rparr>), [SmtpReply (line ''250 Ok'')]))"
proof -
  have b: "c_str b = b" "b \<noteq> []" "length (c_str b) < 2 ^ 63"
    using assms(3) c_str_plain [of b] by (auto simp: block_ok_def)
  show ?thesis
    using recieve_data [of b after st fd] b assms
    by (cases "mailTo (session_of fd st)")
      (auto simp: smtp_data_block_def Let_def smtp_codes)
qed

lemma recieve_blocks_append:
  "recieve_blocks after fd (as @ bs) st =
     rbind (recieve_blocks after fd as st) (\<lambda>(st, e).
     rbind (recieve_blocks after fd bs st) (\<lambda>(st, es). Inr (st, e @ es)))"
proof (induction as arbitrary: st)
  case Nil
  then show ?case by (cases "recieve_blocks after fd bs st") auto
next
  case (Cons a as)
  show ?case
  proof (cases "smtp_processRecieve after fd a st")
    case (Inr x)
    obtain st1 e where x: "x = (st1, e)" by (cases x)
    show ?thesis
    proof (cases "recieve_blocks after fd as st1")
      case (Inr y)
      obtain st2 es where y: "y = (st2, es)" by (cases y)
      show ?thesis
        using Cons.IH [of st1] \<open>smtp_processRecieve after fd a st = Inr x\<close> Inr x y
        by (cases "recieve_blocks after fd bs st2") auto
    qed (use Cons.IH [of st1] Inr x in simp)
  qed simp
qed

text \<open>The blocks of one mail: the end of the mail comes with the last block and not before.\<close>

definition mail_blocks :: "string list \<Rightarrow> string \<Rightarrow> bool" where
  "mail_blocks bs b \<longleftrightarrow> list_all block_ok bs \<and> block_ok b
     \<and> (\<forall>n \<le> length bs. find_sub mail_end (concat (take n bs)) = None)
     \<and> find_sub mail_end (concat bs @ b) \<noteq> None"

lemma data_phase:
  assumes "nul \<in> set after" and "smtp_status st fd = Some SMTP_MAIL_DATA"
    and "mail_data (session_of fd st) = []" and "mailTo (session_of fd st) = r # rs"
    and "mail_blocks bs b" and "GetSocketByFd fd (smtp_sockets st) = Some k"
  shows "recieve_blocks after fd (bs @ [b]) st =
    Inr (set_session fd ((session_of fd st)\<lparr>mail_data := [], mailTo := []\<rparr>)
         ((set_status fd SMTP_GREETINGS st)\<lparr>smtp_files :=
            af_SaveToFile (af_writeFile (concat bs @ b) (AsciiFile (smtp_files st) r)) (smtp_files st)\<rparr>),
         [SmtpReply (line ''250 Ok'')])"
proof -
  let ?s = "session_of fd st"
  define st1 where "st1 = (if bs = [] then st else set_session fd (?s\<lparr>mail_data := concat bs\<rparr>) st)"
  have c: "recieve_blocks after fd bs st = Inr (st1, [])"
  proof (cases "bs = []")
    case False
    then show ?thesis
      using collect_blocks [OF assms(1,2), of bs] assms(3,5) by (simp add: st1_def mail_blocks_def)
  qed (simp add: st1_def)
  have s1: "smtp_status st1 fd = Some SMTP_MAIL_DATA" "smtp_files st1 = smtp_files st"
    "smtp_sockets st1 = smtp_sockets st" "mailTo (session_of fd st1) = r # rs"
    "mail_data (session_of fd st1) = concat bs"
    using assms(2-4) by (simp_all add: st1_def)
  have eq: "set_session fd ((session_of fd st1)\<lparr>mail_data := [], mailTo := []\<rparr>)
      ((set_status fd SMTP_GREETINGS st1)\<lparr>smtp_files := fs\<rparr>) =
    set_session fd (?s\<lparr>mail_data := [], mailTo := []\<rparr>)
      ((set_status fd SMTP_GREETINGS st)\<lparr>smtp_files := fs\<rparr>)" for fs
    by (simp add: st1_def set_session_def set_status_def session_of_def)
  have "smtp_processRecieve after fd b st1 =
    Inr (set_session fd (?s\<lparr>mail_data := [], mailTo := []\<rparr>)
         ((set_status fd SMTP_GREETINGS st)\<lparr>smtp_files :=
            af_SaveToFile (af_writeFile (concat bs @ b) (AsciiFile (smtp_files st) r)) (smtp_files st)\<rparr>),
         [SmtpReply (line ''250 Ok'')])"
    using last_block [OF assms(1) s1(1), of b k] assms(5,6) s1 eq by (simp add: mail_blocks_def)
  then show ?thesis using c by (simp add: recieve_blocks_append)
qed

section \<open>Reachable states\<close>

inductive smtp_reach :: "smtp_state \<Rightarrow> bool" where
  smtp_start: "smtp_reach \<lparr>smtp_status = (\<lambda>_. None), smtp_sessions = (\<lambda>_. None),
      smtp_sockets = m, smtp_files = fs\<rparr>"
| smtp_next: "smtp_reach st \<Longrightarrow> smtp_handle i st = Inr st' \<Longrightarrow> smtp_reach st'"

definition no_ehlo :: "smtp_state \<Rightarrow> bool" where
  "no_ehlo st \<longleftrightarrow> (\<forall>fd. smtp_status st fd \<noteq> Some SMTP_EHLO)"

lemma select_no_ehlo: "s \<noteq> SMTP_EHLO \<Longrightarrow> select_state c s \<noteq> SMTP_EHLO"
  by (simp add: select_state_def Let_def)

lemma switch_no_ehlo:
  assumes "smtp_switch x so fd data dat st = Inr (st', effs)" and "x \<noteq> SMTP_EHLO" and "no_ehlo st"
  shows "no_ehlo st'"
  using assms
  by (cases x)
    (auto simp: no_ehlo_def smtp_hello_def smtp_mail_def smtp_rcpt_def smtp_data_block_def
      smtp_quit_def res_simps Let_def split: if_splits list.splits)

text \<open>A received block runs the switch in a state that is not \<open>SMTP_EHLO\<close>.\<close>

lemma processRecieve_state:
  assumes "smtp_processRecieve after fd bytes st = Inr (st', effs)" and "no_ehlo st"
  shows "\<exists>x dat st1. smtp_switch x (GetSocketByFd fd (smtp_sockets st)) fd (c_str bytes) dat st1 = Inr (st', effs)
    \<and> x \<noteq> SMTP_EHLO \<and> no_ehlo st1"
proof -
  let ?s = "status_of fd st"
  have s: "?s \<noteq> SMTP_EHLO" using assms(2) by (auto simp: no_ehlo_def status_of_def split: option.splits)
  show ?thesis
  proof (cases "?s = SMTP_MAIL_DATA")
    case True
    then obtain dat where "smtp_switch ?s (GetSocketByFd fd (smtp_sockets st)) fd (c_str bytes) dat
        (st\<lparr>smtp_status := (smtp_status st)(fd \<mapsto> ?s)\<rparr>) = Inr (st', effs)"
      using assms(1) by (auto simp: smtp_processRecieve_def map_index_status res_simps Let_def)
    moreover have "no_ehlo (st\<lparr>smtp_status := (smtp_status st)(fd \<mapsto> ?s)\<rparr>)"
      using assms(2) s by (simp add: no_ehlo_def)
    ultimately show ?thesis using s by blast
  next
    case False
    then obtain command dat where "smtp_switch (select_state command ?s)
        (GetSocketByFd fd (smtp_sockets st)) fd (c_str bytes) dat
        (set_status fd (select_state command ?s) st) = Inr (st', effs)"
      using assms(1)
      by (auto simp: smtp_processRecieve_def map_index_status set_status_twice res_simps Let_def)
    moreover have "no_ehlo (set_status fd (select_state command ?s) st)"
      using assms(2) select_no_ehlo [OF s] by (simp add: no_ehlo_def)
    ultimately show ?thesis using select_no_ehlo [OF s] by blast
  qed
qed

lemma smtp_reach_no_ehlo: "smtp_reach st \<Longrightarrow> no_ehlo st"
proof (induction rule: smtp_reach.induct)
  case (smtp_next st i st')
  show ?case
  proof (cases i)
    case (SmtpConnect fd)
    then show ?thesis
      using smtp_next
      by (auto simp: smtp_processConnect_def no_ehlo_def map_insert_def Let_def
          split: option.splits if_splits)
  next
    case (SmtpRecieve after fd bytes)
    with smtp_next(2) obtain effs where "smtp_processRecieve after fd bytes st = Inr (st', effs)"
      by (auto simp: res_simps)
    from processRecieve_state [OF this smtp_next(3)] show ?thesis
      using switch_no_ehlo by blast
  next
    case (SmtpDisconnect fd)
    then show ?thesis using smtp_next by (auto simp: smtp_processDisconnect_def no_ehlo_def split: if_splits)
  qed
qed (simp add: no_ehlo_def)

definition accepted_reply :: "smtp_effect \<Rightarrow> bool" where
  "accepted_reply e \<longleftrightarrow> (case e of SmtpReply r \<Rightarrow> take 3 r = ''250'' \<or> take 3 r = ''354'')"

lemma no_socket_no_reply:
  "smtp_SendCommandResponse None c = []" "smtp_SendHelloResponse None n = []"
  by (simp_all add: smtp_SendCommandResponse_def smtp_SendHelloResponse_def smtp_send_def
      split: option.splits)

lemma accepted_codes:
  "list_all accepted_reply (smtp_SendCommandResponse so 250)"
  "list_all accepted_reply (smtp_SendCommandResponse so 354)"
  "list_all accepted_reply (smtp_SendHelloResponse so n)"
  by (cases so; simp add: no_socket_no_reply smtp_codes accepted_reply_def line_def;
      simp add: smtp_SendHelloResponse_def smtp_send_def accepted_reply_def)+

lemma switch_replies:
  assumes "smtp_switch x so fd data dat st = Inr (st', effs)" and "x \<noteq> SMTP_EHLO"
  shows "list_all accepted_reply effs"
proof (cases x)
  case SMTP_HELLO
  then show ?thesis using assms(1) accepted_codes by (auto simp: smtp_hello_def res_simps)
next
  case SMTP_MAIL_FROM
  then show ?thesis using assms(1) accepted_codes by (auto simp: smtp_mail_def res_simps)
next
  case SMTP_MAIL_RCPT
  then show ?thesis using assms(1) accepted_codes by (auto simp: smtp_rcpt_def res_simps Let_def)
next
  case SMTP_MAIL_DATA
  then show ?thesis
    using assms(1) accepted_codes
    by (auto simp: smtp_data_block_def Let_def split: if_splits list.splits)
next
  case SMTP_QUIT
  then show ?thesis using assms(1) by (auto simp: smtp_quit_def res_simps)
qed (use assms accepted_codes in auto)

section \<open>Properties\<close>

definition sample_smtp :: smtp_state where
  "sample_smtp =
     \<lparr>smtp_status = [4 \<mapsto> SMTP_HELLO], smtp_sessions = [4 \<mapsto> SMTPSessionData],
      smtp_sockets = AddSocket (Socket 0 4) ConnectionMgr, smtp_files = [''box'' \<mapsto> ''old'']\<rparr>"

lemma sample_smtp_simps:
  "status_of 4 sample_smtp = SMTP_HELLO" "session_of 4 sample_smtp = SMTPSessionData"
  "GetSocketByFd 4 (smtp_sockets sample_smtp) = Some (Socket 0 4)"
  "smtp_files sample_smtp = [''box'' \<mapsto> ''old'']"
  by (simp_all add: sample_smtp_def status_of_def session_of_def AddSocket_def sockets_insert_def
      GetSocketByFd_def find_key_def ConnectionMgr_def Socket_def)

text \<open>
  C17. A whole mail dialogue of a connected client (MAIL, RCPT, DATA, then the mail in any number
  of blocks) is answered 250, 250, 354, 250, and writes the blocks, joined, over the beginning
  of the file named by the recipient when this file exists; otherwise the mail is lost, with
  the same replies.
\<close>

theorem mail_dialogue:
  assumes "plain_address from_addr" and "plain_address to_addr" and "nul \<in> set after"
    and "status_of fd st \<noteq> SMTP_MAIL_DATA" and "mailTo (session_of fd st) = []"
    and "mail_data (session_of fd st) = []" and "mail_blocks bs b"
    and "GetSocketByFd fd (smtp_sockets st) = Some k"
  shows "\<exists>st'. recieve_blocks after fd
      ([line (''MAIL FROM:<'' @ from_addr @ ''>''), line (''RCPT TO:<'' @ to_addr @ ''>''),
        line ''DATA''] @ bs @ [b]) st =
      Inr (st', map SmtpReply [line ''250 Ok'', line ''250 Ok'',
        line ''354 Start mail input; end with <CRLF>.<CRLF>'', line ''250 Ok''])
    \<and> smtp_files st' = (case smtp_files st to_addr of
        None \<Rightarrow> smtp_files st
      | Some old \<Rightarrow> (smtp_files st)(to_addr \<mapsto> overwrite old (concat bs @ b)))"
proof -
  let ?s = "session_of fd st"
  let ?st1 = "set_session fd (?s\<lparr>mailFrom := from_addr\<rparr>) (set_status fd SMTP_MAIL_FROM st)"
  have r1: "smtp_processRecieve after fd (line (''MAIL FROM:<'' @ from_addr @ ''>'')) st =
      Inr (?st1, [SmtpReply (line ''250 Ok'')])"
    by (rule mail_line) (use assms in simp_all)
  let ?s2 = "?s\<lparr>mailFrom := from_addr, mailTo := [to_addr]\<rparr>"
  let ?st2 = "set_session fd ?s2 (set_status fd SMTP_MAIL_RCPT ?st1)"
  have "smtp_processRecieve after fd (line (''RCPT TO:<'' @ to_addr @ ''>'')) ?st1 =
      Inr (set_session fd ((session_of fd ?st1)\<lparr>mailTo := mailTo (session_of fd ?st1) @ [to_addr]\<rparr>)
             (set_status fd SMTP_MAIL_RCPT ?st1), [SmtpReply (line ''250 Ok'')])"
    by (rule rcpt_line) (use assms in \<open>simp_all add: status_of_def\<close>)
  then have r2: "smtp_processRecieve after fd (line (''RCPT TO:<'' @ to_addr @ ''>'')) ?st1 =
      Inr (?st2, [SmtpReply (line ''250 Ok'')])"
    using assms(5) by simp
  let ?st3 = "set_status fd SMTP_MAIL_DATA ?st2"
  have r3: "smtp_processRecieve after fd (line ''DATA'') ?st2 =
      Inr (?st3, [SmtpReply (line ''354 Start mail input; end with <CRLF>.<CRLF>'')])"
    by (rule data_line) (use assms in \<open>simp_all add: status_of_def\<close>)
  have "recieve_blocks after fd (bs @ [b]) ?st3 =
    Inr (set_session fd ((session_of fd ?st3)\<lparr>mail_data := [], mailTo := []\<rparr>)
         ((set_status fd SMTP_GREETINGS ?st3)\<lparr>smtp_files :=
            af_SaveToFile (af_writeFile (concat bs @ b) (AsciiFile (smtp_files ?st3) to_addr))
              (smtp_files ?st3)\<rparr>), [SmtpReply (line ''250 Ok'')])"
    by (rule data_phase [where rs = "[]"]) (use assms in simp_all)
  moreover have "to_addr \<noteq> []" using assms(2) by (simp add: plain_address_def)
  ultimately show ?thesis using r1 r2 r3 save_new by simp
qed

definition sample_block :: string where
  "sample_block = ''Hi'' @ mail_end"

theorem mail_dialogue_witness:
  "\<exists>st'. recieve_blocks [nul] 4
      ([line (''MAIL FROM:<'' @ ''me'' @ ''>''), line (''RCPT TO:<'' @ ''box'' @ ''>''),
        line ''DATA''] @ [] @ [sample_block]) sample_smtp =
      Inr (st', map SmtpReply [line ''250 Ok'', line ''250 Ok'',
        line ''354 Start mail input; end with <CRLF>.<CRLF>'', line ''250 Ok''])
    \<and> smtp_files st' = (case smtp_files sample_smtp ''box'' of
        None \<Rightarrow> smtp_files sample_smtp
      | Some old \<Rightarrow> (smtp_files sample_smtp)(''box'' \<mapsto> overwrite old (concat [] @ sample_block)))"
  by (rule mail_dialogue)
    (simp_all add: sample_smtp_simps SMTPSessionData_def plain_address_def plain_word_def
      word_stop_def mail_blocks_def block_ok_def sample_block_def mail_end_def crlf_def)

text \<open>
  In every reachable state every reply to received data begins with 250 or 354: the server
  has no reply that refuses anything (its 550 belongs to a state that is never entered).
\<close>

theorem smtp_never_refuses:
  assumes "smtp_reach st" and "smtp_processRecieve after fd bytes st = Inr (st', effs)"
  shows "list_all accepted_reply effs"
  using processRecieve_state [OF assms(2) smtp_reach_no_ehlo [OF assms(1)]] switch_replies by blast

definition fresh_smtp :: smtp_state where
  "fresh_smtp = \<lparr>smtp_status = (\<lambda>_. None), smtp_sessions = (\<lambda>_. None),
     smtp_sockets = AddSocket (Socket 0 4) ConnectionMgr, smtp_files = (\<lambda>_. None)\<rparr>"

theorem smtp_never_refuses_witness:
  "list_all accepted_reply [SmtpReply (line ''354 Start mail input; end with <CRLF>.<CRLF>'')]"
proof (rule smtp_never_refuses)
  show "smtp_reach fresh_smtp" unfolding fresh_smtp_def by (rule smtp_start)
  show "smtp_processRecieve [nul] 4 (line ''DATA'') fresh_smtp =
    Inr (set_status 4 SMTP_MAIL_DATA fresh_smtp,
         [SmtpReply (line ''354 Start mail input; end with <CRLF>.<CRLF>'')])"
    by (rule data_line)
      (simp_all add: fresh_smtp_def status_of_def AddSocket_def sockets_insert_def GetSocketByFd_def
        find_key_def ConnectionMgr_def Socket_def)
qed

text \<open>
  A client that sends DATA without a recipient and then ends its mail makes the server read
  the first element of an empty vector.
\<close>

theorem mail_without_recipient:
  assumes "nul \<in> set after" and "smtp_status st fd = Some SMTP_MAIL_DATA" and "block_ok b"
    and "find_sub mail_end (mail_data (session_of fd st) @ b) \<noteq> None"
    and "mailTo (session_of fd st) = []" and "GetSocketByFd fd (smtp_sockets st) = Some k"
  shows "smtp_processRecieve after fd b st = Inl OutOfBounds"
  using last_block [OF assms(1-4,6)] assms(5) by simp

theorem mail_without_recipient_witness:
  "smtp_processRecieve [nul] 4 sample_block (set_status 4 SMTP_MAIL_DATA sample_smtp) = Inl OutOfBounds"
  by (rule mail_without_recipient)
    (simp_all add: sample_smtp_simps SMTPSessionData_def block_ok_def sample_block_def
      mail_end_def crlf_def)

text \<open>
  A first word that is no command repeats the action of the last one: the line is processed
  in the state that the connection is in.
\<close>

theorem unknown_command_repeats_state:
  assumes "c_str bytes = w @ c # rest" and "length (c_str bytes) < 2 ^ 63" and "plain_word w"
    and "word_stop c" and "nl \<in> set (c # rest)" and "nul \<in> set after"
    and "smtp_status st fd = Some s" and "s \<noteq> SMTP_MAIL_DATA"
    and "lower (trimmed w) \<notin> {''helo'', ''mail'', ''rcpt'', ''data'', ''quit''}"
  shows "\<exists>dat. unread dat = rest \<and> smtp_processRecieve after fd bytes st =
    smtp_switch s (GetSocketByFd fd (smtp_sockets st)) fd (c_str bytes) dat st"
proof -
  have s: "status_of fd st = s" using assms(7) by (simp add: status_of_def)
  have "select_state (trimmed w) s = s" using assms(9) by (simp add: select_lower [OF refl])
  moreover have "set_status fd s st = st"
    using assms(7) by (simp add: set_status_def fun_upd_idem)
  ultimately show ?thesis
    using recieve_command [OF assms(1-6), of fd st] assms(8) by (auto simp: s)
qed

theorem unknown_command_repeats_state_witness:
  "\<exists>dat. unread dat = ''me'' @ [nl] \<and> smtp_processRecieve [nul] 4 (''EHLO'' @ space # ''me'' @ [nl]) sample_smtp =
    smtp_switch SMTP_HELLO (GetSocketByFd 4 (smtp_sockets sample_smtp)) 4
      (c_str (''EHLO'' @ space # ''me'' @ [nl])) dat sample_smtp"
proof (rule unknown_command_repeats_state [where c = space])
  show "lower (trimmed ''EHLO'') \<notin> {''helo'', ''mail'', ''rcpt'', ''data'', ''quit''}" by code_simp
  show "plain_word ''EHLO''" by (simp add: plain_word_def word_stop_def)
qed (simp_all add: c_str_def sample_smtp_def)

text \<open>
  QUIT keeps the session, and so does the next connection that gets the same descriptor: the
  recipients of the first client are the first recipients of the second one's mail.
\<close>

theorem quit_leaves_recipients:
  assumes "smtp_quit fd st = Inr (st1, effs)"
  shows "session_of fd (fst (smtp_processConnect fd st1)) = session_of fd st"
  using assms by (auto simp: smtp_quit_def smtp_processConnect_def session_of_def res_simps Let_def)

theorem quit_leaves_recipients_witness:
  "session_of 4 (fst (smtp_processConnect 4
     (sample_smtp\<lparr>smtp_sockets := (smtp_sockets sample_smtp)\<lparr>queue := [NodeAt 0]\<rparr>\<rparr>))) =
   session_of 4 sample_smtp"
proof (rule quit_leaves_recipients)
  show "smtp_quit 4 sample_smtp =
      Inr (sample_smtp\<lparr>smtp_sockets := (smtp_sockets sample_smtp)\<lparr>queue := [NodeAt 0]\<rparr>\<rparr>, [])"
    by (simp add: smtp_quit_def sample_smtp_def CloseSocketByFd_def AddSocket_def sockets_insert_def
        find_key_def ConnectionMgr_def Socket_def)
qed

text \<open>
  Mail sessions are isolated: the state and the session of a connection do not depend on what
  other connections do.
\<close>

theorem smtp_sessions_isolated:
  assumes "run_inputs smtp_handle inputs st = Inr st'" and "\<forall>i \<in> set inputs. smtp_owner i \<noteq> fd"
  shows "smtp_view st' fd = smtp_view st fd"
  using smtp.run_keeps [OF assms] .

theorem smtp_sessions_isolated_witness:
  "smtp_view (fst (smtp_processConnect 7 sample_smtp)) 4 = smtp_view sample_smtp 4"
  by (rule smtp_sessions_isolated [where inputs = "[SmtpConnect 7]"]) simp_all

end
