(* ===== verification/Http.thy ===== *)
theory Http
  imports Files SocketMgr ConfigMgr
begin

text \<open>
  \<open>Protocol/HTTP\<close>: the web server (\<open>Base.cpp\<close>, \<open>HTTP.{h,cpp}\<close>, \<open>Adds.{h,cpp}\<close>).  A received
  block is parsed into a header, the requested name is split and checked, and a page is sent:
  at once, or, when it is large, by a new thread.

  \<open>http_env\<close> holds what the system answers: the files that open for reading and writing, and
  the result of \<open>stat\<close> for a name (0 or the error number).  The effects of a request are the
  blocks of bytes given to \<open>Socket::Send\<close> and the argument blocks given to new threads.
\<close>

section \<open>Data\<close>

datatype RequestMethod = METHOD_GET | METHOD_PUT | METHOD_POST | METHOD_HEAD

text \<open>\<open>additions\<close> is a multimap, ordered by its comparison object, equal keys in insertion order.\<close>

record http_header =
  hd_method :: RequestMethod
  hd_uri :: string
  hd_Host :: string
  hd_UserAgent :: string
  hd_additions :: "(string \<times> string) list"

fun multimap_insert :: "string \<Rightarrow> string \<Rightarrow> (string \<times> string) list \<Rightarrow> (string \<times> string) list" where
  "multimap_insert k v [] = [(k, v)]"
| "multimap_insert k v ((k', v') # m) =
     (if string_less k k' then (k, v) # (k', v') # m else (k', v') # multimap_insert k v m)"

record file_address_t =
  fa_path :: string
  fa_fileName :: string
  fa_params :: string
  fa_file :: string
  fa_isValid :: bool

record http_config =
  hc_allow_index :: bool
  hc_debug :: bool
  hc_control :: bool
  hc_index_file :: string
  hc_hostname :: string
  hc_root_dir :: string
  hc_max_main :: int

record http_env =
  he_files :: file_system
  he_stat :: "string \<Rightarrow> int"

definition EACCES :: int where "EACCES = 13"

section \<open>Tables\<close>

definition errorStrings :: "nat \<Rightarrow> string option" where
  "errorStrings = foldl (\<lambda>m (k, v). map_insert k v m) (\<lambda>_. None)
     [(200, ''OK''), (404, ''File Not Found''), (403, ''Access Forbidden''),
      (500, ''Internal Server Error'')]"

text \<open>The three pages differ in title, headline and paragraph; only the first ends its last line.\<close>

definition page_text :: "string \<Rightarrow> string \<Rightarrow> string \<Rightarrow> string \<Rightarrow> string" where
  "page_text title head par final =
     ''<html>'' @ [nl] @
     ''    <head>'' @ [nl] @
     ''        <title>'' @ title @ ''</title>'' @ [nl] @
     ''    </head>'' @ [nl] @
     ''    <body>'' @ [nl] @
     ''    <br'' @ [CHR 0x5C] @ ''><br'' @ [CHR 0x5C] @ ''>'' @ [nl] @
     ''        <div style='' @ [dquote] @ ''padding-left:100px'' @ [dquote] @ ''>'' @ [nl] @
     ''            <h1>'' @ head @ ''</h1>'' @ [nl] @
     ''            <p>'' @ par @ ''</p>'' @ [nl] @
     ''        </div>'' @ [nl] @
     ''    </body>'' @ [nl] @
     ''</html>'' @ final"

definition errorPages :: "nat \<Rightarrow> string option" where
  "errorPages = foldl (\<lambda>m (k, v). map_insert k v m) (\<lambda>_. None)
     [(404, page_text ''404. Not Found'' ''Page Not Found''
              ''File you are requesting cannot be found on this server.'' [nl]),
      (403, page_text ''403. Access Forbidden'' ''Access Forbidden''
              (''You don'' @ [quote] @ ''t have a rights to view this file.'') []),
      (500, page_text ''500. Internal Server Error'' ''Internal Server Error''
              ''This Unknown error may occur from time to time.'' [])]"

section \<open>Configuration\<close>

text \<open>\<open>LoadConfig\<close>; the lines of \<open>DebugConfig\<close> print the values and have no other effect.\<close>

definition LoadConfig :: "config_mgr \<Rightarrow> http_config res" where
  "LoadConfig c =
     (let size = LoadIntConfig c ''MaximalMainThreadFileSize'' 40000;
          size = (if size \<le> 0 then 40000 else size);
          root = LoadStringConfig c ''RootDirectory'' ''./''
      in rbind (last_char root) (\<lambda>ch.
         rbind (if ch = slash then erase root (length root - 1) (Some 1) else Inr root) (\<lambda>root.
           Inr \<lparr>hc_allow_index = LoadBoolConfig c ''AllowIndexFile'' True,
                hc_debug = LoadBoolConfig c ''Debug'' True,
                hc_control = LoadBoolConfig c ''Control'' True,
                hc_index_file = LoadStringConfig c ''IndexFileName'' ''index.html'',
                hc_hostname = LoadStringConfig c ''Hostname'' ''localhost'',
                hc_root_dir = root, hc_max_main = size\<rparr>)))"

section \<open>The requested name\<close>

text \<open>\<open>FileAddress::Parse\<close>: what follows the last slash is the file name and its parameters.\<close>

definition FileAddress :: "string \<Rightarrow> file_address_t res" where
  "FileAddress file =
     (case rfind_char slash file of
        None \<Rightarrow> Inr \<lparr>fa_path = [], fa_fileName = [], fa_params = [], fa_file = file, fa_isValid = False\<rparr>
      | Some pos \<Rightarrow>
          rbind (substr file (Some (pos + 1)) None) (\<lambda>Tfile.
          rbind (substr file (Some 0) (Some (pos + 1))) (\<lambda>path.
            case find_char CHR ''?'' Tfile of
              None \<Rightarrow> Inr \<lparr>fa_path = path, fa_fileName = Tfile, fa_params = [], fa_file = file,
                            fa_isValid = True\<rparr>
            | Some pos \<Rightarrow>
                rbind (substr Tfile (Some (pos + 1)) None) (\<lambda>params.
                rbind (substr Tfile (Some 0) (Some pos)) (\<lambda>name.
                  Inr \<lparr>fa_path = path, fa_fileName = name, fa_params = params, fa_file = file,
                       fa_isValid = True\<rparr>)))))"

text \<open>
  The loop of \<open>isWithinRootDir\<close>: \<open>None\<close> is its \<open>return false\<close>, otherwise the depth with which it
  ends.  The rest of the name keeps its slash in front, so the second component is empty.
\<close>

function root_loop :: "int \<Rightarrow> string \<Rightarrow> int option" where
  "root_loop deep file =
     (case find_char slash file of
        None \<Rightarrow> Some deep
      | Some i \<Rightarrow>
          (let test = take i file
           in if test = [] \<and> deep = 0 then None
              else if test = [] then Some deep
              else root_loop (if test = ''..'' then deep - 1 else deep + 1) (drop i file)))"
  by pat_completeness auto
termination
proof (relation "measure (\<lambda>(deep, s). length s)", goal_cases)
  case (2 deep s i test)
  then show ?case by (cases s; cases i) (simp_all add: find_char_def)
qed simp

declare root_loop.simps [simp del]

definition isWithinRootDir :: "string \<Rightarrow> bool" where
  "isWithinRootDir file =
     (let file = (if first_char file = slash then drop 1 file else file)
      in case root_loop 0 file of None \<Rightarrow> False | Some deep \<Rightarrow> \<not> deep < 0)"

definition FileExists :: "http_env \<Rightarrow> string \<Rightarrow> int" where
  "FileExists env file = he_stat env (c_str file)"

section \<open>Sending\<close>

text \<open>
  The argument block of \<open>SendOverNewThread\<close>, by the pointer that is set, and the bytes that the
  thread gives to \<open>Send\<close>.
\<close>

datatype thread_data = ThreadRaw string | ThreadBin bindata | ThreadStream string

datatype http_effect = HttpSend string | HttpThread thread_data

definition SendOverNewThread :: "sock option \<Rightarrow> thread_data \<Rightarrow> string list res" where
  "SendOverNewThread so t =
     (case so of
        None \<Rightarrow> Inr []
      | Some _ \<Rightarrow>
          (case t of
             ThreadBin d \<Rightarrow> rbind (rd_bytes d 0 (usedLength d)) (\<lambda>bs. Inr [bs])
           | ThreadStream s \<Rightarrow> Inr [s]
           | ThreadRaw s \<Rightarrow> Inr [s]))"

definition http_send :: "sock option \<Rightarrow> string \<Rightarrow> http_effect list" where
  "http_send so s = (case so of None \<Rightarrow> [] | Some _ \<Rightarrow> [HttpSend s])"

definition status_lines :: "http_config \<Rightarrow> string \<Rightarrow> nat \<Rightarrow> string list" where
  "status_lines cfg status len =
     [''HTTP/1.1 '', status, newline, ''Server: Ikaros'', newline,
      ''Host: '', hc_hostname cfg, newline, ''Connection: close'', newline,
      ''Content-Length: '', nat_dec len, newline]"

text \<open>
  \<open>SendErrorPage\<close>.  The second lookup is compared with the end of the other table, which no
  iterator equals: for a code with a string and no page, the page is NULL.
\<close>

definition SendErrorPage :: "http_config \<Rightarrow> sock option \<Rightarrow> nat \<Rightarrow> http_effect list res" where
  "SendErrorPage cfg so ErrorId =
     (case errorStrings ErrorId of
        None \<Rightarrow> Inr []
      | Some reason \<Rightarrow>
          (case errorPages ErrorId of
             None \<Rightarrow> Inl LogicError
           | Some content \<Rightarrow>
               (let stream = concat (status_lines cfg (nat_dec ErrorId @ '' '' @ reason) (length content))
                      @ newline @ content
                in if length content > wrap64 (hc_max_main cfg)
                   then Inr [HttpThread (ThreadStream stream)]
                   else Inr (http_send so stream))))"

definition SendDirectPage :: "http_config \<Rightarrow> http_env \<Rightarrow> sock option \<Rightarrow> string \<Rightarrow> http_effect list res" where
  "SendDirectPage cfg env so file =
     rbind (bf_read (he_files env) (hc_root_dir cfg @ file) BinFile_empty) (\<lambda>content.
     let len = getLength (he_files env) (bf_stream content)
     in rbind (put_all put_string bd_init (status_lines cfg ''200 OK'' len @ [newline])) (\<lambda>stream.
        rbind (rd_bytes (bf_content content) 0 len) (\<lambda>bytes.
        rbind (append_buf stream bytes) (\<lambda>stream.
          if usedLength stream > wrap64 (hc_max_main cfg) then Inr [HttpThread (ThreadBin stream)]
          else rbind (rd_bytes stream 0 (usedLength stream)) (\<lambda>bs. Inr (http_send so bs))))))"

definition SendHeadPage :: "http_config \<Rightarrow> http_env \<Rightarrow> sock option \<Rightarrow> string \<Rightarrow> http_effect list res" where
  "SendHeadPage cfg env so file =
     rbind (sreadFile (he_files env) (hc_root_dir cfg @ file) AsciiFile_empty) (\<lambda>(_, content).
       Inr (http_send so (concat
         (status_lines cfg ''200 OK'' (getLength (he_files env) (af_stream content))))))"

definition KillSpartans :: "http_config \<Rightarrow> sock option \<Rightarrow> http_effect list" where
  "KillSpartans cfg so =
     (let str = ''I'' @ [quote] @ ''m Going TO KILL YARR SPARTANS!!!!''
      in http_send so (concat (status_lines cfg ''200 OK'' (length str)) @
           ''Content-Type: text/html'' @ newline @ newline @ str))"

section \<open>Receiving\<close>

definition parse_method :: "string \<Rightarrow> RequestMethod option" where
  "parse_method method =
     (if lower method = ''get'' then Some METHOD_GET
      else if lower method = ''post'' then Some METHOD_POST
      else if lower method = ''head'' then Some METHOD_HEAD
      else None)"

text \<open>One line of the header, trimmed.\<close>

definition header_line :: "string \<Rightarrow> http_header \<Rightarrow> http_header res" where
  "header_line line h =
     (case find_char CHR '':'' line of
        None \<Rightarrow> Inr h
      | Some i \<Rightarrow>
          rbind (rbind (substr line (Some 0) (Some i)) trim) (\<lambda>property.
          rbind (rbind (substr line (Some (i + 1)) None) trim) (\<lambda>value.
            Inr (if lower property = ''host'' then h\<lparr>hd_Host := value\<rparr>
                 else if lower property = ''user-agent'' then h\<lparr>hd_UserAgent := value\<rparr>
                 else h\<lparr>hd_additions := multimap_insert (lower property) value (hd_additions h)\<rparr>))))"

text \<open>
  The loop over the lines; \<open>None\<close> would be a loop that does not end.  Where no further line is left
  \<open>getline\<close> makes an array of size 0 and reads it as a string, which is undefined: the error of the
  model stands for whatever follows in the program, which may go on in this loop.
\<close>

partial_function (option) header_loop :: "bindata \<Rightarrow> http_header \<Rightarrow> http_header res option" where
  "header_loop d h =
     (case getline d of
        Inl e \<Rightarrow> Some (Inl e)
      | Inr (l, d') \<Rightarrow>
          (case trim l of
             Inl e \<Rightarrow> Some (Inl e)
           | Inr line \<Rightarrow>
               (case header_line line h of
                  Inl e \<Rightarrow> Some (Inl e)
                | Inr h' \<Rightarrow> if length line = 0 then Some (Inr h') else header_loop d' h')))"

text \<open>What follows the parsed header: the choice of the file and of the page.\<close>

definition http_answer ::
  "http_config \<Rightarrow> http_env \<Rightarrow> sock option \<Rightarrow> RequestMethod \<Rightarrow> string \<Rightarrow> http_effect list res" where
  "http_answer cfg env so method RequestedFile =
     rbind (FileAddress RequestedFile) (\<lambda>file.
       if length (fa_fileName file) = 0 \<and> \<not> hc_allow_index cfg then SendErrorPage cfg so 404
       else
         (let name = (if length (fa_fileName file) = 0 then hc_index_file cfg else fa_fileName file);
              ret = FileExists env (hc_root_dir cfg @ fa_path file @ name)
          in if \<not> isWithinRootDir (fa_path file @ name) then SendErrorPage cfg so 403
             else if ret = 0 then
               (case method of
                  METHOD_GET \<Rightarrow> SendDirectPage cfg env so (fa_path file @ name)
                | METHOD_POST \<Rightarrow> SendDirectPage cfg env so (fa_path file @ name)
                | METHOD_HEAD \<Rightarrow> SendHeadPage cfg env so (fa_path file @ name)
                | METHOD_PUT \<Rightarrow> Inr [])
             else if ret = EACCES then SendErrorPage cfg so 403
             else SendErrorPage cfg so 404))"

definition http_processRecieve ::
  "http_config \<Rightarrow> http_env \<Rightarrow> conn_mgr \<Rightarrow> int \<Rightarrow> string \<Rightarrow> http_effect list res option" where
  "http_processRecieve cfg env m fd bytes =
     (let so = GetSocketByFd fd m
      in case rbind (bd_make (c_str bytes)) get_word of
           Inl e \<Rightarrow> Some (Inl e)
         | Inr (method, dat) \<Rightarrow>
             (case parse_method method of
                None \<Rightarrow> Some (Inr [])
              | Some meth \<Rightarrow>
                  (case rbind (get_word dat) (\<lambda>(uri, dat).
                          rbind (get_word dat) (\<lambda>(version, dat). Inr (uri, dat))) of
                     Inl e \<Rightarrow> Some (Inl e)
                   | Inr (uri, dat) \<Rightarrow>
                       (case header_loop dat
                               \<lparr>hd_method = meth, hd_uri = uri, hd_Host = [], hd_UserAgent = [],
                                hd_additions = []\<rparr> of
                          None \<Rightarrow> None
                        | Some (Inl e) \<Rightarrow> Some (Inl e)
                        | Some (Inr h) \<Rightarrow> Some (http_answer cfg env so (hd_method h) uri)))))"

end
