(* ===== verification/HttpProps.thy ===== *)
theory HttpProps
  imports Http
begin

text \<open>
  The correctness of the web server: the header loop ends with the header exactly for blocks with a
  blank line (\<open>header_loop_exact\<close>), every complete request gets one reply, a page is sent with the
  right length and exactly the bytes of the file, by either thread, and what the check of the requested name decides: it looks at the first component only.
\<close>

section \<open>Splitting names and blocks\<close>

fun split_at :: "char \<Rightarrow> string \<Rightarrow> string list" where
  "split_at c [] = [[]]"
| "split_at c (x # xs) =
     (if x = c then [] # split_at c xs
      else (case split_at c xs of [] \<Rightarrow> [[x]] | w # ws \<Rightarrow> (x # w) # ws))"

lemma split_at_nonempty [simp]: "split_at c s \<noteq> []"
  by (cases s) (auto split: list.splits)

lemma split_at_none: "c \<notin> set s \<Longrightarrow> split_at c s = [s]"
  by (induction s) auto

lemma split_at_first: "c \<notin> set w \<Longrightarrow> split_at c (w @ c # s) = w # split_at c s"
  by (induction w) auto

text \<open>Whether the components of a name stay below the directory at which they start.\<close>

fun stays_inside :: "int \<Rightarrow> string list \<Rightarrow> bool" where
  "stays_inside depth [] = True"
| "stays_inside depth (w # ws) =
     (let d = (if w = ''..'' then depth - 1 else if w = [] \<or> w = ''.'' then depth else depth + 1)
      in 0 \<le> d \<and> stays_inside d ws)"

lemma stays_inside_plain: "''..'' \<notin> set ws \<Longrightarrow> 0 \<le> d \<Longrightarrow> stays_inside d ws"
  by (induction ws arbitrary: d) (auto simp: Let_def)

section \<open>The check of the root directory\<close>

lemma find_char_split:
  "find_char c s = Some i \<Longrightarrow> c \<notin> set (take i s) \<and> s = take i s @ c # drop (Suc i) s"
proof -
  assume i: "find_char c s = Some i"
  then have "i < length s" "s ! i = c"
    using first_index_bound [of "\<lambda>x. x = c" s i] first_index_nth [of "\<lambda>x. x = c" s i]
    by (simp_all add: find_char_def)
  moreover have "\<forall>x \<in> set (take i s). x \<noteq> c"
    using first_index_takeWhile [of "\<lambda>x. x = c" s i] i
    by (auto simp: find_char_def dest: set_takeWhileD)
  ultimately show ?thesis by (metis id_take_nth_drop)
qed

lemma find_char_None: "(find_char c s = None) = (c \<notin> set s)"
  by (auto simp: find_char_def first_index_None)

lemma find_char_append: "c \<notin> set w \<Longrightarrow> find_char c (w @ c # s) = Some (length w)"
  unfolding find_char_def by (rule first_index_split) auto

lemma root_loop_second:
  assumes "deep \<noteq> 0"
  shows "root_loop deep (slash # s) = Some deep"
  using assms by (subst root_loop.simps) (simp add: find_char_def)

lemma root_loop_first:
  "root_loop 0 s =
     (if slash \<notin> set s then Some 0
      else if hd (split_at slash s) = [] then None
      else Some (if hd (split_at slash s) = ''..'' then - 1 else 1))"
proof (cases "find_char slash s")
  case None
  then show ?thesis using find_char_None [of slash s] by (subst root_loop.simps) simp
next
  case (Some i)
  note s = find_char_split [OF Some]
  have hd: "hd (split_at slash s) = take i s"
    using s split_at_first [of slash "take i s"] by (metis list.sel(1))
  have m: "slash \<in> set s" using Some find_char_None [of slash s] by simp
  have d: "drop i s = slash # drop (Suc i) s"
    using first_index_bound [of "\<lambda>x. x = slash" s i] first_index_nth [of "\<lambda>x. x = slash" s i] Some
    by (simp add: find_char_def Cons_nth_drop_Suc [symmetric])
  show ?thesis
    using Some hd m d root_loop_second [of "- 1"] root_loop_second [of 1]
    by (subst root_loop.simps) (simp add: Let_def)
qed

definition below_root :: "string \<Rightarrow> string" where
  "below_root f = (if first_char f = slash then drop 1 f else f)"

lemma isWithinRootDir_eq:
  "isWithinRootDir f \<longleftrightarrow>
     slash \<notin> set (below_root f)
     \<or> hd (split_at slash (below_root f)) \<noteq> [] \<and> hd (split_at slash (below_root f)) \<noteq> ''..''"
  by (simp add: isWithinRootDir_def below_root_def [symmetric] root_loop_first Let_def)

section \<open>The header\<close>

definition blank :: "string \<Rightarrow> bool" where
  "blank l \<longleftrightarrow> trimmed (c_str l) = []"

definition has_blank_line :: "string \<Rightarrow> bool" where
  "has_blank_line s \<longleftrightarrow> list_ex blank (butlast (split_at nl s))"

lemma find_char_le: "find_char c s = Some i \<Longrightarrow> i < length s"
  using first_index_bound [of "\<lambda>x. x = c" s i] by (simp add: find_char_def)

lemma header_line_ok: "\<exists>h'. header_line line h = Inr h' \<and> hd_method h' = hd_method h"
proof (cases "find_char CHR '':'' line")
  case None
  then show ?thesis by (simp add: header_line_def)
next
  case (Some i)
  then show ?thesis
    using find_char_le [OF Some] by (simp add: header_line_def substr_def trim_strip)
qed

text \<open>Unread text up to and after the first newline.\<close>

lemma split_newline:
  assumes "nl \<in> set s"
  shows "split_at nl s = takeWhile (\<lambda>c. c \<noteq> nl) s # split_at nl (tl (dropWhile (\<lambda>c. c \<noteq> nl) s))"
    and "length (tl (dropWhile (\<lambda>c. c \<noteq> nl) s)) < length s"
proof -
  obtain w r where s: "s = w @ nl # r" "nl \<notin> set w" using split_list_first [OF assms] by blast
  then have "takeWhile (\<lambda>c. c \<noteq> nl) s = w" "dropWhile (\<lambda>c. c \<noteq> nl) s = nl # r"
    by (auto simp: takeWhile_append dropWhile_append)
  then show "split_at nl s = takeWhile (\<lambda>c. c \<noteq> nl) s # split_at nl (tl (dropWhile (\<lambda>c. c \<noteq> nl) s))"
    "length (tl (dropWhile (\<lambda>c. c \<noteq> nl) s)) < length s"
    using s split_at_first [of nl w r] by simp_all
qed

text \<open>
  The loop ends for every buffer: with the header when one of the complete lines is blank, and
  otherwise by reading a line that is not there.
\<close>

lemma header_loop_exact:
  "wf_bd d \<Longrightarrow>
   (if has_blank_line (unread d)
    then \<exists>h'. header_loop d h = Some (Inr h') \<and> hd_method h' = hd_method h
    else \<exists>e. header_loop d h = Some (Inl e))"
proof (induction "length (unread d)" arbitrary: d h rule: less_induct)
  case less
  show ?case
  proof (cases "nl \<in> set (unread d)")
    case False
    then obtain e where "getline d = Inl e" using getline_no_newline [OF less.prems] by blast
    then show ?thesis
      using False by (simp add: header_loop.simps split_at_none has_blank_line_def)
  next
    case True
    let ?l = "takeWhile (\<lambda>c. c \<noteq> nl) (unread d)"
    obtain d' where d': "getline d = Inr (c_str ?l, d')" "wf_bd d'"
      "unread d' = tl (dropWhile (\<lambda>c. c \<noteq> nl) (unread d))"
      using getline_newline [OF less.prems True] by blast
    obtain h1 where h1: "header_line (trimmed (c_str ?l)) h = Inr h1" "hd_method h1 = hd_method h"
      using header_line_ok by blast
    have loop: "header_loop d h = (if blank ?l then Some (Inr h1) else header_loop d' h1)"
      using d'(1) h1(1) by (subst header_loop.simps) (simp add: trim_strip blank_def)
    have lines: "has_blank_line (unread d) = (blank ?l \<or> has_blank_line (unread d'))"
      using split_newline(1) [OF True] d'(3) by (simp add: has_blank_line_def)
    show ?thesis
    proof (cases "blank ?l")
      case True
      then show ?thesis using loop lines h1(2) by simp
    next
      case nb: False
      have "length (unread d') < length (unread d)" using split_newline(2) [OF True] d'(3) by simp
      from less.hyps [OF this d'(2), of h1] show ?thesis
        using loop lines nb h1(2) by (cases "has_blank_line (unread d')") simp_all
    qed
  qed
qed

section \<open>Pages\<close>

lemma append_buf_sink:
  assumes "sink_ok room d" and "length src \<le> room"
  shows "\<exists>d'. append_buf d src = Inr d' \<and> wf_bd d' \<and> contents d' = contents d @ src"
proof -
  have p: "pput d = int (usedLength d)" and wf: "wf_bd d" using assms(1) by (simp_all add: sink_ok_def at_end_def)
  obtain d2 where d2: "write_buf d src = Inr d2" "wf_bd d2" "contents d2 = contents d @ src"
    using write_buf_sink [OF assms] by (auto simp: sink_ok_def)
  show ?thesis
  proof (cases "src = []")
    case True
    then show ?thesis using wf by (simp add: append_buf_def)
  next
    case False
    let ?g = "if length src + usedLength d > maxLength d then grow d (length src) else Inr d"
    obtain d1 where d1: "?g = Inr d1" using d2(1) False by (auto simp: write_buf_def res_simps)
    have u1: "usedLength d1 = usedLength d" "pput d1 = int (usedLength d)"
    proof -
      have "usedLength d1 = usedLength d \<and> pput d1 = pput d"
      proof (cases "length src + usedLength d > maxLength d")
        case True
        then show ?thesis
          using grow_wf [OF wf, of "length src"] assms False d1 by (auto simp: sink_ok_def)
      qed (use d1 in simp)
      then show "usedLength d1 = usedLength d" "pput d1 = int (usedLength d)" using p by simp_all
    qed
    obtain e where e: "wr_bytes d1 (int (usedLength d)) src = Inr e"
      "d2 = e\<lparr>usedLength := usedLength e + length src, pput := pput e + int (length src)\<rparr>"
      using d2(1) d1 u1 False by (auto simp: write_buf_def res_simps)
    let ?d = "e\<lparr>usedLength := usedLength e + length src\<rparr>"
    have "pput e = int (usedLength d)" using e(1) u1 by (auto simp: wr_bytes_def split: if_splits option.splits)
    moreover have "usedLength e = usedLength d" using e(1) u1 by (auto simp: wr_bytes_def split: if_splits option.splits)
    moreover have "bd_data e \<noteq> None" using e(1) False by (auto simp: wr_bytes_def split: if_splits option.splits)
    ultimately have "wf_bd ?d \<and> contents ?d = contents d @ src"
      using d2(2,3) e(2) by (auto simp: wf_bd_def contents_def)
    moreover have "append_buf d src = Inr ?d"
      using False d1 u1 e(1) by (simp add: append_buf_def)
    ultimately show ?thesis by blast
  qed
qed

text \<open>The bytes that an effect puts on the connection.\<close>

fun effect_bytes :: "sock option \<Rightarrow> http_effect \<Rightarrow> string list res" where
  "effect_bytes so (HttpSend s) = Inr [s]"
| "effect_bytes so (HttpThread t) = SendOverNewThread so t"

definition page_bytes :: "http_config \<Rightarrow> string \<Rightarrow> string" where
  "page_bytes cfg c = concat (status_lines cfg ''200 OK'' (length c)) @ newline @ c"

lemma SendDirectPage_new:
  assumes "he_files env (hc_root_dir cfg @ file) = Some c" and "nul \<notin> set (hc_root_dir cfg @ file)"
    and "hc_root_dir cfg @ file \<noteq> []" and "length (page_bytes cfg c) < 2 ^ 63"
  shows "\<exists>eff. SendDirectPage cfg env (Some k) file = Inr [eff]
    \<and> effect_bytes (Some k) eff = Inr [page_bytes cfg c]
    \<and> (length (page_bytes cfg c) \<le> wrap64 (hc_max_main cfg) \<longrightarrow> eff = HttpSend (page_bytes cfg c))"
proof -
  have c: "length c < size_max" using assms(4) by (simp add: page_bytes_def size_max_def)
  obtain f where f: "bf_read (he_files env) (hc_root_dir cfg @ file) BinFile_empty = Inr f"
    "getLength (he_files env) (bf_stream f) = length c" "rd_bytes (bf_content f) 0 (length c) = Inr c"
    using bf_read_new [of "he_files env" "hc_root_dir cfg @ file" c] assms(1-3) c by blast
  let ?h = "status_lines cfg ''200 OK'' (length c) @ [newline]"
  have room: "length (concat ?h) + length c < 2 ^ 63" using assms(4) by (simp add: page_bytes_def)
  have len: "length (concat ?h) \<le> length (concat ?h) + length c" by simp
  obtain d where d: "put_all put_string bd_init ?h = Inr d" "sink_ok (length c) d" "contents d = concat ?h"
    using buf_sink.put_all_ok [OF sink_ok_init [OF room] len] by auto
  obtain d' where d': "append_buf d c = Inr d'" "wf_bd d'" "contents d' = page_bytes cfg c"
    using append_buf_sink [OF d(2) le_refl] d(3) by (auto simp: page_bytes_def)
  have u: "usedLength d' = length (page_bytes cfg c)" using length_contents [OF d'(2)] d'(3) by simp
  show ?thesis
    using f d(1) d'(1) rd_all [OF d'(2)] d'(3) u
    by (simp add: SendDirectPage_def http_send_def SendOverNewThread_def)
qed

section \<open>A whole request\<close>

lemma get_word_wf:
  assumes wf: "wf_bd d" and w: "get_word d = Inr (s, d')"
  shows "wf_bd d'"
proof (cases "nl \<in> set (unread d)")
  case True
  then show ?thesis using get_word_newline [OF wf] w by auto
next
  case False
  then have f: "find_from d nl = Inr None"
    using find_from_unread [OF wf, of nl] by (simp add: first_index_None) blast
  show ?thesis
  proof (cases "first_index (\<lambda>x. x = space) (unread d)")
    case None
    then show ?thesis
      using w f find_from_unread [OF wf, of space]
      by (auto simp: get_word_def pre_cr_def read_stack_def pos_min_def res_simps size_max_def
          split: if_splits)
  next
    case (Some i)
    have i: "i < length (unread d)" using first_index_bound [OF Some] .
    have m: "min i (size_max - 1) = i" using index_small [OF wf i] by simp
    obtain r where "readsome d i = Inr (take i (unread d), r, d\<lparr>pget := pget d + int i\<rparr>)"
      using readsome_unread [OF wf i] by blast
    then have "d' = d\<lparr>pget := pget d + int (Suc i)\<rparr>"
      using w f find_from_unread [OF wf, of space] Some m
      by (auto simp: get_word_def pre_cr_def read_stack_def pos_min_def res_simps split: if_splits)
    then show ?thesis using advance_unread(1) [OF wf, of "Suc i"] i by simp
  qed
qed

lemma FileAddress_split:
  assumes "slash \<notin> set name" and "CHR ''?'' \<notin> set name"
  shows "FileAddress (dir @ slash # name) = Inr \<lparr>fa_path = dir @ [slash], fa_fileName = name,
     fa_params = [], fa_file = dir @ slash # name, fa_isValid = True\<rparr>"
proof -
  have "last_index (\<lambda>x. x = slash) name = None" using assms(1) by (auto simp: last_index_None)
  then have "rfind_char slash (dir @ slash # name) = Some (length dir)"
    by (simp add: rfind_char_def last_index_append)
  moreover have "find_char CHR ''?'' name = None" using assms(2) by (simp add: find_char_None)
  ultimately show ?thesis by (simp add: FileAddress_def substr_def)
qed

text \<open>The first line of a request, with the rest of the block.\<close>

definition request :: "string \<Rightarrow> string \<Rightarrow> string \<Rightarrow> string" where
  "request method uri rest = method @ space # uri @ space # ''HTTP/1.1'' @ newline @ rest"

definition request_ok :: "string \<Rightarrow> string \<Rightarrow> string \<Rightarrow> bool" where
  "request_ok method uri rest \<longleftrightarrow>
     plain_word method \<and> plain_word uri \<and> nul \<notin> set rest \<and> length (request method uri rest) < 2 ^ 63"

lemma request_words:
  assumes "request_ok method uri rest"
  shows "\<exists>d1 d2 d3. rbind (bd_make (c_str (request method uri rest))) get_word = Inr (method, d1)
     \<and> get_word d1 = Inr (uri, d2) \<and> get_word d2 = Inr (''HTTP/1.1'' @ [cr], d3)
     \<and> wf_bd d3 \<and> unread d3 = rest"
proof -
  have p: "plain_word method" "plain_word uri" "nul \<notin> set rest"
    "length (request method uri rest) < 2 ^ 63"
    using assms by (simp_all add: request_ok_def)
  have "nul \<notin> set (request method uri rest)"
    using p plain_word_nul [OF p(1)] plain_word_nul [OF p(2)] by (simp add: request_def newline_def)
  then have c: "c_str (request method uri rest) = request method uri rest" by (rule c_str_name)
  obtain d where d: "bd_make (request method uri rest) = Inr d" "wf_bd d"
    "unread d = request method uri rest"
    using bd_make_unread [OF p(4)] by blast
  have stops: "word_stop space" "word_stop nl" by (simp_all add: word_stop_def)
  obtain d1 where d1: "get_word d = Inr (method, d1)" "wf_bd d1"
    "unread d1 = uri @ space # ''HTTP/1.1'' @ newline @ rest"
    using get_word_split [OF d(2) _ p(1) stops(1), of "uri @ space # ''HTTP/1.1'' @ newline @ rest"] d(3)
    by (auto simp: request_def newline_def)
  obtain d2 where d2: "get_word d1 = Inr (uri, d2)" "wf_bd d2" "unread d2 = ''HTTP/1.1'' @ newline @ rest"
    using get_word_split [OF d1(2,3) p(2) stops(1)] by (auto simp: newline_def)
  have v: "plain_word (''HTTP/1.1'' @ [cr])" by (simp add: plain_word_def word_stop_def)
  obtain d3 where d3: "get_word d2 = Inr (''HTTP/1.1'' @ [cr], d3)" "wf_bd d3" "unread d3 = rest"
    using get_word_split [OF d2(2) _ v stops(2), of rest] d2(3) by (auto simp: newline_def)
  show ?thesis using c d(1) d1(1) d2(1) d3 by simp
qed

lemma methods: "parse_method ''GET'' = Some METHOD_GET" "parse_method ''HEAD'' = Some METHOD_HEAD"
  by code_simp+

text \<open>A request with a known method is answered when its header has a blank line.\<close>

lemma recieve_request:
  assumes "request_ok method uri rest" and "parse_method method = Some meth"
  shows "if has_blank_line rest
    then http_processRecieve cfg env m fd (request method uri rest) =
           Some (http_answer cfg env (GetSocketByFd fd m) meth uri)
    else \<exists>e. http_processRecieve cfg env m fd (request method uri rest) = Some (Inl e)"
proof -
  obtain d1 d2 d3 where d: "rbind (bd_make (c_str (request method uri rest))) get_word = Inr (method, d1)"
    "get_word d1 = Inr (uri, d2)" "get_word d2 = Inr (''HTTP/1.1'' @ [cr], d3)" "wf_bd d3" "unread d3 = rest"
    using request_words [OF assms(1)] by blast
  let ?h = "\<lparr>hd_method = meth, hd_uri = uri, hd_Host = [], hd_UserAgent = [], hd_additions = []\<rparr>"
  show ?thesis
  proof (cases "has_blank_line rest")
    case True
    then obtain h' where "header_loop d3 ?h = Some (Inr h')" "hd_method h' = meth"
      using header_loop_exact [OF d(4), of ?h] d(5) by auto
    then show ?thesis using True d assms(2) by (simp add: http_processRecieve_def)
  next
    case False
    then obtain e where "header_loop d3 ?h = Some (Inl e)"
      using header_loop_exact [OF d(4), of ?h] d(5) by auto
    then show ?thesis using False d assms(2) by (simp add: http_processRecieve_def)
  qed
qed

lemma recieve_answered:
  assumes "request_ok method uri rest" and "parse_method method = Some meth" and "has_blank_line rest"
  shows "http_processRecieve cfg env m fd (request method uri rest) =
           Some (http_answer cfg env (GetSocketByFd fd m) meth uri)"
  using recieve_request [OF assms(1,2)] assms(3) by simp

lemma answer_file:
  assumes "slash \<notin> set name" and "CHR ''?'' \<notin> set name" and "name \<noteq> []"
    and "isWithinRootDir (dir @ slash # name)"
    and "he_stat env (hc_root_dir cfg @ dir @ slash # name) = 0"
    and "nul \<notin> set (hc_root_dir cfg @ dir @ slash # name)"
  shows "http_answer cfg env so METHOD_GET (dir @ slash # name) =
           SendDirectPage cfg env so (dir @ slash # name)"
    and "http_answer cfg env so METHOD_HEAD (dir @ slash # name) =
           SendHeadPage cfg env so (dir @ slash # name)"
  using assms c_str_name [OF assms(6)]
  by (simp_all add: http_answer_def FileAddress_split FileExists_def Let_def)

section \<open>The reply to a complete request\<close>












section \<open>Properties\<close>

definition sample_http :: http_config where
  "sample_http = \<lparr>hc_allow_index = True, hc_debug = False, hc_control = False,
     hc_index_file = ''index.html'', hc_hostname = ''localhost'', hc_root_dir = ''.'',
     hc_max_main = 40000\<rparr>"

definition sample_http_env :: http_env where
  "sample_http_env =
     \<lparr>he_files = [''./a/index.html'' \<mapsto> ''hello'', ''./a/../../secret'' \<mapsto> ''key''],
      he_stat = (\<lambda>f. if f = ''./a/index.html'' \<or> f = ''./a/../../secret'' then 0 else 2)\<rparr>"

definition sample_conn :: conn_mgr where
  "sample_conn = AddSocket (Socket 0 4) ConnectionMgr"

lemma sample_conn_4: "GetSocketByFd 4 sample_conn = Some (Socket 0 4)"
  by (simp add: sample_conn_def AddSocket_def sockets_insert_def GetSocketByFd_def find_key_def
      ConnectionMgr_def Socket_def)



text \<open>
  A request whose lines end without a blank one (the rest has not arrived yet, or never will) is
  not kept: reading the missing line has undefined behaviour.
\<close>

theorem http_needs_blank_line:
  assumes "request_ok method uri rest" and "parse_method method \<noteq> None" and "\<not> has_blank_line rest"
  shows "\<exists>e. http_processRecieve cfg env m fd (request method uri rest) = Some (Inl e)"
  using assms recieve_request [OF assms(1)] by fastforce

theorem http_needs_blank_line_witness:
  "\<exists>e. http_processRecieve sample_http sample_http_env sample_conn 4
         (request ''GET'' ''/'' (''Host: me'' @ newline)) = Some (Inl e)"
  by (rule http_needs_blank_line)
    (simp_all add: request_ok_def request_def plain_word_def word_stop_def newline_def slash_def
      methods has_blank_line_def blank_def c_str_def strip_def
      trim_ws_def)

text \<open>
  C20. A GET request for a file below the root directory is answered with one block: the status
  lines with the length of the file, a blank line and exactly the bytes of the file, whether
  the block is sent at once or by a new thread.
\<close>

theorem http_get_serves_file:
  assumes "request_ok ''GET'' (dir @ slash # name) rest" and "has_blank_line rest"
    and "slash \<notin> set name" and "CHR ''?'' \<notin> set name" and "name \<noteq> []"
    and "isWithinRootDir (dir @ slash # name)"
    and "he_stat env (hc_root_dir cfg @ dir @ slash # name) = 0" and "nul \<notin> set (hc_root_dir cfg)"
    and "he_files env (hc_root_dir cfg @ dir @ slash # name) = Some c"
    and "length (page_bytes cfg c) < 2 ^ 63" and "GetSocketByFd fd m = Some k"
  shows "\<exists>eff. http_processRecieve cfg env m fd (request ''GET'' (dir @ slash # name) rest) =
      Some (Inr [eff]) \<and> effect_bytes (Some k) eff = Inr [page_bytes cfg c]"
proof -
  have nul: "nul \<notin> set (hc_root_dir cfg @ dir @ slash # name)"
    using assms(1,8) plain_word_nul [of "dir @ slash # name"] by (simp add: request_ok_def)
  show ?thesis
    using recieve_answered [OF assms(1) methods(1) assms(2), of cfg env m fd] assms(11)
      answer_file(1) [OF assms(3-7) nul]
      SendDirectPage_new [of env cfg "dir @ slash # name" c k] assms(9,10) nul
    by auto
qed

theorem http_get_serves_file_witness:
  "\<exists>eff. http_processRecieve sample_http sample_http_env sample_conn 4
       (request ''GET'' (''/a'' @ slash # ''index.html'') newline) = Some (Inr [eff])
     \<and> effect_bytes (Some (Socket 0 4)) eff = Inr [page_bytes sample_http ''hello'']"
  by (rule http_get_serves_file)
    (simp_all add: request_ok_def request_def plain_word_def word_stop_def newline_def slash_def
      has_blank_line_def blank_def c_str_def strip_def trim_ws_def sample_conn_4 sample_http_def
      sample_http_env_def isWithinRootDir_eq below_root_def first_char_def page_bytes_def
      status_lines_def nat_dec.simps)

text \<open>
  The check of the root directory is sound for names in which only the first component may be
  \<open>..\<close>: an accepted name of at least two components then stays below the root.
\<close>

theorem root_check_sound:
  assumes "isWithinRootDir f" and "slash \<in> set (below_root f)"
    and "''..'' \<notin> set (tl (split_at slash (below_root f)))"
  shows "stays_inside 0 (split_at slash (below_root f))"
proof -
  have "hd (split_at slash (below_root f)) \<noteq> ''..''" using assms(1,2) by (auto simp: isWithinRootDir_eq)
  then have "''..'' \<notin> set (split_at slash (below_root f))"
    using assms(3) by (cases "split_at slash (below_root f)") auto
  then show ?thesis by (rule stays_inside_plain) simp
qed

theorem root_check_sound_witness:
  "stays_inside 0 (split_at slash (below_root ''/a/index.html''))"
  by (rule root_check_sound)
    (simp_all add: isWithinRootDir_eq below_root_def first_char_def slash_def)

text \<open>
  C38. The check looks at no other component: a GET request for \<open>/a/../../x\<close>, which leads out of the
  root directory, is answered with the bytes of the file that the system finds there.
\<close>

theorem http_traversal_served:
  assumes "a \<noteq> []" and "slash \<notin> set a" and "a \<noteq> ''..''" and "slash \<notin> set x" and "CHR ''?'' \<notin> set x"
    and "x \<noteq> []" and "request_ok ''GET'' (slash # a @ ''/../../'' @ x) rest" and "has_blank_line rest"
    and "he_stat env (hc_root_dir cfg @ slash # a @ ''/../../'' @ x) = 0" and "nul \<notin> set (hc_root_dir cfg)"
    and "he_files env (hc_root_dir cfg @ slash # a @ ''/../../'' @ x) = Some c"
    and "length (page_bytes cfg c) < 2 ^ 63" and "GetSocketByFd fd m = Some k"
  shows "\<not> stays_inside 0 (split_at slash (below_root (slash # a @ ''/../../'' @ x)))
    \<and> (\<exists>eff. http_processRecieve cfg env m fd (request ''GET'' (slash # a @ ''/../../'' @ x) rest) =
      Some (Inr [eff]) \<and> effect_bytes (Some k) eff = Inr [page_bytes cfg c])"
proof -
  let ?dir = "slash # a @ ''/../..''"
  have u: "slash # a @ ''/../../'' @ x = ?dir @ slash # x" by (simp add: slash_def)
  have b: "below_root (?dir @ slash # x) = a @ slash # ''..'' @ slash # ''..'' @ slash # x"
    by (simp add: below_root_def first_char_def slash_def)
  have comps: "split_at slash (below_root (?dir @ slash # x)) = [a, ''..'', ''..'', x]"
    unfolding b using assms(2,4) by (simp add: split_at_first split_at_none) (simp add: slash_def split_at_none)
  have ok: "request_ok ''GET'' (?dir @ slash # x) rest" using assms(7) by (simp only: u)
  have stat: "he_stat env (hc_root_dir cfg @ ?dir @ slash # x) = 0"
    and fs: "he_files env (hc_root_dir cfg @ ?dir @ slash # x) = Some c"
    using assms(9,11) by (simp_all only: u)
  have within: "isWithinRootDir (?dir @ slash # x)"
    using comps assms(1,3) by (simp add: isWithinRootDir_eq)
  have nul: "nul \<notin> set (hc_root_dir cfg @ ?dir @ slash # x)"
    using ok assms(10) plain_word_nul [of "?dir @ slash # x"] by (simp add: request_ok_def)
  have out: "\<not> stays_inside 0 [a, ''..'', ''..'', x]"
    using assms(1,3) by (simp add: Let_def)
  have "\<exists>eff. SendDirectPage cfg env (Some k) (?dir @ slash # x) = Inr [eff]
      \<and> effect_bytes (Some k) eff = Inr [page_bytes cfg c]"
    using SendDirectPage_new [of env cfg "?dir @ slash # x" c k] fs nul assms(12) by auto
  then show ?thesis
    unfolding u comps
    using out recieve_answered [OF ok methods(1) assms(8), of cfg env m fd] assms(13)
      answer_file(1) [OF assms(4-6) within stat nul]
    by auto
qed

theorem http_traversal_served_witness:
  "\<not> stays_inside 0 (split_at slash (below_root (slash # ''a'' @ ''/../../'' @ ''secret'')))
   \<and> (\<exists>eff. http_processRecieve sample_http sample_http_env sample_conn 4
         (request ''GET'' (slash # ''a'' @ ''/../../'' @ ''secret'') newline) = Some (Inr [eff])
       \<and> effect_bytes (Some (Socket 0 4)) eff = Inr [page_bytes sample_http ''key''])"
  by (rule http_traversal_served)
    (simp_all add: request_ok_def request_def plain_word_def word_stop_def newline_def slash_def
      has_blank_line_def blank_def c_str_def strip_def trim_ws_def sample_conn_4 sample_http_def
      sample_http_env_def page_bytes_def status_lines_def nat_dec.simps)

text \<open>
  HEAD answers with the status lines that GET sends for the same file and nothing else: the blank
  line that ends a header is missing.
\<close>

theorem http_head_lacks_blank_line:
  assumes "request_ok ''HEAD'' (dir @ slash # name) rest" and "has_blank_line rest"
    and "slash \<notin> set name" and "CHR ''?'' \<notin> set name" and "name \<noteq> []"
    and "isWithinRootDir (dir @ slash # name)"
    and "he_stat env (hc_root_dir cfg @ dir @ slash # name) = 0" and "nul \<notin> set (hc_root_dir cfg)"
    and "he_files env (hc_root_dir cfg @ dir @ slash # name) = Some c"
    and "length c < size_max" and "GetSocketByFd fd m = Some k"
  shows "\<exists>h. http_processRecieve cfg env m fd (request ''HEAD'' (dir @ slash # name) rest) =
      Some (Inr [HttpSend h]) \<and> page_bytes cfg c = h @ newline @ c"
proof -
  have nul: "nul \<notin> set (hc_root_dir cfg @ dir @ slash # name)"
    using assms(1,8) plain_word_nul [of "dir @ slash # name"] by (simp add: request_ok_def)
  have "\<exists>t f. sreadFile (he_files env) (hc_root_dir cfg @ dir @ slash # name) AsciiFile_empty = Inr (t, f)
      \<and> getLength (he_files env) (af_stream f) = length c"
    using sread_length [of "he_files env" "hc_root_dir cfg @ dir @ slash # name" c] assms(9,10) by auto
  then show ?thesis
    using recieve_answered [OF assms(1) methods(2) assms(2), of cfg env m fd] assms(11)
      answer_file(2) [OF assms(3-7) nul]
    by (auto simp: SendHeadPage_def http_send_def page_bytes_def)
qed

theorem http_head_lacks_blank_line_witness:
  "\<exists>h. http_processRecieve sample_http sample_http_env sample_conn 4
         (request ''HEAD'' (''/a'' @ slash # ''index.html'') newline) = Some (Inr [HttpSend h])
     \<and> page_bytes sample_http ''hello'' = h @ newline @ ''hello''"
  by (rule http_head_lacks_blank_line)
    (simp_all add: request_ok_def request_def plain_word_def word_stop_def newline_def slash_def
      has_blank_line_def blank_def c_str_def strip_def trim_ws_def sample_conn_4 sample_http_def
      sample_http_env_def isWithinRootDir_eq below_root_def first_char_def size_max_def)

text \<open>
  A request for a name that \<open>stat\<close> does not find is answered with the page for 404, and with the
  page for 403 when access is denied; the length that is announced is the length of the page.
\<close>

theorem http_error_pages:
  assumes "request_ok method (dir @ slash # name) rest" and "has_blank_line rest"
    and "parse_method method = Some meth"
    and "slash \<notin> set name" and "CHR ''?'' \<notin> set name" and "name \<noteq> []"
    and "he_stat env (hc_root_dir cfg @ dir @ slash # name) = e" and "e \<noteq> 0"
    and "isWithinRootDir (dir @ slash # name)" and "nul \<notin> set (hc_root_dir cfg)"
    and "code = (if e = EACCES then 403 else 404)"
    and "GetSocketByFd fd m = Some k"
  shows "\<exists>eff reason page. http_processRecieve cfg env m fd (request method (dir @ slash # name) rest) =
      Some (Inr [eff]) \<and> errorStrings code = Some reason \<and> errorPages code = Some page
    \<and> effect_bytes (Some k) eff = Inr [concat (status_lines cfg (nat_dec code @ '' '' @ reason)
        (length page)) @ newline @ page]"
proof -
  have nul: "nul \<notin> set (hc_root_dir cfg @ dir @ slash # name)"
    using assms(1,10) plain_word_nul [of "dir @ slash # name"] by (simp add: request_ok_def)
  have "http_answer cfg env (Some k) meth (dir @ slash # name) = SendErrorPage cfg (Some k) code"
    using assms(4-9,11) c_str_name [OF nul]
    by (simp add: http_answer_def FileAddress_split FileExists_def)
  moreover have "code = 403 \<or> code = 404" using assms(11) by simp
  then obtain reason page where "errorStrings code = Some reason" "errorPages code = Some page"
    by (auto simp: errorStrings_def errorPages_def map_insert_def)
  ultimately show ?thesis
    using recieve_answered [OF assms(1,3,2), of cfg env m fd] assms(12)
    by (simp add: SendErrorPage_def http_send_def SendOverNewThread_def Let_def)
qed

theorem http_error_pages_witness:
  "\<exists>eff reason page. http_processRecieve sample_http sample_http_env sample_conn 4
       (request ''GET'' (''/b'' @ slash # ''none'') newline) = Some (Inr [eff])
     \<and> errorStrings 404 = Some reason \<and> errorPages 404 = Some page
     \<and> effect_bytes (Some (Socket 0 4)) eff = Inr [concat (status_lines sample_http
         (nat_dec 404 @ '' '' @ reason) (length page)) @ newline @ page]"
  by (rule http_error_pages [where e = 2])
    (simp_all add: methods request_ok_def request_def plain_word_def word_stop_def newline_def
      slash_def has_blank_line_def blank_def c_str_def strip_def trim_ws_def sample_conn_4
      sample_http_def sample_http_env_def isWithinRootDir_eq below_root_def first_char_def EACCES_def)

end
