(* ===== verification/FtpTransfer.thy ===== *)
theory FtpTransfer
  imports Ftp Files
begin

text \<open>
  \<open>Protocol/FTP/FTP.cpp\<close>: the threads of the data connection, \<open>SendData\<close> and \<open>RecvData\<close>.

  The kernel is again an argument: \<open>dtp_env\<close> holds what the calls that set up the connection
  answer, and the loops get scripts of what the successive \<open>send\<close> and \<open>recv\<close> calls do.  A script
  that is used up before the loop ends means that the thread has not come to an end yet
  (\<open>None\<close>).  No code ever sets \<open>abortTranfser\<close>, so it keeps its value during a loop.  The wire is
  what the peer of the data connection receives.
\<close>

section \<open>The environment\<close>

text \<open>
  \<open>dtp_socket\<close> and \<open>dtp_accept\<close> are the descriptors that \<open>socket\<close> and \<open>accept\<close> return,
  \<open>dtp_errno\<close> the error number after \<open>accept\<close>, \<open>dtp_junk\<close> the uninitialised member of a new
  \<open>TCPSocket\<close>; \<open>dtp_create\<close> tells which files can be opened with truncation.
\<close>

record dtp_env =
  dtp_net :: net
  dtp_socket :: int
  dtp_junk :: bool
  dtp_accept :: int
  dtp_errno :: int
  dtp_close :: "int \<Rightarrow> int"
  dtp_files :: file_system
  dtp_create :: "string \<Rightarrow> bool"

text \<open>\<open>Connect(session.ip.ToChar(), session.port)\<close>: the text is what \<open>inet_ntoa\<close>'s buffer holds now.\<close>

definition dtp_connect :: "dtp_env \<Rightarrow> string \<Rightarrow> session \<Rightarrow> tcp_sock res" where
  "dtp_connect env ntoa s =
     (if \<not> ip_text s then Inl NullPointer
      else rbind (Connect (dtp_net env) ntoa (ftp_port s) (TCPSocket (dtp_socket env) (dtp_junk env)))
             (\<lambda>(_, t). Inr t))"

text \<open>The end of a thread that sends, and of one that receives.\<close>

definition end_send :: "session \<Rightarrow> session" where
  "end_send s = s\<lparr>DTPActive := False, activeSend := None, abortTranfser := False\<rparr>"

definition end_recv :: "session \<Rightarrow> session" where
  "end_recv s = s\<lparr>DTPActive := False, activeRecv := None, abortTranfser := False\<rparr>"

section \<open>Sending\<close>

text \<open>
  The next part to send and what the file holds after it: from the data in memory at the
  position reached, or from the file by \<open>readsome\<close>, which moves on in any case.  How much of the
  file \<open>readsome\<close> has available is up to the implementation of the library; it is taken to give as
  much as is asked for while the file lasts.
\<close>

definition next_part :: "nat \<Rightarrow> string option \<Rightarrow> nat \<Rightarrow> nat \<Rightarrow> string \<Rightarrow> string \<times> string" where
  "next_part seg data len sended rest =
     (case data of
        Some d \<Rightarrow> (take (if len - sended > seg then seg else len - sended) (drop sended d), rest)
      | None \<Rightarrow> (take seg rest, drop seg rest))"

text \<open>The loop of the active mode; the flag is \<open>interrupt\<close>.\<close>

fun send_active ::
  "bool \<Rightarrow> nat \<Rightarrow> string option \<Rightarrow> nat \<Rightarrow> send_event list \<Rightarrow> tcp_sock \<Rightarrow> string \<Rightarrow> nat \<Rightarrow> string
     \<Rightarrow> (bool \<times> string) option" where
  "send_active abort seg data len evs t rest sended wire =
     (if \<not> abort \<and> tcp_connected t then
        (case evs of
           [] \<Rightarrow> None
         | ev # evs' \<Rightarrow>
             (let (part, rest') = next_part seg data len sended rest;
                  (ret, bytes, t') = TCP_Send_len ev t part (length part)
              in if ret = -1 then
                   (if ev \<noteq> SendErr EAGAIN then Some (False, wire)
                    else send_active abort seg data len evs' t' rest' sended wire)
                 else if ret = 0 then Some (True, wire)
                 else if sended + nat ret = len then Some (False, wire @ bytes)
                 else send_active abort seg data len evs' t' rest' (sended + nat ret) (wire @ bytes)))
      else Some (False, wire))"

declare send_active.simps [simp del]

text \<open>
  The loop of the passive mode: every turn is a call of \<open>Socket::Send\<close> with a script of its own.
  \<open>Socket::Send\<close> goes on after EAGAIN itself, so \<open>-1\<close> with EAGAIN can only be the error left by
  \<open>accept\<close>, when no socket was opened at all.
\<close>

fun send_passive ::
  "bool \<Rightarrow> nat \<Rightarrow> string option \<Rightarrow> nat \<Rightarrow> int \<Rightarrow> send_event list list \<Rightarrow> sock \<Rightarrow> string \<Rightarrow> nat \<Rightarrow> string
     \<Rightarrow> (bool \<times> string) option" where
  "send_passive abort seg data len err evss so rest sended wire =
     (if \<not> abort then
        (case evss of
           [] \<Rightarrow> None
         | evs # evss' \<Rightarrow>
             (let (part, rest') = next_part seg data len sended rest
              in case Socket_Send evs so part of
                   None \<Rightarrow> None
                 | Some (ret, bytes, so') \<Rightarrow>
                     (if ret = -1 then
                        (if sock_fd so \<ge> 0 \<or> err \<noteq> EAGAIN then Some (False, wire @ bytes)
                         else send_passive abort seg data len err evss' so' rest' sended (wire @ bytes))
                      else if ret = 0 then Some (True, wire @ bytes)
                      else if sended + nat ret = len then Some (False, wire @ bytes)
                      else send_passive abort seg data len err evss' so' rest' (sended + nat ret)
                             (wire @ bytes))))
      else Some (False, wire))"

declare send_passive.simps [simp del]

text \<open>The replies after a loop that has ended.\<close>

definition sent_replies :: "sock option \<Rightarrow> bool \<Rightarrow> bool \<Rightarrow> effect list" where
  "sent_replies so interrupt abort =
     (if \<not> interrupt then SendCommandResponse so 226 else []) @
     (if abort then SendCommandResponse so 426 else [])"

text \<open>
  \<open>SendData\<close>: the session, the effects in order and the wire.  A negative segment size cannot be
  allocated.  In the passive mode the accepted socket is closed twice, by \<open>Close\<close> and by its
  destructor.
\<close>

definition SendData ::
  "ftp_config \<Rightarrow> dtp_env \<Rightarrow> string \<Rightarrow> send_event list \<Rightarrow> send_event list list \<Rightarrow> sock option
     \<Rightarrow> transfer \<Rightarrow> session \<Rightarrow> (session \<times> effect list \<times> string) res option" where
  "SendData cfg env ntoa evs evss so tr s =
     (let begin = SendCommandResponse so 150;
          seg = wrap64 (cfg_max_segment cfg);
          rest = (case tr_file tr of None \<Rightarrow> [] | Some f \<Rightarrow>
                    (case dtp_files env f of None \<Rightarrow> [] | Some c \<Rightarrow> c))
      in if tr_data tr = None \<and> tr_file tr \<noteq> None \<and> cfg_max_segment cfg < 0 then Some (Inl LogicError)
         else if \<not> isPassive s then
           (case dtp_connect env ntoa s of
              Inl e \<Rightarrow> Some (Inl e)
            | Inr t \<Rightarrow>
                if \<not> tcp_connected t then
                  Some (Inr (end_send s, begin @ SendCommandResponse so 425, []))
                else
                  (case send_active (abortTranfser s) seg (tr_data tr) (tr_length tr) evs t rest 0 [] of
                     None \<Rightarrow> None
                   | Some (interrupt, wire) \<Rightarrow>
                       Some (Inr (end_send s, begin @ [CloseFd (tcp_fd t)] @
                         sent_replies so interrupt (abortTranfser s), wire))))
         else if passiveSock s < 0 then
           Some (Inr (end_send (s\<lparr>passiveSock := dtp_close env (passiveSock s)\<rparr>),
             begin @ SendCommandResponse so 425 @ [CloseFd (passiveSock s)], []))
         else
           (case send_passive (abortTranfser s) seg (tr_data tr) (tr_length tr) (dtp_errno env) evss
                   (Socket 0 (dtp_accept env)) rest 0 [] of
              None \<Rightarrow> None
            | Some (interrupt, wire) \<Rightarrow>
                Some (Inr (end_send (s\<lparr>passiveSock := dtp_close env (passiveSock s)\<rparr>),
                  begin @ [CloseFd (dtp_accept env), CloseFd (passiveSock s), CloseFd (dtp_accept env)] @
                  sent_replies so interrupt (abortTranfser s), wire))))"

section \<open>Receiving\<close>

fun recv_active ::
  "bool \<Rightarrow> nat \<Rightarrow> recv_event list \<Rightarrow> tcp_sock \<Rightarrow> string \<Rightarrow> string option" where
  "recv_active abort seg evs t written =
     (if \<not> abort \<and> tcp_connected t then
        (case evs of
           [] \<Rightarrow> None
         | ev # evs' \<Rightarrow>
             (let (ret, bytes, t') = TCP_Recv ev t seg
              in if ret = -1 then
                   (if ev \<noteq> RecvErr EAGAIN then Some written
                    else recv_active abort seg evs' t' written)
                 else if ret = 0 then Some written
                 else recv_active abort seg evs' t' (written @ bytes)))
      else Some written)"

declare recv_active.simps [simp del]

fun recv_passive ::
  "bool \<Rightarrow> nat \<Rightarrow> recv_event list \<Rightarrow> sock \<Rightarrow> string \<Rightarrow> string option" where
  "recv_passive abort seg evs so written =
     (if \<not> abort then
        (case evs of
           [] \<Rightarrow> None
         | ev # evs' \<Rightarrow>
             (let (ret, bytes, so') = Socket_Recieve ev so seg
              in if ret = -1 then
                   (if ev \<noteq> RecvErr EAGAIN then Some written
                    else recv_passive abort seg evs' so' written)
                 else if ret = 0 then Some written
                 else recv_passive abort seg evs' so' (written @ bytes)))
      else Some written)"

declare recv_passive.simps [simp del]

definition recv_replies :: "sock option \<Rightarrow> bool \<Rightarrow> effect list" where
  "recv_replies so abort =
     (if \<not> abort then SendCommandResponse so 226 else []) @
     (if abort then SendCommandResponse so 426 else [])"

text \<open>
  \<open>RecvData\<close>: opening the file with truncation comes first, whatever happens to the connection
  afterwards.  A negative segment size makes the array on the stack too large.
\<close>

definition RecvData ::
  "ftp_config \<Rightarrow> dtp_env \<Rightarrow> string \<Rightarrow> recv_event list \<Rightarrow> sock option \<Rightarrow> string \<Rightarrow> session
     \<Rightarrow> (session \<times> effect list \<times> file_system) res option" where
  "RecvData cfg env ntoa evs so name s =
     (let begin = SendCommandResponse so 150;
          seg = wrap64 (cfg_max_segment cfg);
          fs = (dtp_files env)(name \<mapsto> [])
      in if cfg_max_segment cfg < 0 then Some (Inl OutOfBounds)
         else if \<not> dtp_create env name then
           Some (Inr (end_recv s, begin @ recv_replies so (abortTranfser s), dtp_files env))
         else if \<not> isPassive s then
           (case dtp_connect env ntoa s of
              Inl e \<Rightarrow> Some (Inl e)
            | Inr t \<Rightarrow>
                if \<not> tcp_connected t then
                  Some (Inr (end_recv s, begin @ SendCommandResponse so 425, fs))
                else
                  (case recv_active (abortTranfser s) seg evs t [] of
                     None \<Rightarrow> None
                   | Some written \<Rightarrow>
                       Some (Inr (end_recv s, begin @ [CloseFd (tcp_fd t)] @
                         recv_replies so (abortTranfser s), fs(name \<mapsto> written)))))
         else if passiveSock s < 0 then
           Some (Inr (end_recv (s\<lparr>passiveSock := dtp_close env (passiveSock s)\<rparr>),
             begin @ SendCommandResponse so 425 @ [CloseFd (passiveSock s)], fs))
         else
           (case recv_passive (abortTranfser s) seg evs (Socket 0 (dtp_accept env)) [] of
              None \<Rightarrow> None
            | Some written \<Rightarrow>
                Some (Inr (end_recv (s\<lparr>passiveSock := dtp_close env (passiveSock s)\<rparr>),
                  begin @ [CloseFd (dtp_accept env), CloseFd (passiveSock s), CloseFd (dtp_accept env)] @
                  recv_replies so (abortTranfser s), fs(name \<mapsto> written)))))"

end
