(* ===== verification/FtpTransferProps.thy ===== *)
theory FtpTransferProps
  imports FtpTransfer FtpProps
begin

text \<open>
  The correctness of the data connection: what is sent in memory or from a file over a connection
  that stays up, what is stored, what is reported to the client, and what happens to parts that
  the kernel takes only in part.
\<close>

section \<open>Sending from memory\<close>

definition accepts :: "send_event list \<Rightarrow> nat" where
  "accepts evs = length (filter (\<lambda>ev. \<not> (\<exists>e. ev = SendErr e)) evs)"

lemma accepts_simps [simp]:
  "accepts [] = 0" "accepts (Accept n # evs) = Suc (accepts evs)" "accepts (SendErr e # evs) = accepts evs"
  by (simp_all add: accepts_def)

lemma u16_small: "n < 65536 \<Longrightarrow> u16 (int n) = n"
  by (simp add: u16_def)

lemma TCP_Send_part:
  assumes "length part < 65536"
  shows "TCP_Send_len ev t part (length part) = TCP_Send ev t part"
  using assms by (simp add: TCP_Send_len_def u16_small)

text \<open>One turn of the loop; the recursive equation is used through this lemma only.\<close>

lemma send_active_turn:
  assumes "tcp_connected t" and "next_part seg data len sended rest = (part, rest')"
    and "TCP_Send_len ev t part (length part) = (ret, bytes, t')"
  shows "send_active False seg data len (ev # evs) t rest sended wire =
    (if ret = -1 then
       (if ev \<noteq> SendErr EAGAIN then Some (False, wire)
        else send_active False seg data len evs t' rest' sended wire)
     else if ret = 0 then Some (True, wire)
     else if sended + nat ret = len then Some (False, wire @ bytes)
     else send_active False seg data len evs t' rest' (sended + nat ret) (wire @ bytes))"
  using assms by (subst send_active.simps) simp

text \<open>One turn of the loop with data in memory, when something is left to send.\<close>

lemma send_active_accept:
  assumes "tcp_connected t" and "0 < seg" and "seg < 65536" and "0 < n" and "sended < length d"
  shows "\<exists>k t'. 0 < k \<and> sended + k \<le> length d \<and> tcp_connected t' \<and>
    send_active False seg (Some d) (length d) (Accept n # evs) t rest sended wire =
      (if sended + k = length d then Some (False, wire @ take k (drop sended d))
       else send_active False seg (Some d) (length d) evs t' rest (sended + k)
              (wire @ take k (drop sended d)))"
proof -
  let ?l = "if length d - sended > seg then seg else length d - sended"
  let ?part = "take ?l (drop sended d)"
  have l: "length ?part = ?l" "0 < ?l" "?l < 65536" "sended + ?l \<le> length d"
    using assms by auto
  define k where "k = min n ?l"
  have k: "0 < k" "k \<le> ?l" using l(2) assms(4) by (simp_all add: k_def)
  have "take k ?part = take k (drop sended d)" using k(2) by (simp add: min_def)
  then have send: "TCP_Send_len (Accept n) t ?part (length ?part) =
      (int k, take k (drop sended d), t\<lparr>tcp_connected := True\<rparr>)"
    using l k TCP_Send_part [of ?part "Accept n" t] by (simp add: TCP_Send_def Let_def k_def)
  have "send_active False seg (Some d) (length d) (Accept n # evs) t rest sended wire =
      (if sended + k = length d then Some (False, wire @ take k (drop sended d))
       else send_active False seg (Some d) (length d) evs (t\<lparr>tcp_connected := True\<rparr>) rest (sended + k)
              (wire @ take k (drop sended d)))"
    using k(1) by (subst send_active_turn [where rest' = rest, OF assms(1) _ send]) (simp_all add: next_part_def)
  moreover have "sended + k \<le> length d" using k(2) l(4) by linarith
  ultimately show ?thesis
    using k(1) by (intro exI [of _ k] exI [of _ "t\<lparr>tcp_connected := True\<rparr>"]) simp
qed

lemma send_active_again:
  assumes "tcp_connected t"
  shows "\<exists>t'. tcp_connected t' \<and>
    send_active False seg (Some d) len (SendErr EAGAIN # evs) t rest sended wire =
      send_active False seg (Some d) len evs t' rest sended wire"
  using assms
  by (intro exI [of _ "t\<lparr>tcp_connected := True\<rparr>"])
    (simp add: send_active_turn next_part_def TCP_Send_len_def TCP_Send_def)

text \<open>A connection that stays up transports everything.\<close>

lemma send_active_steady:
  "tcp_connected t \<Longrightarrow> 0 < seg \<Longrightarrow> seg < 65536 \<Longrightarrow> list_all steady evs \<Longrightarrow> sended < length d \<Longrightarrow>
   length d - sended \<le> accepts evs \<Longrightarrow>
   send_active False seg (Some d) (length d) evs t rest sended wire = Some (False, wire @ drop sended d)"
proof (induction evs arbitrary: t sended wire)
  case (Cons ev evs)
  show ?case
  proof (cases ev)
    case (Accept n)
    then have "0 < n" using Cons.prems(4) by (simp add: steady_def)
    then obtain k t' where k: "0 < k" "sended + k \<le> length d" "tcp_connected t'"
      "send_active False seg (Some d) (length d) (Accept n # evs) t rest sended wire =
        (if sended + k = length d then Some (False, wire @ take k (drop sended d))
         else send_active False seg (Some d) (length d) evs t' rest (sended + k)
                (wire @ take k (drop sended d)))"
      using send_active_accept [OF Cons.prems(1-3) _ Cons.prems(5)] by blast
    have app: "take k (drop sended d) @ drop (sended + k) d = drop sended d"
      by (metis append_take_drop_id drop_drop add.commute)
    show ?thesis
    proof (cases "sended + k = length d")
      case True
      then have "take k (drop sended d) = drop sended d" using app by simp
      then show ?thesis using k(4) True Accept by simp
    next
      case False
      then have "send_active False seg (Some d) (length d) evs t' rest (sended + k)
          (wire @ take k (drop sended d)) = Some (False, (wire @ take k (drop sended d)) @ drop (sended + k) d)"
        using Cons.prems k Accept by (intro Cons.IH) auto
      then show ?thesis using k(4) False Accept app by simp
    qed
  next
    case (SendErr e)
    then have "e = EAGAIN" using Cons.prems(4) by (simp add: steady_def)
    then obtain t' where "tcp_connected t'"
      "send_active False seg (Some d) (length d) (ev # evs) t rest sended wire =
        send_active False seg (Some d) (length d) evs t' rest sended wire"
      using send_active_again [OF Cons.prems(1)] SendErr by blast
    then show ?thesis using Cons.IH Cons.prems SendErr by simp
  qed
qed simp

text \<open>A connection that breaks after some calls: the loop ends without the flag, with a prefix sent.\<close>

lemma send_active_broken:
  "tcp_connected t \<Longrightarrow> 0 < seg \<Longrightarrow> seg < 65536 \<Longrightarrow> list_all steady evs \<Longrightarrow> sended < length d \<Longrightarrow>
   e \<noteq> EAGAIN \<Longrightarrow>
   \<exists>k. send_active False seg (Some d) (length d) (evs @ SendErr e # evs') t rest sended wire =
     Some (False, wire @ take k (drop sended d))"
proof (induction evs arbitrary: t sended wire)
  case Nil
  then show ?case
    by (intro exI [of _ 0])
      (simp add: send_active_turn next_part_def TCP_Send_len_def TCP_Send_def)
next
  case (Cons ev evs)
  show ?case
  proof (cases ev)
    case (Accept n)
    then have "0 < n" using Cons.prems(4) by (simp add: steady_def)
    then obtain k t' where k: "0 < k" "sended + k \<le> length d" "tcp_connected t'"
      "send_active False seg (Some d) (length d) (Accept n # evs @ SendErr e # evs') t rest sended wire =
        (if sended + k = length d then Some (False, wire @ take k (drop sended d))
         else send_active False seg (Some d) (length d) (evs @ SendErr e # evs') t' rest (sended + k)
                (wire @ take k (drop sended d)))"
      using send_active_accept [OF Cons.prems(1-3) _ Cons.prems(5)] by blast
    show ?thesis
    proof (cases "sended + k = length d")
      case True
      then show ?thesis using k(4) Accept by (intro exI [of _ k]) simp
    next
      case False
      then obtain j where "send_active False seg (Some d) (length d) (evs @ SendErr e # evs') t' rest
          (sended + k) (wire @ take k (drop sended d)) =
          Some (False, (wire @ take k (drop sended d)) @ take j (drop (sended + k) d))"
        using Cons.IH [of t' "sended + k"] Cons.prems k by fastforce
      moreover have "take k (drop sended d) @ take j (drop (sended + k) d) = take (k + j) (drop sended d)"
        using take_add [of k j "drop sended d"] by (simp add: add.commute [of sended k])
      ultimately show ?thesis using k(4) False Accept by auto
    qed
  next
    case (SendErr e')
    then have "e' = EAGAIN" using Cons.prems(4) by (simp add: steady_def)
    then obtain t' where "tcp_connected t'"
      "send_active False seg (Some d) (length d) (ev # evs @ SendErr e # evs') t rest sended wire =
        send_active False seg (Some d) (length d) (evs @ SendErr e # evs') t' rest sended wire"
      using send_active_again [OF Cons.prems(1)] SendErr by blast
    then show ?thesis using Cons.IH [of t' sended wire] Cons.prems SendErr by simp
  qed
qed

section \<open>Sending a file\<close>

text \<open>Scripts for calls of \<open>Socket::Send\<close> that each take a whole segment.\<close>

definition ample :: "nat \<Rightarrow> send_event list \<Rightarrow> bool" where
  "ample seg evs \<longleftrightarrow> list_all steady evs \<and> seg \<le> accepted evs"

lemma send_passive_turn:
  assumes "next_part seg data len sended rest = (part, rest')"
    and "Socket_Send evs so part = Some (ret, bytes, so')" and "0 < ret"
  shows "send_passive False seg data len err (evs # evss) so rest sended wire =
    (if sended + nat ret = len then Some (False, wire @ bytes)
     else send_passive False seg data len err evss so' rest' (sended + nat ret) (wire @ bytes))"
  using assms by (subst send_passive.simps) simp

lemma send_passive_file:
  "sock_fd so \<ge> 0 \<Longrightarrow> 0 < seg \<Longrightarrow> list_all (ample seg) evss \<Longrightarrow> sended < length c \<Longrightarrow>
   length c - sended \<le> length evss \<Longrightarrow>
   send_passive False seg None (length c) err evss so (drop sended c) sended wire =
     Some (False, wire @ drop sended c)"
proof (induction evss arbitrary: so sended wire)
  case (Cons evs evss)
  let ?part = "take seg (drop sended c)"
  have part: "0 < length ?part" "length ?part \<le> seg" "sended + length ?part \<le> length c"
    using Cons.prems by auto
  have amp: "list_all steady evs" "seg \<le> accepted evs" using Cons.prems(3) by (simp_all add: ample_def)
  obtain so' where so': "Socket_Send evs so ?part = Some (int (length ?part), ?part, so')"
    "sock_fd so' = sock_fd so"
    using Socket_Send_steady [OF Cons.prems(1) amp(1) le_trans [OF part(2) amp(2)]] by blast
  have nxt: "next_part seg None (length c) sended (drop sended c) = (?part, drop (sended + seg) c)"
    by (simp add: next_part_def add.commute)
  have ret: "0 < int (length ?part)" using part(1) by linarith
  have turn: "send_passive False seg None (length c) err (evs # evss) so (drop sended c) sended wire =
      (if sended + length ?part = length c then Some (False, wire @ ?part)
       else send_passive False seg None (length c) err evss so' (drop (sended + seg) c)
              (sended + length ?part) (wire @ ?part))"
    unfolding send_passive_turn [OF nxt so'(1) ret] by (simp only: nat_int)
  show ?case
  proof (cases "sended + length ?part = length c")
    case True
    then have "?part = drop sended c" using part by (intro take_all) (auto simp: min_def split: if_splits)
    then show ?thesis using turn True by simp
  next
    case False
    then have p: "length ?part = seg" using part by (auto simp: min_def split: if_splits)
    have "send_passive False seg None (length c) err evss so' (drop (sended + seg) c) (sended + seg) (wire @ ?part)
        = Some (False, (wire @ ?part) @ drop (sended + seg) c)"
      using Cons.prems so'(2) False part p by (intro Cons.IH) auto
    moreover have "?part @ drop (sended + seg) c = drop sended c"
      by (metis append_take_drop_id drop_drop add.commute)
    ultimately show ?thesis using turn False p by simp
  qed
qed simp

text \<open>
  Over an active connection the file moves on by a whole part although the kernel took less, or
  nothing; when the file is used up the next part is empty.
\<close>

lemma send_active_end:
  assumes "tcp_connected t" and "seg < 65536"
  shows "send_active False seg None len (Accept n # evs) t [] sended wire = Some (True, wire)"
proof -
  have send: "TCP_Send_len (Accept n) t [] (length ([] :: string)) = (0, [], t\<lparr>tcp_connected := False\<rparr>)"
    by (simp add: TCP_Send_len_def TCP_Send_def Let_def)
  show ?thesis
    by (subst send_active_turn [OF assms(1) _ send, where rest' = "[]"]) (simp_all add: next_part_def)
qed

lemma send_active_short:
  assumes "tcp_connected t" and "length c \<le> seg" and "seg < 65536" and "0 < k" and "k < length c"
  shows "send_active False seg None (length c) (Accept k # Accept n # evs) t c 0 [] =
    Some (True, take k c)"
proof -
  have send: "TCP_Send_len (Accept k) t c (length c) = (int k, take k c, t\<lparr>tcp_connected := True\<rparr>)"
    using assms TCP_Send_part [of c "Accept k" t] by (simp add: TCP_Send_def Let_def)
  show ?thesis
    using assms
    by (subst send_active_turn [OF assms(1) _ send, where rest' = "[]"])
      (simp_all add: next_part_def send_active_end)
qed

section \<open>Receiving\<close>

definition arrives :: "nat \<Rightarrow> string list \<Rightarrow> bool" where
  "arrives seg cs \<longleftrightarrow> (\<forall>c \<in> set cs. c \<noteq> [] \<and> length c \<le> seg)"

lemma recv_passive_all:
  "arrives seg cs \<Longrightarrow> recv_passive False seg (map Data cs @ [Eof]) so written = Some (written @ concat cs)"
proof (induction cs arbitrary: so written)
  case Nil
  then show ?case by (subst recv_passive.simps) (simp add: Socket_Recieve_def)
next
  case (Cons c cs)
  then show ?case
    by (subst recv_passive.simps) (simp add: Socket_Recieve_def arrives_def)
qed

lemma recv_active_all:
  "arrives seg cs \<Longrightarrow> seg < 65536 \<Longrightarrow> tcp_connected t \<Longrightarrow>
   recv_active False seg (map Data cs @ [Eof]) t written = Some (written @ concat cs)"
proof (induction cs arbitrary: t written)
  case Nil
  then show ?case by (subst recv_active.simps) (simp add: TCP_Recv_def)
next
  case (Cons c cs)
  then show ?case
    by (subst recv_active.simps) (simp add: TCP_Recv_def u16_small arrives_def Let_def)
qed

section \<open>Properties\<close>

definition segment_ok :: "ftp_config \<Rightarrow> bool" where
  "segment_ok cfg \<longleftrightarrow> 0 < cfg_max_segment cfg \<and> cfg_max_segment cfg < 65536"

lemma segment_simps:
  assumes "segment_ok cfg"
  shows "wrap64 (cfg_max_segment cfg) = nat (cfg_max_segment cfg)" "0 < nat (cfg_max_segment cfg)"
    "nat (cfg_max_segment cfg) < 65536" "\<not> cfg_max_segment cfg < 0"
proof -
  have m: "0 < cfg_max_segment cfg" "cfg_max_segment cfg < 65536"
    using assms by (simp_all add: segment_ok_def)
  then show "wrap64 (cfg_max_segment cfg) = nat (cfg_max_segment cfg)"
    by (intro wrap64_small) simp_all
  show "0 < nat (cfg_max_segment cfg)" "nat (cfg_max_segment cfg) < 65536"
    "\<not> cfg_max_segment cfg < 0"
    using m by linarith+
qed

text \<open>A session whose passive socket listens, and an environment in which a peer connects to it.\<close>

definition passive_ok :: "dtp_env \<Rightarrow> session \<Rightarrow> bool" where
  "passive_ok env s \<longleftrightarrow> isPassive s \<and> passiveSock s \<ge> 0 \<and> dtp_accept env \<ge> 0 \<and> \<not> abortTranfser s"

lemma RecvData_passive:
  assumes "segment_ok cfg" and "passive_ok env s" and "dtp_create env name"
    and "arrives (nat (cfg_max_segment cfg)) cs"
  shows "\<exists>effs. RecvData cfg env ntoa (map Data cs @ [Eof]) so name s =
    Some (Inr (end_recv (s\<lparr>passiveSock := dtp_close env (passiveSock s)\<rparr>), effs,
      (dtp_files env)(name \<mapsto> concat cs)))"
  using assms segment_simps [OF assms(1)]
    recv_passive_all [OF assms(4), of "Socket 0 (dtp_accept env)" "[]"]
  by (simp add: RecvData_def passive_ok_def)

lemma SendData_passive_file:
  assumes "segment_ok cfg" and "passive_ok env s" and "dtp_files env name = Some c" and "c \<noteq> []"
    and "list_all (ample (nat (cfg_max_segment cfg))) evss" and "length c \<le> length evss"
  shows "\<exists>effs. SendData cfg env ntoa evs evss so
      \<lparr>tr_data = None, tr_file = Some name, tr_length = length c\<rparr> s =
    Some (Inr (end_send (s\<lparr>passiveSock := dtp_close env (passiveSock s)\<rparr>), effs, c))"
proof -
  have "send_passive False (nat (cfg_max_segment cfg)) None (length c) (dtp_errno env) evss
      (Socket 0 (dtp_accept env)) c 0 [] = Some (False, c)"
    using send_passive_file [of "Socket 0 (dtp_accept env)" "nat (cfg_max_segment cfg)" evss 0 c
        "dtp_errno env" "[]"] assms segment_simps [OF assms(1)]
    by (simp add: passive_ok_def Socket_def)
  then show ?thesis
    using assms segment_simps [OF assms(1)] by (simp add: SendData_def passive_ok_def)
qed

text \<open>
  C21. A file stored over a passive connection and retrieved over another one comes back unchanged:
  STOR writes exactly the bytes that arrive, in whatever pieces, and RETR sends exactly these,
  however little the kernel takes at a time.
\<close>

theorem stor_retr_roundtrip:
  assumes "segment_ok cfg" and "passive_ok env s1" and "passive_ok env s2" and "dtp_create env name"
    and "arrives (nat (cfg_max_segment cfg)) cs" and "concat cs \<noteq> []"
    and "list_all (ample (nat (cfg_max_segment cfg))) evss" and "length (concat cs) \<le> length evss"
  shows "\<exists>s1' s2' effs1 effs2 fs.
    RecvData cfg env ntoa (map Data cs @ [Eof]) so1 name s1 = Some (Inr (s1', effs1, fs))
    \<and> SendData cfg (env\<lparr>dtp_files := fs\<rparr>) ntoa evs evss so2
        \<lparr>tr_data = None, tr_file = Some name, tr_length = length (concat cs)\<rparr> s2 =
      Some (Inr (s2', effs2, concat cs))"
proof -
  let ?fs = "(dtp_files env)(name \<mapsto> concat cs)"
  have "passive_ok (env\<lparr>dtp_files := ?fs\<rparr>) s2" using assms(3) by (simp add: passive_ok_def)
  then show ?thesis
    using RecvData_passive [OF assms(1,2,4,5), of ntoa so1]
      SendData_passive_file [of cfg "env\<lparr>dtp_files := ?fs\<rparr>" s2 name "concat cs" evss ntoa evs so2] assms
    by fastforce
qed

definition sample_transfer_config :: ftp_config where
  "sample_transfer_config =
     \<lparr>cfg_greetings = [], cfg_root = ''.'', cfg_use_db_auth = False, cfg_allow_guests = True,
      cfg_max_segment = 4, cfg_send_wait = 0, cfg_send_error_wait = 20, cfg_recv_wait = 0,
      cfg_recv_error_wait = 20, cfg_debug = False, cfg_control = False, cfg_db_host = [],
      cfg_db_user = [], cfg_db_password = [], cfg_db_name = []\<rparr>"

definition sample_net :: net where
  "sample_net = \<lparr>net_connect = (\<lambda>_ _. 0), net_inet_addr = length, net_resolve = (\<lambda>_. None)\<rparr>"

definition sample_dtp :: dtp_env where
  "sample_dtp =
     \<lparr>dtp_net = sample_net, dtp_socket = 7, dtp_junk = False, dtp_accept = 8, dtp_errno = 0,
      dtp_close = (\<lambda>_. 0), dtp_files = (\<lambda>_. None), dtp_create = (\<lambda>_. True)\<rparr>"

lemmas sample_dtp_defs =
  sample_transfer_config_def sample_dtp_def sample_net_def segment_ok_def passive_ok_def SessionDataStruct_def

theorem stor_retr_roundtrip_witness:
  "\<exists>s1' s2' effs1 effs2 fs.
    RecvData sample_transfer_config sample_dtp [] (map Data [''abc'', ''de''] @ [Eof]) None ''f''
      (SessionDataStruct\<lparr>isPassive := True\<rparr>) = Some (Inr (s1', effs1, fs))
    \<and> SendData sample_transfer_config (sample_dtp\<lparr>dtp_files := fs\<rparr>) [] [] (replicate 5 [Accept 1, Accept 3]) None
        \<lparr>tr_data = None, tr_file = Some ''f'', tr_length = length (concat [''abc'', ''de''])\<rparr>
        (SessionDataStruct\<lparr>isPassive := True\<rparr>) =
      Some (Inr (s2', effs2, concat [''abc'', ''de'']))"
  by (rule stor_retr_roundtrip)
    (simp_all add: sample_dtp_defs arrives_def ample_def steady_def list_all_iff)

text \<open>
  C24. A listing sent over an active connection that stays up arrives completely, in whatever pieces
  the kernel takes it, and the client is told 150 before and 226 after the connection is closed.
\<close>

theorem list_transfer_complete:
  assumes "segment_ok cfg" and "\<not> isPassive s" and "\<not> abortTranfser s"
    and "dtp_connect env ntoa s = Inr t" and "tcp_connected t"
    and "list_all steady evs" and "d \<noteq> []" and "length d \<le> accepts evs"
  shows "SendData cfg env ntoa evs evss so \<lparr>tr_data = Some d, tr_file = None, tr_length = length d\<rparr> s =
    Some (Inr (end_send s, SendCommandResponse so 150 @ [CloseFd (tcp_fd t)] @ SendCommandResponse so 226, d))"
  using assms segment_simps [OF assms(1)]
    send_active_steady [of t "nat (cfg_max_segment cfg)" evs 0 d "[]" "[]"]
  by (simp add: SendData_def sent_replies_def)

definition active_session :: session where
  "active_session = SessionDataStruct\<lparr>ip_bytes := [10, 0, 0, 9], ip_text := True, ftp_port := 2000\<rparr>"

lemma active_connect:
  "dtp_connect sample_dtp ''10.20.30.40'' active_session =
     Inr \<lparr>tcp_fd = 7, tcp_connected = True, tcp_dest = Some (11, 2000)\<rparr>"
  by code_simp

theorem list_transfer_complete_witness:
  "SendData sample_transfer_config sample_dtp ''10.20.30.40''
      [Accept 2, SendErr EAGAIN, Accept 9, Accept 9] [] None
      \<lparr>tr_data = Some ''abc'', tr_file = None, tr_length = length ''abc''\<rparr> active_session =
    Some (Inr (end_send active_session, SendCommandResponse None 150 @
      [CloseFd (tcp_fd \<lparr>tcp_fd = 7, tcp_connected = True, tcp_dest = Some (11, 2000)\<rparr>)] @
      SendCommandResponse None 226, ''abc''))"
  by (rule list_transfer_complete [OF _ _ _ active_connect])
    (simp_all add: sample_dtp_defs active_session_def steady_def)

text \<open>
  C39. RETR over an active connection loses data when the kernel takes a part of a block only: the
  rest of the block is skipped, and since the count never reaches the length of the file, the
  transfer ends without any final reply.
\<close>

theorem retr_active_truncates:
  assumes "segment_ok cfg" and "\<not> isPassive s" and "\<not> abortTranfser s"
    and "dtp_connect env ntoa s = Inr t" and "tcp_connected t"
    and "dtp_files env name = Some c" and "length c \<le> nat (cfg_max_segment cfg)"
    and "0 < k" and "k < length c"
  shows "SendData cfg env ntoa (Accept k # Accept n # evs) evss so
      \<lparr>tr_data = None, tr_file = Some name, tr_length = length c\<rparr> s =
    Some (Inr (end_send s, SendCommandResponse so 150 @ [CloseFd (tcp_fd t)], take k c))"
  using assms segment_simps [OF assms(1)]
    send_active_short [of t c "nat (cfg_max_segment cfg)" k n evs]
  by (simp add: SendData_def sent_replies_def)

theorem retr_active_truncates_witness:
  "SendData sample_transfer_config (sample_dtp\<lparr>dtp_files := [''f'' \<mapsto> ''abc'']\<rparr>) ''10.20.30.40''
      (Accept 2 # Accept 9 # []) [] None \<lparr>tr_data = None, tr_file = Some ''f'', tr_length = length ''abc''\<rparr>
      active_session =
    Some (Inr (end_send active_session, SendCommandResponse None 150 @
      [CloseFd (tcp_fd \<lparr>tcp_fd = 7, tcp_connected = True, tcp_dest = Some (11, 2000)\<rparr>)], take 2 ''abc''))"
proof (rule retr_active_truncates)
  show "dtp_connect (sample_dtp\<lparr>dtp_files := [''f'' \<mapsto> ''abc'']\<rparr>) ''10.20.30.40'' active_session =
      Inr \<lparr>tcp_fd = 7, tcp_connected = True, tcp_dest = Some (11, 2000)\<rparr>"
    using active_connect by (auto simp: dtp_connect_def split: if_splits)
qed (simp_all add: sample_dtp_defs active_session_def)

text \<open>
  A data connection that breaks in the middle of a listing is reported to the client as a
  successful transfer: 226 follows although only a prefix was sent.
\<close>

theorem broken_transfer_reported_complete:
  assumes "segment_ok cfg" and "\<not> isPassive s" and "\<not> abortTranfser s"
    and "dtp_connect env ntoa s = Inr t" and "tcp_connected t"
    and "list_all steady evs" and "d \<noteq> []" and "e \<noteq> EAGAIN"
  shows "\<exists>k. SendData cfg env ntoa (evs @ SendErr e # evs') evss so
      \<lparr>tr_data = Some d, tr_file = None, tr_length = length d\<rparr> s =
    Some (Inr (end_send s, SendCommandResponse so 150 @ [CloseFd (tcp_fd t)] @ SendCommandResponse so 226,
      take k d))"
proof -
  obtain k where "send_active False (nat (cfg_max_segment cfg)) (Some d) (length d)
      (evs @ SendErr e # evs') t [] 0 [] = Some (False, take k d)"
    using send_active_broken [of t "nat (cfg_max_segment cfg)" evs 0 d e evs' "[]" "[]"] assms
      segment_simps [OF assms(1)] by auto
  then show ?thesis
    using assms segment_simps [OF assms(1)] by (auto simp: SendData_def sent_replies_def)
qed

theorem broken_transfer_reported_complete_witness:
  "\<exists>k. SendData sample_transfer_config sample_dtp ''10.20.30.40'' ([Accept 1] @ SendErr 104 # []) [] None
      \<lparr>tr_data = Some ''abc'', tr_file = None, tr_length = length ''abc''\<rparr> active_session =
    Some (Inr (end_send active_session, SendCommandResponse None 150 @
      [CloseFd (tcp_fd \<lparr>tcp_fd = 7, tcp_connected = True, tcp_dest = Some (11, 2000)\<rparr>)] @
      SendCommandResponse None 226, take k ''abc''))"
  by (rule broken_transfer_reported_complete [OF _ _ _ active_connect])
    (simp_all add: sample_dtp_defs active_session_def steady_def EAGAIN_def)

text \<open>
  The address that a session announced with PORT is read from a buffer shared by all sessions:
  when another client connects, the data connection of the first session goes to the address of
  the other client.
\<close>

theorem data_connection_redirected:
  assumes "ftp_handle cfg (FtpConnect address fd') st = Inr st'" and "fd \<noteq> fd'"
    and "sessionData st fd = Some s" and "ip_text s" and "isIPv4 (inet_ntoa address)"
  shows "sessionData st' fd = Some s \<and> (\<exists>t. dtp_connect env (ntoa_buffer st') s = Inr t
    \<and> tcp_dest t = Some (net_inet_addr (dtp_net env) (inet_ntoa address), ftp_port s))"
  using assms
  by (auto simp: ftp_processConnect_def dtp_connect_def Connect_def tcp_connect_to_def Let_def
      split: prod.splits)

theorem data_connection_redirected_witness:
  "\<exists>st'. ftp_handle sample_transfer_config (FtpConnect [10, 66, 66, 66] 5)
      ((ftp_init ConnectionMgr)\<lparr>sessionData := [4 \<mapsto> active_session]\<rparr>) = Inr st'
    \<and> sessionData st' 4 = Some active_session
    \<and> (\<exists>t. dtp_connect sample_dtp (ntoa_buffer st') active_session = Inr t
        \<and> tcp_dest t = Some (net_inet_addr (dtp_net sample_dtp) (inet_ntoa [10, 66, 66, 66]),
            ftp_port active_session))"
proof -
  let ?st = "(ftp_init ConnectionMgr)\<lparr>sessionData := [4 \<mapsto> active_session]\<rparr>"
  let ?st' = "fst (ftp_processConnect sample_transfer_config [10, 66, 66, 66] 5 ?st)"
  have ip: "isIPv4 (inet_ntoa [10, 66, 66, 66])" by code_simp
  have run: "ftp_handle sample_transfer_config (FtpConnect [10, 66, 66, 66] 5) ?st = Inr ?st'" by simp
  have s: "sessionData ?st 4 = Some active_session" by simp
  have t: "ip_text active_session" by (simp add: active_session_def)
  show ?thesis
    using data_connection_redirected [OF run _ s t ip, of sample_dtp] run by auto
qed

end
