(* ===== verification/Descriptors.thy ===== *)
theory Descriptors
  imports FtpTransferProps FtpCommands
begin

text \<open>
  The descriptors of the process under the passive mode of FTP: what \<open>InitPassiveSock\<close> and the
  threads of the data connection open and close, as effects on the table that all connections
  share.  As POSIX demands, a new descriptor is the lowest free one, and \<open>close\<close> fails for a
  descriptor that is not open.
\<close>

section \<open>The table\<close>

text \<open>
  What a descriptor stands for; the number is that of the FTP session, and the peer of a data
  connection is the client that was told the port of the listener.
\<close>

datatype fd_use =
    Standard | ServerSocket | ControlConn int | DataListener int | DataConn int | OpenFile

type_synonym fds = "nat \<Rightarrow> fd_use option"

definition fd_open :: "nat \<Rightarrow> fd_use \<Rightarrow> fds \<Rightarrow> int \<times> fds" where
  "fd_open lim u t =
     (case List.find (\<lambda>n. t n = None) [0..<lim] of
        None \<Rightarrow> (-1, t)
      | Some n \<Rightarrow> (int n, t(n := Some u)))"

definition fd_use_of :: "int \<Rightarrow> fds \<Rightarrow> fd_use option" where
  "fd_use_of fd t = (if fd < 0 then None else t (nat fd))"

definition fd_close :: "int \<Rightarrow> fds \<Rightarrow> int \<times> fds" where
  "fd_close fd t = (if fd_use_of fd t = None then (-1, t) else (0, t(nat fd := None)))"

fun close_effects :: "effect list \<Rightarrow> fds \<Rightarrow> fds" where
  "close_effects [] t = t"
| "close_effects (CloseFd fd # es) t = close_effects es (snd (fd_close fd t))"
| "close_effects (e # es) t = close_effects es t"

section \<open>The passive mode\<close>

text \<open>PASV: the old descriptor is closed, whatever it is, before \<open>socket\<close> makes the new one.\<close>

definition pasv_fds :: "nat \<Rightarrow> int \<Rightarrow> ftp_env \<Rightarrow> session \<Rightarrow> fds \<Rightarrow> session \<times> fds" where
  "pasv_fds lim who env s t =
     (let (_, before, _) = InitPassiveSock env s;
          (n, t) = fd_open lim (DataListener who) (close_effects (take 1 before) t);
          (s, effs, _) = InitPassiveSock (env\<lparr>env_socket := n\<rparr>) s
      in (s, close_effects (drop 1 effs) t))"

text \<open>\<open>accept\<close> on a descriptor: it fails on everything but a listener to which a peer connects.\<close>

definition accept_fd :: "nat \<Rightarrow> int \<Rightarrow> fds \<Rightarrow> int \<times> fds" where
  "accept_fd lim l t =
     (case fd_use_of l t of
        Some (DataListener who) \<Rightarrow> fd_open lim (DataConn who) t
      | _ \<Rightarrow> (-1, t))"

definition peer_of :: "int \<Rightarrow> fds \<Rightarrow> int option" where
  "peer_of fd t = (case fd_use_of fd t of Some (DataConn who) \<Rightarrow> Some who | _ \<Rightarrow> None)"

text \<open>
  The thread \<open>SendData\<close> of a session in passive mode, with the client that it sends to.  The file
  is opened before the connection is accepted and closed at the end.
\<close>

definition open_transfer :: "nat \<Rightarrow> dtp_env \<Rightarrow> transfer \<Rightarrow> fds \<Rightarrow> int \<times> fds" where
  "open_transfer lim env tr t =
     (case (tr_data tr, tr_file tr) of
        (None, Some name) \<Rightarrow> if dtp_files env name = None then (-1, t) else fd_open lim OpenFile t
      | _ \<Rightarrow> (-1, t))"

definition retr_fds ::
  "ftp_config \<Rightarrow> nat \<Rightarrow> dtp_env \<Rightarrow> send_event list list \<Rightarrow> sock option \<Rightarrow> transfer \<Rightarrow> session \<Rightarrow> fds
     \<Rightarrow> (session \<times> int option \<times> string \<times> fds) res option" where
  "retr_fds cfg lim env evss so tr s t =
     (let (file, t) = open_transfer lim env tr t;
          (acc, t) = accept_fd lim (passiveSock s) t;
          env = env\<lparr>dtp_accept := acc, dtp_close := (\<lambda>l. fst (fd_close l (snd (fd_close acc t)))),
                  dtp_files := (if file < 0 then (\<lambda>_. None) else dtp_files env)\<rparr>
      in (case SendData cfg env [] [] evss so tr s of
            None \<Rightarrow> None
          | Some (Inl e) \<Rightarrow> Some (Inl e)
          | Some (Inr (s, effs, wire)) \<Rightarrow>
              Some (Inr (s, peer_of acc t, wire, snd (fd_close file (close_effects effs t))))))"

section \<open>Lemmas\<close>

lemma fd_open_zero: "0 < lim \<Longrightarrow> t 0 = None \<Longrightarrow> fd_open lim u t = (0, t(0 := Some u))"
  by (simp add: fd_open_def upt_conv_Cons)

lemma fd_close_zero [simp]: "snd (fd_close 0 t) = t(0 := None)" "fd_close (-1) t = (-1, t)"
  by (auto simp: fd_close_def fd_use_of_def fun_eq_iff)

lemma fd_open_free:
  assumes "n < lim" and "t n = None"
  shows "\<exists>m < lim. t m = None \<and> fd_open lim u t = (int m, t(m := Some u))"
proof -
  obtain m where m: "List.find (\<lambda>n. t n = None) [0..<lim] = Some m"
    using assms by (cases "List.find (\<lambda>n. t n = None) [0..<lim]") (auto simp: find_None_iff)
  then have "m < lim" "t m = None" by (auto simp: find_Some_iff)
  then show ?thesis using m by (auto simp: fd_open_def)
qed

lemma close_effects_append [simp]:
  "close_effects (es @ fs) t = close_effects fs (close_effects es t)"
proof (induction es arbitrary: t)
  case (Cons e es)
  then show ?case by (cases e) simp_all
qed simp

lemma close_replies [simp]:
  "close_effects (SendCommandResponse so c) t = t"
  "close_effects (sent_replies so i a) t = t"
  by (simp_all add: sent_replies_def SendCommandResponse_def send_line_def split: option.splits)

text \<open>An environment in which the passive socket can be bound, listens and has a name.\<close>

definition listens :: "ftp_env \<Rightarrow> bool" where
  "listens env \<longleftrightarrow> env_bind env \<and> env_listen env \<and> env_sockname env \<noteq> None"

lemma pasv_zero:
  assumes "listens env" and "passiveSock s = 0" and "0 < lim"
  shows "\<exists>s'. pasv_fds lim who env s t = (s', t(0 := Some (DataListener who)))
    \<and> passiveSock s' = 0 \<and> isPassive s' \<and> abortTranfser s' = abortTranfser s"
  using assms fd_open_zero [of lim "t(0 := None)" "DataListener who"]
  by (auto simp: pasv_fds_def InitPassiveSock_def listens_def Let_def)

lemma fd_close_at: "t n = None \<Longrightarrow> snd (fd_close (int n) (t(n := x))) = t"
  by (cases x) (auto simp: fd_close_def fd_use_of_def fun_eq_iff)

lemma fd_open_cases:
  obtains "fd_open lim u t = (-1, t)" | m where "t m = None" "fd_open lim u t = (int m, t(m := Some u))"
proof (cases "List.find (\<lambda>n. t n = None) [0..<lim]")
  case None
  then show ?thesis using that(1) by (simp add: fd_open_def)
next
  case (Some m)
  then have "t m = None" by (auto simp: find_Some_iff)
  then show ?thesis using that(2) Some by (simp add: fd_open_def)
qed

lemma retr_listener:
  assumes "segment_ok cfg" and "isPassive s" and "passiveSock s = 0" and "\<not> abortTranfser s"
    and "t 0 = Some (DataListener who)" and "n < lim" and "t n = None" and "n' < lim" and "t n' = None" and "n \<noteq> n'"
    and "dtp_files env name = Some c" and "c \<noteq> []"
    and "list_all (ample (nat (cfg_max_segment cfg))) evss" and "length c \<le> length evss"
  shows "\<exists>s' t'. retr_fds cfg lim env evss so \<lparr>tr_data = None, tr_file = Some name, tr_length = length c\<rparr> s t =
      Some (Inr (s', Some who, c, t')) \<and> t' 0 = None \<and> isPassive s' \<and> passiveSock s' = 0 \<and> \<not> abortTranfser s'"
proof -
  obtain f where f: "t f = None" "fd_open lim OpenFile t = (int f, t(f := Some OpenFile))"
    using fd_open_free [of n lim t] assms(6,7) by blast
  let ?t1 = "t(f := Some OpenFile)"
  have f0: "f \<noteq> 0" using f(1) assms(5) by (cases "f = 0") simp_all
  have "\<exists>k < lim. ?t1 k = None"
    using assms(6-10) by (cases "n = f") auto
  then obtain m where m: "?t1 m = None" "fd_open lim (DataConn who) ?t1 = (int m, ?t1(m := Some (DataConn who)))"
    using fd_open_free [of _ lim ?t1] by blast
  have m0: "m \<noteq> 0" using m(1) f0 assms(5) by (cases "m = 0") simp_all
  let ?t = "?t1(m := Some (DataConn who))"
  have opn: "open_transfer lim env \<lparr>tr_data = None, tr_file = Some name, tr_length = length c\<rparr> t = (int f, ?t1)"
    using assms(11) f(2) by (simp add: open_transfer_def)
  have acc: "accept_fd lim (passiveSock s) ?t1 = (int m, ?t)"
    using assms(3,5) m(2) f0 by (simp add: accept_fd_def fd_use_of_def)
  have peer: "peer_of (int m) ?t = Some who" by (simp add: peer_of_def fd_use_of_def)
  let ?env = "env\<lparr>dtp_accept := int m, dtp_close := (\<lambda>l. fst (fd_close l (snd (fd_close (int m) ?t))))\<rparr>"
  have c0: "dtp_close ?env 0 = 0"
    using assms(5) m0 f0 by (simp add: fd_close_def fd_use_of_def)
  have "send_passive False (nat (cfg_max_segment cfg)) None (length c) (dtp_errno env) evss
      (Socket 0 (int m)) c 0 [] = Some (False, c)"
    using send_passive_file [of "Socket 0 (int m)" "nat (cfg_max_segment cfg)" evss 0 c "dtp_errno env" "[]"]
      assms segment_simps [OF assms(1)] by (simp add: Socket_def)
  then have snd_data: "SendData cfg ?env [] [] evss so \<lparr>tr_data = None, tr_file = Some name, tr_length = length c\<rparr> s =
      Some (Inr (end_send (s\<lparr>passiveSock := 0\<rparr>), SendCommandResponse so 150 @
        [CloseFd (int m), CloseFd 0, CloseFd (int m)] @ sent_replies so False False, c))"
    using assms(2-4,11) c0 segment_simps [OF assms(1)] by (simp add: SendData_def)
  let ?after = "snd (fd_close (int f) (snd (fd_close (int m) ((snd (fd_close (int m) ?t))(0 := None)))))"
  have "retr_fds cfg lim env evss so \<lparr>tr_data = None, tr_file = Some name, tr_length = length c\<rparr> s t =
      Some (Inr (end_send (s\<lparr>passiveSock := 0\<rparr>), Some who, c, ?after))"
    using opn acc peer snd_data by (simp add: retr_fds_def)
  moreover have "?after 0 = None" by (simp add: fd_close_def)
  ultimately show ?thesis using assms(2) by (simp add: end_send_def)
qed

text \<open>A transfer when the descriptor of the session is no listener any more: it is closed all the same.\<close>

lemma send_passive_none:
  assumes "evss \<noteq> []" and "err \<noteq> EAGAIN"
  shows "\<exists>x. send_passive False seg data len err evss (Socket 0 (-1)) rest 0 [] = Some (x, [])"
proof -
  obtain evs evss' where e: "evss = evs # evss'" using assms(1) by (cases evss) simp_all
  obtain part rest' where n: "next_part seg data len 0 rest = (part, rest')" by (cases "next_part seg data len 0 rest")
  have "Socket_Send evs (Socket 0 (-1)) part =
      (if part = [] then Some (0, [], Socket 0 (-1)) else Some (-1, [], Socket 0 (-1)))"
    by (simp add: Socket_Send_def Send_loop.simps [of evs _ part] Socket_def)
  then show ?thesis using assms(2) n by (intro exI [of _ "part = []"], subst send_passive.simps) (cases "part = []"; simp add: e)
qed

lemma SendData_no_listener:
  assumes "segment_ok cfg" and "isPassive s" and "passiveSock s = 0" and "\<not> abortTranfser s"
    and "dtp_accept env = -1" and "dtp_close env 0 = 0" and "evss \<noteq> []" and "dtp_errno env \<noteq> EAGAIN"
  shows "\<exists>x. SendData cfg env [] [] evss so tr s =
      Some (Inr (end_send (s\<lparr>passiveSock := 0\<rparr>), SendCommandResponse so 150 @
        [CloseFd (-1), CloseFd 0, CloseFd (-1)] @ sent_replies so x False, []))"
proof -
  obtain x where "send_passive False (wrap64 (cfg_max_segment cfg)) (tr_data tr) (tr_length tr) (dtp_errno env) evss
      (Socket 0 (-1)) (case tr_file tr of None \<Rightarrow> [] | Some f \<Rightarrow>
         (case dtp_files env f of None \<Rightarrow> [] | Some c \<Rightarrow> c)) 0 [] = Some (x, [])"
    using send_passive_none [OF assms(7,8)] by blast
  then show ?thesis
    using assms segment_simps [OF assms(1)] by (intro exI [of _ x], cases "tr_file tr") (simp_all add: SendData_def Let_def)
qed

lemma retr_no_listener:
  assumes "segment_ok cfg" and "isPassive s" and "passiveSock s = 0" and "\<not> abortTranfser s"
    and "t 0 = Some u" and "\<And>w. u \<noteq> DataListener w" and "evss \<noteq> []" and "dtp_errno env \<noteq> EAGAIN"
  shows "\<exists>s'. retr_fds cfg lim env evss so tr s t = Some (Inr (s', None, [], t(0 := None)))"
proof -
  obtain f t1 where opn: "open_transfer lim env tr t = (f, t1)" by (cases "open_transfer lim env tr t")
  have t1: "t1 0 = Some u \<and> snd (fd_close f (t1(0 := None))) = t(0 := None)"
  proof (cases "f = -1 \<and> t1 = t")
    case True
    then show ?thesis using assms(5) by simp
  next
    case False
    then have fo: "fd_open lim OpenFile t = (f, t1)"
      using opn by (auto simp: open_transfer_def split: option.splits if_splits)
    have "\<exists>m. t m = None \<and> f = int m \<and> t1 = t(m := Some OpenFile)"
    proof (rule fd_open_cases [of lim OpenFile t])
      assume "fd_open lim OpenFile t = (-1, t)"
      then show ?thesis using fo False by simp
    next
      fix m assume "t m = None" "fd_open lim OpenFile t = (int m, t(m := Some OpenFile))"
      then show ?thesis using fo by (intro exI [of _ m]) simp
    qed
    then obtain m where m: "t m = None" "f = int m" "t1 = t(m := Some OpenFile)" by blast
    then have "m \<noteq> 0" using assms(5) by (cases "m = 0") simp_all
    then have "t1(0 := None) = (t(0 := None))(m := Some OpenFile)" using m(3) by (auto simp: fun_eq_iff)
    then have "snd (fd_close f (t1(0 := None))) = t(0 := None)"
      using fd_close_at [of "t(0 := None)" m "Some OpenFile"] m(1,2) by simp
    moreover have "t1 0 = Some u" using m(3) \<open>m \<noteq> 0\<close> assms(5) by simp
    ultimately show ?thesis by simp
  qed
  have acc: "accept_fd lim (passiveSock s) t1 = (-1, t1)"
    using assms(3,6) t1 by (cases u) (auto simp: accept_fd_def fd_use_of_def)
  let ?env = "env\<lparr>dtp_accept := -1, dtp_close := (\<lambda>l. fst (fd_close l (snd (fd_close (-1) t1)))),
    dtp_files := (if f < 0 then (\<lambda>_. None) else dtp_files env)\<rparr>"
  have c0: "dtp_close ?env 0 = 0" using t1 by (simp add: fd_close_def fd_use_of_def)
  obtain x where "SendData cfg ?env [] [] evss so tr s =
      Some (Inr (end_send (s\<lparr>passiveSock := 0\<rparr>), SendCommandResponse so 150 @
        [CloseFd (-1), CloseFd 0, CloseFd (-1)] @ sent_replies so x False, []))"
    using SendData_no_listener [OF assms(1-4) _ c0 assms(7), of so tr] assms(8) by auto
  then show ?thesis using opn acc t1 by (simp add: retr_fds_def peer_of_def fd_use_of_def)
qed

text \<open>
  A \<open>Socket\<close> that was closed and is then destroyed closes its descriptor twice: when another thread
  has opened a descriptor in between and got the same number, as it does when no lower one is free,
  the destructor closes that one.
\<close>

fun sock_calls :: "sock_call list \<Rightarrow> fds \<Rightarrow> fds" where
  "sock_calls [] t = t"
| "sock_calls (CloseSock fd # cs) t = sock_calls cs (snd (fd_close fd t))"
| "sock_calls (c # cs) t = sock_calls cs t"

lemma fd_open_lowest: "n < lim \<Longrightarrow> t n = None \<Longrightarrow> (\<And>k. k < n \<Longrightarrow> t k \<noteq> None) \<Longrightarrow> fd_open lim u t = (int n, t(n := Some u))"
proof -
  assume n: "n < lim" "t n = None" and low: "\<And>k. k < n \<Longrightarrow> t k \<noteq> None"
  obtain m where m: "t m = None" "fd_open lim u t = (int m, t(m := Some u))" "List.find (\<lambda>n. t n = None) [0..<lim] = Some m"
    using n by (cases "List.find (\<lambda>n. t n = None) [0..<lim]") (auto simp: fd_open_def find_None_iff find_Some_iff)
  have "\<not> n < m" using m(3) n by (auto simp: find_Some_iff)
  moreover have "\<not> m < n" using low [of m] m(1) by auto
  ultimately show ?thesis using m(2) by simp
qed

lemma destructor_closes_other:
  assumes "sock_fd so = int n" and "n < lim" and "\<And>k. k < n \<Longrightarrow> t k \<noteq> None"
  shows "fd_open lim u (sock_calls (fst (Socket_Close close so)) t) = (int n, t(n := Some u))
    \<and> sock_calls (Socket_destroy so) (t(n := Some u)) = t(n := None)"
proof -
  have c: "sock_calls (fst (Socket_Close f so)) t' = t'(n := None)" for f t'
    using assms(1) by (auto simp: Socket_Close_def fd_close_def fd_use_of_def fun_eq_iff)
  have "fd_open lim u (t(n := None)) = (int n, (t(n := None))(n := Some u))"
    by (rule fd_open_lowest) (use assms(2,3) in auto)
  then show ?thesis using c [of _ t] c [of "\<lambda>_. 0" "t(n := Some u)"] by (simp add: Socket_destroy_def)
qed

section \<open>Properties\<close>

text \<open>
  C22. Two clients in passive mode share one listener.  A new session has 0 as the descriptor of its
  passive socket, which its first PASV closes; the new socket is the lowest free descriptor, which
  is 0 again.  So when two clients have asked for a passive socket, the listener of the first one is
  closed, both sessions hold descriptor 0, and the file that the first client retrieves is sent to
  whoever connects to the second one's port, whose listener is closed after that.
\<close>
theorem passive_listener_taken_over:
  assumes "segment_ok cfg" and "listens ea" and "listens eb" and "0 < lim"
    and "passiveSock sa = 0" and "passiveSock sb = 0" and "\<not> abortTranfser sa"
    and "pasv_fds lim a ea sa t = (sa1, ta)" and "pasv_fds lim b eb sb ta = (sb1, tb)"
    and "n < lim" and "tb n = None" and "n' < lim" and "tb n' = None" and "n \<noteq> n'"
    and "dtp_files env name = Some c" and "c \<noteq> []"
    and "list_all (ample (nat (cfg_max_segment cfg))) evss" and "length c \<le> length evss"
  shows "\<exists>sa2 t2. retr_fds cfg lim env evss so \<lparr>tr_data = None, tr_file = Some name, tr_length = length c\<rparr> sa1 tb =
      Some (Inr (sa2, Some b, c, t2)) \<and> passiveSock sb1 = 0 \<and> t2 0 = None"
proof -
  have a: "passiveSock sa1 = 0" "isPassive sa1" "\<not> abortTranfser sa1"
    using pasv_zero [OF assms(2,5,4), of a t] assms(7,8) by auto
  have b: "tb 0 = Some (DataListener b)" "passiveSock sb1 = 0"
    using pasv_zero [OF assms(3,6,4), of b ta] assms(9) by auto
  show ?thesis using retr_listener [OF assms(1) a(2,1,3) b(1) assms(10-18)] b(2) by blast
qed

text \<open>Two logged-in clients and a process with its standard streams and the server socket open.\<close>

definition sample_fds :: fds where
  "sample_fds = [0 \<mapsto> Standard, 1 \<mapsto> Standard, 2 \<mapsto> Standard, 3 \<mapsto> ServerSocket, 4 \<mapsto> ControlConn 4, 5 \<mapsto> ControlConn 5]"

definition fresh_session :: session where
  "fresh_session = SessionDataStruct\<lparr>loggedIn := True\<rparr>"

definition file_env :: dtp_env where
  "file_env = sample_dtp\<lparr>dtp_files := [''f'' \<mapsto> ''abcde'']\<rparr>"

lemma fresh_simps [simp]: "passiveSock fresh_session = 0" "\<not> abortTranfser fresh_session"
  by (simp_all add: fresh_session_def SessionDataStruct_def)

lemma sample_sends:
  "segment_ok sample_transfer_config" "listens sample_env" "dtp_files file_env ''f'' = Some ''abcde''"
  "list_all (ample (nat (cfg_max_segment sample_transfer_config))) (replicate 5 [Accept 4])"
  "length ''abcde'' \<le> length (replicate 5 [Accept 4])" "''abcde'' \<noteq> []" "dtp_errno file_env \<noteq> EAGAIN"
  by (simp_all add: sample_dtp_defs file_env_def sample_env_def listens_def ample_def steady_def EAGAIN_def list_all_iff)

lemma sample_pasv:
  obtains s' where "pasv_fds 1024 who sample_env fresh_session t = (s', t(0 := Some (DataListener who)))"
  using pasv_zero [OF sample_sends(2), of fresh_session 1024 who t] by auto

theorem passive_listener_taken_over_witness:
  "\<exists>sa1 ta sb1 tb sa2 t2. pasv_fds 1024 4 sample_env fresh_session sample_fds = (sa1, ta)
    \<and> pasv_fds 1024 5 sample_env fresh_session ta = (sb1, tb)
    \<and> retr_fds sample_transfer_config 1024 file_env (replicate 5 [Accept 4]) None
        \<lparr>tr_data = None, tr_file = Some ''f'', tr_length = length ''abcde''\<rparr> sa1 tb = Some (Inr (sa2, Some 5, ''abcde'', t2))"
proof -
  obtain sa1 where a: "pasv_fds 1024 4 sample_env fresh_session sample_fds = (sa1, sample_fds(0 := Some (DataListener 4)))"
    by (rule sample_pasv)
  obtain sb1 where b: "pasv_fds 1024 5 sample_env fresh_session (sample_fds(0 := Some (DataListener 4))) =
      (sb1, (sample_fds(0 := Some (DataListener 4)))(0 := Some (DataListener 5)))"
    by (rule sample_pasv)
  have n: "(6::nat) < 1024" "((sample_fds(0 := Some (DataListener 4)))(0 := Some (DataListener 5))) 6 = None"
    "(7::nat) < 1024" "((sample_fds(0 := Some (DataListener 4)))(0 := Some (DataListener 5))) 7 = None" "(6::nat) \<noteq> 7"
    by (simp_all add: sample_fds_def)
  from passive_listener_taken_over [OF sample_sends(1,2,2) _ fresh_simps(1,1,2) a b n sample_sends(3,6,4,5)]
  show ?thesis using a b by fastforce
qed

text \<open>
  C23. A second transfer closes a stranger's connection.  A passive transfer ends by closing the
  listener and storing the result of \<open>close\<close>, 0, as its descriptor.  The next client that connects
  gets descriptor 0 for its control connection; when the session then asks for another file without
  a new PASV, nothing is sent, and descriptor 0, the connection of that client, is closed.
\<close>
theorem second_transfer_closes_client:
  assumes "segment_ok cfg" and "listens ea" and "0 < lim" and "passiveSock s = 0" and "\<not> abortTranfser s"
    and "pasv_fds lim a ea s t = (s1, t1)" and "n < lim" and "t1 n = None"
    and "n' < lim" and "t1 n' = None" and "n \<noteq> n'" and "dtp_files env name = Some c" and "c \<noteq> []"
    and "list_all (ample (nat (cfg_max_segment cfg))) evss" and "length c \<le> length evss"
    and "dtp_errno env \<noteq> EAGAIN"
  shows "\<exists>s2 t2 t3 s4 t4.
    retr_fds cfg lim env evss so \<lparr>tr_data = None, tr_file = Some name, tr_length = length c\<rparr> s1 t1 =
      Some (Inr (s2, Some a, c, t2))
    \<and> fd_open lim (ControlConn client) t2 = (0, t3)
    \<and> retr_fds cfg lim env evss so \<lparr>tr_data = None, tr_file = Some name, tr_length = length c\<rparr> s2 t3 =
      Some (Inr (s4, None, [], t4)) \<and> t4 = t3(0 := None)"
proof -
  have p: "passiveSock s1 = 0" "isPassive s1" "\<not> abortTranfser s1" "t1 0 = Some (DataListener a)"
    using pasv_zero [OF assms(2,4,3), of a t] assms(5,6) by auto
  from retr_listener [OF assms(1) p(2,1,3,4) assms(7-15), of so] obtain s2 t2 where
    r: "retr_fds cfg lim env evss so \<lparr>tr_data = None, tr_file = Some name, tr_length = length c\<rparr> s1 t1 =
        Some (Inr (s2, Some a, c, t2))" "t2 0 = None" "isPassive s2" "passiveSock s2 = 0" "\<not> abortTranfser s2"
    by blast
  have e: "evss \<noteq> []" using assms(13,15) by auto
  have op: "fd_open lim (ControlConn client) t2 = (0, t2(0 := Some (ControlConn client)))"
    using fd_open_zero [of lim t2] assms(3) r(2) by simp
  have "\<exists>s4. retr_fds cfg lim env evss so \<lparr>tr_data = None, tr_file = Some name, tr_length = length c\<rparr> s2
      (t2(0 := Some (ControlConn client))) = Some (Inr (s4, None, [], (t2(0 := Some (ControlConn client)))(0 := None)))"
    by (rule retr_no_listener [where u = "ControlConn client"]) (use assms(1,16) r(3-5) e in simp_all)
  then show ?thesis using r(1) op by blast
qed

theorem second_transfer_closes_client_witness:
  "\<exists>s1 t1 s2 t2 t3 s4. pasv_fds 1024 4 sample_env fresh_session sample_fds = (s1, t1)
    \<and> retr_fds sample_transfer_config 1024 file_env (replicate 5 [Accept 4]) None
        \<lparr>tr_data = None, tr_file = Some ''f'', tr_length = length ''abcde''\<rparr> s1 t1 = Some (Inr (s2, Some 4, ''abcde'', t2))
    \<and> fd_open 1024 (ControlConn 0) t2 = (0, t3)
    \<and> retr_fds sample_transfer_config 1024 file_env (replicate 5 [Accept 4]) None
        \<lparr>tr_data = None, tr_file = Some ''f'', tr_length = length ''abcde''\<rparr> s2 t3 = Some (Inr (s4, None, [], t3(0 := None)))"
proof -
  obtain s1 where a: "pasv_fds 1024 4 sample_env fresh_session sample_fds = (s1, sample_fds(0 := Some (DataListener 4)))"
    by (rule sample_pasv)
  have n: "(6::nat) < 1024" "(sample_fds(0 := Some (DataListener 4))) 6 = None"
    "(7::nat) < 1024" "(sample_fds(0 := Some (DataListener 4))) 7 = None" "(6::nat) \<noteq> 7"
    by (simp_all add: sample_fds_def)
  from second_transfer_closes_client [OF sample_sends(1,2) _ fresh_simps(1,2) a n sample_sends(3,6,4,5,7)]
  show ?thesis using a by fastforce
qed

end
