(* ===== verification/ThreadMgr.thy ===== *)
theory ThreadMgr
  imports StdMap
begin

text \<open>
  \<open>Threads/Thread.{h,cpp}\<close> and \<open>Threads/ThreadMgr.{h,cpp}\<close>: threads with their status, the table
  of threads with its names, and the tables of mutexes and conditions.

  The pthread library is an argument: \<open>pthread_create\<close> gives a handle or fails, the other calls
  give their result.  A signal, cancellation or join is an entry of the returned list of calls.
  Thread numbers stay below \<open>2 ^ 31\<close>, so that the conversions between \<open>size_t\<close>, \<open>uint32\<close> and
  \<open>int\<close> keep them.  The function and argument pointers of a thread are never read.
\<close>

section \<open>Threads\<close>

definition THREAD_STATUS_BEGIN :: int where "THREAD_STATUS_BEGIN = 1"
definition THREAD_ACTIVE :: int where "THREAD_ACTIVE = 2"
definition THREAD_SUSPENDED :: int where "THREAD_SUSPENDED = 3"
definition THREAD_EXIT :: int where "THREAD_EXIT = 4"
definition THREAD_STATUS_END :: int where "THREAD_STATUS_END = 5"

lemmas status_defs = THREAD_STATUS_BEGIN_def THREAD_ACTIVE_def THREAD_SUSPENDED_def
  THREAD_EXIT_def THREAD_STATUS_END_def

record thread =
  th_handle :: nat
  th_id :: nat
  th_status :: int
  th_attributes :: nat

definition Thread :: "nat \<Rightarrow> thread" where
  "Thread h = \<lparr>th_handle = h, th_id = 0, th_status = 0, th_attributes = 0\<rparr>"

definition Thread_CreateThread :: "nat option \<Rightarrow> thread option" where
  "Thread_CreateThread created =
     (case created of
        Some h \<Rightarrow> Some ((Thread h)\<lparr>th_status := THREAD_ACTIVE\<rparr>)
      | None \<Rightarrow> None)"

datatype pthread_call = Kill nat int | Cancel nat | Join nat

definition SIGINT :: int where "SIGINT = 2"
definition SIGKILL :: int where "SIGKILL = 9"
definition SIGTERM :: int where "SIGTERM = 15"
definition SIGCONT :: int where "SIGCONT = 18"

definition Thread_Kill :: "thread \<Rightarrow> pthread_call" where
  "Thread_Kill t = Kill (th_handle t) SIGKILL"

definition Thread_Terminate :: "thread \<Rightarrow> pthread_call" where
  "Thread_Terminate t = Kill (th_handle t) SIGTERM"

definition Thread_Interrupt :: "thread \<Rightarrow> pthread_call" where
  "Thread_Interrupt t = Kill (th_handle t) SIGINT"

definition Thread_Continue :: "thread \<Rightarrow> pthread_call" where
  "Thread_Continue t = Kill (th_handle t) SIGCONT"

definition Thread_SendSignal :: "thread \<Rightarrow> int \<Rightarrow> pthread_call" where
  "Thread_SendSignal t sig = Kill (th_handle t) sig"

text \<open>The thread while it waits for a signal, and after it.\<close>

definition Thread_Suspend :: "thread \<Rightarrow> thread \<times> thread" where
  "Thread_Suspend t = (t\<lparr>th_status := THREAD_SUSPENDED\<rparr>, t\<lparr>th_status := THREAD_ACTIVE\<rparr>)"

section \<open>The manager\<close>

text \<open>
  The maps of mutexes and conditions hold references.  \<open>DeadLocal\<close> is a reference to a local
  variable or parameter of a call that has returned, \<open>Object\<close> one to an object that still exists.
\<close>

datatype object_ref = Object nat | DeadLocal

record thread_mgr =
  pThreads :: "thread list"
  pThreadNames :: "(string \<times> nat) list"
  pMutexes :: "string \<rightharpoonup> object_ref"
  pConditions :: "string \<rightharpoonup> object_ref"

definition ThreadMgr :: thread_mgr where
  "ThreadMgr = \<lparr>pThreads = [], pThreadNames = [], pMutexes = Map.empty, pConditions = Map.empty\<rparr>"

definition names_insert :: "string \<Rightarrow> nat \<Rightarrow> (string \<times> nat) list \<Rightarrow> (string \<times> nat) list" where
  "names_insert k v m = (case map_of m k of None \<Rightarrow> m @ [(k, v)] | Some _ \<Rightarrow> m)"

interpretation thread_names: insert_once map_of names_insert
proof
  fix k :: string and v :: nat and m :: "(string \<times> nat) list"
  show "map_of (names_insert k v m) =
     (case map_of m k of None \<Rightarrow> (map_of m)(k \<mapsto> v) | Some _ \<Rightarrow> map_of m)"
    by (rule ext) (auto simp: names_insert_def map_add_def split: option.splits)
qed

subsection \<open>Finding a thread\<close>

datatype thread_iter = ThreadAt nat | ThreadsEnd | Singular

definition pgetThread :: "nat \<Rightarrow> thread_mgr \<Rightarrow> thread_iter" where
  "pgetThread index m =
     (if index > length (pThreads m) then Singular
      else if index = length (pThreads m) then ThreadsEnd
      else ThreadAt index)"

definition deref_thread :: "thread_mgr \<Rightarrow> thread_iter \<Rightarrow> thread res" where
  "deref_thread m it =
     (case it of
        ThreadAt i \<Rightarrow> if i < length (pThreads m) then Inr (pThreads m ! i) else Inl DanglingIterator
      | ThreadsEnd \<Rightarrow> Inl DanglingIterator
      | Singular \<Rightarrow> Inl DanglingIterator)"

definition getThread :: "nat \<Rightarrow> thread_mgr \<Rightarrow> thread res" where
  "getThread index m = deref_thread m (pgetThread index m)"

fun handle_loop :: "nat \<Rightarrow> thread list \<Rightarrow> nat \<Rightarrow> thread_iter" where
  "handle_loop h [] i = ThreadsEnd"
| "handle_loop h (t # ts) i = (if th_handle t = h then ThreadAt i else handle_loop h ts (Suc i))"

definition pgetThread_handle :: "nat \<Rightarrow> thread_mgr \<Rightarrow> thread_iter" where
  "pgetThread_handle h m = handle_loop h (pThreads m) 0"

text \<open>For an unknown handle the source makes a reference from a NULL pointer.\<close>

definition getThread_handle :: "nat \<Rightarrow> thread_mgr \<Rightarrow> thread res" where
  "getThread_handle h m =
     (let it = pgetThread_handle h m
      in if it \<noteq> ThreadsEnd then deref_thread m it else Inl NullPointer)"

definition getThreadId :: "nat \<Rightarrow> thread_mgr \<Rightarrow> int res" where
  "getThreadId h m = rbind (getThread_handle h m) (\<lambda>t. Inr (int (th_id t)))"

definition GetThreadIdByName :: "string \<Rightarrow> thread_mgr \<Rightarrow> nat" where
  "GetThreadIdByName name m =
     (case map_of (pThreadNames m) name of
        None \<Rightarrow> length (pThreadNames m)
      | Some i \<Rightarrow> i)"

subsection \<open>Creating threads\<close>

definition CreateThread :: "nat option \<Rightarrow> thread_mgr \<Rightarrow> int \<times> thread_mgr" where
  "CreateThread created m =
     (case created of
        Some h \<Rightarrow>
          (int (length (pThreads m)),
           m\<lparr>pThreads := pThreads m @
               [(Thread h)\<lparr>th_id := length (pThreads m), th_status := THREAD_ACTIVE\<rparr>]\<rparr>)
      | None \<Rightarrow> (-1, m))"

definition CreateThread_named :: "string \<Rightarrow> nat option \<Rightarrow> thread_mgr \<Rightarrow> int \<times> thread_mgr" where
  "CreateThread_named name created m =
     (if map_of (pThreadNames m) name \<noteq> None then (-1, m)
      else
        (let (ret, m') = CreateThread created m
         in if ret \<noteq> -1 then
              (ret, m'\<lparr>pThreadNames := names_insert name (nat ret) (pThreadNames m')\<rparr>)
            else (-1, m')))"

definition AddThread :: "string \<Rightarrow> thread \<Rightarrow> thread_mgr \<Rightarrow> int \<times> thread_mgr" where
  "AddThread name t m =
     (let t' = t\<lparr>th_id := length (pThreads m)\<rparr>
      in (int (th_id t'),
          m\<lparr>pThreads := pThreads m @ [t'],
            pThreadNames := names_insert name (th_id t') (pThreadNames m)\<rparr>))"

definition SetThreadName :: "nat \<Rightarrow> string \<Rightarrow> thread_mgr \<Rightarrow> bool \<times> thread_mgr" where
  "SetThreadName i name m =
     (if map_of (pThreadNames m) name \<noteq> None then (False, m)
      else (True, m\<lparr>pThreadNames := names_insert name i (pThreadNames m)\<rparr>))"

subsection \<open>Calls for a thread\<close>

text \<open>\<open>r\<close> is what the pthread function returns for the call.\<close>

definition CancelThread :: "(pthread_call \<Rightarrow> int) \<Rightarrow> nat \<Rightarrow> thread_mgr \<Rightarrow> (bool \<times> pthread_call list) res" where
  "CancelThread r i m =
     (if i < length (pThreads m) then
        rbind (getThread i m) (\<lambda>t. Inr (r (Cancel (th_handle t)) = 0, [Cancel (th_handle t)]))
      else Inr (False, []))"

definition JoinThead :: "(pthread_call \<Rightarrow> int) \<Rightarrow> nat \<Rightarrow> thread_mgr \<Rightarrow> (bool \<times> pthread_call list) res" where
  "JoinThead r i m =
     (if i < length (pThreads m) then
        rbind (getThread i m) (\<lambda>t. Inr (r (Join (th_handle t)) = 0, [Join (th_handle t)]))
      else Inr (False, []))"

definition SendSignalToThread ::
  "(pthread_call \<Rightarrow> int) \<Rightarrow> nat \<Rightarrow> int \<Rightarrow> thread_mgr \<Rightarrow> (bool \<times> pthread_call list) res" where
  "SendSignalToThread r i sig m =
     (if i \<ge> length (pThreads m) then Inr (False, [])
      else rbind (getThread i m) (\<lambda>t. Inr (r (Kill (th_handle t) sig) = 0, [Kill (th_handle t) sig])))"

definition KillThread :: "(pthread_call \<Rightarrow> int) \<Rightarrow> nat \<Rightarrow> thread_mgr \<Rightarrow> (bool \<times> pthread_call list) res" where
  "KillThread r i m = SendSignalToThread r i SIGTERM m"

definition ResumeThread :: "(pthread_call \<Rightarrow> int) \<Rightarrow> nat \<Rightarrow> thread_mgr \<Rightarrow> (bool \<times> pthread_call list) res" where
  "ResumeThread r i m = SendSignalToThread r i SIGCONT m"

definition CancelThread_named ::
  "(pthread_call \<Rightarrow> int) \<Rightarrow> string \<Rightarrow> thread_mgr \<Rightarrow> (bool \<times> pthread_call list) res" where
  "CancelThread_named r name m = CancelThread r (GetThreadIdByName name m) m"

definition JoinThead_named ::
  "(pthread_call \<Rightarrow> int) \<Rightarrow> string \<Rightarrow> thread_mgr \<Rightarrow> (bool \<times> pthread_call list) res" where
  "JoinThead_named r name m = JoinThead r (GetThreadIdByName name m) m"

definition SendSignalToThread_named ::
  "(pthread_call \<Rightarrow> int) \<Rightarrow> string \<Rightarrow> int \<Rightarrow> thread_mgr \<Rightarrow> (bool \<times> pthread_call list) res" where
  "SendSignalToThread_named r name sig m = SendSignalToThread r (GetThreadIdByName name m) sig m"

definition ResumeThread_named ::
  "(pthread_call \<Rightarrow> int) \<Rightarrow> string \<Rightarrow> thread_mgr \<Rightarrow> (bool \<times> pthread_call list) res" where
  "ResumeThread_named r name m = SendSignalToThread r (GetThreadIdByName name m) SIGCONT m"

definition KillThread_named ::
  "(pthread_call \<Rightarrow> int) \<Rightarrow> string \<Rightarrow> thread_mgr \<Rightarrow> (bool \<times> pthread_call list) res" where
  "KillThread_named r name m = SendSignalToThread r (GetThreadIdByName name m) SIGTERM m"

subsection \<open>Status\<close>

definition GetThreadStatus :: "nat \<Rightarrow> thread_mgr \<Rightarrow> int res" where
  "GetThreadStatus i m =
     (if i \<ge> length (pThreads m) then Inr (-1)
      else rbind (getThread i m) (\<lambda>t. Inr (th_status t)))"

definition GetThreadStatus_int :: "int \<Rightarrow> thread_mgr \<Rightarrow> int res" where
  "GetThreadStatus_int i m =
     (if i \<ge> 0 \<and> nat i < length (pThreads m) then GetThreadStatus (nat i) m else Inr 0)"

definition GetThreadStatus_named :: "string \<Rightarrow> thread_mgr \<Rightarrow> int res" where
  "GetThreadStatus_named name m = GetThreadStatus (GetThreadIdByName name m) m"

definition GetThreadStatus_handle :: "nat \<Rightarrow> thread_mgr \<Rightarrow> int res" where
  "GetThreadStatus_handle h m =
     rbind (getThreadId h m) (\<lambda>i. if i \<noteq> -1 then GetThreadStatus (nat i) m else Inr 0)"

definition valid_status :: "int \<Rightarrow> bool" where
  "valid_status s \<longleftrightarrow> s > THREAD_STATUS_BEGIN \<and> s < THREAD_STATUS_END"

definition SetThreadStatus :: "nat \<Rightarrow> int \<Rightarrow> thread_mgr \<Rightarrow> thread_mgr" where
  "SetThreadStatus i s m =
     (if i \<ge> length (pThreads m) then m
      else if valid_status s
      then m\<lparr>pThreads := (pThreads m)[i := (pThreads m ! i)\<lparr>th_status := s\<rparr>]\<rparr>
      else m)"

definition SetThreadStatus_named :: "string \<Rightarrow> int \<Rightarrow> thread_mgr \<Rightarrow> thread_mgr" where
  "SetThreadStatus_named name s m = SetThreadStatus (GetThreadIdByName name m) s m"

definition SetThreadStatus_handle :: "nat \<Rightarrow> int \<Rightarrow> thread_mgr \<Rightarrow> thread_mgr res" where
  "SetThreadStatus_handle h s m =
     rbind (getThreadId h m) (\<lambda>i. Inr (if i \<noteq> -1 then SetThreadStatus (nat i) s m else m))"

subsection \<open>Mutexes and conditions\<close>

text \<open>
  \<open>r\<close> is the result of the pthread function on the object.  \<open>CreateMutex\<close> and \<open>CreateCondition\<close>
  store a reference to their own local variable, \<open>AddMutex\<close> one to its parameter; a missing name
  gives \<open>false\<close>, the number 0.
\<close>

definition CreateMutex :: "int \<Rightarrow> string \<Rightarrow> thread_mgr \<Rightarrow> int \<times> thread_mgr" where
  "CreateMutex r name m =
     (if pMutexes m name \<noteq> None then (0, m)
      else (r, m\<lparr>pMutexes := map_insert name DeadLocal (pMutexes m)\<rparr>))"

definition AddMutex :: "string \<Rightarrow> thread_mgr \<Rightarrow> thread_mgr" where
  "AddMutex name m =
     (if pMutexes m name \<noteq> None then m
      else m\<lparr>pMutexes := map_insert name DeadLocal (pMutexes m)\<rparr>)"

definition GetMutex :: "string \<Rightarrow> thread_mgr \<Rightarrow> object_ref res" where
  "GetMutex name m =
     (case pMutexes m name of None \<Rightarrow> Inl NullPointer | Some o' \<Rightarrow> Inr o')"

definition use_object :: "(nat \<Rightarrow> int) \<Rightarrow> object_ref \<Rightarrow> int res" where
  "use_object r o' = (case o' of Object a \<Rightarrow> Inr (r a) | DeadLocal \<Rightarrow> Inl DeadReference)"

definition LockMutex :: "(nat \<Rightarrow> int) \<Rightarrow> string \<Rightarrow> thread_mgr \<Rightarrow> int res" where
  "LockMutex r name m =
     (if pMutexes m name = None then Inr 0 else rbind (GetMutex name m) (use_object r))"

definition UnlockMutex :: "(nat \<Rightarrow> int) \<Rightarrow> string \<Rightarrow> thread_mgr \<Rightarrow> int res" where
  "UnlockMutex r name m =
     (if pMutexes m name = None then Inr 0 else rbind (GetMutex name m) (use_object r))"

definition TryLockMutex :: "(nat \<Rightarrow> int) \<Rightarrow> string \<Rightarrow> thread_mgr \<Rightarrow> int res" where
  "TryLockMutex r name m =
     (if pMutexes m name = None then Inr 0 else rbind (GetMutex name m) (use_object r))"

definition DestroyMutex :: "(nat \<Rightarrow> int) \<Rightarrow> string \<Rightarrow> thread_mgr \<Rightarrow> (int \<times> thread_mgr) res" where
  "DestroyMutex r name m =
     (case pMutexes m name of
        None \<Rightarrow> Inr (0, m)
      | Some o' \<Rightarrow> rbind (use_object r o') (\<lambda>ret.
                    Inr (ret, m\<lparr>pMutexes := map_erase name (pMutexes m)\<rparr>)))"

definition MutexExists :: "string \<Rightarrow> thread_mgr \<Rightarrow> bool" where
  "MutexExists name m \<longleftrightarrow> pMutexes m name \<noteq> None"

definition CreateCondition :: "int \<Rightarrow> string \<Rightarrow> thread_mgr \<Rightarrow> int \<times> thread_mgr" where
  "CreateCondition r name m =
     (if pConditions m name \<noteq> None then (0, m)
      else (r, m\<lparr>pConditions := map_insert name DeadLocal (pConditions m)\<rparr>))"

definition GetCondition :: "string \<Rightarrow> thread_mgr \<Rightarrow> object_ref res" where
  "GetCondition name m =
     (case pConditions m name of None \<Rightarrow> Inl NullPointer | Some o' \<Rightarrow> Inr o')"

definition ConditionWait ::
  "(nat \<Rightarrow> nat \<Rightarrow> int) \<Rightarrow> string \<Rightarrow> string \<Rightarrow> thread_mgr \<Rightarrow> int res" where
  "ConditionWait r cname mname m =
     (if pConditions m cname = None \<or> pMutexes m mname = None then Inr 0
      else rbind (GetCondition cname m) (\<lambda>c. rbind (GetMutex mname m) (\<lambda>mu.
             case (c, mu) of
               (Object a, Object b) \<Rightarrow> Inr (r a b)
             | _ \<Rightarrow> Inl DeadReference)))"

definition ConditionSignal :: "(nat \<Rightarrow> int) \<Rightarrow> string \<Rightarrow> thread_mgr \<Rightarrow> int res" where
  "ConditionSignal r name m =
     (if pConditions m name = None then Inr 0 else rbind (GetCondition name m) (use_object r))"

definition ConditionBroadcast :: "(nat \<Rightarrow> int) \<Rightarrow> string \<Rightarrow> thread_mgr \<Rightarrow> int res" where
  "ConditionBroadcast r name m =
     (if pConditions m name = None then Inr 0 else rbind (GetCondition name m) (use_object r))"

definition DestroyCondition :: "(nat \<Rightarrow> int) \<Rightarrow> string \<Rightarrow> thread_mgr \<Rightarrow> (int \<times> thread_mgr) res" where
  "DestroyCondition r name m =
     (case pConditions m name of
        None \<Rightarrow> Inr (0, m)
      | Some o' \<Rightarrow> rbind (use_object r o') (\<lambda>ret.
                    Inr (ret, m\<lparr>pConditions := map_erase name (pConditions m)\<rparr>)))"

definition ConditionExists :: "string \<Rightarrow> thread_mgr \<Rightarrow> bool" where
  "ConditionExists name m \<longleftrightarrow> pConditions m name \<noteq> None"

end
