(* ===== verification/ThreadProps.thy ===== *)
theory ThreadProps
  imports ThreadMgr
begin

text \<open>
  The table of threads: every sequence of operations keeps the numbers equal to the positions and
  the states valid; what a status written by one key reads back under the others; names that are
  not in the table; the tables of mutexes and conditions.
\<close>

section \<open>The invariant of the table\<close>

definition wf_threads :: "thread_mgr \<Rightarrow> bool" where
  "wf_threads m \<longleftrightarrow>
     map th_id (pThreads m) = [0..<length (pThreads m)]
     \<and> list_all (\<lambda>t. valid_status (th_status t)) (pThreads m)
     \<and> distinct (map fst (pThreadNames m))"

datatype thread_op =
    OpCreate "nat option"
  | OpCreateNamed string "nat option"
  | OpAdd string thread
  | OpName nat string
  | OpStatus nat int
  | OpStatusNamed string int
  | OpMutex int string
  | OpAddMutex string
  | OpCondition int string

fun run_thread_op :: "thread_op \<Rightarrow> thread_mgr \<Rightarrow> thread_mgr" where
  "run_thread_op (OpCreate c) m = snd (CreateThread c m)"
| "run_thread_op (OpCreateNamed n c) m = snd (CreateThread_named n c m)"
| "run_thread_op (OpAdd n t) m = snd (AddThread n t m)"
| "run_thread_op (OpName i n) m = snd (SetThreadName i n m)"
| "run_thread_op (OpStatus i s) m = SetThreadStatus i s m"
| "run_thread_op (OpStatusNamed n s) m = SetThreadStatus_named n s m"
| "run_thread_op (OpMutex r n) m = snd (CreateMutex r n m)"
| "run_thread_op (OpAddMutex n) m = AddMutex n m"
| "run_thread_op (OpCondition r n) m = snd (CreateCondition r n m)"

text \<open>Threads that are handed to \<open>AddThread\<close> come from \<open>Thread::CreateThread\<close>.\<close>

fun op_ok :: "thread_op \<Rightarrow> bool" where
  "op_ok (OpAdd n t) = valid_status (th_status t)"
| "op_ok _ = True"

lemma valid_active [simp]: "valid_status THREAD_ACTIVE" "valid_status THREAD_SUSPENDED"
  "valid_status THREAD_EXIT"
  by (simp_all add: valid_status_def status_defs)

lemma wf_ThreadMgr [simp]: "wf_threads ThreadMgr"
  by (simp add: wf_threads_def ThreadMgr_def)

lemma distinct_names_insert:
  "distinct (map fst m) \<Longrightarrow> distinct (map fst (names_insert k v m))"
  by (auto simp: names_insert_def map_of_eq_None_iff split: option.splits)

lemma wf_append:
  "wf_threads m \<Longrightarrow> th_id t = length (pThreads m) \<Longrightarrow> valid_status (th_status t) \<Longrightarrow>
   wf_threads (m\<lparr>pThreads := pThreads m @ [t]\<rparr>)"
  by (simp add: wf_threads_def)

lemma wf_names: "wf_threads m \<Longrightarrow> wf_threads (m\<lparr>pThreadNames := names_insert k v (pThreadNames m)\<rparr>)"
  by (simp add: wf_threads_def distinct_names_insert)

lemma CreateThread_wf: "wf_threads m \<Longrightarrow> wf_threads (snd (CreateThread c m))"
  by (auto simp: CreateThread_def intro: wf_append split: option.splits)

lemma CreateThread_named_wf: "wf_threads m \<Longrightarrow> wf_threads (snd (CreateThread_named n c m))"
  using CreateThread_wf [of m c]
  by (auto simp: CreateThread_named_def Let_def wf_names split: prod.splits)

lemma AddThread_wf:
  assumes "wf_threads m" and "valid_status (th_status t)"
  shows "wf_threads (snd (AddThread n t m))"
proof -
  let ?t = "t\<lparr>th_id := length (pThreads m)\<rparr>"
  have "wf_threads (m\<lparr>pThreads := pThreads m @ [?t]\<rparr>)" using assms by (intro wf_append) simp_all
  from wf_names [OF this] show ?thesis by (simp add: AddThread_def Let_def)
qed

lemma map_update_same: "f x = f (xs ! i) \<Longrightarrow> map f (xs[i := x]) = map f xs"
  by (cases "i < length xs") (simp_all add: map_update list_update_same_conv list_update_beyond)

lemma SetThreadStatus_ids: "map th_id (pThreads (SetThreadStatus i s m)) = map th_id (pThreads m)"
  by (simp add: SetThreadStatus_def map_update_same)

lemma SetThreadStatus_handles:
  "map th_handle (pThreads (SetThreadStatus i s m)) = map th_handle (pThreads m)"
  by (simp add: SetThreadStatus_def map_update_same)

lemma SetThreadStatus_length [simp]: "length (pThreads (SetThreadStatus i s m)) = length (pThreads m)"
  by (simp add: SetThreadStatus_def)

lemma SetThreadStatus_names [simp]: "pThreadNames (SetThreadStatus i s m) = pThreadNames m"
  by (simp add: SetThreadStatus_def)

lemma SetThreadStatus_wf: "wf_threads m \<Longrightarrow> wf_threads (SetThreadStatus i s m)"
  using SetThreadStatus_ids [of i s m]
  by (auto simp: wf_threads_def list_all_iff SetThreadStatus_def dest!: set_update_subset_insert [THEN subsetD])

lemma run_thread_op_wf: "op_ok op \<Longrightarrow> wf_threads m \<Longrightarrow> wf_threads (run_thread_op op m)"
  by (cases op)
    (auto simp: CreateThread_wf CreateThread_named_wf AddThread_wf SetThreadStatus_wf
      SetThreadStatus_named_def SetThreadName_def wf_names,
     auto simp: wf_threads_def CreateMutex_def AddMutex_def CreateCondition_def)

text \<open>Threads are never removed or reordered.\<close>

lemma CreateThread_handles:
  "\<exists>hs. map th_handle (pThreads (snd (CreateThread c m))) = map th_handle (pThreads m) @ hs"
  by (cases c) (simp_all add: CreateThread_def)

lemma CreateThread_named_threads:
  "pThreads (snd (CreateThread_named n c m)) =
     (if map_of (pThreadNames m) n = None then pThreads (snd (CreateThread c m)) else pThreads m)"
  by (cases c) (auto simp: CreateThread_named_def CreateThread_def)

lemma run_thread_op_handles:
  "\<exists>hs. map th_handle (pThreads (run_thread_op op m)) = map th_handle (pThreads m) @ hs"
proof (cases op)
  case (OpCreateNamed n c)
  then show ?thesis using CreateThread_handles [of c m] by (simp add: CreateThread_named_threads)
next
  case (OpCreate c)
  then show ?thesis using CreateThread_handles [of c m] by (simp only: run_thread_op.simps)
next
  case (OpAdd n t)
  then show ?thesis by (simp add: AddThread_def Let_def)
qed (simp_all add: SetThreadName_def SetThreadStatus_named_def SetThreadStatus_handles
    CreateMutex_def AddMutex_def CreateCondition_def)

lemma run_thread_ops_wf:
  "list_all op_ok ops \<Longrightarrow> wf_threads m \<Longrightarrow> wf_threads (fold run_thread_op ops m)"
  by (induction ops arbitrary: m) (simp_all add: run_thread_op_wf)

lemma run_thread_ops_handles:
  "\<exists>hs. map th_handle (pThreads (fold run_thread_op ops m)) = map th_handle (pThreads m) @ hs"
proof (induction ops arbitrary: m)
  case (Cons op ops)
  obtain hs where "map th_handle (pThreads (run_thread_op op m)) = map th_handle (pThreads m) @ hs"
    using run_thread_op_handles by blast
  then show ?case using Cons.IH [of "run_thread_op op m"] by auto
qed simp

section \<open>Lookups\<close>

lemma getThread_Inr: "i < length (pThreads m) \<Longrightarrow> getThread i m = Inr (pThreads m ! i)"
  by (simp add: getThread_def pgetThread_def deref_thread_def)

lemma wf_id: "wf_threads m \<Longrightarrow> i < length (pThreads m) \<Longrightarrow> th_id (pThreads m ! i) = i"
  using nth_map [of i "pThreads m" th_id] by (simp add: wf_threads_def)

lemma wf_status: "wf_threads m \<Longrightarrow> i < length (pThreads m) \<Longrightarrow> valid_status (th_status (pThreads m ! i))"
  by (simp add: wf_threads_def list_all_length)

lemma handle_loop_found:
  "distinct (map th_handle ts) \<Longrightarrow> i < length ts \<Longrightarrow> handle_loop (th_handle (ts ! i)) ts k = ThreadAt (k + i)"
proof (induction ts arbitrary: i k)
  case (Cons t ts)
  then show ?case by (cases i) (auto simp: image_iff)
qed simp

lemma handle_loop_absent: "h \<notin> th_handle ` set ts \<Longrightarrow> handle_loop h ts k = ThreadsEnd"
  by (induction ts arbitrary: k) auto

lemma getThreadId_Inr:
  assumes "wf_threads m" and "distinct (map th_handle (pThreads m))" and "i < length (pThreads m)"
  shows "getThreadId (th_handle (pThreads m ! i)) m = Inr (int i)"
  using assms
  by (simp add: getThreadId_def getThread_handle_def pgetThread_handle_def handle_loop_found
      deref_thread_def wf_id)

lemma getThreadId_absent:
  "h \<notin> th_handle ` set (pThreads m) \<Longrightarrow> getThreadId h m = Inl NullPointer"
  by (simp add: getThreadId_def getThread_handle_def pgetThread_handle_def handle_loop_absent)

lemma SetThreadStatus_get:
  "i < length (pThreads m) \<Longrightarrow> valid_status s \<Longrightarrow>
   GetThreadStatus j (SetThreadStatus i s m) = (if j = i then Inr s else GetThreadStatus j m)"
  by (auto simp: GetThreadStatus_def SetThreadStatus_def getThread_Inr)

section \<open>Properties\<close>

text \<open>
  C33. The type invariant of the table of threads.  Whatever sequence of creations, additions,
  namings and status changes a program makes, starting from a new manager: the number stored in
  each thread is its position, every status lies strictly between the two bounds of the enum, no
  name occurs twice, and an index below the number of threads always finds a thread whose status
  the two lookups by number agree on.
\<close>
theorem thread_table_invariant:
  assumes "list_all op_ok ops" and "m = fold run_thread_op ops ThreadMgr"
  shows "map th_id (pThreads m) = [0..<length (pThreads m)]
    \<and> list_all (\<lambda>t. valid_status (th_status t)) (pThreads m)
    \<and> distinct (map fst (pThreadNames m))
    \<and> (i < length (pThreads m) \<longrightarrow>
      (\<exists>s. GetThreadStatus i m = Inr s \<and> GetThreadStatus_int (int i) m = Inr s \<and> valid_status s))"
  using run_thread_ops_wf [OF assms(1) wf_ThreadMgr] wf_status [of m i]
  unfolding assms(2) [symmetric]
  by (auto simp: wf_threads_def GetThreadStatus_def GetThreadStatus_int_def getThread_Inr)

theorem thread_table_invariant_witness:
  "\<exists>s. GetThreadStatus 1
      (fold run_thread_op [OpCreateNamed ''Queue'' (Some 70), OpCreate (Some 71), OpStatus 1 THREAD_EXIT] ThreadMgr)
    = Inr s \<and> valid_status s"
  using thread_table_invariant [of "[OpCreateNamed ''Queue'' (Some 70), OpCreate (Some 71), OpStatus 1 THREAD_EXIT]", OF _ refl, of 1]
  by (simp add: CreateThread_named_def CreateThread_def ThreadMgr_def) blast

text \<open>
  A status that a thread sets for its own handle is what every other lookup reads: by number,
  by handle and by its name; the status of all other threads stays as it is.
\<close>
theorem status_seen_by_all_keys:
  assumes "wf_threads m" and "distinct (map th_handle (pThreads m))" and "i < length (pThreads m)"
    and "valid_status s" and "map_of (pThreadNames m) name = Some i"
  shows "\<exists>m'. SetThreadStatus_handle (th_handle (pThreads m ! i)) s m = Inr m'
    \<and> GetThreadStatus_handle (th_handle (pThreads m ! i)) m' = Inr s
    \<and> GetThreadStatus_int (int i) m' = Inr s
    \<and> GetThreadStatus_named name m' = Inr s
    \<and> (\<forall>j. j \<noteq> i \<longrightarrow> GetThreadStatus j m' = GetThreadStatus j m)"
proof -
  let ?m = "SetThreadStatus i s m"
  have set: "SetThreadStatus_handle (th_handle (pThreads m ! i)) s m = Inr ?m"
    using getThreadId_Inr [OF assms(1-3)] by (simp add: SetThreadStatus_handle_def)
  have "th_handle (pThreads ?m ! i) = th_handle (pThreads m ! i)"
    using SetThreadStatus_handles [of i s m] assms(3)
    by (metis SetThreadStatus_length nth_map)
  moreover have "getThreadId (th_handle (pThreads ?m ! i)) ?m = Inr (int i)"
    using assms SetThreadStatus_handles [of i s m]
    by (intro getThreadId_Inr) (simp_all add: SetThreadStatus_wf)
  ultimately show ?thesis
    using set assms SetThreadStatus_get [OF assms(3,4)]
    by (simp add: GetThreadStatus_handle_def GetThreadStatus_int_def GetThreadStatus_named_def
        GetThreadIdByName_def)
qed

definition queue_mgr :: thread_mgr where
  "queue_mgr = snd (CreateThread_named ''Queue'' (Some 70) ThreadMgr)"

lemma queue_mgr_simps:
  "pThreads queue_mgr = [\<lparr>th_handle = 70, th_id = 0, th_status = THREAD_ACTIVE, th_attributes = 0\<rparr>]"
  "pThreadNames queue_mgr = [(''Queue'', 0)]"
  by (simp_all add: queue_mgr_def CreateThread_named_def CreateThread_def ThreadMgr_def Thread_def names_insert_def)

lemma queue_mgr_wf [simp]: "wf_threads queue_mgr"
  by (simp add: queue_mgr_def CreateThread_named_wf)

theorem status_seen_by_all_keys_witness:
  "\<exists>m'. SetThreadStatus_handle 70 THREAD_SUSPENDED queue_mgr = Inr m'
    \<and> GetThreadStatus_named ''Queue'' m' = Inr THREAD_SUSPENDED"
  using status_seen_by_all_keys [of queue_mgr 0 THREAD_SUSPENDED "''Queue''"]
  by (auto simp: queue_mgr_simps)

text \<open>
  A name that is not in the table is not refused: it stands for the thread whose number is the
  count of names.  If all threads have names there is no such thread, the status is -1 and a
  signal goes nowhere; otherwise the status of an unrelated thread is returned and the signal is
  sent to it.
\<close>
theorem unknown_thread_name:
  assumes "map_of (pThreadNames m) name = None"
  shows "GetThreadStatus_named name m =
      (if length (pThreadNames m) < length (pThreads m)
       then Inr (th_status (pThreads m ! length (pThreadNames m))) else Inr (-1))"
    and "SendSignalToThread_named r name sig m =
      (if length (pThreadNames m) < length (pThreads m)
       then (let c = Kill (th_handle (pThreads m ! length (pThreadNames m))) sig in Inr (r c = 0, [c]))
       else Inr (False, []))"
  using assms
  by (simp_all add: GetThreadStatus_named_def SendSignalToThread_named_def GetThreadIdByName_def
      GetThreadStatus_def SendSignalToThread_def getThread_Inr Let_def)

theorem unknown_thread_name_witness:
  "KillThread_named (\<lambda>_. 0) ''no such thread'' (snd (CreateThread (Some 71) queue_mgr)) =
     Inr (True, [Kill 71 SIGTERM])"
  using unknown_thread_name(2) [of "snd (CreateThread (Some 71) queue_mgr)" "''no such thread''"
      "\<lambda>_. 0" SIGTERM]
  by (simp add: KillThread_named_def SendSignalToThread_named_def CreateThread_def queue_mgr_simps Thread_def)

text \<open>
  A mutex or condition that the manager created or was given cannot be used: its name exists,
  and locking, unlocking, destroying, signalling or waiting works on a reference to a variable
  that has gone.  For a name that was never created the same calls return 0, which means success.
\<close>
theorem managed_mutex_unusable:
  assumes "pMutexes m name = None" and "pConditions m name = None"
    and "m' \<in> {snd (CreateMutex c name m), AddMutex name m}" and "m'' = snd (CreateCondition c name m')"
  shows "MutexExists name m'' \<and> ConditionExists name m''"
    and "LockMutex r name m'' = Inl DeadReference" "UnlockMutex r name m'' = Inl DeadReference"
    and "TryLockMutex r name m'' = Inl DeadReference" "DestroyMutex r name m'' = Inl DeadReference"
    and "ConditionSignal r name m'' = Inl DeadReference" "ConditionBroadcast r name m'' = Inl DeadReference"
    and "ConditionWait r2 name name m'' = Inl DeadReference" "DestroyCondition r name m'' = Inl DeadReference"
    and "LockMutex r name m = Inr 0" "ConditionWait r2 name name m = Inr 0"
  using assms
  by (auto simp: MutexExists_def ConditionExists_def CreateMutex_def AddMutex_def CreateCondition_def
      LockMutex_def UnlockMutex_def TryLockMutex_def DestroyMutex_def GetMutex_def use_object_def
      ConditionSignal_def ConditionBroadcast_def ConditionWait_def GetCondition_def DestroyCondition_def)

theorem managed_mutex_unusable_witness:
  "LockMutex (\<lambda>_. 0) ''log'' (snd (CreateCondition 0 ''log'' (AddMutex ''log'' queue_mgr))) = Inl DeadReference"
  using managed_mutex_unusable(2) [of queue_mgr "''log''" "AddMutex ''log'' queue_mgr" 0]
  by (simp add: queue_mgr_def CreateThread_named_def CreateThread_def ThreadMgr_def)

end
