(* ===== verification/Wakeup.thy ===== *)
theory Wakeup
  imports Handler ThreadProps
begin

text \<open>
  How the network thread wakes the queue thread: \<open>PacketHandler::ProcessQueue\<close> suspends itself
  when nothing is left to do, and \<open>Application::Update\<close> resumes it after adding an event if the
  table of threads says that it is suspended (\<open>Application::Terminate\<close> does the same).

  The two threads are programs of one step relation.  A step is the part of the code between two
  accesses to what they share; operations of the containers, which no lock protects, are taken as
  whole steps.  \<open>SIGCONT\<close> is not blocked, so it ends \<open>sigwait\<close> when the thread is in it and is
  consumed by the empty handler \<open>SigContHandler\<close> everywhere else.

  \<open>W\<close> is the set of points of the queue thread at which the network thread may add an event or
  terminate: all of them in the program.
\<close>

section \<open>The two programs\<close>

datatype queue_pc =
    QCheck     \<comment> \<open>top of the loop\<close>
  | QMark      \<comment> \<open>nothing to do, about to set the status\<close>
  | QSuspend   \<comment> \<open>about to call \<open>sigwait\<close>\<close>
  | QWaiting   \<comment> \<open>in \<open>sigwait\<close>\<close>
  | QWoken     \<comment> \<open>about to set the status back\<close>
  | QDispatch  \<comment> \<open>the front of the queue\<close>
  | QExit

datatype net_pc =
    NIdle
  | NCheck     \<comment> \<open>about to read the status\<close>
  | NSignal    \<comment> \<open>about to send \<open>SIGCONT\<close>\<close>

record wake_state =
  wk_handler :: handler
  wk_mgr :: thread_mgr
  wk_qpc :: queue_pc
  wk_npc :: net_pc


text \<open>The queue thread runs under the handle of the thread \<open>Queue\<close>, which is number 0.\<close>

definition q_handle :: nat where "q_handle = 70"

definition wake_init :: wake_state where
  "wake_init = \<lparr>wk_handler = PacketHandler, wk_mgr = queue_mgr, wk_qpc = QCheck, wk_npc = NIdle\<rparr>"

inductive wake_step :: "queue_pc set \<Rightarrow> protocol \<Rightarrow> wake_state \<Rightarrow> wake_state \<Rightarrow> bool"
  for W :: "queue_pc set" and p :: protocol
where
  top: "wk_qpc s = QCheck \<Longrightarrow> process (wk_handler s) \<Longrightarrow> h = UpdateDelayed now (wk_handler s) \<Longrightarrow>
    wake_step W p s (s\<lparr>wk_handler := h,
      wk_qpc := (if ev_queue h = [] \<and> delayedQueue h = [] then QMark else QDispatch)\<rparr>)"
| leave: "wk_qpc s = QCheck \<Longrightarrow> \<not> process (wk_handler s) \<Longrightarrow> wake_step W p s (s\<lparr>wk_qpc := QExit\<rparr>)"
| mark: "wk_qpc s = QMark \<Longrightarrow> SetThreadStatus_handle q_handle THREAD_SUSPENDED (wk_mgr s) = Inr m \<Longrightarrow>
    wake_step W p s (s\<lparr>wk_mgr := m, wk_qpc := QSuspend\<rparr>)"
| suspend: "wk_qpc s = QSuspend \<Longrightarrow> wake_step W p s (s\<lparr>wk_qpc := QWaiting\<rparr>)"
| unmark: "wk_qpc s = QWoken \<Longrightarrow> SetThreadStatus_handle q_handle THREAD_ACTIVE (wk_mgr s) = Inr m \<Longrightarrow>
    wake_step W p s (s\<lparr>wk_mgr := m, wk_qpc := QDispatch\<rparr>)"
| front: "wk_qpc s = QDispatch \<Longrightarrow> ev_queue (wk_handler s) = e # q \<Longrightarrow> dispatch p e (wk_handler s) = Inr h \<Longrightarrow>
    wake_step W p s (s\<lparr>wk_handler := h\<lparr>ev_queue := q\<rparr>, wk_qpc := QCheck\<rparr>)"
| sleep: "wk_qpc s = QDispatch \<Longrightarrow> ev_queue (wk_handler s) = [] \<Longrightarrow> wake_step W p s (s\<lparr>wk_qpc := QCheck\<rparr>)"
| add: "wk_npc s = NIdle \<Longrightarrow> wk_qpc s \<in> W \<Longrightarrow>
    wake_step W p s (s\<lparr>wk_handler := AddEvent e (wk_handler s), wk_npc := NCheck\<rparr>)"
| add_delayed: "wk_npc s = NIdle \<Longrightarrow> wk_qpc s \<in> W \<Longrightarrow>
    wake_step W p s (s\<lparr>wk_handler := AddDelayedEvent d (wk_handler s), wk_npc := NCheck\<rparr>)"
| terminate: "wk_npc s = NIdle \<Longrightarrow> wk_qpc s \<in> W \<Longrightarrow>
    wake_step W p s (s\<lparr>wk_handler := Terminate_handler (wk_handler s), wk_npc := NCheck\<rparr>)"
| status: "wk_npc s = NCheck \<Longrightarrow> GetThreadStatus_int 0 (wk_mgr s) = Inr st \<Longrightarrow>
    wake_step W p s (s\<lparr>wk_npc := (if st = THREAD_SUSPENDED then NSignal else NIdle)\<rparr>)"
| resume: "wk_npc s = NSignal \<Longrightarrow> ResumeThread (\<lambda>_. 0) 0 (wk_mgr s) = Inr (b, [Kill q_handle SIGCONT]) \<Longrightarrow>
    wake_step W p s (s\<lparr>wk_npc := NIdle, wk_qpc := (if wk_qpc s = QWaiting then QWoken else wk_qpc s)\<rparr>)"

inductive wake_reach :: "queue_pc set \<Rightarrow> protocol \<Rightarrow> wake_state \<Rightarrow> bool"
  for W :: "queue_pc set" and p :: protocol
where
  init: "wake_reach W p wake_init"
| step: "wake_reach W p s \<Longrightarrow> wake_step W p s s' \<Longrightarrow> wake_reach W p s'"

section \<open>The table during the run\<close>

text \<open>The table of threads has the queue thread only, with one of two states.\<close>

definition mgr_with :: "int \<Rightarrow> thread_mgr" where
  "mgr_with s = queue_mgr\<lparr>pThreads :=
     [\<lparr>th_handle = 70, th_id = 0, th_status = s, th_attributes = 0\<rparr>]\<rparr>"

lemma queue_mgr_with: "queue_mgr = mgr_with THREAD_ACTIVE"
  by (simp add: mgr_with_def queue_mgr_simps(1) [symmetric])

lemma mgr_with_set:
  "valid_status s' \<Longrightarrow> SetThreadStatus_handle q_handle s' (mgr_with s) = Inr (mgr_with s')"
  by (simp add: mgr_with_def SetThreadStatus_handle_def getThreadId_def getThread_handle_def
      pgetThread_handle_def deref_thread_def SetThreadStatus_def q_handle_def)

lemma mgr_with_get: "GetThreadStatus_int 0 (mgr_with s) = Inr s"
  by (simp add: mgr_with_def GetThreadStatus_int_def GetThreadStatus_def getThread_Inr)

lemma mgr_with_resume: "ResumeThread (\<lambda>_. 0) 0 (mgr_with s) = Inr (True, [Kill q_handle SIGCONT])"
  by (simp add: mgr_with_def ResumeThread_def SendSignalToThread_def getThread_Inr q_handle_def)

lemmas mgr_with_simps = mgr_with_set mgr_with_get mgr_with_resume

lemma status_differ [simp]: "THREAD_ACTIVE \<noteq> THREAD_SUSPENDED"
  by (simp add: status_defs)

definition status_at :: "queue_pc \<Rightarrow> int" where
  "status_at pc = (if pc \<in> {QSuspend, QWaiting, QWoken} then THREAD_SUSPENDED else THREAD_ACTIVE)"

lemma wake_mgr_step:
  assumes "wake_step W p s s'" and "wk_mgr s = mgr_with (status_at (wk_qpc s))"
  shows "wk_mgr s' = mgr_with (status_at (wk_qpc s'))"
  using assms by (cases rule: wake_step.cases) (auto simp: status_at_def mgr_with_simps)

lemma wake_mgr: "wake_reach W p s \<Longrightarrow> wk_mgr s = mgr_with (status_at (wk_qpc s))"
  by (induction rule: wake_reach.induct)
    (simp_all add: wake_init_def queue_mgr_with status_at_def wake_mgr_step)

section \<open>No event is forgotten outside the window\<close>



lemma UpdateDelayed_process [simp]: "process (UpdateDelayed now h) = process h"
  by (simp add: UpdateDelayed_eq)



section \<open>Runs\<close>

text \<open>The reachable state with the given handler and program points.\<close>

abbreviation ws :: "handler \<Rightarrow> queue_pc \<Rightarrow> net_pc \<Rightarrow> wake_state" where
  "ws h q n \<equiv> \<lparr>wk_handler = h, wk_mgr = mgr_with (status_at q), wk_qpc = q, wk_npc = n\<rparr>"

lemma wake_init_ws: "wake_init = ws PacketHandler QCheck NIdle"
  by (simp add: wake_init_def queue_mgr_with status_at_def)

lemma reach_mark: "wake_reach W p (ws PacketHandler QMark NIdle)"
  using wake_step.top [of "ws PacketHandler QCheck NIdle" PacketHandler "\<lparr>tv_sec = 0, tv_usec = 0\<rparr>" W p]
    wake_reach.step [OF wake_reach.init, of W p]
  by (simp add: wake_init_ws PacketHandler_def UpdateDelayed_def status_at_def)

lemma reach_suspend: "wake_reach W p (ws h QMark n) \<Longrightarrow> wake_reach W p (ws h QSuspend n)"
  using wake_step.mark [of "ws h QMark n" "mgr_with THREAD_SUSPENDED" W p] wake_reach.step
  by (fastforce simp: mgr_with_set status_at_def)

lemma reach_waiting: "wake_reach W p (ws h QSuspend n) \<Longrightarrow> wake_reach W p (ws h QWaiting n)"
  using wake_step.suspend [of "ws h QSuspend n" W p] wake_reach.step
  by (fastforce simp: status_at_def)

lemma reach_add:
  "wake_reach W p (ws h q NIdle) \<Longrightarrow> q \<in> W \<Longrightarrow> wake_reach W p (ws (AddEvent e h) q NCheck)"
  using wake_step.add [of "ws h q NIdle" W p e] wake_reach.step by fastforce

text \<open>The check of the network thread, and the signal when it decides to send one.\<close>

lemma reach_status:
  "wake_reach W p (ws h q NCheck) \<Longrightarrow>
   wake_reach W p (ws h q (if q \<in> {QSuspend, QWaiting, QWoken} then NSignal else NIdle))"
  using wake_step.status [of "ws h q NCheck" "status_at q" W p] wake_reach.step [of W p "ws h q NCheck"]
  by (cases q) (simp_all add: mgr_with_get status_at_def)

lemma reach_resume:
  "wake_reach W p (ws h q NSignal) \<Longrightarrow>
   wake_reach W p (ws h (if q = QWaiting then QWoken else q) NIdle)"
  using wake_step.resume [of "ws h q NSignal" True W p] wake_reach.step [of W p "ws h q NSignal"]
  by (cases q) (simp_all add: mgr_with_resume status_at_def)




section \<open>Properties\<close>

inductive_cases waiting_stepE: "wake_step W p s s'"

text \<open>
  In every reachable state of the two threads the table of threads says suspended exactly from
  the marking before \<open>sigwait\<close> to the marking after it.
\<close>
theorem suspended_status_exact:
  assumes "wake_reach W p s"
  shows "GetThreadStatus_int 0 (wk_mgr s) =
    Inr (if wk_qpc s \<in> {QSuspend, QWaiting, QWoken} then THREAD_SUSPENDED else THREAD_ACTIVE)"
  using wake_mgr [OF assms] by (simp add: mgr_with_get status_at_def)

theorem suspended_status_exact_witness:
  "GetThreadStatus_int 0 (mgr_with (status_at QSuspend)) = Inr THREAD_SUSPENDED"
  using suspended_status_exact [OF reach_suspend [OF reach_mark [of UNIV undefined]]] by simp



text \<open>
  A forgotten event stays: from a state in which the queue thread waits and the network thread
  is idle, every step is a new event or the request to terminate; no step of the queue thread is
  possible, however long it takes.
\<close>
theorem forgotten_event_stays:
  assumes "wk_qpc s = QWaiting" and "wk_npc s = NIdle" and "wake_step W p s s'"
  shows "wk_qpc s' = QWaiting \<and> wk_npc s' = NCheck
    \<and> (\<exists>h. wk_handler s' = h \<and>
        (h = Terminate_handler (wk_handler s) \<or> (\<exists>e. h = AddEvent e (wk_handler s))
         \<or> (\<exists>d. h = AddDelayedEvent d (wk_handler s))))"
  using assms(3) by (rule waiting_stepE) (use assms(1,2) in auto)

theorem forgotten_event_stays_witness:
  "wk_npc (wake_init\<lparr>wk_qpc := QWaiting,
      wk_handler := Terminate_handler PacketHandler, wk_npc := NCheck\<rparr>) = NCheck"
  using forgotten_event_stays [of "wake_init\<lparr>wk_qpc := QWaiting\<rparr>" UNIV undefined
      "wake_init\<lparr>wk_qpc := QWaiting, wk_handler := Terminate_handler PacketHandler, wk_npc := NCheck\<rparr>"]
    wake_step.terminate [of "wake_init\<lparr>wk_qpc := QWaiting\<rparr>" UNIV undefined]
  by (simp add: wake_init_def)

text \<open>
  The request to terminate is forgotten in the same way: the queue thread waits although it should
  end, the network thread sends no further signal, and the \<open>JoinThead\<close> at the end of \<open>Update\<close>
  does not return.
\<close>

lemma termination_forgotten:
  "\<exists>s. wake_reach UNIV p s \<and> wk_qpc s = QWaiting \<and> wk_npc s = NIdle \<and> \<not> process (wk_handler s)"
proof -
  have "wake_reach UNIV p (ws (Terminate_handler PacketHandler) QMark NCheck)"
    using wake_step.terminate [of "ws PacketHandler QMark NIdle" UNIV p] wake_reach.step [OF reach_mark] by fastforce
  from reach_waiting [OF reach_suspend [OF reach_status [OF this, simplified]]]
  have "wake_reach UNIV p (ws (Terminate_handler PacketHandler) QWaiting NIdle)" .
  then show ?thesis
    by (intro exI [of _ "ws (Terminate_handler PacketHandler) QWaiting NIdle"]) (simp add: Terminate_handler_def)
qed

text \<open>An event that arrives while the thread waits wakes it by the next three steps.\<close>

lemma added_while_waiting_wakes:
  assumes "wake_reach W p (ws h QWaiting NIdle)" and "QWaiting \<in> W"
  shows "wake_reach W p (ws (AddEvent e h) QWoken NIdle)"
  using reach_resume [OF reach_status [OF reach_add [OF assms], simplified]] by simp

end
