(* ===== verification/QueueThread.thy ===== *)
theory QueueThread
  imports Handler Sessions
begin

text \<open>
  \<open>PacketHandler::ProcessQueue\<close> in the steps in which it touches what other threads share: the
  rounds of \<open>Handler\<close> are not atomic in the program.  The network thread adds events between any
  two of the steps.  \<open>UpdateDelayed\<close> is one step here; \<open>Shutdown\<close> takes it apart, and has the
  request to terminate, which removes events.

  \<open>Event& event = queue.front()\<close> is a reference into the queue.  \<open>queue.push\<close> leaves it valid, and
  nothing else happens to the queue in the steps of this theory but the thread's own \<open>pop\<close>.
\<close>

section \<open>The steps of a round\<close>

datatype turn_pc =
    TLoop    \<comment> \<open>\<open>while (process)\<close>, \<open>UpdateDelayed\<close>\<close>
  | TSize    \<comment> \<open>\<open>if (queue.size())\<close>\<close>
  | TFront   \<comment> \<open>the reference is taken\<close>
  | TCall    \<comment> \<open>\<open>switch\<close> and the call into the library\<close>
  | TDelete  \<comment> \<open>\<open>delete &event.data\<close>\<close>
  | TPop     \<comment> \<open>\<open>queue.pop()\<close>\<close>
  | TExit

record turn =
  tn_handler :: handler
  tn_pc :: turn_pc
  tn_event :: event

datatype turn_input = TStep timeval timeval | TAdd event

text \<open>The call of a case of the \<open>switch\<close>, without the \<open>delete\<close> that follows it.\<close>

definition call_event :: "protocol \<Rightarrow> event \<Rightarrow> handler \<Rightarrow> handler res" where
  "call_event p e h =
     (case EventType e of
        EVENT_CONNECT \<Rightarrow>
          Inr (if hasConnect p then call_plain (OnConnect (ev_address e) (ev_fd e)) h else h)
      | EVENT_RECIEVE \<Rightarrow>
          (if hasRecieve p then call_with (OnRecieve (ev_address e) (ev_fd e)) (ev_data e) h else Inr h)
      | EVENT_SEND \<Rightarrow> (if hasSend p then call_with OnSend (ev_data e) h else Inr h)
      | EVENT_DISCONNECT \<Rightarrow>
          Inr (if hasDisconnect p then call_plain (OnDisconnect (ev_address e) (ev_fd e)) h else h)
      | EVENT_CONNECT_DELAYED \<Rightarrow>
          Inr (if hasConnectDelayed p then call_plain (OnConnectDelayed (ev_address e) (ev_fd e)) h else h)
      | EVENT_RECIEVE_DELAYED \<Rightarrow>
          (if hasRecieveDelayed p then call_with (OnRecieveDelayed (ev_address e) (ev_fd e)) (ev_data e) h
           else Inr h)
      | EVENT_SEND_DELAYED \<Rightarrow> (if hasSendDelayed p then call_with OnSendDelayed (ev_data e) h else Inr h)
      | EVENT_DISCONNECT_DELAYED \<Rightarrow>
          Inr (if hasDisconnectDelayed p
               then call_plain (OnDisconnectDelayed (ev_address e) (ev_fd e)) h else h))"

text \<open>
  A step of the thread, begun at the time \<open>began\<close> of the last round and made at \<open>now\<close>.  When nothing
  is left to do the thread sleeps before it looks at the queue again.
\<close>

definition thread_step :: "protocol \<Rightarrow> timeval \<Rightarrow> timeval \<Rightarrow> turn \<Rightarrow> turn res" where
  "thread_step p began now t =
     (let h = tn_handler t; e = tn_event t
      in case tn_pc t of
           TLoop \<Rightarrow>
             Inr (if process h
                  then t\<lparr>tn_handler := (UpdateDelayed now h)\<lparr>diffTime := getMsTimeDiffToNow now began\<rparr>,
                         tn_pc := TSize\<rparr>
                  else t\<lparr>tn_pc := TExit\<rparr>)
         | TSize \<Rightarrow> Inr (t\<lparr>tn_pc := (if length (ev_queue h) = 0 then TLoop else TFront)\<rparr>)
         | TFront \<Rightarrow>
             (case ev_queue h of
                [] \<Rightarrow> Inl OutOfBounds
              | e # q \<Rightarrow> Inr (t\<lparr>tn_event := e, tn_pc := TCall\<rparr>))
         | TCall \<Rightarrow>
             rbind (call_event p e h) (\<lambda>h.
               Inr (t\<lparr>tn_handler := h, tn_pc := (if owns_data e then TDelete else TPop)\<rparr>))
         | TDelete \<Rightarrow>
             rbind (delete_data (ev_data e) h) (\<lambda>h. Inr (t\<lparr>tn_handler := h, tn_pc := TPop\<rparr>))
         | TPop \<Rightarrow>
             (case ev_queue h of
                [] \<Rightarrow> Inl OutOfBounds
              | _ # q \<Rightarrow> Inr (t\<lparr>tn_handler := h\<lparr>ev_queue := q\<rparr>, tn_pc := TLoop\<rparr>))
         | TExit \<Rightarrow> Inr t)"

fun turn_step :: "protocol \<Rightarrow> turn_input \<Rightarrow> turn \<Rightarrow> turn res" where
  "turn_step p (TStep began now) t = thread_step p began now t"
| "turn_step p (TAdd e) t = Inr (t\<lparr>tn_handler := AddEvent e (tn_handler t)\<rparr>)"

definition turn_start :: "handler \<Rightarrow> event \<Rightarrow> turn" where
  "turn_start h e = \<lparr>tn_handler = h, tn_pc = TLoop, tn_event = e\<rparr>"

section \<open>Atomic rounds\<close>

datatype round_input = ARound timeval timeval | AAdd event

fun round_step :: "protocol \<Rightarrow> round_input \<Rightarrow> handler \<Rightarrow> handler res" where
  "round_step p (ARound began now) h =
     (if process h then rbind (process_round p began now h) (\<lambda>(_, h). Inr h) else Inr h)"
| "round_step p (AAdd e) h = Inr (AddEvent e h)"

fun turn_adds :: "turn_input list \<Rightarrow> event list" where
  "turn_adds [] = []"
| "turn_adds (TAdd e # is) = e # turn_adds is"
| "turn_adds (i # is) = turn_adds is"

fun round_adds :: "round_input list \<Rightarrow> event list" where
  "round_adds [] = []"
| "round_adds (AAdd e # is) = e # round_adds is"
| "round_adds (i # is) = round_adds is"

lemma round_adds_append [simp]: "round_adds (is @ js) = round_adds is @ round_adds js"
  by (induction "is" rule: round_adds.induct) simp_all

section \<open>Events added during a round\<close>

lemma dispatch_split:
  "dispatch p e h = rbind (call_event p e h) (\<lambda>h. if owns_data e then delete_data (ev_data e) h else Inr h)"
  by (cases "EventType e") (simp_all add: dispatch_def call_event_def owns_data_def Let_def)

lemma call_event_queue: "call_event p e h = Inr h' \<Longrightarrow> ev_queue h' = ev_queue h"
  by (cases "EventType e")
    (auto simp: call_event_def call_with_def call_plain_def split: if_splits option.splits)

lemma delete_data_queue: "delete_data r h = Inr h' \<Longrightarrow> ev_queue h' = ev_queue h"
  by (auto simp: delete_data_def split: option.splits)

lemma call_event_add: "call_event p e (AddEvent a h) = rbind (call_event p e h) (\<lambda>h. Inr (AddEvent a h))"
  by (cases "EventType e")
    (auto simp: call_event_def call_with_def call_plain_def AddEvent_def split: option.splits)

lemma delete_data_add: "delete_data r (AddEvent a h) = rbind (delete_data r h) (\<lambda>h. Inr (AddEvent a h))"
  by (auto simp: delete_data_def AddEvent_def split: option.splits)

lemma dispatch_add: "dispatch p e (AddEvent a h) = rbind (dispatch p e h) (\<lambda>h. Inr (AddEvent a h))"
  by (cases "call_event p e h") (simp_all add: dispatch_split call_event_add delete_data_add)

text \<open>What the rest of a round does from the point at which the thread is.\<close>

definition pop_with :: "event list \<Rightarrow> handler \<Rightarrow> handler res" where
  "pop_with q h = Inr (h\<lparr>ev_queue := q\<rparr>)"

lemma AddEvent_pop: "AddEvent a (h\<lparr>ev_queue := q\<rparr>) = (AddEvent a h)\<lparr>ev_queue := q @ [a]\<rparr>"
  by (simp add: AddEvent_def)

lemma queue_AddEvent [simp]: "ev_queue (AddEvent a h) = ev_queue h @ [a]" "process (AddEvent a h) = process h"
  by (simp_all add: AddEvent_def)

text \<open>Nothing was due at the last look, and nothing will be at the same time.\<close>

definition settled :: "timeval \<Rightarrow> timeval \<Rightarrow> handler \<Rightarrow> bool" where
  "settled began now h \<longleftrightarrow> process h \<and> diffTime h = getMsTimeDiffToNow now began
     \<and> filter (due now) (delayedQueue h) = [] \<and> erased (map (tick now) (delayedQueue h)) = delayedQueue h"

lemma settled_UpdateDelayed: "settled began now h \<Longrightarrow> UpdateDelayed now h = h"
  by (simp add: settled_def UpdateDelayed_eq)

lemma settled_add: "settled began now h \<Longrightarrow> settled began now (AddEvent a h)"
  by (simp add: settled_def AddEvent_def)

lemma no_time_passes [simp]: "getMsTimeDiffToNow now now = 0"
  by (simp add: getMsTimeDiffToNow_def c_div_def wrap64_def)

lemma tick_tick [simp]: "tick now (tick now d) = tick now d"
  by (simp add: tick_def Update_delay_def)

lemma due_tick [simp]: "due now (tick now d) = due now d"
  unfolding Execute_tick [symmetric] by simp

lemma settled_update:
  assumes "process h" and "ev_queue (UpdateDelayed now h) = []"
  shows "settled began now ((UpdateDelayed now h)\<lparr>diffTime := getMsTimeDiffToNow now began\<rparr>)"
proof -
  let ?ds = "map (tick now) (delayedQueue h)"
  have none: "filter (due now) (delayedQueue h) = []" using assms(2) by (simp add: UpdateDelayed_eq)
  then have ex: "filter Execute ?ds = []" "filter (\<lambda>d. \<not> Execute d) ?ds = ?ds"
    by (auto simp: filter_empty_conv Execute_tick filter_id_conv)
  then have "erased ?ds = ?ds" using erased_single [of ?ds] by simp
  moreover have "filter (due now) ?ds = []" using none by (auto simp: filter_empty_conv)
  moreover have "tick now \<circ> tick now = tick now" by (simp add: fun_eq_iff)
  ultimately show ?thesis using assms(1) by (simp add: settled_def UpdateDelayed_eq)
qed

section \<open>The refinement\<close>

text \<open>
  What the atomic machine has computed when the thread is at a point of its round: the whole round,
  from the moment at which an event to handle was found.
\<close>

definition owed :: "protocol \<Rightarrow> turn \<Rightarrow> handler res \<Rightarrow> bool" where
  "owed p t r \<longleftrightarrow>
     (let h = tn_handler t; e = tn_event t
      in case tn_pc t of
           TLoop \<Rightarrow> r = Inr h
         | TSize \<Rightarrow> (r = Inr h \<and> (\<exists>began now. settled began now h))
                     \<or> (\<exists>e q. ev_queue h = e # q \<and> r = rbind (dispatch p e h) (pop_with q))
         | TFront \<Rightarrow> (\<exists>e q. ev_queue h = e # q \<and> r = rbind (dispatch p e h) (pop_with q))
         | TCall \<Rightarrow> (\<exists>q. ev_queue h = e # q \<and> r = rbind (dispatch p e h) (pop_with q))
         | TDelete \<Rightarrow> (\<exists>q. ev_queue h = e # q \<and> r = rbind (delete_data (ev_data e) h) (pop_with q))
         | TPop \<Rightarrow> (\<exists>e q. ev_queue h = e # q \<and> r = pop_with q h)
         | TExit \<Rightarrow> r = Inr h)"

lemma process_round_found:
  assumes "ev_queue (UpdateDelayed now h) = e # q"
  shows "rbind (process_round p began now h) (\<lambda>(_, h). Inr h) =
    rbind (dispatch p e ((UpdateDelayed now h)\<lparr>diffTime := getMsTimeDiffToNow now began\<rparr>)) (pop_with q)"
  using assms by (simp add: process_round_def pop_with_def [abs_def] Let_def rbind_assoc)

lemma round_settled:
  assumes "settled began now h" and "ev_queue h = e # q"
  shows "round_step p (ARound began now) h = rbind (dispatch p e h) (pop_with q)"
proof -
  have "h\<lparr>diffTime := getMsTimeDiffToNow now began\<rparr> = h" using assms(1) by (cases h) (simp add: settled_def)
  then show ?thesis
    using process_round_found [of now h e q p began] assms settled_UpdateDelayed [OF assms(1)]
    by (simp add: settled_def)
qed

lemma pop_add:
  "rbind (pop_with q h) (round_step p (AAdd a)) = pop_with (q @ [a]) (AddEvent a h)"
  by (simp add: pop_with_def AddEvent_pop)

lemma owed_add:
  assumes "owed p t r"
  shows "owed p (t\<lparr>tn_handler := AddEvent a (tn_handler t)\<rparr>) (rbind r (round_step p (AAdd a)))"
proof -
  have d: "rbind (rbind (dispatch p e h) (pop_with q)) (round_step p (AAdd a)) =
      rbind (dispatch p e (AddEvent a h)) (pop_with (q @ [a]))" for e q h
    by (simp only: dispatch_add rbind_assoc pop_add rbind.simps)
  have x: "rbind (rbind (delete_data i h) (pop_with q)) (round_step p (AAdd a)) =
      rbind (delete_data i (AddEvent a h)) (pop_with (q @ [a]))" for i q h
    by (simp only: delete_data_add rbind_assoc pop_add rbind.simps)
  show ?thesis
  proof (cases "tn_pc t")
    case TSize
    then consider (idle) "r = Inr (tn_handler t)" "\<exists>began now. settled began now (tn_handler t)"
      | (found) e q where "ev_queue (tn_handler t) = e # q" "r = rbind (dispatch p e (tn_handler t)) (pop_with q)"
      using assms by (auto simp: owed_def Let_def)
    then show ?thesis
    proof cases
      case idle
      then have "\<exists>began now. settled began now (AddEvent a (tn_handler t))" using settled_add by blast
      then show ?thesis using TSize idle(1) by (simp add: owed_def Let_def)
    next
      case found
      then show ?thesis using TSize d by (auto simp: owed_def Let_def simp del: round_step.simps)
    qed
  qed (use assms in \<open>auto simp: owed_def Let_def d x pop_add simp del: round_step.simps\<close>, simp_all)
qed

lemma run_inputs_none [simp]: "run_inputs f [] = Inr"
  by (simp add: fun_eq_iff)

lemma run_inputs_one: "run_inputs f [i] = f i"
  by (simp add: fun_eq_iff)

lemma owed_step:
  assumes "owed p t r"
  shows "\<exists>as. round_adds as = [] \<and>
    (case thread_step p began now t of
       Inl err \<Rightarrow> rbind r (run_inputs (round_step p) as) = Inl err
     | Inr t' \<Rightarrow> owed p t' (rbind r (run_inputs (round_step p) as)))"
proof (cases "tn_pc t")
  case TLoop
  let ?h = "(UpdateDelayed now (tn_handler t))\<lparr>diffTime := getMsTimeDiffToNow now began\<rparr>"
  have r: "r = Inr (tn_handler t)" using assms TLoop by (simp add: owed_def Let_def)
  show ?thesis
  proof (cases "process (tn_handler t)")
    case False
    then show ?thesis using TLoop r by (intro exI [of _ "[]"]) (simp add: thread_step_def owed_def Let_def)
  next
    case run: True
    show ?thesis
    proof (cases "ev_queue (UpdateDelayed now (tn_handler t))")
      case Nil
      then have "process_round p began now (tn_handler t) = Inr (length (delayedQueue ?h) = 0, ?h)"
        by (simp add: process_round_def Let_def)
      moreover have "\<exists>began now. settled began now ?h" using settled_update [OF run Nil] by blast
      ultimately show ?thesis
        using TLoop r run by (intro exI [of _ "[ARound began now]"]) (simp add: thread_step_def owed_def Let_def)
    next
      case (Cons e q)
      then show ?thesis
        using TLoop r run process_round_found [OF Cons, of p began]
        by (intro exI [of _ "[ARound began now]"]) (simp add: thread_step_def owed_def Let_def)
    qed
  qed
next
  case TSize
  then consider (idle) b n where "r = Inr (tn_handler t)" "settled b n (tn_handler t)"
    | (found) e q where "ev_queue (tn_handler t) = e # q" "r = rbind (dispatch p e (tn_handler t)) (pop_with q)"
    using assms by (auto simp: owed_def Let_def)
  then show ?thesis
  proof cases
    case idle
    show ?thesis
    proof (cases "ev_queue (tn_handler t)")
      case Nil
      then show ?thesis using TSize idle(1) by (intro exI [of _ "[]"]) (simp add: thread_step_def owed_def Let_def)
    next
      case (Cons e q)
      then show ?thesis
        using TSize idle(1) round_settled [OF idle(2) Cons, of p]
        by (intro exI [of _ "[ARound b n]"]) (simp add: thread_step_def owed_def Let_def del: round_step.simps)
    qed
  next
    case found
    then show ?thesis using TSize by (intro exI [of _ "[]"]) (simp add: thread_step_def owed_def Let_def)
  qed
next
  case TFront
  then obtain e q where "ev_queue (tn_handler t) = e # q" "r = rbind (dispatch p e (tn_handler t)) (pop_with q)"
    using assms by (auto simp: owed_def Let_def)
  then show ?thesis using TFront by (intro exI [of _ "[]"]) (simp add: thread_step_def owed_def Let_def)
next
  case TCall
  then obtain q where q: "ev_queue (tn_handler t) = tn_event t # q"
    "r = rbind (dispatch p (tn_event t) (tn_handler t)) (pop_with q)"
    using assms by (auto simp: owed_def Let_def)
  show ?thesis
  proof (cases "call_event p (tn_event t) (tn_handler t)")
    case (Inl err)
    then show ?thesis using TCall q
      by (intro exI [of _ "[]"]) (simp add: thread_step_def dispatch_split)
  next
    case (Inr h)
    then show ?thesis using TCall q call_event_queue [OF Inr]
      by (intro exI [of _ "[]"]) (simp add: thread_step_def dispatch_split owed_def Let_def)
  qed
next
  case TDelete
  then obtain q where q: "ev_queue (tn_handler t) = tn_event t # q"
    "r = rbind (delete_data (ev_data (tn_event t)) (tn_handler t)) (pop_with q)"
    using assms by (auto simp: owed_def Let_def)
  show ?thesis
  proof (cases "delete_data (ev_data (tn_event t)) (tn_handler t)")
    case (Inl err)
    then show ?thesis using TDelete q by (intro exI [of _ "[]"]) (simp add: thread_step_def)
  next
    case (Inr h)
    then show ?thesis using TDelete q delete_data_queue [OF Inr]
      by (intro exI [of _ "[]"]) (simp add: thread_step_def owed_def Let_def)
  qed
next
  case TPop
  then obtain e q where "ev_queue (tn_handler t) = e # q" "r = pop_with q (tn_handler t)"
    using assms by (auto simp: owed_def Let_def)
  then show ?thesis using TPop
    by (intro exI [of _ "[]"]) (simp add: thread_step_def owed_def Let_def pop_with_def)
next
  case TExit
  then show ?thesis using assms by (intro exI [of _ "[]"]) (simp add: thread_step_def owed_def Let_def)
qed

lemma owed_run:
  assumes "owed p t r"
  shows "\<exists>as. case run_inputs (turn_step p) is t of
      Inl err \<Rightarrow> rbind r (run_inputs (round_step p) as) = Inl err \<and> (\<exists>later. turn_adds is = round_adds as @ later)
    | Inr t' \<Rightarrow> owed p t' (rbind r (run_inputs (round_step p) as)) \<and> turn_adds is = round_adds as"
  using assms
proof (induction "is" arbitrary: t r)
  case Nil
  then show ?case by (intro exI [of _ "[]"]) simp
next
  case (Cons i "is")
  have one: "\<exists>as. round_adds as = turn_adds [i] \<and>
    (case turn_step p i t of
       Inl err \<Rightarrow> rbind r (run_inputs (round_step p) as) = Inl err
     | Inr t' \<Rightarrow> owed p t' (rbind r (run_inputs (round_step p) as)))"
  proof (cases i)
    case (TStep began now)
    then show ?thesis using owed_step [OF Cons.prems, of began now] by simp
  next
    case (TAdd a)
    then show ?thesis using owed_add [OF Cons.prems, of a] 
      by (intro exI [of _ "[AAdd a]"]) (simp add: run_inputs_one del: round_step.simps run_inputs.simps)
  qed
  have split: "turn_adds (i # is) = turn_adds [i] @ turn_adds is" by (cases i) simp_all
  from one obtain as where as: "round_adds as = turn_adds [i]"
    "case turn_step p i t of Inl err \<Rightarrow> rbind r (run_inputs (round_step p) as) = Inl err
     | Inr t' \<Rightarrow> owed p t' (rbind r (run_inputs (round_step p) as))" by blast
  show ?case
  proof (cases "turn_step p i t")
    case (Inl err)
    then show ?thesis using as split by (intro exI [of _ as]) simp
  next
    case (Inr t')
    then have "owed p t' (rbind r (run_inputs (round_step p) as))" using as(2) by simp
    from Cons.IH [OF this] obtain bs where bs:
      "case run_inputs (turn_step p) is t' of
         Inl err \<Rightarrow> rbind (rbind r (run_inputs (round_step p) as)) (run_inputs (round_step p) bs) = Inl err
           \<and> (\<exists>later. turn_adds is = round_adds bs @ later)
       | Inr t' \<Rightarrow> owed p t' (rbind (rbind r (run_inputs (round_step p) as)) (run_inputs (round_step p) bs))
           \<and> turn_adds is = round_adds bs" by auto
    have "rbind (rbind r (run_inputs (round_step p) as)) (run_inputs (round_step p) bs) =
        rbind r (run_inputs (round_step p) (as @ bs))"
      by (simp add: rbind_assoc run_inputs_append [abs_def])
    then show ?thesis using Inr bs as(1) split by (intro exI [of _ "as @ bs"]) (auto split: sum.splits)
  qed
qed

section \<open>Properties\<close>

text \<open>
  C6. The rounds of the queue thread may be taken as atomic.  Let events arrive between any two
  steps of the thread, of which \<open>UpdateDelayed\<close> is one.  Then some run of whole rounds, with the
  same events arriving in the same order between the rounds, ends in the same state when the thread
  is at the top of its loop or has left it, and a run of the thread that is undefined is one of
  undefined rounds.  So the rounds of \<open>Server\<close> lose no behaviour.
\<close>
theorem rounds_linearizable:
  "\<exists>as. case run_inputs (turn_step p) is (turn_start h e) of
      Inl err \<Rightarrow> run_inputs (round_step p) as h = Inl err
    | Inr t \<Rightarrow> round_adds as = turn_adds is
        \<and> (tn_pc t = TLoop \<or> tn_pc t = TExit \<longrightarrow> run_inputs (round_step p) as h = Inr (tn_handler t))"
proof -
  have "owed p (turn_start h e) (Inr h)" by (simp add: owed_def turn_start_def)
  from owed_run [OF this] show ?thesis by (force simp: owed_def Let_def split: sum.splits)
qed

text \<open>A client connects while the event of another one is handled.\<close>

definition sample_client :: "int \<Rightarrow> event" where
  "sample_client fd = \<lparr>EventType = EVENT_CONNECT, ev_fd = fd, ev_address = 1, ev_data = 0, ev_recieved = 0, ev_errorcode = 0\<rparr>"

definition sample_clock :: timeval where
  "sample_clock = \<lparr>tv_sec = 1, tv_usec = 0\<rparr>"

definition sample_all :: protocol where
  "sample_all = \<lparr>hasConnect = True, hasRecieve = True, hasSend = True, hasDisconnect = True,
     hasConnectDelayed = True, hasRecieveDelayed = True, hasSendDelayed = True, hasDisconnectDelayed = True\<rparr>"

definition sample_turns :: "turn_input list" where
  "sample_turns = (let s = TStep sample_clock sample_clock
     in [TAdd (sample_client 5), s, s, s, TAdd (sample_client 6), s, s])"

theorem rounds_linearizable_witness:
  "\<exists>as t. run_inputs (turn_step sample_all) sample_turns (turn_start PacketHandler (sample_client 0)) = Inr t
    \<and> round_adds as = [sample_client 5, sample_client 6]
    \<and> run_inputs (round_step sample_all) as PacketHandler = Inr (tn_handler t)
    \<and> calls (tn_handler t) = [OnConnect 1 5] \<and> ev_queue (tn_handler t) = [sample_client 6]"
proof -
  obtain t where t: "run_inputs (turn_step sample_all) sample_turns (turn_start PacketHandler (sample_client 0)) = Inr t"
    "tn_pc t = TLoop" "calls (tn_handler t) = [OnConnect 1 5]" "ev_queue (tn_handler t) = [sample_client 6]"
    by (simp add: sample_turns_def thread_step_def turn_start_def PacketHandler_def UpdateDelayed_def AddEvent_def
        call_event_def call_plain_def owns_data_def sample_client_def sample_all_def Let_def)
  have "turn_adds sample_turns = [sample_client 5, sample_client 6]"
    by (simp_all add: sample_turns_def Let_def)
  from rounds_linearizable [of sample_all PacketHandler sample_turns "sample_client 0"] this t
  show ?thesis by auto
qed

end
