(* ===== verification/Shutdown.thy ===== *)
theory Shutdown
  imports QueueThread
begin

text \<open>
  A request to terminate and the queue thread.  A signal handler calls \<open>PacketHandler::Terminate\<close>,
  which empties the list of delayed events and the queue, whatever the queue thread is doing with
  them, and then wakes the thread if the table of threads says that it is suspended.

  \<open>fine_step\<close> is \<open>ProcessQueue\<close> with \<open>UpdateDelayed\<close>, one step for what lies between two points at
  which such a request makes a difference.  References and iterators are values: a reference into
  the queue is the number of the element, counted from the first that was ever queued, and is valid
  while that element is in the queue; an iterator into the list is a position, with the number of
  elements that requests had removed when it was taken, and is valid while that number is the same.
  \<open>queue.push\<close> and \<open>list.push_back\<close> leave both valid.  Each operation of a container, and the
  request itself, is one step; what a lost update of the unprotected containers would do is not
  modelled.
\<close>

section \<open>The steps\<close>

datatype list_iter = AtElement nat nat | AtEnd

datatype fine_pc =
    FLoop               \<comment> \<open>\<open>while (process)\<close>\<close>
  | FUpdate             \<comment> \<open>\<open>if (!delayedQueue.size())\<close>, \<open>it = begin()\<close>\<close>
  | FAdvance list_iter  \<comment> \<open>the first loop of \<open>UpdateDelayed\<close>\<close>
  | FErase list_iter    \<comment> \<open>the second loop\<close>
  | FBegin              \<comment> \<open>after \<open>erase(it)\<close>: \<open>it = begin()\<close> and the test of the size\<close>
  | FNext list_iter     \<comment> \<open>\<open>it++\<close> of the second loop after that\<close>
  | FIdle               \<comment> \<open>\<open>if (!queue.size() && !delayedQueue.size())\<close>\<close>
  | FMark               \<comment> \<open>\<open>SetThreadStatus(..., THREAD_SUSPENDED)\<close>\<close>
  | FSuspend            \<comment> \<open>about to call \<open>sigwait\<close>\<close>
  | FWait               \<comment> \<open>in \<open>sigwait\<close>\<close>
  | FWoken              \<comment> \<open>\<open>SetThreadStatus(..., THREAD_ACTIVE)\<close>\<close>
  | FSize               \<comment> \<open>\<open>if (queue.size())\<close>\<close>
  | FFront              \<comment> \<open>\<open>queue.front()\<close>\<close>
  | FCall nat           \<comment> \<open>the call into the library, with the reference\<close>
  | FDelete nat         \<comment> \<open>\<open>delete &event.data\<close>\<close>
  | FPop                \<comment> \<open>\<open>queue.pop()\<close>\<close>
  | FExit

record fine =
  fn_handler :: handler
  fn_pc :: fine_pc
  fn_popped :: nat    \<comment> \<open>elements that have left the queue\<close>
  fn_cleared :: nat   \<comment> \<open>elements that requests have removed from the list\<close>


text \<open>The queued element that a reference means, and the iterators into the list.\<close>

definition queued_at :: "fine \<Rightarrow> nat \<Rightarrow> event option" where
  "queued_at t r =
     (let q = ev_queue (fn_handler t)
      in if fn_popped t \<le> r \<and> r < fn_popped t + length q then Some (q ! (r - fn_popped t)) else None)"

definition list_begin :: "fine \<Rightarrow> list_iter" where
  "list_begin t = (if delayedQueue (fn_handler t) = [] then AtEnd else AtElement (fn_cleared t) 0)"

definition valid_iter :: "fine \<Rightarrow> nat \<Rightarrow> nat \<Rightarrow> bool" where
  "valid_iter t g i \<longleftrightarrow> g = fn_cleared t \<and> i < length (delayedQueue (fn_handler t))"

definition list_next :: "fine \<Rightarrow> nat \<Rightarrow> list_iter" where
  "list_next t i =
     (if Suc i < length (delayedQueue (fn_handler t)) then AtElement (fn_cleared t) (Suc i) else AtEnd)"

text \<open>A pass through the body of each loop.  \<open>end()\<close> stays valid when elements are removed.\<close>

definition advance_step :: "timeval \<Rightarrow> list_iter \<Rightarrow> fine \<Rightarrow> fine res" where
  "advance_step now it t =
     (case it of
        AtEnd \<Rightarrow> Inr (t\<lparr>fn_pc := FErase (list_begin t)\<rparr>)
      | AtElement g i \<Rightarrow>
          if \<not> valid_iter t g i then Inl DanglingIterator
          else
            (let h = fn_handler t; d = delayedQueue h ! i;
                 d = Update_delay now (getMsTimeDiffToNow now (updated d)) d;
                 q = (if Execute d then ev_queue h @ [de_event d] else ev_queue h)
             in Inr (t\<lparr>fn_handler := h\<lparr>delayedQueue := (delayedQueue h)[i := d], ev_queue := q\<rparr>,
                       fn_pc := FAdvance (list_next t i)\<rparr>)))"

definition erase_step :: "list_iter \<Rightarrow> fine \<Rightarrow> fine res" where
  "erase_step it t =
     (case it of
        AtEnd \<Rightarrow> Inr (t\<lparr>fn_pc := FIdle\<rparr>)
      | AtElement g i \<Rightarrow>
          if \<not> valid_iter t g i then Inl DanglingIterator
          else
            (let h = fn_handler t; ds = delayedQueue h
             in if Execute (ds ! i)
                then Inr (t\<lparr>fn_handler := h\<lparr>delayedQueue := take i ds @ drop (Suc i) ds\<rparr>, fn_pc := FBegin\<rparr>)
                else Inr (t\<lparr>fn_pc := FErase (list_next t i)\<rparr>)))"

definition fine_step :: "protocol \<Rightarrow> timeval \<Rightarrow> timeval \<Rightarrow> fine \<Rightarrow> fine res" where
  "fine_step p began now t =
     (let h = fn_handler t; q = ev_queue h
      in case fn_pc t of
           FLoop \<Rightarrow> Inr (t\<lparr>fn_pc := (if process h then FUpdate else FExit)\<rparr>)
         | FUpdate \<Rightarrow>
             Inr (t\<lparr>fn_pc := (if length (delayedQueue h) = 0 then FIdle else FAdvance (list_begin t))\<rparr>)
         | FAdvance it \<Rightarrow> advance_step now it t
         | FErase it \<Rightarrow> erase_step it t
         | FBegin \<Rightarrow>
             Inr (t\<lparr>fn_pc := (if length (delayedQueue h) = 0 then FIdle else FNext (list_begin t))\<rparr>)
         | FNext it \<Rightarrow>
             (case it of
                AtEnd \<Rightarrow> Inl DanglingIterator
              | AtElement g i \<Rightarrow>
                  if valid_iter t g i then Inr (t\<lparr>fn_pc := FErase (list_next t i)\<rparr>) else Inl DanglingIterator)
         | FIdle \<Rightarrow>
             Inr (t\<lparr>fn_handler := h\<lparr>diffTime := getMsTimeDiffToNow now began\<rparr>,
                    fn_pc := (if length q = 0 \<and> length (delayedQueue h) = 0 then FMark else FSize)\<rparr>)
         | FMark \<Rightarrow> Inr (t\<lparr>fn_pc := FSuspend\<rparr>)
         | FSuspend \<Rightarrow> Inr (t\<lparr>fn_pc := FWait\<rparr>)
         | FWait \<Rightarrow> Inr t
         | FWoken \<Rightarrow> Inr (t\<lparr>fn_pc := FSize\<rparr>)
         | FSize \<Rightarrow> Inr (t\<lparr>fn_pc := (if length q = 0 then FLoop else FFront)\<rparr>)
         | FFront \<Rightarrow> if q = [] then Inl OutOfBounds else Inr (t\<lparr>fn_pc := FCall (fn_popped t)\<rparr>)
         | FCall r \<Rightarrow>
             (case queued_at t r of
                None \<Rightarrow> Inl DanglingIterator
              | Some e \<Rightarrow> rbind (call_event p e h) (\<lambda>h.
                  Inr (t\<lparr>fn_handler := h, fn_pc := (if owns_data e then FDelete r else FPop)\<rparr>)))
         | FDelete r \<Rightarrow>
             (case queued_at t r of
                None \<Rightarrow> Inl DanglingIterator
              | Some e \<Rightarrow> rbind (delete_data (ev_data e) h) (\<lambda>h. Inr (t\<lparr>fn_handler := h, fn_pc := FPop\<rparr>)))
         | FPop \<Rightarrow>
             (case q of
                [] \<Rightarrow> Inl OutOfBounds
              | _ # q' \<Rightarrow> Inr (t\<lparr>fn_handler := h\<lparr>ev_queue := q'\<rparr>, fn_popped := Suc (fn_popped t), fn_pc := FLoop\<rparr>))
         | FExit \<Rightarrow> Inr t)"





section \<open>Agreement with the rounds\<close>

text \<open>What the thread does alone, all at one time, is a round of \<open>Handler\<close>.\<close>

fun own_step :: "protocol \<Rightarrow> timeval \<times> timeval \<Rightarrow> fine \<Rightarrow> fine res" where
  "own_step p (began, now) t = fine_step p began now t"

definition alone :: "protocol \<Rightarrow> timeval \<times> timeval \<Rightarrow> fine \<Rightarrow> fine res \<Rightarrow> bool" where
  "alone p x t r \<longleftrightarrow> (\<exists>n. run_inputs (own_step p) (replicate n x) t = r)"

lemma alone_refl: "alone p x t (Inr t)"
  unfolding alone_def by (rule exI [of _ 0]) simp

lemma alone_step: "own_step p x t = Inr t' \<Longrightarrow> alone p x t' r \<Longrightarrow> alone p x t r"
  unfolding alone_def by (elim exE, rule_tac x = "Suc n" in exI) simp

lemma alone_error: "own_step p x t = Inl e \<Longrightarrow> alone p x t (Inl e)"
  unfolding alone_def by (rule exI [of _ 1]) simp

lemma alone_trans: "alone p x t (Inr t') \<Longrightarrow> alone p x t' r \<Longrightarrow> alone p x t r"
proof -
  assume "alone p x t (Inr t')" "alone p x t' r"
  then obtain n m where "run_inputs (own_step p) (replicate n x) t = Inr t'" "run_inputs (own_step p) (replicate m x) t' = r"
    by (auto simp: alone_def)
  then have "run_inputs (own_step p) (replicate (n + m) x) t = r" by (simp add: replicate_add run_inputs_append)
  then show ?thesis unfolding alone_def by blast
qed

definition iter_at :: "fine \<Rightarrow> nat \<Rightarrow> list_iter" where
  "iter_at t i = (if i < length (delayedQueue (fn_handler t)) then AtElement (fn_cleared t) i else AtEnd)"

lemma iter_at_simps: "list_begin t = iter_at t 0" "list_next t i = iter_at t (Suc i)"
  by (auto simp: iter_at_def list_begin_def list_next_def)

lemma advance_alone:
  "fn_pc t = FAdvance (iter_at t (length ds)) \<Longrightarrow> delayedQueue (fn_handler t) = ds @ es \<Longrightarrow>
   \<exists>t'. alone p (began, now) t (Inr t') \<and> fn_pc t' = FErase (iter_at t' 0)
     \<and> fn_handler t' = (fn_handler t)\<lparr>delayedQueue := ds @ map (tick now) es,
          ev_queue := ev_queue (fn_handler t) @ map de_event (filter (due now) es)\<rparr>"
proof (induction es arbitrary: ds t)
  case Nil
  then have "own_step p (began, now) t = Inr (t\<lparr>fn_pc := FErase (list_begin t)\<rparr>)"
    by (simp add: fine_step_def advance_step_def iter_at_def Let_def)
  then have "alone p (began, now) t (Inr (t\<lparr>fn_pc := FErase (list_begin t)\<rparr>))" by (rule alone_step) (rule alone_refl)
  then show ?case using Nil.prems(2)
    by (intro exI [of _ "t\<lparr>fn_pc := FErase (list_begin t)\<rparr>"]) (simp add: iter_at_simps iter_at_def)
next
  case (Cons e es)
  let ?h = "fn_handler t"
  let ?h' = "?h\<lparr>delayedQueue := ds @ tick now e # es,
    ev_queue := (if due now e then ev_queue ?h @ [de_event e] else ev_queue ?h)\<rparr>"
  let ?t = "t\<lparr>fn_handler := ?h', fn_pc := FAdvance (list_next t (length ds))\<rparr>"
  have v: "iter_at t (length ds) = AtElement (fn_cleared t) (length ds)" "valid_iter t (fn_cleared t) (length ds)"
    using Cons.prems(2) by (simp_all add: iter_at_def valid_iter_def)
  have step: "own_step p (began, now) t = Inr ?t"
    using Cons.prems v Execute_tick [of now e] de_event_tick [of now e]
    by (simp add: fine_step_def advance_step_def tick_def [symmetric] Let_def)
  have "fn_pc ?t = FAdvance (iter_at ?t (length (ds @ [tick now e])))"
    using Cons.prems(2) by (simp add: iter_at_simps iter_at_def)
  moreover have "delayedQueue (fn_handler ?t) = (ds @ [tick now e]) @ es" by simp
  ultimately obtain t' where "alone p (began, now) ?t (Inr t')" "fn_pc t' = FErase (iter_at t' 0)"
    "fn_handler t' = ?h'\<lparr>delayedQueue := (ds @ [tick now e]) @ map (tick now) es,
       ev_queue := ev_queue ?h' @ map de_event (filter (due now) es)\<rparr>"
    using Cons.IH [of ?t "ds @ [tick now e]"] by auto
  then show ?case using alone_step [OF step] by (intro exI [of _ t']) simp
qed

lemma erase_alone:
  "fn_pc t = FErase (iter_at t i) \<Longrightarrow> delayedQueue (fn_handler t) = ds \<Longrightarrow>
   \<exists>t'. alone p x t (Inr t') \<and> fn_pc t' = FIdle
     \<and> fn_handler t' = (fn_handler t)\<lparr>delayedQueue := erase_loop ds i\<rparr>"
proof (induction ds i arbitrary: t rule: erase_loop.induct)
  case (1 ds i)
  obtain began now where x: "x = (began, now)" by (cases x)
  show ?case
  proof (cases "i < length ds")
    case False
    then have "own_step p x t = Inr (t\<lparr>fn_pc := FIdle\<rparr>)"
      using "1.prems" by (simp add: x fine_step_def erase_step_def iter_at_def Let_def)
    then have "alone p x t (Inr (t\<lparr>fn_pc := FIdle\<rparr>))" by (rule alone_step) (rule alone_refl)
    moreover have "erase_loop ds i = ds" using False by (subst erase_loop.simps) simp
    ultimately show ?thesis using "1.prems"(2) by (intro exI [of _ "t\<lparr>fn_pc := FIdle\<rparr>"]) simp
  next
    case True
    then have v: "iter_at t i = AtElement (fn_cleared t) i" "valid_iter t (fn_cleared t) i"
      using "1.prems"(2) by (simp_all add: iter_at_def valid_iter_def)
    show ?thesis
    proof (cases "Execute (ds ! i)")
      case False
      let ?t = "t\<lparr>fn_pc := FErase (list_next t i)\<rparr>"
      have "own_step p x t = Inr ?t"
        using "1.prems" v False by (simp add: x fine_step_def erase_step_def Let_def)
      moreover have "\<exists>t'. alone p x ?t (Inr t') \<and> fn_pc t' = FIdle
          \<and> fn_handler t' = (fn_handler ?t)\<lparr>delayedQueue := erase_loop ds (Suc i)\<rparr>"
        using "1.prems"(2) by (intro "1.IH"(2) [OF True False]) (simp_all add: iter_at_simps iter_at_def)
      moreover have "erase_loop ds i = erase_loop ds (Suc i)" using True False by (subst erase_loop.simps) simp
      ultimately show ?thesis using alone_step [of p x t ?t] by auto
    next
      case ex: True
      define ds' where "ds' = take i ds @ drop (Suc i) ds"
      let ?h = "(fn_handler t)\<lparr>delayedQueue := ds'\<rparr>"
      let ?b = "t\<lparr>fn_handler := ?h, fn_pc := FBegin\<rparr>"
      have e: "erase_loop ds i = (if ds' = [] then [] else erase_loop ds' (Suc 0))"
        using True ex unfolding ds'_def by (subst erase_loop.simps) (simp add: Let_def)
      have b: "own_step p x t = Inr ?b"
        using "1.prems" v ex by (simp add: x fine_step_def erase_step_def ds'_def Let_def)
      show ?thesis
      proof (cases "ds' = []")
        case True
        let ?t = "t\<lparr>fn_handler := ?h, fn_pc := FIdle\<rparr>"
        have "own_step p x ?b = Inr ?t" using True by (simp add: x fine_step_def Let_def)
        then have "alone p x t (Inr ?t)" using alone_step [OF b] alone_step alone_refl by blast
        then show ?thesis using True e by (intro exI [of _ ?t]) simp
      next
        case False
        let ?n = "t\<lparr>fn_handler := ?h, fn_pc := FNext (AtElement (fn_cleared t) 0)\<rparr>"
        let ?t = "t\<lparr>fn_handler := ?h, fn_pc := FErase (list_next ?n 0)\<rparr>"
        have n1: "own_step p x ?b = Inr ?n" using False by (simp add: x fine_step_def list_begin_def Let_def)
        have n2: "own_step p x ?n = Inr ?t" using False by (simp add: x fine_step_def valid_iter_def Let_def)
        have "\<exists>t'. alone p x ?t (Inr t') \<and> fn_pc t' = FIdle
            \<and> fn_handler t' = (fn_handler ?t)\<lparr>delayedQueue := erase_loop ds' (Suc 0)\<rparr>"
          by (rule "1.IH"(1) [OF \<open>i < length ds\<close> ex ds'_def False]) (simp_all add: iter_at_simps iter_at_def)
        then obtain t' where t': "alone p x ?t (Inr t')" "fn_pc t' = FIdle"
          "fn_handler t' = (fn_handler ?t)\<lparr>delayedQueue := erase_loop ds' (Suc 0)\<rparr>" by blast
        have "alone p x t (Inr t')" by (rule alone_step [OF b alone_step [OF n1 alone_step [OF n2 t'(1)]]])
        then show ?thesis using t'(2,3) e False by (intro exI [of _ t']) simp
      qed
    qed
  qed
qed

lemma update_alone:
  assumes "fn_pc t = FUpdate"
  shows "\<exists>t'. alone p (began, now) t (Inr t') \<and> fn_pc t' = FIdle \<and> fn_handler t' = UpdateDelayed now (fn_handler t)"
proof (cases "delayedQueue (fn_handler t) = []")
  case True
  then have "own_step p (began, now) t = Inr (t\<lparr>fn_pc := FIdle\<rparr>)" using assms by (simp add: fine_step_def Let_def)
  then have "alone p (began, now) t (Inr (t\<lparr>fn_pc := FIdle\<rparr>))" by (rule alone_step) (rule alone_refl)
  then show ?thesis using True by (intro exI [of _ "t\<lparr>fn_pc := FIdle\<rparr>"]) (simp add: UpdateDelayed_def)
next
  case False
  let ?h = "fn_handler t" and ?t = "t\<lparr>fn_pc := FAdvance (list_begin t)\<rparr>"
  have a: "own_step p (began, now) t = Inr ?t" using assms False by (simp add: fine_step_def Let_def)
  have "fn_pc ?t = FAdvance (iter_at ?t (length []))" by (simp add: iter_at_simps iter_at_def)
  from advance_alone [OF this, of "delayedQueue ?h" p began now] obtain t1 where
    t1: "alone p (began, now) ?t (Inr t1)" "fn_pc t1 = FErase (iter_at t1 0)"
    "fn_handler t1 = ?h\<lparr>delayedQueue := map (tick now) (delayedQueue ?h),
       ev_queue := ev_queue ?h @ map de_event (filter (due now) (delayedQueue ?h))\<rparr>" by auto
  from erase_alone [OF t1(2) refl, of p "(began, now)"] obtain t2 where
    t2: "alone p (began, now) t1 (Inr t2)" "fn_pc t2 = FIdle"
    "fn_handler t2 = (fn_handler t1)\<lparr>delayedQueue := erase_loop (delayedQueue (fn_handler t1)) 0\<rparr>" by blast
  have "fn_handler t2 = UpdateDelayed now ?h"
    using t2(3) t1(3) by (simp add: UpdateDelayed_eq erase_loop_eq)
  then show ?thesis using t2(2) alone_step [OF a] alone_trans [OF t1(1) t2(1)] by blast
qed

text \<open>The steps from the reference to the end of the round make the dispatch and the \<open>pop\<close>.\<close>

lemma handle_alone:
  assumes "fn_pc t = FSize" and "ev_queue (fn_handler t) = e # q"
  shows "case dispatch p e (fn_handler t) of
      Inl err \<Rightarrow> alone p x t (Inl err)
    | Inr h \<Rightarrow> \<exists>t'. alone p x t (Inr t') \<and> fn_pc t' = FLoop \<and> fn_handler t' = h\<lparr>ev_queue := q\<rparr>"
proof -
  obtain began now where x: "x = (began, now)" by (cases x)
  let ?r = "fn_popped t"
  have s1: "own_step p x t = Inr (t\<lparr>fn_pc := FFront\<rparr>)" using assms by (simp add: x fine_step_def Let_def)
  have s2: "own_step p x (t\<lparr>fn_pc := FFront\<rparr>) = Inr (t\<lparr>fn_pc := FCall ?r\<rparr>)"
    using assms by (simp add: x fine_step_def Let_def)
  have start: "alone p x (t\<lparr>fn_pc := FCall ?r\<rparr>) r \<Longrightarrow> alone p x t r" for r
    using alone_step [OF s1] alone_step [OF s2] by blast
  have el: "queued_at (t\<lparr>fn_handler := h, fn_pc := pc\<rparr>) ?r = Some e" if "ev_queue h = e # q" for h pc
    using that by (simp add: queued_at_def)
  have el0: "queued_at (t\<lparr>fn_pc := FCall ?r\<rparr>) ?r = Some e" using assms by (simp add: queued_at_def)
  have pop: "\<exists>t'. alone p x (t\<lparr>fn_handler := h, fn_pc := FPop\<rparr>) (Inr t') \<and> fn_pc t' = FLoop
      \<and> fn_handler t' = h\<lparr>ev_queue := q\<rparr>" if "ev_queue h = e # q" for h
    using that alone_step [of p x "t\<lparr>fn_handler := h, fn_pc := FPop\<rparr>"] alone_refl
    by (fastforce simp: x fine_step_def Let_def)
  show ?thesis
  proof (cases "call_event p e (fn_handler t)")
    case (Inl err)
    then have "own_step p x (t\<lparr>fn_pc := FCall ?r\<rparr>) = Inl err" using el0 by (simp add: x fine_step_def)
    then show ?thesis using start [OF alone_error] Inl by (simp add: dispatch_split)
  next
    case (Inr h)
    then have c: "own_step p x (t\<lparr>fn_pc := FCall ?r\<rparr>) =
        Inr (t\<lparr>fn_handler := h, fn_pc := (if owns_data e then FDelete ?r else FPop)\<rparr>)"
      using el0 by (simp add: x fine_step_def)
    have q: "ev_queue h = e # q" using call_event_queue [OF Inr] assms(2) by simp
    show ?thesis
    proof (cases "owns_data e")
      case False
      then show ?thesis using start [OF alone_step [OF c]] pop [OF q] Inr by (auto simp: dispatch_split)
    next
      case True
      let ?d = "t\<lparr>fn_handler := h, fn_pc := FDelete ?r\<rparr>"
      have c': "alone p x ?d r \<Longrightarrow> alone p x t r" for r using start [OF alone_step [OF c]] True by simp
      show ?thesis
      proof (cases "delete_data (ev_data e) h")
        case err: (Inl err)
        then have "own_step p x ?d = Inl err" using el [OF q] by (simp add: x fine_step_def)
        then show ?thesis using c' [OF alone_error] err Inr True by (simp add: dispatch_split)
      next
        case ok: (Inr h')
        then have d: "own_step p x ?d = Inr (t\<lparr>fn_handler := h', fn_pc := FPop\<rparr>)"
          using el [OF q] by (simp add: x fine_step_def)
        have "ev_queue h' = e # q" using delete_data_queue [OF ok] q by simp
        then show ?thesis
          using c' [OF alone_step [OF d]] pop [of h'] ok Inr True by (auto simp: dispatch_split)
      qed
    qed
  qed
qed

lemma round_alone:
  assumes "fn_pc t = FLoop" and "process (fn_handler t)"
  shows "case process_round p began now (fn_handler t) of
      Inl err \<Rightarrow> alone p (began, now) t (Inl err)
    | Inr (idle, h) \<Rightarrow> \<exists>t'. alone p (began, now) t (Inr t') \<and> fn_handler t' = h
        \<and> fn_pc t' = (if idle then FWait else FLoop)"
proof -
  let ?x = "(began, now)" and ?h = "(UpdateDelayed now (fn_handler t))\<lparr>diffTime := getMsTimeDiffToNow now began\<rparr>"
  have a0: "own_step p ?x t = Inr (t\<lparr>fn_pc := FUpdate\<rparr>)" using assms by (simp add: fine_step_def Let_def)
  obtain t1 where u: "alone p ?x (t\<lparr>fn_pc := FUpdate\<rparr>) (Inr t1)" and t1: "fn_pc t1 = FIdle"
    "fn_handler t1 = UpdateDelayed now (fn_handler t)"
    using update_alone [of "t\<lparr>fn_pc := FUpdate\<rparr>" p began now] by auto
  have a1: "alone p ?x t (Inr t1)" using alone_step [OF a0 u] .
  let ?empty = "ev_queue ?h = [] \<and> delayedQueue ?h = []"
  let ?t2 = "t1\<lparr>fn_handler := ?h, fn_pc := (if ?empty then FMark else FSize)\<rparr>"
  have "own_step p ?x t1 = Inr ?t2" using t1 by (simp add: fine_step_def Let_def)
  then have a2: "alone p ?x ?t2 r \<Longrightarrow> alone p ?x t r" for r using a1 alone_trans alone_step by blast
  show ?thesis
  proof (cases "ev_queue ?h")
    case (Cons e q)
    then have "process_round p began now (fn_handler t) =
        rbind (dispatch p e ?h) (\<lambda>h. Inr (False, h\<lparr>ev_queue := q\<rparr>))"
      by (simp add: process_round_def Let_def)
    then show ?thesis
      using handle_alone [of ?t2 e q p ?x] Cons a2 by (cases "dispatch p e ?h") auto
  next
    case Nil
    then have r: "process_round p began now (fn_handler t) = Inr (delayedQueue ?h = [], ?h)"
      by (simp add: process_round_def Let_def)
    show ?thesis
    proof (cases "delayedQueue ?h = []")
      case False
      then have "own_step p ?x ?t2 = Inr (?t2\<lparr>fn_pc := FLoop\<rparr>)" using Nil by (simp add: fine_step_def Let_def)
      then have "alone p ?x t (Inr (?t2\<lparr>fn_pc := FLoop\<rparr>))" using a2 alone_step alone_refl by blast
      then show ?thesis using r False by (auto intro!: exI [of _ "?t2\<lparr>fn_pc := FLoop\<rparr>"])
    next
      case True
      have "own_step p ?x ?t2 = Inr (?t2\<lparr>fn_pc := FSuspend\<rparr>)" using Nil True by (simp add: fine_step_def Let_def)
      moreover have "own_step p ?x (?t2\<lparr>fn_pc := FSuspend\<rparr>) = Inr (?t2\<lparr>fn_pc := FWait\<rparr>)"
        by (simp add: fine_step_def Let_def)
      ultimately have "alone p ?x t (Inr (?t2\<lparr>fn_pc := FWait\<rparr>))" using a2 alone_step alone_refl by metis
      then show ?thesis using r True by (auto intro!: exI [of _ "?t2\<lparr>fn_pc := FWait\<rparr>"])
    qed
  qed
qed

section \<open>The request\<close>





section \<open>Valid references\<close>











section \<open>After the request\<close>


text \<open>A handler that has been told to terminate.\<close>

definition told :: "fine \<Rightarrow> bool" where
  "told t \<longleftrightarrow> ev_queue (fn_handler t) = [] \<and> delayedQueue (fn_handler t) = [] \<and> \<not> process (fn_handler t)"








lemma told_pc [simp]: "told (t\<lparr>fn_pc := pc\<rparr>) = told t"
  by (simp add: told_def)




section \<open>Properties\<close>






end
