(* ===== verification/SimpleLog.thy ===== *)
theory SimpleLog
  imports CppString
begin

text \<open>
  \<open>SimpleLog/SimpleLog.{h,cpp}\<close>: lines with a time stamp, written to the standard output and
  appended to a log file, gated by the two flags of the application.

  \<open>mdate\<close> is the text that \<open>strftime\<close> gives for the call, \<open>message\<close> what \<open>vfprintf\<close> makes of the
  format and its arguments, and \<open>opens\<close> whether \<open>fopen\<close> succeeds.  The logger holds references to
  the flags, so their values are those at the time of the call.  The mutex serialises the calls:
  a call is one step.
\<close>

section \<open>The logger\<close>

record simple_log =
  sl_control :: bool
  sl_debug :: bool
  sl_file :: "string option"   \<comment> \<open>the text of the log file, if there is one\<close>
  sl_stdout :: string

text \<open>
  The constructor empties the log file.  When it cannot be opened \<open>fclose\<close> gets NULL.  (The
  mutex exists before: the constructor would initialise a NULL pointer.)
\<close>

definition SimpleLog :: "bool \<Rightarrow> bool \<Rightarrow> bool \<Rightarrow> bool \<Rightarrow> bool \<Rightarrow> string \<Rightarrow> simple_log res" where
  "SimpleLog C D has_mutex logfile opens out =
     (if logfile \<and> \<not> opens then Inl NullPointer
      else if \<not> has_mutex then Inl NullPointer
      else Inr \<lparr>sl_control = C, sl_debug = D,
                sl_file = (if logfile then Some [] else None), sl_stdout = out\<rparr>)"

definition to_stdout :: "string \<Rightarrow> simple_log \<Rightarrow> simple_log" where
  "to_stdout s l = l\<lparr>sl_stdout := sl_stdout l @ s\<rparr>"

definition to_file :: "string \<Rightarrow> simple_log \<Rightarrow> simple_log" where
  "to_file s l = l\<lparr>sl_file := map_option (\<lambda>t. t @ s) (sl_file l)\<rparr>"

record log_call =
  mdate :: string
  format_empty :: bool
  message :: string
  opens :: bool

definition outString :: "log_call \<Rightarrow> simple_log \<Rightarrow> (int \<times> simple_log) res" where
  "outString c l =
     (let (done, l) = (if \<not> format_empty c
                       then (int (length (message c)),
                             to_stdout (mdate c @ [space, tab] @ message c) l)
                       else (0, l))
      in if sl_file l \<noteq> None \<and> \<not> opens c then Inl AssertFail
         else
           (let l = (if \<not> format_empty c then to_file (mdate c @ [space, tab] @ message c) l else l);
                l = to_file [nl] l
            in Inr (done, to_stdout [nl] l)))"

definition outError :: "log_call \<Rightarrow> simple_log \<Rightarrow> (int \<times> simple_log) res" where
  "outError c l =
     (let (done, l) = (if \<not> format_empty c
                       then (int (length (message c)),
                             to_stdout (mdate c @ [space, tab] @ ''[ERROR] '' @ message c) l)
                       else (0, l))
      in if sl_file l \<noteq> None \<and> \<not> opens c then Inl AssertFail
         else
           (let l = (if \<not> format_empty c
                     then to_file (mdate c @ [space, tab] @ ''[ERROR] '' @ message c) l else l);
                l = to_file [nl] l
            in Inr (done, to_stdout [nl] l)))"

text \<open>The bodies of \<open>outControl\<close> and \<open>outDebug\<close> repeat that of \<open>outString\<close> behind their flag.\<close>

definition outControl :: "log_call \<Rightarrow> simple_log \<Rightarrow> (int \<times> simple_log) res" where
  "outControl c l = (if sl_control l then outString c l else Inr (0, l))"

definition outDebug :: "log_call \<Rightarrow> simple_log \<Rightarrow> (int \<times> simple_log) res" where
  "outDebug c l = (if sl_debug l then outString c l else Inr (0, l))"

section \<open>The specification: a list of lines\<close>

datatype log_level = LString | LControl | LDebug | LError

definition log_out :: "log_level \<Rightarrow> log_call \<Rightarrow> simple_log \<Rightarrow> (int \<times> simple_log) res" where
  "log_out v c l =
     (case v of LString \<Rightarrow> outString c l | LControl \<Rightarrow> outControl c l
      | LDebug \<Rightarrow> outDebug c l | LError \<Rightarrow> outError c l)"

fun log_all :: "(log_level \<times> log_call) list \<Rightarrow> simple_log \<Rightarrow> simple_log res" where
  "log_all [] l = Inr l"
| "log_all ((v, c) # cs) l = rbind (log_out v c l) (\<lambda>(_, l). log_all cs l)"

definition shown :: "bool \<Rightarrow> bool \<Rightarrow> log_level \<Rightarrow> bool" where
  "shown C D v \<longleftrightarrow> (v = LControl \<longrightarrow> C) \<and> (v = LDebug \<longrightarrow> D)"

definition log_line :: "log_level \<Rightarrow> log_call \<Rightarrow> string" where
  "log_line v c =
     (if format_empty c then []
      else mdate c @ [space, tab] @ (if v = LError then ''[ERROR] '' else []) @ message c) @ [nl]"

definition log_text :: "bool \<Rightarrow> bool \<Rightarrow> (log_level \<times> log_call) list \<Rightarrow> string" where
  "log_text C D cs = concat (map (\<lambda>(v, c). log_line v c) (filter (\<lambda>(v, c). shown C D v) cs))"

lemma log_out_exact:
  assumes "sl_file l = None \<or> opens c"
  shows "\<exists>n. log_out v c l = Inr (n, if shown (sl_control l) (sl_debug l) v
    then l\<lparr>sl_file := map_option (\<lambda>t. t @ log_line v c) (sl_file l),
           sl_stdout := sl_stdout l @ log_line v c\<rparr> else l)"
  using assms
  by (cases v)
    (auto simp: log_out_def outString_def outControl_def outDebug_def outError_def shown_def
      log_line_def to_stdout_def to_file_def option.map_comp comp_def)

lemma log_out_fails:
  "sl_file l \<noteq> None \<Longrightarrow> \<not> opens c \<Longrightarrow> shown (sl_control l) (sl_debug l) v \<Longrightarrow>
   log_out v c l = Inl AssertFail"
  by (cases v)
    (auto simp: log_out_def outString_def outControl_def outDebug_def outError_def shown_def
      to_stdout_def split: prod.splits)

lemma log_all_exact:
  "list_all (\<lambda>(v, c). sl_file l = None \<or> opens c) cs \<Longrightarrow>
   log_all cs l = Inr (l\<lparr>
     sl_file := map_option (\<lambda>t. t @ log_text (sl_control l) (sl_debug l) cs) (sl_file l),
     sl_stdout := sl_stdout l @ log_text (sl_control l) (sl_debug l) cs\<rparr>)"
proof (induction cs arbitrary: l)
  case Nil
  then show ?case by (simp add: log_text_def option.map_ident)
next
  case (Cons vc cs)
  obtain v c where vc: "vc = (v, c)" by (cases vc)
  let ?l = "if shown (sl_control l) (sl_debug l) v
    then l\<lparr>sl_file := map_option (\<lambda>t. t @ log_line v c) (sl_file l),
           sl_stdout := sl_stdout l @ log_line v c\<rparr> else l"
  have "sl_file l = None \<or> opens c" using Cons.prems vc by auto
  then obtain n where "log_out v c l = Inr (n, ?l)" using log_out_exact by blast
  then have "log_all (vc # cs) l = log_all cs ?l" by (simp add: vc)
  also have "\<dots> = Inr (?l\<lparr>
     sl_file := map_option (\<lambda>t. t @ log_text (sl_control ?l) (sl_debug ?l) cs) (sl_file ?l),
     sl_stdout := sl_stdout ?l @ log_text (sl_control ?l) (sl_debug ?l) cs\<rparr>)"
    using Cons.prems by (intro Cons.IH) (auto simp: vc list_all_iff)
  finally show ?case
    by (auto simp: vc log_text_def option.map_comp comp_def)
qed

section \<open>Properties\<close>

text \<open>
  C34. Logging refines a filtered list of lines: after any sequence of calls the log file holds
  exactly the lines whose level is shown under the two flags, in order, with time stamp, tag and
  line end, and the standard output has received the same text.
\<close>
theorem log_refines_lines:
  assumes "SimpleLog C D True True True out = Inr l" and "list_all (\<lambda>(v, c). opens c) cs"
  shows "\<exists>l'. log_all cs l = Inr l' \<and> sl_file l' = Some (log_text C D cs)
    \<and> sl_stdout l' = out @ log_text C D cs"
proof -
  have l: "l = \<lparr>sl_control = C, sl_debug = D, sl_file = Some [], sl_stdout = out\<rparr>"
    using assms(1) by (simp add: SimpleLog_def)
  show ?thesis
    using assms(2) by (subst log_all_exact) (auto simp: l list_all_iff)
qed

theorem log_refines_lines_witness:
  "\<exists>l'. log_all [(LDebug, \<lparr>mdate = ''2012'', format_empty = False, message = ''a'', opens = True\<rparr>),
        (LError, \<lparr>mdate = ''2012'', format_empty = False, message = ''b'', opens = True\<rparr>)]
      \<lparr>sl_control = True, sl_debug = False, sl_file = Some [], sl_stdout = []\<rparr> = Inr l'
    \<and> sl_file l' = Some (''2012'' @ [space, tab] @ ''[ERROR] '' @ ''b'' @ [nl])"
  using log_refines_lines [of True False "[]"
      "\<lparr>sl_control = True, sl_debug = False, sl_file = Some [], sl_stdout = []\<rparr>"
      "[(LDebug, \<lparr>mdate = ''2012'', format_empty = False, message = ''a'', opens = True\<rparr>),
        (LError, \<lparr>mdate = ''2012'', format_empty = False, message = ''b'', opens = True\<rparr>)]"]
  by (auto simp: SimpleLog_def log_text_def log_line_def shown_def simp del: log_all.simps)

text \<open>
  A log file that cannot be opened ends the server: the first line that is shown fails the
  assertion, after it was written to the standard output.
\<close>
theorem log_file_lost:
  assumes "sl_file l \<noteq> None" and "\<not> opens c" and "shown (sl_control l) (sl_debug l) v"
  shows "log_all ((v, c) # cs) l = Inl AssertFail"
  using log_out_fails [OF assms] by simp

theorem log_file_lost_witness:
  "log_all [(LError, \<lparr>mdate = ''2012'', format_empty = False, message = ''b'', opens = False\<rparr>)]
      \<lparr>sl_control = False, sl_debug = False, sl_file = Some [], sl_stdout = []\<rparr> = Inl AssertFail"
  by (rule log_file_lost) (simp_all add: shown_def)

end
