(* ===== verification/AppConfig.thy ===== *)
theory AppConfig
  imports ConfigMgr SimpleLog
begin

text \<open>
  The settings of \<open>Application/Application.{h,cpp}\<close>: the constructor's parsing of the command line
  and of the configuration file, \<open>LoadConfigs\<close> with its six lookups, \<open>ParseParams\<close>.

  The options are filled by the same code as in \<open>ConfigMgr\<close>, so its definitions are used for one
  argument and for the reading loop.  The arrays indexed by an enum are functions from the enum.
\<close>

section \<open>State\<close>

datatype IntOptions =
    CONFIG_INT_BIND_PORT | CONFIG_INT_LOG_LEVEL | CONFIG_INT_FREEZE_DETECTOR_MAX_DIFF
  | CONFIG_INT_DELAYED_SEND_DELAY | CONFIG_INT_DELAYED_RECV_DELAY
  | CONFIG_INT_DELAYED_CONNECT_DELAY | CONFIG_INT_DELAYED_DISCONNECT_DELAY

datatype StringOptions =
    CONFIG_STRING_PID_FILE | CONFIG_STRING_WORKING_DIRECTORY | CONFIG_STRING_BIND_IP
  | CONFIG_STRING_PROTOCOL_NAME | CONFIG_STRING_LIBRARY_PATH | CONFIG_STRING_RECV_FUNC
  | CONFIG_STRING_DELAYED_RECV_FUNC | CONFIG_STRING_SEND_FUNC | CONFIG_STRING_DELAYED_SEND_FUNC
  | CONFIG_STRING_CONNECT_FUNC | CONFIG_STRING_DELAYED_CONNECT_FUNC
  | CONFIG_STRING_DISCONNECT_FUNC | CONFIG_STRING_DELAYED_DISCONNECT_FUNC
  | CONFIG_STRING_LOAD_FUNC | CONFIG_STRING_UNLOAD_FUNC

datatype BoolOptions = CONFIG_BOOL_DAEMONIZE | CONFIG_BOOL_LOG | CONFIG_BOOL_ENABLE_FREEZE_DETECTOR

record application =
  ApplicationAddress :: string
  app_file :: options
  app_run :: options
  app_debug :: bool
  app_control :: bool
  IntConfigs :: "IntOptions \<Rightarrow> int"
  StringConfigs :: "StringOptions \<Rightarrow> string"
  BoolConfigs :: "BoolOptions \<Rightarrow> bool"

section \<open>Lookups\<close>

definition app_LoadIntConfig :: "string \<Rightarrow> IntOptions \<Rightarrow> int \<Rightarrow> application \<Rightarrow> application" where
  "app_LoadIntConfig name config def a =
     (if length (app_file a) > 0 then
        (case map_of (app_file a) name of
           Some s \<Rightarrow> a\<lparr>IntConfigs := (IntConfigs a)(config := extract_int (IntConfigs a config) s)\<rparr>
         | None \<Rightarrow> a\<lparr>IntConfigs := (IntConfigs a)(config := def)\<rparr>)
      else a)"

definition app_LoadStringConfig :: "string \<Rightarrow> StringOptions \<Rightarrow> string \<Rightarrow> application \<Rightarrow> application" where
  "app_LoadStringConfig name config def a =
     (if length (app_file a) > 0 then
        a\<lparr>StringConfigs := (StringConfigs a)
            (config := (case map_of (app_file a) name of Some s \<Rightarrow> s | None \<Rightarrow> def))\<rparr>
      else a)"

definition app_LoadBoolConfig :: "string \<Rightarrow> BoolOptions \<Rightarrow> bool \<Rightarrow> application \<Rightarrow> application" where
  "app_LoadBoolConfig name config def a =
     (if length (app_file a) > 0 then
        (case map_of (app_file a) name of
           Some s \<Rightarrow> a\<lparr>BoolConfigs := (BoolConfigs a)(config := extract_bool (BoolConfigs a config) s)\<rparr>
         | None \<Rightarrow> a\<lparr>BoolConfigs := (BoolConfigs a)(config := def)\<rparr>)
      else a)"

text \<open>The value of an option of the command line under its long or its short name.\<close>

definition run_value :: "string \<Rightarrow> string \<Rightarrow> options \<Rightarrow> string option" where
  "run_value name short run =
     (if length run > 0 then
        (case map_of run name of Some s \<Rightarrow> Some s | None \<Rightarrow> map_of run short)
      else None)"

definition app_LoadIntRunConfig :: "string \<Rightarrow> string \<Rightarrow> IntOptions \<Rightarrow> application \<Rightarrow> application" where
  "app_LoadIntRunConfig name short config a =
     (case run_value name short (app_run a) of
        Some s \<Rightarrow> a\<lparr>IntConfigs := (IntConfigs a)(config := extract_int (IntConfigs a config) s)\<rparr>
      | None \<Rightarrow> a)"

definition app_LoadStringRunConfig :: "string \<Rightarrow> string \<Rightarrow> StringOptions \<Rightarrow> application \<Rightarrow> application" where
  "app_LoadStringRunConfig name short config a =
     (case run_value name short (app_run a) of
        Some s \<Rightarrow> a\<lparr>StringConfigs := (StringConfigs a)(config := s)\<rparr>
      | None \<Rightarrow> a)"

definition app_LoadBoolRunConfig :: "string \<Rightarrow> string \<Rightarrow> BoolOptions \<Rightarrow> application \<Rightarrow> application" where
  "app_LoadBoolRunConfig name short config a =
     (case run_value name short (app_run a) of
        Some s \<Rightarrow> a\<lparr>BoolConfigs := (BoolConfigs a)(config := extract_bool (BoolConfigs a config) s)\<rparr>
      | None \<Rightarrow> a)"

definition find_last_of :: "char \<Rightarrow> string \<Rightarrow> nat option" where
  "find_last_of c s = (if c \<in> set s then Some (length s - 1 - length (takeWhile (\<lambda>x. x \<noteq> c) (rev s))) else None)"

definition directory_of :: "string \<Rightarrow> string" where
  "directory_of s = (case find_last_of slash s of Some i \<Rightarrow> take i s | None \<Rightarrow> s)"

definition clear_configs :: "application \<Rightarrow> application" where
  "clear_configs a = a\<lparr>IntConfigs := (\<lambda>_. 0), BoolConfigs := (\<lambda>_. False), StringConfigs := (\<lambda>_. [])\<rparr>"

definition load_file_configs :: "application \<Rightarrow> application" where
  "load_file_configs a =
     (let a = app_LoadBoolConfig ''Server.Daemonize'' CONFIG_BOOL_DAEMONIZE False a;
          a = app_LoadStringConfig ''Server.PidFile'' CONFIG_STRING_PID_FILE ''/var/lock/ikaros.pid'' a;
          a = app_LoadStringConfig ''Server.WorkingDirectory'' CONFIG_STRING_WORKING_DIRECTORY
                (directory_of (ApplicationAddress a)) a;
          a = app_LoadBoolConfig ''Server.Log'' CONFIG_BOOL_LOG True a;
          a = app_LoadIntConfig ''Server.LogLevel'' CONFIG_INT_LOG_LEVEL 0 a;
          a = app_LoadBoolConfig ''Server.EnableFreezeDetector'' CONFIG_BOOL_ENABLE_FREEZE_DETECTOR True a;
          a = app_LoadIntConfig ''Server.FreezeDetectorMaxDiff'' CONFIG_INT_FREEZE_DETECTOR_MAX_DIFF 300000 a;
          a = app_LoadIntConfig ''Protocol.BindPort'' CONFIG_INT_BIND_PORT 3535 a;
          a = app_LoadStringConfig ''Protocol.BindIp'' CONFIG_STRING_BIND_IP ''127.0.0.1'' a;
          a = app_LoadStringConfig ''Protocol.ProtocolName'' CONFIG_STRING_PROTOCOL_NAME [] a;
          a = app_LoadStringConfig ''Protocol.LibraryPath'' CONFIG_STRING_LIBRARY_PATH [] a;
          a = app_LoadStringConfig ''Protocol.RecvFunc'' CONFIG_STRING_RECV_FUNC [] a;
          a = app_LoadStringConfig ''Protocol.SendFunc'' CONFIG_STRING_SEND_FUNC [] a;
          a = app_LoadStringConfig ''Protocol.ConnectFunc'' CONFIG_STRING_CONNECT_FUNC [] a;
          a = app_LoadStringConfig ''Protocol.DisconnectFunc'' CONFIG_STRING_DISCONNECT_FUNC [] a;
          a = app_LoadStringConfig ''Protocol.LoadFunc'' CONFIG_STRING_LOAD_FUNC [] a;
          a = app_LoadStringConfig ''Protocol.UnloadFunc'' CONFIG_STRING_UNLOAD_FUNC [] a;
          a = app_LoadStringConfig ''Protocol.DelayedRecvFunc'' CONFIG_STRING_DELAYED_RECV_FUNC [] a;
          a = app_LoadIntConfig ''Protocol.DelayedRecvDelay'' CONFIG_INT_DELAYED_RECV_DELAY 300 a;
          a = app_LoadStringConfig ''Protocol.DelayedSendFunc'' CONFIG_STRING_DELAYED_SEND_FUNC [] a;
          a = app_LoadIntConfig ''Protocol.DelayedSendDelay'' CONFIG_INT_DELAYED_SEND_DELAY 300 a;
          a = app_LoadStringConfig ''Protocol.DelayedConnectFunc'' CONFIG_STRING_DELAYED_CONNECT_FUNC [] a;
          a = app_LoadIntConfig ''Protocol.DelayedConnectDelay'' CONFIG_INT_DELAYED_CONNECT_DELAY 300 a;
          a = app_LoadStringConfig ''Protocol.DelayedDisconnectFunc'' CONFIG_STRING_DELAYED_DISCONNECT_FUNC [] a;
          a = app_LoadIntConfig ''Protocol.DelayedDisconnectDelay'' CONFIG_INT_DELAYED_DISCONNECT_DELAY 300 a
      in a)"

definition load_run_configs :: "application \<Rightarrow> application" where
  "load_run_configs a =
     (let a = app_LoadBoolRunConfig ''daemonize'' ''d'' CONFIG_BOOL_DAEMONIZE a;
          a = app_LoadBoolRunConfig ''log'' ''l'' CONFIG_BOOL_LOG a;
          a = app_LoadIntRunConfig ''loglevel'' ''ll'' CONFIG_INT_LOG_LEVEL a
      in a)"

definition LoadConfigs :: "application \<Rightarrow> application" where
  "LoadConfigs a =
     (let a = clear_configs a;
          a = (if length (app_file a) > 0 then load_file_configs a else a)
      in if length (app_run a) > 0 then load_run_configs a else a)"

text \<open>The cases of the switch fall through: 3 and 2 set both flags, 1 sets \<open>control\<close>.\<close>

definition ParseParams :: "application \<Rightarrow> application" where
  "ParseParams a =
     (let a = LoadConfigs a; level = IntConfigs a CONFIG_INT_LOG_LEVEL
      in if level = 3 \<or> level = 2 then a\<lparr>app_debug := True, app_control := True\<rparr>
         else if level = 1 then a\<lparr>app_control := True\<rparr>
         else a)"

section \<open>The constructor\<close>

text \<open>
  \<open>conf\<close> is a pointer: the argument \<open>d\<close> sets it to the characters of the local \<open>value\<close>, which is
  destroyed at the end of the iteration.
\<close>

datatype conf_ptr = ConfNull | ConfName string | ConfDead

fun app_args :: "options \<Rightarrow> conf_ptr \<Rightarrow> string list \<Rightarrow> (options \<times> conf_ptr) res" where
  "app_args m conf [] = Inr (m, conf)"
| "app_args m conf (a # as) =
     rbind (parse_arg a) (\<lambda>(k, v).
       app_args (opt_insert k v m) (if k = ''d'' then ConfDead else conf) as)"

definition application_with :: "string \<Rightarrow> options \<Rightarrow> options \<Rightarrow> application" where
  "application_with address file run =
     \<lparr>ApplicationAddress = address, app_file = file, app_run = run, app_debug = False,
      app_control = False, IntConfigs = (\<lambda>_. 0), StringConfigs = (\<lambda>_. []), BoolConfigs = (\<lambda>_. False)\<rparr>"

text \<open>
  \<open>read\<close> gives the text of a file that can be opened; \<open>None\<close> as the result is a constructor that
  never returns.
\<close>

definition Application ::
  "(string \<Rightarrow> string option) \<Rightarrow> string list \<Rightarrow> conf_ptr \<Rightarrow> application res option" where
  "Application read argv conf =
     (let address = (case argv of [] \<Rightarrow> [] | a # _ \<Rightarrow> a);
          args = (case argv of [] \<Rightarrow> [] | _ # as \<Rightarrow> as)
      in (case app_args [] conf args of
            Inl e \<Rightarrow> Some (Inl e)
          | Inr (run, conf') \<Rightarrow>
              (case conf' of
                 ConfNull \<Rightarrow> Some (Inr (ParseParams (application_with address [] run)))
               | ConfDead \<Rightarrow> Some (Inl DeadReference)
               | ConfName name \<Rightarrow>
                   (case read name of
                      None \<Rightarrow> Some (Inr (ParseParams (application_with address [] run)))
                    | Some text \<Rightarrow>
                        map_option
                          (\<lambda>r. rbind r (\<lambda>m. Inr (ParseParams (application_with address m run))))
                          (config_loop (istream_of text) [])))))"

section \<open>What is loaded\<close>

text \<open>The settings as tables of names and defaults.\<close>

fun int_setting :: "IntOptions \<Rightarrow> string \<times> int" where
  "int_setting CONFIG_INT_BIND_PORT = (''Protocol.BindPort'', 3535)"
| "int_setting CONFIG_INT_LOG_LEVEL = (''Server.LogLevel'', 0)"
| "int_setting CONFIG_INT_FREEZE_DETECTOR_MAX_DIFF = (''Server.FreezeDetectorMaxDiff'', 300000)"
| "int_setting CONFIG_INT_DELAYED_SEND_DELAY = (''Protocol.DelayedSendDelay'', 300)"
| "int_setting CONFIG_INT_DELAYED_RECV_DELAY = (''Protocol.DelayedRecvDelay'', 300)"
| "int_setting CONFIG_INT_DELAYED_CONNECT_DELAY = (''Protocol.DelayedConnectDelay'', 300)"
| "int_setting CONFIG_INT_DELAYED_DISCONNECT_DELAY = (''Protocol.DelayedDisconnectDelay'', 300)"

fun bool_setting :: "BoolOptions \<Rightarrow> string \<times> bool" where
  "bool_setting CONFIG_BOOL_DAEMONIZE = (''Server.Daemonize'', False)"
| "bool_setting CONFIG_BOOL_LOG = (''Server.Log'', True)"
| "bool_setting CONFIG_BOOL_ENABLE_FREEZE_DETECTOR = (''Server.EnableFreezeDetector'', True)"

fun string_setting :: "string \<Rightarrow> StringOptions \<Rightarrow> string \<times> string" where
  "string_setting d CONFIG_STRING_PID_FILE = (''Server.PidFile'', ''/var/lock/ikaros.pid'')"
| "string_setting d CONFIG_STRING_WORKING_DIRECTORY = (''Server.WorkingDirectory'', d)"
| "string_setting d CONFIG_STRING_BIND_IP = (''Protocol.BindIp'', ''127.0.0.1'')"
| "string_setting d CONFIG_STRING_PROTOCOL_NAME = (''Protocol.ProtocolName'', [])"
| "string_setting d CONFIG_STRING_LIBRARY_PATH = (''Protocol.LibraryPath'', [])"
| "string_setting d CONFIG_STRING_RECV_FUNC = (''Protocol.RecvFunc'', [])"
| "string_setting d CONFIG_STRING_DELAYED_RECV_FUNC = (''Protocol.DelayedRecvFunc'', [])"
| "string_setting d CONFIG_STRING_SEND_FUNC = (''Protocol.SendFunc'', [])"
| "string_setting d CONFIG_STRING_DELAYED_SEND_FUNC = (''Protocol.DelayedSendFunc'', [])"
| "string_setting d CONFIG_STRING_CONNECT_FUNC = (''Protocol.ConnectFunc'', [])"
| "string_setting d CONFIG_STRING_DELAYED_CONNECT_FUNC = (''Protocol.DelayedConnectFunc'', [])"
| "string_setting d CONFIG_STRING_DISCONNECT_FUNC = (''Protocol.DisconnectFunc'', [])"
| "string_setting d CONFIG_STRING_DELAYED_DISCONNECT_FUNC = (''Protocol.DelayedDisconnectFunc'', [])"
| "string_setting d CONFIG_STRING_LOAD_FUNC = (''Protocol.LoadFunc'', [])"
| "string_setting d CONFIG_STRING_UNLOAD_FUNC = (''Protocol.UnloadFunc'', [])"

text \<open>The same options as an object of the class \<open>ConfigMgr\<close>.\<close>

definition config_of :: "application \<Rightarrow> config_mgr" where
  "config_of a = \<lparr>FileOptions = app_file a, RunOptions = app_run a\<rparr>"

lemma app_load_options [simp]:
  "app_file (app_LoadIntConfig n c d a) = app_file a" "app_run (app_LoadIntConfig n c d a) = app_run a"
  "app_file (app_LoadStringConfig n c' d' a) = app_file a" "app_run (app_LoadStringConfig n c' d' a) = app_run a"
  "app_file (app_LoadBoolConfig n c'' d'' a) = app_file a" "app_run (app_LoadBoolConfig n c'' d'' a) = app_run a"
  "ApplicationAddress (app_LoadIntConfig n c d a) = ApplicationAddress a"
  "ApplicationAddress (app_LoadStringConfig n c' d' a) = ApplicationAddress a"
  "ApplicationAddress (app_LoadBoolConfig n c'' d'' a) = ApplicationAddress a"
  by (simp_all add: app_LoadIntConfig_def app_LoadStringConfig_def app_LoadBoolConfig_def split: option.splits)

lemma app_load_other [simp]:
  "BoolConfigs (app_LoadIntConfig n c d a) = BoolConfigs a"
  "StringConfigs (app_LoadIntConfig n c d a) = StringConfigs a"
  "BoolConfigs (app_LoadStringConfig n c' d' a) = BoolConfigs a"
  "IntConfigs (app_LoadStringConfig n c' d' a) = IntConfigs a"
  "IntConfigs (app_LoadBoolConfig n c'' d'' a) = IntConfigs a"
  "StringConfigs (app_LoadBoolConfig n c'' d'' a) = StringConfigs a"
  by (simp_all add: app_LoadIntConfig_def app_LoadStringConfig_def app_LoadBoolConfig_def split: option.splits)

text \<open>One lookup stores what the class \<open>ConfigMgr\<close> returns, if the element was clear.\<close>

lemma app_LoadInt_value:
  "app_file a \<noteq> [] \<Longrightarrow> IntConfigs (app_LoadIntConfig n c d a) =
    (\<lambda>c'. if c' = c then (if map_of (app_file a) n = None then d
       else extract_int (IntConfigs a c) (the (map_of (app_file a) n))) else IntConfigs a c')"
  by (auto simp: app_LoadIntConfig_def split: option.splits)

lemma app_LoadBool_value:
  "app_file a \<noteq> [] \<Longrightarrow> BoolConfigs (app_LoadBoolConfig n c d a) =
    (\<lambda>c'. if c' = c then (if map_of (app_file a) n = None then d
       else extract_bool (BoolConfigs a c) (the (map_of (app_file a) n))) else BoolConfigs a c')"
  by (auto simp: app_LoadBoolConfig_def split: option.splits)

lemma app_LoadString_value:
  "app_file a \<noteq> [] \<Longrightarrow> StringConfigs (app_LoadStringConfig n c d a) =
    (\<lambda>c'. if c' = c then (case map_of (app_file a) n of Some s \<Rightarrow> s | None \<Rightarrow> d) else StringConfigs a c')"
  by (auto simp: app_LoadStringConfig_def)

lemma LoadIntConfig_value:
  "app_file a \<noteq> [] \<Longrightarrow> LoadIntConfig (config_of a) n d =
    (if map_of (app_file a) n = None then d else extract_int 0 (the (map_of (app_file a) n)))"
  by (auto simp: LoadIntConfig_def config_of_def split: option.splits)

lemma LoadBoolConfig_value:
  "app_file a \<noteq> [] \<Longrightarrow> LoadBoolConfig (config_of a) n d =
    (if map_of (app_file a) n = None then d else extract_bool False (the (map_of (app_file a) n)))"
  by (auto simp: LoadBoolConfig_def config_of_def split: option.splits)

lemma LoadStringConfig_value:
  "app_file a \<noteq> [] \<Longrightarrow> LoadStringConfig (config_of a) n d =
    (case map_of (app_file a) n of Some s \<Rightarrow> s | None \<Rightarrow> d)"
  by (simp add: LoadStringConfig_def config_of_def)

lemma load_file_ints:
  "app_file a \<noteq> [] \<Longrightarrow> IntConfigs (load_file_configs (clear_configs a)) c =
    (case int_setting c of (n, d) \<Rightarrow> LoadIntConfig (config_of a) n d)"
  by (cases c) (simp_all add: load_file_configs_def Let_def app_LoadInt_value clear_configs_def LoadIntConfig_value)

lemma load_file_bools:
  "app_file a \<noteq> [] \<Longrightarrow> BoolConfigs (load_file_configs (clear_configs a)) c =
    (case bool_setting c of (n, d) \<Rightarrow> LoadBoolConfig (config_of a) n d)"
  by (cases c) (simp_all add: load_file_configs_def Let_def app_LoadBool_value clear_configs_def LoadBoolConfig_value)

lemma load_file_strings:
  "app_file a \<noteq> [] \<Longrightarrow> StringConfigs (load_file_configs (clear_configs a)) c =
    (case string_setting (directory_of (ApplicationAddress a)) c of (n, d) \<Rightarrow> LoadStringConfig (config_of a) n d)"
  by (cases c) (simp_all add: load_file_configs_def Let_def app_LoadString_value clear_configs_def LoadStringConfig_value)

lemma load_file_options [simp]:
  "app_file (load_file_configs a) = app_file a" "app_run (load_file_configs a) = app_run a"
  by (simp_all add: load_file_configs_def Let_def)

lemma clear_configs_simps [simp]:
  "app_file (clear_configs a) = app_file a" "app_run (clear_configs a) = app_run a"
  "IntConfigs (clear_configs a) = (\<lambda>_. 0)" "BoolConfigs (clear_configs a) = (\<lambda>_. False)"
  "StringConfigs (clear_configs a) = (\<lambda>_. [])"
  by (simp_all add: clear_configs_def)

end
