(* ===== verification/AppProps.thy ===== *)
theory AppProps
  imports AppConfig ConfigProps
begin

text \<open>
  The settings of the application: equivalence with the lookups of \<open>ConfigMgr\<close>, the settings
  without a configuration file, the logging flags, and the argument \<open>d\<close>.
\<close>

section \<open>Command line settings\<close>

lemma run_value_int:
  "app_LoadIntRunConfig n sh c a = a\<lparr>IntConfigs := (IntConfigs a)(c :=
     (case run_value n sh (app_run a) of Some s \<Rightarrow> extract_int (IntConfigs a c) s | None \<Rightarrow> IntConfigs a c))\<rparr>"
  by (simp add: app_LoadIntRunConfig_def split: option.splits)

lemma run_value_bool:
  "app_LoadBoolRunConfig n sh c a = a\<lparr>BoolConfigs := (BoolConfigs a)(c :=
     (case run_value n sh (app_run a) of Some s \<Rightarrow> extract_bool (BoolConfigs a c) s | None \<Rightarrow> BoolConfigs a c))\<rparr>"
  by (simp add: app_LoadBoolRunConfig_def split: option.splits)

lemma load_run_eq:
  "load_run_configs a = a\<lparr>
     IntConfigs := (IntConfigs a)(CONFIG_INT_LOG_LEVEL :=
       (case run_value ''loglevel'' ''ll'' (app_run a) of Some s \<Rightarrow> extract_int (IntConfigs a CONFIG_INT_LOG_LEVEL) s
        | None \<Rightarrow> IntConfigs a CONFIG_INT_LOG_LEVEL)),
     BoolConfigs := (BoolConfigs a)
       (CONFIG_BOOL_DAEMONIZE :=
         (case run_value ''daemonize'' ''d'' (app_run a) of Some s \<Rightarrow> extract_bool (BoolConfigs a CONFIG_BOOL_DAEMONIZE) s
          | None \<Rightarrow> BoolConfigs a CONFIG_BOOL_DAEMONIZE),
        CONFIG_BOOL_LOG :=
         (case run_value ''log'' ''l'' (app_run a) of Some s \<Rightarrow> extract_bool (BoolConfigs a CONFIG_BOOL_LOG) s
          | None \<Rightarrow> BoolConfigs a CONFIG_BOOL_LOG))\<rparr>"
  by (simp add: load_run_configs_def Let_def run_value_int run_value_bool cong: option.case_cong)

text \<open>Loading the run options is harmless when there are none.\<close>

lemma load_run_empty: "app_run a = [] \<Longrightarrow> load_run_configs a = a"
  by (simp add: load_run_eq run_value_def)

lemma LoadConfigs_eq:
  "LoadConfigs a = load_run_configs
     (if app_file a = [] then clear_configs a else load_file_configs (clear_configs a))"
  by (simp add: LoadConfigs_def Let_def load_run_empty)

text \<open>A value that \<open>>>\<close> can look at: something other than white space.\<close>

definition value_given :: "string \<Rightarrow> bool" where
  "value_given s \<longleftrightarrow> dropWhile is_space s \<noteq> []"

lemma extract_int_given: "value_given s \<Longrightarrow> extract_int x s = extract_int y s"
  unfolding value_given_def extract_int_def Let_def by (simp only: if_False)

lemma extract_bool_given: "value_given s \<Longrightarrow> extract_bool x s = extract_bool y s"
  unfolding value_given_def extract_bool_def Let_def by (simp only: if_False)

lemma LoadIntRunConfig_value:
  "LoadIntRunConfig (config_of a) n sh d =
    (case run_value n sh (app_run a) of Some s \<Rightarrow> extract_int 0 s | None \<Rightarrow> d)"
  by (simp add: LoadIntRunConfig_def config_of_def run_value_def split: option.splits)

lemma LoadBoolRunConfig_value:
  "LoadBoolRunConfig (config_of a) n sh d =
    (case run_value n sh (app_run a) of Some s \<Rightarrow> extract_bool False s | None \<Rightarrow> d)"
  by (simp add: LoadBoolRunConfig_def config_of_def run_value_def split: option.splits)

definition run_values_given :: "application \<Rightarrow> bool" where
  "run_values_given a \<longleftrightarrow> list_all (\<lambda>(k, v). value_given v) (app_run a)"

lemma run_value_given:
  "run_values_given a \<Longrightarrow> run_value n sh (app_run a) = Some s \<Longrightarrow> value_given s"
  by (auto simp: run_value_def run_values_given_def list_all_iff split: if_splits option.splits
      dest!: map_of_SomeD)

lemma run_int_agrees:
  "run_values_given a \<Longrightarrow>
   (case run_value n sh (app_run a) of Some s \<Rightarrow> extract_int d s | None \<Rightarrow> d) = LoadIntRunConfig (config_of a) n sh d"
  using extract_int_given run_value_given by (simp add: LoadIntRunConfig_value split: option.splits)

lemma run_bool_agrees:
  "run_values_given a \<Longrightarrow>
   (case run_value n sh (app_run a) of Some s \<Rightarrow> extract_bool d s | None \<Rightarrow> d) = LoadBoolRunConfig (config_of a) n sh d"
  using extract_bool_given run_value_given by (simp add: LoadBoolRunConfig_value split: option.splits)

lemma load_flag_simps [simp]:
  "app_debug (app_LoadIntConfig n c d a) = app_debug a" "app_control (app_LoadIntConfig n c d a) = app_control a"
  "app_debug (app_LoadStringConfig n c' d' a) = app_debug a" "app_control (app_LoadStringConfig n c' d' a) = app_control a"
  "app_debug (app_LoadBoolConfig n c'' d'' a) = app_debug a" "app_control (app_LoadBoolConfig n c'' d'' a) = app_control a"
  by (simp_all add: app_LoadIntConfig_def app_LoadStringConfig_def app_LoadBoolConfig_def split: option.splits)

lemma load_file_flags [simp]:
  "app_debug (load_file_configs a) = app_debug a" "app_control (load_file_configs a) = app_control a"
  by (simp_all add: load_file_configs_def Let_def)

section \<open>Arguments\<close>

lemma app_args_options:
  "app_args m conf as = Inr (m', conf') \<Longrightarrow> parse_args m as = Inr m'"
  by (induction as arbitrary: m conf) (auto simp: res_simps split: prod.splits)

lemma app_args_total: "parse_args m as = Inr m' \<Longrightarrow> \<exists>c. app_args m conf as = Inr (m', c)"
proof (induction as arbitrary: m conf)
  case (Cons a as)
  then obtain k v where kv: "parse_arg a = Inr (k, v)" "parse_args (opt_insert k v m) as = Inr m'"
    by (auto simp: res_simps)
  from Cons.IH [OF kv(2)] show ?case using kv(1) by simp
qed simp

lemma app_args_dead:
  "app_args m ConfDead as = Inr (m', conf') \<Longrightarrow> conf' = ConfDead"
  by (induction as arbitrary: m) (auto simp: res_simps split: prod.splits if_splits)

lemma app_args_d:
  "app_args m conf (as @ a # bs) = Inr (m', conf') \<Longrightarrow> parse_arg a = Inr (''d'', v) \<Longrightarrow> conf' = ConfDead"
proof (induction as arbitrary: m conf)
  case Nil
  then show ?case using app_args_dead by auto
next
  case (Cons b as)
  then show ?case by (auto simp: res_simps split: prod.splits)
qed

section \<open>Properties\<close>

text \<open>
  C28. The application's own loading of settings and the class \<open>ConfigMgr\<close>, which the protocol
  libraries use, are equivalent: for the same options, with at least one entry in the file and no
  blank value on the command line, every element of the three arrays is what the lookup of
  \<open>ConfigMgr\<close> returns for the name and default of the setting, and the command line overrides
  the log level, logging and daemon flags.
\<close>
theorem settings_match_config_mgr:
  assumes "app_file a \<noteq> []" and "run_values_given a" and "c = config_of a"
  shows "IntConfigs (LoadConfigs a) i =
      (let v = LoadIntConfig c (fst (int_setting i)) (snd (int_setting i))
       in if i = CONFIG_INT_LOG_LEVEL then LoadIntRunConfig c ''loglevel'' ''ll'' v else v)
    \<and> StringConfigs (LoadConfigs a) s =
      (let t = string_setting (directory_of (ApplicationAddress a)) s in LoadStringConfig c (fst t) (snd t))
    \<and> BoolConfigs (LoadConfigs a) b =
      (let v = LoadBoolConfig c (fst (bool_setting b)) (snd (bool_setting b))
       in if b = CONFIG_BOOL_DAEMONIZE then LoadBoolRunConfig c ''daemonize'' ''d'' v
          else if b = CONFIG_BOOL_LOG then LoadBoolRunConfig c ''log'' ''l'' v else v)"
  using assms(1)
  by (simp_all add: assms(3) LoadConfigs_eq load_run_eq load_file_ints load_file_bools load_file_strings
      run_int_agrees [OF assms(2)] run_bool_agrees [OF assms(2)] Let_def split_beta)

definition sample_app :: application where
  "sample_app = application_with ''/opt/ikaros/server''
     [(''Protocol.BindPort'', ''21''), (''Server.LogLevel'', ''1'')] [(''ll'', ''2'')]"

theorem settings_match_config_mgr_witness:
  "IntConfigs (LoadConfigs sample_app) CONFIG_INT_BIND_PORT = 21
   \<and> IntConfigs (LoadConfigs sample_app) CONFIG_INT_LOG_LEVEL = 2
   \<and> StringConfigs (LoadConfigs sample_app) CONFIG_STRING_WORKING_DIRECTORY = ''/opt/ikaros''"
proof -
  have a: "app_file sample_app \<noteq> []" "run_values_given sample_app" by code_simp+
  have v: "(let v = LoadIntConfig (config_of sample_app) ''Protocol.BindPort'' 3535 in v) = 21"
    "LoadIntRunConfig (config_of sample_app) ''loglevel'' ''ll''
       (LoadIntConfig (config_of sample_app) ''Server.LogLevel'' 0) = 2"
    "LoadStringConfig (config_of sample_app) ''Server.WorkingDirectory''
       (directory_of (ApplicationAddress sample_app)) = ''/opt/ikaros''"
    by code_simp+
  show ?thesis
    using v settings_match_config_mgr [OF a refl, of CONFIG_INT_BIND_PORT CONFIG_STRING_WORKING_DIRECTORY]
      settings_match_config_mgr [OF a refl, of CONFIG_INT_LOG_LEVEL]
    by simp
qed

text \<open>
  Without an entry in the configuration file no default applies: all numbers are 0 (but for
  the log level of the command line), no text is set, and so no library is named.  The class
  \<open>ConfigMgr\<close> returns the default in the same situation.
\<close>
theorem no_file_no_defaults:
  assumes "app_file a = []"
  shows "IntConfigs (LoadConfigs a) i =
      (if i = CONFIG_INT_LOG_LEVEL
       then (case run_value ''loglevel'' ''ll'' (app_run a) of Some s \<Rightarrow> extract_int 0 s | None \<Rightarrow> 0) else 0)"
    and "StringConfigs (LoadConfigs a) s = []"
    and "\<not> BoolConfigs (LoadConfigs a) CONFIG_BOOL_ENABLE_FREEZE_DETECTOR"
    and "LoadIntConfig (config_of a) name def = def"
  using assms
  by (simp_all add: LoadConfigs_eq load_run_eq LoadIntConfig_def config_of_def cong: option.case_cong)

theorem no_file_no_defaults_witness:
  "IntConfigs (LoadConfigs (application_with ''server'' [] [])) CONFIG_INT_BIND_PORT = 0
   \<and> LoadIntConfig (config_of (application_with ''server'' [] [])) ''Protocol.BindPort'' 3535 = 3535"
  using no_file_no_defaults(1) [of "application_with ''server'' [] []" CONFIG_INT_BIND_PORT]
    no_file_no_defaults(4) [of "application_with ''server'' [] []" "''Protocol.BindPort''" 3535]
  by (simp add: application_with_def)

text \<open>
  An argument named \<open>d\<close>, whether meant as the configuration file or as the short form of
  \<open>daemonize\<close>, makes the constructor open a file whose name is gone: if all arguments can be
  parsed, the result is a read through a dangling pointer, whatever the other arguments are.
\<close>
theorem d_argument_dangling:
  assumes "parse_args [] (as @ a # bs) = Inr run" and "parse_arg a = Inr (''d'', v)"
  shows "Application read (prog # as @ a # bs) conf = Some (Inl DeadReference)"
proof -
  obtain c where c: "app_args [] conf (as @ a # bs) = Inr (run, c)"
    using app_args_total [OF assms(1)] by (rule exE)
  have "c = ConfDead" using c assms(2) by (rule app_args_d)
  then show ?thesis using c by (simp add: Application_def)
qed

theorem d_argument_dangling_witness:
  "Application (\<lambda>_. None) [''server'', ''-log=1'', ''-d=other.conf''] (ConfName ''./config.conf'') =
     Some (Inl DeadReference)"
proof -
  have l: "parse_arg ''-log=1'' = Inr (''log'', ''1'')"
    using parse_arg_value [of "''log''" "''1''" 1] by (simp add: option_word_def eq_sign_def)
  have d: "parse_arg ''-d=other.conf'' = Inr (''d'', ''other.conf'')"
    using parse_arg_value [of "''d''" "''other.conf''" 1] by (simp add: option_word_def eq_sign_def)
  have run: "parse_args [] ([''-log=1''] @ ''-d=other.conf'' # []) =
      Inr [(''log'', ''1''), (''d'', ''other.conf'')]"
    by (simp add: l d opt_insert_def)
  from d_argument_dangling [OF run d] show ?thesis by (simp only: append.simps)
qed

text \<open>
  What the log shows for each level of the settings: lines of \<open>outDebug\<close> at 2 and 3, lines of
  \<open>outControl\<close> at 1, 2 and 3, errors and plain lines always.  A level above 3 shows less than level
  1: neither.
\<close>
theorem log_level_shows:
  assumes "a = ParseParams (application_with address file run)"
    and "level = IntConfigs a CONFIG_INT_LOG_LEVEL"
  shows "shown (app_control a) (app_debug a) v \<longleftrightarrow>
    (case v of LDebug \<Rightarrow> level \<in> {2, 3} | LControl \<Rightarrow> level \<in> {1, 2, 3} | _ \<Rightarrow> True)"
proof -
  let ?a = "LoadConfigs (application_with address file run)"
  have "\<not> app_debug ?a" "\<not> app_control ?a"
    by (simp_all add: LoadConfigs_eq load_run_eq load_file_flags, simp_all add: application_with_def clear_configs_def)
  then show ?thesis
    by (auto simp: assms ParseParams_def Let_def shown_def split: log_level.splits)
qed

theorem log_level_shows_witness:
  "\<not> shown (app_control (ParseParams (application_with ''server'' [] [(''ll'', ''4'')])))
      (app_debug (ParseParams (application_with ''server'' [] [(''ll'', ''4'')]))) LControl"
proof -
  have "IntConfigs (ParseParams (application_with ''server'' [] [(''ll'', ''4'')])) CONFIG_INT_LOG_LEVEL = 4"
    by code_simp
  then show ?thesis
    using log_level_shows [OF refl refl, of "''server''" "[]" "[(''ll'', ''4'')]" LControl] by simp
qed

end
