(* ===== verification/Startup.thy ===== *)
theory Startup
  imports AppProps Wakeup SocketMgr
begin

text \<open>
  \<open>Shared/Shared.{h,cpp}\<close>, and of \<open>Application/Application.cpp\<close> what comes before and after the
  network loop: \<open>LoadLibrary\<close>, \<open>_InitServerSocket\<close>, the start and the end of \<open>Update\<close>, and the
  thread of the freeze detector.

  The dynamic linker (\<open>dlopen\<close>, \<open>dlsym\<close>, \<open>dlerror\<close>) and the results of the socket calls are
  arguments.  A function pointer is an address; 0 is NULL.
\<close>

section \<open>The class SharedLibrary\<close>

text \<open>What \<open>lastErr\<close> points to: nothing, characters allocated for it, or the literal.\<close>

datatype err_ptr = ErrNull | ErrHeap string | ErrLiteral

record shared_library =
  LibName :: "string option"
  lastErr :: err_ptr
  lib_handle :: nat
  isopen :: bool
  dlclosed :: "nat list"

definition SharedLibrary :: shared_library where
  "SharedLibrary = \<lparr>LibName = None, lastErr = ErrNull, lib_handle = 0, isopen = False, dlclosed = []\<rparr>"

record linker =
  dlopen :: "string \<Rightarrow> nat"
  dlsym :: "nat \<Rightarrow> string \<Rightarrow> nat"
  dlerror :: string

text \<open>\<open>p = new char[n]; strcpy(p, s)\<close> writes the characters and the final NUL.\<close>

definition strcpy_new :: "nat \<Rightarrow> string \<Rightarrow> err_ptr res" where
  "strcpy_new n s = (if length s + 1 \<le> n then Inr (ErrHeap s) else Inl OutOfBounds)"

definition delete_err :: "err_ptr \<Rightarrow> unit res" where
  "delete_err p = (case p of ErrLiteral \<Rightarrow> Inl InvalidFree | _ \<Rightarrow> Inr ())"

definition keep_error :: "linker \<Rightarrow> shared_library \<Rightarrow> shared_library res" where
  "keep_error dl l =
     rbind (delete_err (lastErr l)) (\<lambda>_.
     rbind (strcpy_new (length (dlerror dl)) (dlerror dl)) (\<lambda>p.
       Inr (l\<lparr>lastErr := p\<rparr>)))"

definition library_close :: "shared_library \<Rightarrow> shared_library" where
  "library_close l = (if isopen l then l\<lparr>dlclosed := dlclosed l @ [lib_handle l]\<rparr> else l)"

definition library_open :: "linker \<Rightarrow> string \<Rightarrow> shared_library \<Rightarrow> (bool \<times> shared_library) res" where
  "library_open dl path l =
     (let l = (if isopen l then library_close l else l);
          l = l\<lparr>lib_handle := dlopen dl path\<rparr>
      in if lib_handle l = 0 then
           rbind (keep_error dl l) (\<lambda>l. Inr (False, l\<lparr>isopen := False\<rparr>))
         else Inr (True, l\<lparr>LibName := Some path, isopen := True\<rparr>))"

definition findFunc :: "linker \<Rightarrow> string \<Rightarrow> shared_library \<Rightarrow> (nat \<times> shared_library) res" where
  "findFunc dl name l =
     (if \<not> isopen l then Inr (0, l\<lparr>lastErr := ErrLiteral\<rparr>)
      else
        (let func = dlsym dl (lib_handle l) name
         in if func = 0 then rbind (keep_error dl l) (\<lambda>l. Inr (0, l)) else Inr (func, l)))"

section \<open>Loading the protocol library\<close>

text \<open>
  The structure \<open>Protocol\<close>; it is a member of the application and not initialised, so its first
  value is what the memory held.
\<close>

record proto_funcs =
  pf_OnConnect :: nat
  pf_OnRecieve :: nat
  pf_OnSend :: nat
  pf_OnDisconnect :: nat
  pf_OnConnectDelayed :: nat
  pf_OnRecieveDelayed :: nat
  pf_OnSendDelayed :: nat
  pf_OnDisconnectDelayed :: nat
  pf_OnLoad :: nat
  pf_OnUnload :: nat

text \<open>\<open>if (name.length()) proto.F = F(libLoader->findFunc(name.c_str()))\<close>.\<close>

definition load_func :: "linker \<Rightarrow> string \<Rightarrow> nat \<Rightarrow> shared_library \<Rightarrow> (nat \<times> shared_library) res" where
  "load_func dl name old l = (if length name > 0 then findFunc dl name l else Inr (old, l))"

definition LoadLibrary ::
  "linker \<Rightarrow> application \<Rightarrow> proto_funcs \<Rightarrow> shared_library \<Rightarrow> (bool \<times> proto_funcs \<times> shared_library) res" where
  "LoadLibrary dl a p l =
     (let name = StringConfigs a
      in if length (name CONFIG_STRING_LIBRARY_PATH) = 0 then Inr (False, p, l)
         else
           rbind (library_open dl (name CONFIG_STRING_LIBRARY_PATH) l) (\<lambda>(ok, l).
           if \<not> ok then Inr (False, p, l)
           else
             rbind (load_func dl (name CONFIG_STRING_SEND_FUNC) (pf_OnSend p) l) (\<lambda>(f1, l).
             rbind (load_func dl (name CONFIG_STRING_RECV_FUNC) (pf_OnRecieve p) l) (\<lambda>(f2, l).
             rbind (load_func dl (name CONFIG_STRING_CONNECT_FUNC) (pf_OnConnect p) l) (\<lambda>(f3, l).
             rbind (load_func dl (name CONFIG_STRING_DISCONNECT_FUNC) (pf_OnDisconnect p) l) (\<lambda>(f4, l).
             rbind (load_func dl (name CONFIG_STRING_DELAYED_SEND_FUNC) (pf_OnSendDelayed p) l) (\<lambda>(f5, l).
             rbind (load_func dl (name CONFIG_STRING_DELAYED_RECV_FUNC) (pf_OnRecieveDelayed p) l) (\<lambda>(f6, l).
             rbind (load_func dl (name CONFIG_STRING_DELAYED_CONNECT_FUNC) (pf_OnConnectDelayed p) l) (\<lambda>(f7, l).
             rbind (load_func dl (name CONFIG_STRING_DELAYED_DISCONNECT_FUNC) (pf_OnDisconnectDelayed p) l) (\<lambda>(f8, l).
             rbind (load_func dl (name CONFIG_STRING_LOAD_FUNC) (pf_OnLoad p) l) (\<lambda>(f9, l).
             rbind (load_func dl (name CONFIG_STRING_UNLOAD_FUNC) (pf_OnUnload p) l) (\<lambda>(f10, l).
               Inr (True,
                 \<lparr>pf_OnConnect = f3, pf_OnRecieve = f2, pf_OnSend = f1, pf_OnDisconnect = f4,
                  pf_OnConnectDelayed = f7, pf_OnRecieveDelayed = f6, pf_OnSendDelayed = f5,
                  pf_OnDisconnectDelayed = f8, pf_OnLoad = f9, pf_OnUnload = f10\<rparr>, l)))))))))))))"

text \<open>The tests of the function pointers in the loops of the program.\<close>

definition protocol_of :: "proto_funcs \<Rightarrow> protocol" where
  "protocol_of p =
     \<lparr>hasConnect = (pf_OnConnect p \<noteq> 0), hasRecieve = (pf_OnRecieve p \<noteq> 0),
      hasSend = (pf_OnSend p \<noteq> 0), hasDisconnect = (pf_OnDisconnect p \<noteq> 0),
      hasConnectDelayed = (pf_OnConnectDelayed p \<noteq> 0), hasRecieveDelayed = (pf_OnRecieveDelayed p \<noteq> 0),
      hasSendDelayed = (pf_OnSendDelayed p \<noteq> 0), hasDisconnectDelayed = (pf_OnDisconnectDelayed p \<noteq> 0)\<rparr>"

section \<open>The server socket\<close>

datatype sys_call =
    SysSetReuse int
  | SysNonBlock int
  | SysBind int nat nat   \<comment> \<open>descriptor, port, address\<close>
  | SysListen int nat
  | SysClose int
  | SysExit

text \<open>
  \<open>fd\<close>, \<open>b\<close> and \<open>li\<close> are the results of \<open>socket\<close>, \<open>bind\<close> and \<open>listen\<close>.  \<open>htons\<close> takes the low 16 bits
  of the configured number.
\<close>

definition InitServerSocket ::
  "(string \<Rightarrow> nat) \<Rightarrow> int \<Rightarrow> int \<Rightarrow> int \<Rightarrow> application \<Rightarrow> int option \<times> sys_call list" where
  "InitServerSocket inet_addr fd b li a =
     (let calls = [SysSetReuse fd, SysNonBlock fd];
          bound = calls @ [SysBind fd (u16 (IntConfigs a CONFIG_INT_BIND_PORT))
                                      (inet_addr (StringConfigs a CONFIG_STRING_BIND_IP))]
      in if fd < 0 then (None, calls @ [SysExit])
         else if b = -1 then (None, bound @ [SysClose fd, SysExit])
         else if li = -1 then (None, bound @ [SysListen fd 1024, SysClose fd, SysExit])
         else (Some fd, bound @ [SysListen fd 1024]))"

section \<open>Start and end of Update\<close>

datatype app_action =
    ActLoad nat             \<comment> \<open>a call of \<open>OnLoad\<close>\<close>
  | ActSys sys_call
  | ActSignals              \<comment> \<open>handlers for SIGINT and SIGTERM\<close>
  | ActQueueThread int      \<comment> \<open>the queue thread is created\<close>
  | ActFreezeThread
  | ActUnload nat
  | ActLibraryClosed nat
  | ActSocketsClosed "int list"
  | ActServerClosed int
  | ActJoin pthread_call
  | ActExit

datatype start_result = StartFailed | StartExit | Started int int   \<comment> \<open>server socket, queue thread\<close>

definition Update_start ::
  "linker \<Rightarrow> (string \<Rightarrow> nat) \<Rightarrow> int \<Rightarrow> int \<Rightarrow> int \<Rightarrow> nat option \<Rightarrow> application \<Rightarrow> proto_funcs \<Rightarrow>
   shared_library \<Rightarrow> thread_mgr \<Rightarrow>
   (start_result \<times> app_action list \<times> proto_funcs \<times> shared_library \<times> thread_mgr) res" where
  "Update_start dl inet_addr fd b li created a p l m =
     rbind (LoadLibrary dl a p l) (\<lambda>(loaded, p, l).
       if \<not> loaded \<or> lastErr l \<noteq> ErrNull then Inr (StartFailed, [], p, l, m)
       else
         (let acts = (if pf_OnLoad p \<noteq> 0 then [ActLoad (pf_OnLoad p)] else []);
              (server, calls) = InitServerSocket inet_addr fd b li a;
              acts = acts @ map ActSys calls
          in (case server of
                None \<Rightarrow> Inr (StartExit, acts, p, l, m)
              | Some s \<Rightarrow>
                  (let (q, m) = CreateThread_named ''Queue'' created m;
                       acts = acts @ [ActSignals, ActQueueThread q];
                       acts = acts @ (if BoolConfigs a CONFIG_BOOL_ENABLE_FREEZE_DETECTOR
                                      then [ActFreezeThread] else [])
                   in if q = -1 then Inr (StartExit, acts @ [ActExit], p, l, m)
                      else Inr (Started s q, acts, p, l, m)))))"

text \<open>The end of \<open>Update\<close>; \<open>r\<close> gives the results of \<open>pthread_join\<close>.\<close>

definition Update_end ::
  "(pthread_call \<Rightarrow> int) \<Rightarrow> int \<Rightarrow> int \<Rightarrow> proto_funcs \<Rightarrow> shared_library \<Rightarrow> conn_mgr \<Rightarrow> thread_mgr \<Rightarrow>
   (app_action list \<times> shared_library \<times> conn_mgr) res" where
  "Update_end r server q p l c m =
     (let unload = (if pf_OnUnload p \<noteq> 0 then [ActUnload (pf_OnUnload p)] else []);
          l' = library_close l;
          c' = CloseAllSockets c
      in rbind (JoinThead r (nat q) m) (\<lambda>(_, j1).
         rbind (JoinThead r (nat q) m) (\<lambda>(_, j2).
           Inr (unload @ map ActLibraryClosed (drop (length (dlclosed l)) (dlclosed l'))
                @ [ActSocketsClosed (drop (length (closed c)) (closed c')), ActServerClosed server]
                @ map ActJoin (j1 @ j2), l', c'))))"

section \<open>The freeze detector\<close>

text \<open>
  One iteration of \<open>Run\<close> reads members that other threads write: the exit flag, the time of the
  queue's last round when it is compared, the pause flag, and the time again for the sleep.
  \<open>_thread\<close> is set by \<open>Runnable::Execute\<close> after the thread was created; \<open>thread_set\<close> tells whether
  it is when \<open>Run\<close> begins.
\<close>

record freeze_view =
  see_exit :: bool
  see_diff :: nat
  see_pause :: bool
  see_sleep :: nat

datatype freeze_action = Paused | Slept "nat option"

fun freeze_loop :: "nat \<Rightarrow> freeze_view list \<Rightarrow> (bool \<times> freeze_action list) res" where
  "freeze_loop maxd [] = Inr (False, [])"
| "freeze_loop maxd (v # vs) =
     (if see_exit v then Inr (True, [])
      else if maxd < see_diff v then Inl AssertFail
      else
        rbind (freeze_loop maxd vs) (\<lambda>(ended, acts).
          Inr (ended, (if see_pause v then [Paused] else [])
                 @ Slept (usleep (usub64 maxd (see_sleep v))) # acts)))"

definition FreezeDetector_Run :: "bool \<Rightarrow> nat \<Rightarrow> freeze_view list \<Rightarrow> (bool \<times> freeze_action list) res" where
  "FreezeDetector_Run thread_set maxd vs =
     (if \<not> thread_set then Inl NullPointer else freeze_loop maxd vs)"

end
