(* ===== verification/StartupProps.thy ===== *)
theory StartupProps
  imports Startup
begin

text \<open>
  Loading the protocol library, the order of start and end, the port that is bound, and the sleeps
  of the freeze detector.
\<close>

section \<open>Loading\<close>

definition func_ok :: "linker \<Rightarrow> nat \<Rightarrow> string \<Rightarrow> bool" where
  "func_ok dl h name \<longleftrightarrow> name = [] \<or> dlsym dl h name \<noteq> 0"

definition resolved :: "linker \<Rightarrow> nat \<Rightarrow> string \<Rightarrow> nat \<Rightarrow> nat" where
  "resolved dl h name old = (if name = [] then old else dlsym dl h name)"

lemma load_func_ok:
  "isopen l \<Longrightarrow> func_ok dl (lib_handle l) name \<Longrightarrow>
   load_func dl name old l = Inr (resolved dl (lib_handle l) name old, l)"
  by (auto simp: load_func_def findFunc_def func_ok_def resolved_def Let_def)

lemma load_func_fails:
  "isopen l \<Longrightarrow> lastErr l \<noteq> ErrLiteral \<Longrightarrow> \<not> func_ok dl (lib_handle l) name \<Longrightarrow>
   load_func dl name old l = Inl OutOfBounds"
  by (cases "lastErr l")
    (auto simp: load_func_def findFunc_def func_ok_def keep_error_def delete_err_def strcpy_new_def Let_def)

definition func_names :: "StringOptions list" where
  "func_names = [CONFIG_STRING_SEND_FUNC, CONFIG_STRING_RECV_FUNC, CONFIG_STRING_CONNECT_FUNC,
     CONFIG_STRING_DISCONNECT_FUNC, CONFIG_STRING_DELAYED_SEND_FUNC, CONFIG_STRING_DELAYED_RECV_FUNC,
     CONFIG_STRING_DELAYED_CONNECT_FUNC, CONFIG_STRING_DELAYED_DISCONNECT_FUNC,
     CONFIG_STRING_LOAD_FUNC, CONFIG_STRING_UNLOAD_FUNC]"

text \<open>The structure after loading: the symbol where a name is configured, the old value elsewhere.\<close>

definition loaded_funcs :: "linker \<Rightarrow> nat \<Rightarrow> application \<Rightarrow> proto_funcs \<Rightarrow> proto_funcs" where
  "loaded_funcs dl h a p =
     (let r = (\<lambda>c old. resolved dl h (StringConfigs a c) old)
      in \<lparr>pf_OnConnect = r CONFIG_STRING_CONNECT_FUNC (pf_OnConnect p),
          pf_OnRecieve = r CONFIG_STRING_RECV_FUNC (pf_OnRecieve p),
          pf_OnSend = r CONFIG_STRING_SEND_FUNC (pf_OnSend p),
          pf_OnDisconnect = r CONFIG_STRING_DISCONNECT_FUNC (pf_OnDisconnect p),
          pf_OnConnectDelayed = r CONFIG_STRING_DELAYED_CONNECT_FUNC (pf_OnConnectDelayed p),
          pf_OnRecieveDelayed = r CONFIG_STRING_DELAYED_RECV_FUNC (pf_OnRecieveDelayed p),
          pf_OnSendDelayed = r CONFIG_STRING_DELAYED_SEND_FUNC (pf_OnSendDelayed p),
          pf_OnDisconnectDelayed = r CONFIG_STRING_DELAYED_DISCONNECT_FUNC (pf_OnDisconnectDelayed p),
          pf_OnLoad = r CONFIG_STRING_LOAD_FUNC (pf_OnLoad p),
          pf_OnUnload = r CONFIG_STRING_UNLOAD_FUNC (pf_OnUnload p)\<rparr>)"

definition opened :: "linker \<Rightarrow> string \<Rightarrow> shared_library" where
  "opened dl path = SharedLibrary\<lparr>lib_handle := dlopen dl path, LibName := Some path, isopen := True\<rparr>"

lemma library_open_new:
  "dlopen dl path \<noteq> 0 \<Longrightarrow> library_open dl path SharedLibrary = Inr (True, opened dl path)"
  by (simp add: library_open_def SharedLibrary_def opened_def Let_def)

lemma opened_simps [simp]:
  "isopen (opened dl path)" "lib_handle (opened dl path) = dlopen dl path"
  "lastErr (opened dl path) = ErrNull" "dlclosed (opened dl path) = []"
  by (simp_all add: opened_def SharedLibrary_def)

lemma LoadLibrary_ok:
  assumes "StringConfigs a CONFIG_STRING_LIBRARY_PATH = path" and "path \<noteq> []" and "dlopen dl path \<noteq> 0"
    and "list_all (\<lambda>c. func_ok dl (dlopen dl path) (StringConfigs a c)) func_names"
  shows "LoadLibrary dl a p SharedLibrary =
    Inr (True, loaded_funcs dl (dlopen dl path) a p, opened dl path)"
  using assms(2-4)
  by (simp add: LoadLibrary_def assms(1) library_open_new func_names_def load_func_ok loaded_funcs_def Let_def)

text \<open>The first name that is not found ends the loading in undefined behaviour.\<close>

lemma load_all_fails:
  "isopen l \<Longrightarrow> lastErr l \<noteq> ErrLiteral \<Longrightarrow> \<not> func_ok dl (lib_handle l) name \<Longrightarrow>
   rbind (load_func dl name old l) k = Inl OutOfBounds"
  by (simp add: load_func_fails)

lemma load_step:
  "isopen l \<Longrightarrow> lastErr l \<noteq> ErrLiteral \<Longrightarrow>
   rbind (load_func dl name old l) k =
     (if func_ok dl (lib_handle l) name then k (resolved dl (lib_handle l) name old, l) else Inl OutOfBounds)"
  by (simp add: load_func_ok load_func_fails)

lemma LoadLibrary_total:
  assumes "StringConfigs a CONFIG_STRING_LIBRARY_PATH \<noteq> []"
  shows "LoadLibrary dl a p SharedLibrary =
    (let h = dlopen dl (StringConfigs a CONFIG_STRING_LIBRARY_PATH)
     in if h \<noteq> 0 \<and> list_all (\<lambda>c. func_ok dl h (StringConfigs a c)) func_names
        then Inr (True, loaded_funcs dl h a p, opened dl (StringConfigs a CONFIG_STRING_LIBRARY_PATH))
        else Inl OutOfBounds)"
proof -
  define path where "path = StringConfigs a CONFIG_STRING_LIBRARY_PATH"
  show ?thesis
  proof (cases "dlopen dl path = 0")
    case True
    then show ?thesis
      using assms by (simp add: LoadLibrary_def library_open_def SharedLibrary_def keep_error_def
          delete_err_def strcpy_new_def Let_def path_def)
  next
    case False
    show ?thesis
    proof (cases "list_all (\<lambda>c. func_ok dl (dlopen dl path) (StringConfigs a c)) func_names")
      case True
      then show ?thesis
        using False assms LoadLibrary_ok [OF path_def [symmetric]] by (simp add: path_def)
    next
      case nf: False
      then show ?thesis
        using False assms
        by (simp add: LoadLibrary_def library_open_new load_step func_names_def path_def [symmetric] Let_def)
    qed
  qed
qed

section \<open>Properties\<close>

text \<open>
  Loading the protocol library with a name for a missing function never ends in the error
  return that the code prepares: the copy of the linker's message is allocated one byte too short,
  so every failure of \<open>dlopen\<close> or \<open>dlsym\<close> writes past the end of an allocation.  When the library
  and all configured functions are found, each pointer whose name is configured holds its
  function, and every other pointer keeps what the uninitialised memory held.
\<close>
theorem library_loading:
  assumes "path = StringConfigs a CONFIG_STRING_LIBRARY_PATH" and "path \<noteq> []"
  shows "LoadLibrary dl a p SharedLibrary =
    (if dlopen dl path \<noteq> 0 \<and> list_all (\<lambda>c. func_ok dl (dlopen dl path) (StringConfigs a c)) func_names
     then Inr (True, loaded_funcs dl (dlopen dl path) a p, opened dl path)
     else Inl OutOfBounds)"
  using LoadLibrary_total [of a dl p] assms by (simp add: Let_def)

definition sample_linker :: linker where
  "sample_linker = \<lparr>dlopen = (\<lambda>p. if p = ''libftp.so'' then 9 else 0),
     dlsym = (\<lambda>h n. if n = ''processRecieve'' then 101 else 0), dlerror = ''undefined symbol''\<rparr>"

definition sample_settings :: "string \<Rightarrow> application" where
  "sample_settings recv = (application_with ''server'' [] [])\<lparr>StringConfigs :=
     (\<lambda>_. [])(CONFIG_STRING_LIBRARY_PATH := ''libftp.so'', CONFIG_STRING_RECV_FUNC := recv)\<rparr>"

definition sample_funcs :: proto_funcs where
  "sample_funcs = \<lparr>pf_OnConnect = 0, pf_OnRecieve = 0, pf_OnSend = 7777, pf_OnDisconnect = 0,
     pf_OnConnectDelayed = 0, pf_OnRecieveDelayed = 0, pf_OnSendDelayed = 0,
     pf_OnDisconnectDelayed = 0, pf_OnLoad = 0, pf_OnUnload = 0\<rparr>"

theorem library_loading_witness:
  "LoadLibrary sample_linker (sample_settings ''processRecieve'') sample_funcs SharedLibrary =
     Inr (True, sample_funcs\<lparr>pf_OnRecieve := 101\<rparr>, opened sample_linker ''libftp.so'')
   \<and> LoadLibrary sample_linker (sample_settings ''processReceive'') sample_funcs SharedLibrary = Inl OutOfBounds"
  using library_loading [of "''libftp.so''" "sample_settings ''processRecieve''" sample_linker sample_funcs]
    library_loading [of "''libftp.so''" "sample_settings ''processReceive''" sample_linker sample_funcs]
  by (simp add: sample_settings_def sample_linker_def sample_funcs_def func_names_def func_ok_def
      loaded_funcs_def resolved_def)

text \<open>
  The order of a successful start: the library is loaded and its \<open>OnLoad\<close> called before the
  server listens, the listening socket is bound to the configured port modulo \<open>2 ^ 16\<close> (so to the
  configured port exactly when it is below 65536), and the queue thread, number 0 of the table and
  active, exists before the loop begins.
\<close>
theorem startup_order:
  assumes "Update_start dl ina fd b li created a p SharedLibrary ThreadMgr =
      Inr (Started server q, acts, p', l, m)"
  shows "server = fd \<and> q = 0 \<and> 0 \<le> fd"
    and "isopen l \<and> GetThreadStatus_int q m = Inr THREAD_ACTIVE
      \<and> GetThreadStatus_named ''Queue'' m = Inr THREAD_ACTIVE"
    and "u16 (IntConfigs a CONFIG_INT_BIND_PORT) < 65536
      \<and> (0 \<le> IntConfigs a CONFIG_INT_BIND_PORT \<and> IntConfigs a CONFIG_INT_BIND_PORT < 65536 \<longleftrightarrow>
         int (u16 (IntConfigs a CONFIG_INT_BIND_PORT)) = IntConfigs a CONFIG_INT_BIND_PORT)"
    and "\<exists>rest. acts = (if pf_OnLoad p' = 0 then [] else [ActLoad (pf_OnLoad p')])
      @ [ActSys (SysSetReuse fd), ActSys (SysNonBlock fd),
         ActSys (SysBind fd (u16 (IntConfigs a CONFIG_INT_BIND_PORT)) (ina (StringConfigs a CONFIG_STRING_BIND_IP))),
         ActSys (SysListen fd 1024), ActSignals, ActQueueThread 0] @ rest"
proof -
  obtain p1 l1 where load: "LoadLibrary dl a p SharedLibrary = Inr (True, p1, l1)" "lastErr l1 = ErrNull"
    using assms by (auto simp: Update_start_def res_simps split: if_splits)
  let ?path = "StringConfigs a CONFIG_STRING_LIBRARY_PATH"
  have ne: "?path \<noteq> []" using load(1) by (auto simp: LoadLibrary_def)
  have l1: "l1 = opened dl ?path"
    using load(1) LoadLibrary_total [OF ne, of dl p] by (simp add: Let_def split: if_splits)
  obtain h where h: "created = Some h"
    using assms load by (cases created) (auto simp: Update_start_def InitServerSocket_def Let_def
        CreateThread_named_def CreateThread_def split: if_splits)
  have all: "server = fd \<and> q = 0 \<and> 0 \<le> fd \<and> p' = p1 \<and> l = l1
    \<and> m = snd (CreateThread_named ''Queue'' (Some h) ThreadMgr)
    \<and> (\<exists>rest. acts = (if pf_OnLoad p1 = 0 then [] else [ActLoad (pf_OnLoad p1)])
      @ map ActSys [SysSetReuse fd, SysNonBlock fd,
         SysBind fd (u16 (IntConfigs a CONFIG_INT_BIND_PORT)) (ina (StringConfigs a CONFIG_STRING_BIND_IP)),
         SysListen fd 1024] @ [ActSignals, ActQueueThread 0] @ rest)"
    using assms load h
    by (auto simp: Update_start_def InitServerSocket_def Let_def CreateThread_named_def CreateThread_def
        ThreadMgr_def split: if_splits)
  then show "server = fd \<and> q = 0 \<and> 0 \<le> fd" by blast
  show "isopen l \<and> GetThreadStatus_int q m = Inr THREAD_ACTIVE
      \<and> GetThreadStatus_named ''Queue'' m = Inr THREAD_ACTIVE"
    using all l1 by (simp add: CreateThread_named_def CreateThread_def ThreadMgr_def names_insert_def
        GetThreadStatus_int_def GetThreadStatus_def GetThreadStatus_named_def GetThreadIdByName_def getThread_Inr)
  show "u16 (IntConfigs a CONFIG_INT_BIND_PORT) < 65536
      \<and> (0 \<le> IntConfigs a CONFIG_INT_BIND_PORT \<and> IntConfigs a CONFIG_INT_BIND_PORT < 65536 \<longleftrightarrow>
         int (u16 (IntConfigs a CONFIG_INT_BIND_PORT)) = IntConfigs a CONFIG_INT_BIND_PORT)"
    by (auto simp: u16_def)
  show "\<exists>rest. acts = (if pf_OnLoad p' = 0 then [] else [ActLoad (pf_OnLoad p')])
      @ [ActSys (SysSetReuse fd), ActSys (SysNonBlock fd),
         ActSys (SysBind fd (u16 (IntConfigs a CONFIG_INT_BIND_PORT)) (ina (StringConfigs a CONFIG_STRING_BIND_IP))),
         ActSys (SysListen fd 1024), ActSignals, ActQueueThread 0] @ rest"
    using all by (auto split: if_splits)
qed

theorem startup_order_witness:
  "\<exists>p l m. Update_start sample_linker (\<lambda>_. 0) 4 0 0 (Some 70) (sample_settings ''processRecieve'')
      sample_funcs SharedLibrary ThreadMgr =
      Inr (Started 4 0, map ActSys [SysSetReuse 4, SysNonBlock 4, SysBind 4 0 0, SysListen 4 1024]
             @ [ActSignals, ActQueueThread 0], p, l, m)
    \<and> GetThreadStatus_named ''Queue'' m = Inr THREAD_ACTIVE"
proof -
  let ?m = "snd (CreateThread_named ''Queue'' (Some 70) ThreadMgr)"
  have s: "Update_start sample_linker (\<lambda>_. 0) 4 0 0 (Some 70) (sample_settings ''processRecieve'')
      sample_funcs SharedLibrary ThreadMgr =
      Inr (Started 4 0, map ActSys [SysSetReuse 4, SysNonBlock 4, SysBind 4 0 0, SysListen 4 1024]
             @ [ActSignals, ActQueueThread 0], sample_funcs\<lparr>pf_OnRecieve := 101\<rparr>,
             opened sample_linker ''libftp.so'', ?m)"
    using LoadLibrary_total [of "sample_settings ''processRecieve''" sample_linker sample_funcs]
    by (simp add: sample_settings_def sample_linker_def sample_funcs_def func_names_def func_ok_def
      loaded_funcs_def resolved_def Update_start_def InitServerSocket_def CreateThread_named_def
      CreateThread_def ThreadMgr_def application_with_def u16_def)
  show ?thesis using s startup_order(2) [OF s] by auto
qed

text \<open>
  The end of \<open>Update\<close> unloads the code that the queue thread still runs: \<open>OnUnload\<close> is called
  and the library closed, then all sockets and the server socket are closed, and only then the
  queue thread is joined; it is joined twice, and the second join is of a thread that has gone.
  \<open>close\<close> does not mark the library as closed, so the destructor closes the same handle again.
\<close>
theorem unloaded_before_join:
  assumes "isopen l" and "0 \<le> q" and "nat q < length (pThreads m)"
  shows "Update_end r server q p l c m =
    Inr ((if pf_OnUnload p \<noteq> 0 then [ActUnload (pf_OnUnload p)] else [])
         @ [ActLibraryClosed (lib_handle l), ActSocketsClosed (map (\<lambda>n. sock_fd (node_sock n)) (sockets c)),
            ActServerClosed server,
            ActJoin (Join (th_handle (pThreads m ! nat q))), ActJoin (Join (th_handle (pThreads m ! nat q)))],
         library_close l, CloseAllSockets c)
    \<and> dlclosed (library_close (library_close l)) = dlclosed l @ [lib_handle l, lib_handle l]"
  using assms
  by (simp_all add: Update_end_def library_close_def CloseAllSockets_def close_all_loop_keys
      JoinThead_def getThread_Inr Let_def)

theorem unloaded_before_join_witness:
  "Update_end (\<lambda>_. 0) 4 0 sample_funcs (opened sample_linker ''libftp.so'') ConnectionMgr queue_mgr =
    Inr ([ActLibraryClosed 9, ActSocketsClosed [], ActServerClosed 4, ActJoin (Join 70), ActJoin (Join 70)],
         library_close (opened sample_linker ''libftp.so''), CloseAllSockets ConnectionMgr)"
  using unloaded_before_join [of "opened sample_linker ''libftp.so''" 0 queue_mgr "\<lambda>_. 0" 4 sample_funcs ConnectionMgr]
  by (simp add: queue_mgr_simps sample_funcs_def ConnectionMgr_def sample_linker_def)

section \<open>The freeze detector\<close>

lemma freeze_loop_slept:
  "freeze_loop d vs = Inr (e, acts) \<Longrightarrow> Slept s \<in> set acts \<Longrightarrow>
   \<exists>v \<in> set vs. see_diff v \<le> d \<and> s = usleep (usub64 d (see_sleep v))"
proof (induction vs arbitrary: e acts)
  case (Cons v vs)
  then show ?case by (fastforce simp: res_simps split: if_splits)
qed simp

lemma freeze_loop_frozen:
  "(\<forall>v \<in> set vs. \<not> see_exit v) \<Longrightarrow> (freeze_loop d vs = Inl AssertFail) = (\<exists>v \<in> set vs. d < see_diff v)
   \<and> ((\<exists>acts. freeze_loop d vs = Inr (False, acts)) = (\<forall>v \<in> set vs. see_diff v \<le> d))"
proof (induction vs)
  case (Cons v vs)
  then show ?case by (auto simp: res_simps)
qed simp

text \<open>
  What the freeze detector does while it is not told to exit.  It ends the server exactly when
  it sees a round of the queue that took longer than the limit.  Between two looks it sleeps: if
  the time does not change between the comparison and the sleep, at most the limit, in
  microseconds; a rest of a second or more is refused by \<open>nanosleep\<close>, so the thread does not
  sleep at all.  Before \<open>Execute\<close> has stored the thread, \<open>Run\<close> goes through a NULL pointer.
\<close>
theorem freeze_detector_bounds:
  assumes "list_all (\<lambda>v. \<not> see_exit v) vs" and "d < 2 ^ 32"
  shows "FreezeDetector_Run True d vs = Inl AssertFail \<longleftrightarrow> list_ex (\<lambda>v. d < see_diff v) vs"
    and "FreezeDetector_Run True d vs = Inr (e, acts) \<Longrightarrow> list_all (\<lambda>v. see_sleep v = see_diff v) vs \<Longrightarrow>
      Slept s \<in> set acts \<Longrightarrow>
      \<exists>t \<le> d. s = (if t < 1000000 then Some (t * 1000) else None)"
    and "FreezeDetector_Run False d vs = Inl NullPointer"
proof -
  show "FreezeDetector_Run True d vs = Inl AssertFail \<longleftrightarrow> list_ex (\<lambda>v. d < see_diff v) vs"
    using freeze_loop_frozen [of vs d] assms(1) by (simp add: FreezeDetector_Run_def list_all_iff list_ex_iff)
  show "FreezeDetector_Run False d vs = Inl NullPointer" by (simp add: FreezeDetector_Run_def)
next
  assume run: "FreezeDetector_Run True d vs = Inr (e, acts)" "list_all (\<lambda>v. see_sleep v = see_diff v) vs"
    "Slept s \<in> set acts"
  then obtain v where v: "v \<in> set vs" "see_diff v \<le> d" "s = usleep (usub64 d (see_sleep v))"
    using freeze_loop_slept [of d vs e acts s] by (auto simp: FreezeDetector_Run_def)
  then have "s = usleep (d - see_diff v)" using run(2) by (simp add: list_all_iff)
  moreover have "d - see_diff v < 2 ^ 32" using assms(2) by simp
  ultimately show "\<exists>t \<le> d. s = (if t < 1000000 then Some (t * 1000) else None)"
    by (intro exI [of _ "d - see_diff v"]) (auto simp: usleep_def slept_def IN_MICROSECONDS_def)
qed

theorem freeze_detector_bounds_witness:
  "FreezeDetector_Run True 300000 [\<lparr>see_exit = False, see_diff = 300001, see_pause = False, see_sleep = 0\<rparr>] =
     Inl AssertFail"
  by (subst freeze_detector_bounds(1)) simp_all

end
