(* ===== verification/Network.thy ===== *)
theory Network
  imports Startup
begin

text \<open>
  \<open>Application::Update\<close>: the loop of the network thread, one round at a time.  A round waits in
  \<open>select\<close>, accepts at most one client, receives once from every socket that is ready, turns what
  happens into events of the \<open>PacketHandler\<close>, wakes the queue thread, and works off the sockets
  that wait to be closed.

  The inputs of a round are the answers of the kernel: the value of \<open>select\<close> and the descriptors
  it leaves in the set, the answers of \<open>accept\<close> and of \<open>recv\<close>, and the time.  Lines of debug
  output have no effect on the state.  Objects made with \<open>new\<close> get the next free reference of the
  handler's heap.
\<close>

section \<open>State\<close>

record net_env =
  ne_server :: int
  ne_queue :: int
  ne_proto :: protocol
  ne_ints :: "IntOptions \<Rightarrow> int"

record network =
  nw_mgr :: conn_mgr
  nw_handler :: handler
  nw_set :: "int set"
  nw_addr :: "int \<rightharpoonup> nat"
  nw_next :: nat
  nw_threads :: thread_mgr
  nw_signals :: "pthread_call list"
  nw_last :: timeval
  nw_diff :: nat

record net_input =
  ni_now :: timeval
  ni_select :: int
  ni_ready :: "int list"
  ni_accept :: "int + (int \<times> nat)"   \<comment> \<open>the error number, or descriptor and address\<close>
  ni_recv :: "int \<Rightarrow> recv_event"

section \<open>Descriptor sets and events\<close>

text \<open>An \<open>fd_set\<close> has 1024 bits; \<open>FD_SET\<close> does not check its argument.\<close>

definition FD_SET :: "int \<Rightarrow> int set \<Rightarrow> int set res" where
  "FD_SET fd s = (if 0 \<le> fd \<and> fd < 1024 then Inr (insert fd s) else Inl OutOfBounds)"

definition FD_CLR :: "int \<Rightarrow> int set \<Rightarrow> int set" where
  "FD_CLR fd s = s - {fd}"

definition new_data :: "bindata \<Rightarrow> network \<Rightarrow> nat \<times> network" where
  "new_data d nw =
     (nw_next nw,
      nw\<lparr>nw_handler := (nw_handler nw)\<lparr>heap := (heap (nw_handler nw))(nw_next nw \<mapsto> d)\<rparr>,
         nw_next := Suc (nw_next nw)\<rparr>)"

definition resume_queue :: "net_env \<Rightarrow> network \<Rightarrow> network res" where
  "resume_queue env nw =
     rbind (GetThreadStatus_int (ne_queue env) (nw_threads nw)) (\<lambda>status.
       if status = THREAD_SUSPENDED then
         rbind (ResumeThread (\<lambda>_. 0) (nat (ne_queue env)) (nw_threads nw)) (\<lambda>(_, cs).
           Inr (nw\<lparr>nw_signals := nw_signals nw @ cs\<rparr>))
       else Inr nw)"

definition raise_event :: "net_env \<Rightarrow> event \<Rightarrow> network \<Rightarrow> network res" where
  "raise_event env e nw =
     resume_queue env (nw\<lparr>nw_handler := AddEvent e (nw_handler nw)\<rparr>)"

definition raise_delayed :: "net_env \<Rightarrow> timeval \<Rightarrow> IntOptions \<Rightarrow> event \<Rightarrow> network \<Rightarrow> network res" where
  "raise_delayed env now delay e nw =
     resume_queue env (nw\<lparr>nw_handler :=
       AddDelayedEvent (DelayedEvent now (wrap64 (ne_ints env delay)) e) (nw_handler nw)\<rparr>)"

text \<open>An event made without data refers to a new empty object.\<close>

definition plain_event :: "event_type \<Rightarrow> int \<Rightarrow> nat \<Rightarrow> network \<Rightarrow> event \<times> network" where
  "plain_event t fd addr nw =
     (let (r, nw) = new_data bd_init nw
      in (\<lparr>EventType = t, ev_fd = fd, ev_address = addr, ev_data = r, ev_recieved = 0, ev_errorcode = 0\<rparr>, nw))"

section \<open>A new client\<close>

definition accept_client ::
  "net_env \<Rightarrow> timeval \<Rightarrow> int \<Rightarrow> int + (int \<times> nat) \<Rightarrow> network \<Rightarrow> (bool \<times> network) res" where
  "accept_client env now junk acc nw =
     (case acc of
        Inl errno \<Rightarrow> Inr (True, nw)
      | Inr (fd, addr) \<Rightarrow>
          (let nw = nw\<lparr>nw_addr := (if find_key (sockets (nw_mgr nw)) fd = None
                                   then (nw_addr nw)(fd \<mapsto> addr) else nw_addr nw),
                       nw_mgr := AddSocket (Socket junk fd) (nw_mgr nw)\<rparr>
           in rbind (if hasConnect (ne_proto env)
                     then (let (e, nw) = plain_event EVENT_CONNECT fd addr nw in raise_event env e nw)
                     else Inr nw) (\<lambda>nw.
              rbind (if hasConnectDelayed (ne_proto env)
                     then (let (e, nw) = plain_event EVENT_CONNECT_DELAYED fd addr nw
                           in raise_delayed env now CONFIG_INT_DELAYED_SEND_DELAY e nw)
                     else Inr nw) (\<lambda>nw.
              rbind (FD_SET fd (nw_set nw)) (\<lambda>s. Inr (False, nw\<lparr>nw_set := s\<rparr>))))))"

section \<open>A socket that is ready\<close>

definition set_sock :: "nat \<Rightarrow> sock \<Rightarrow> conn_mgr \<Rightarrow> conn_mgr" where
  "set_sock i so m =
     m\<lparr>sockets := map (\<lambda>n. if node_id n = i then n\<lparr>node_sock := so\<rparr> else n) (sockets m)\<rparr>"

definition EBADF :: int where "EBADF = 9"

definition peer_addr :: "int \<Rightarrow> network \<Rightarrow> nat" where
  "peer_addr fd nw = (case nw_addr nw fd of Some a \<Rightarrow> a | None \<Rightarrow> 0)"

text \<open>\<open>recieved == 0\<close>: the socket is queued for closing and the protocol told.\<close>

definition socket_ended :: "net_env \<Rightarrow> timeval \<Rightarrow> nat \<Rightarrow> network \<Rightarrow> network res" where
  "socket_ended env now i nw =
     rbind (deref (nw_mgr nw) (NodeAt i)) (\<lambda>n.
     rbind (CloseSocketByFd (sock_fd (node_sock n)) (nw_mgr nw)) (\<lambda>m.
     rbind (deref m (NodeAt i)) (\<lambda>n.
       let fd = node_key n; addr = peer_addr fd nw;
           nw = nw\<lparr>nw_mgr := m, nw_set := FD_CLR (sock_fd (node_sock n)) (nw_set nw)\<rparr>
       in rbind (if hasDisconnect (ne_proto env)
                 then (let (e, nw) = plain_event EVENT_DISCONNECT fd addr nw in raise_event env e nw)
                 else Inr nw) (\<lambda>nw.
          if hasDisconnectDelayed (ne_proto env)
          then (let (e, nw) = plain_event EVENT_DISCONNECT_DELAYED fd addr nw
                in raise_delayed env now CONFIG_INT_DELAYED_DISCONNECT_DELAY e nw)
          else Inr nw))))"

text \<open>\<open>recieved > 0\<close>: the data object goes to the immediate and to the delayed event.\<close>

definition socket_data :: "net_env \<Rightarrow> timeval \<Rightarrow> nat \<Rightarrow> nat \<Rightarrow> int \<Rightarrow> network \<Rightarrow> network res" where
  "socket_data env now i r recieved nw =
     rbind (deref (nw_mgr nw) (NodeAt i)) (\<lambda>n.
       let e = \<lparr>EventType = EVENT_RECIEVE, ev_fd = node_key n, ev_address = peer_addr (node_key n) nw,
                ev_data = r, ev_recieved = recieved, ev_errorcode = sock_error (node_sock n)\<rparr>
       in rbind (if hasRecieve (ne_proto env) then raise_event env e nw else Inr nw) (\<lambda>nw.
          if hasRecieveDelayed (ne_proto env)
          then raise_delayed env now CONFIG_INT_DELAYED_DISCONNECT_DELAY
                 (e\<lparr>EventType := EVENT_RECIEVE_DELAYED\<rparr>) nw
          else Inr nw))"

definition socket_error :: "nat \<Rightarrow> network \<Rightarrow> network res" where
  "socket_error i nw =
     rbind (deref (nw_mgr nw) (NodeAt i)) (\<lambda>n.
       if sock_error (node_sock n) = EBADF then
         rbind (CloseSocketByFd (sock_fd (node_sock n)) (nw_mgr nw)) (\<lambda>m.
           Inr (nw\<lparr>nw_mgr := m, nw_set := FD_CLR (sock_fd (node_sock n)) (nw_set nw)\<rparr>))
       else Inr nw)"

definition serve_socket :: "net_env \<Rightarrow> timeval \<Rightarrow> recv_event \<Rightarrow> nat \<Rightarrow> network \<Rightarrow> network res" where
  "serve_socket env now rcv i nw =
     rbind (deref (nw_mgr nw) (NodeAt i)) (\<lambda>n.
     rbind (reserve bd_init (16 * 1024)) (\<lambda>d.
     rbind (Recieve_data rcv (node_sock n) d) (\<lambda>(recieved, d, so).
       let (r, nw) = new_data d nw;
           nw = nw\<lparr>nw_mgr := set_sock i so (nw_mgr nw)\<rparr>
       in if recieved = 0 then socket_ended env now i nw
          else if recieved > 0 then socket_data env now i r recieved nw
          else socket_error i nw)))"

text \<open>The loop over the table; \<open>is\<close> are the nodes from the iterator on, \<open>r\<close> the rest of the count.\<close>

fun recv_loop :: "net_env \<Rightarrow> net_input \<Rightarrow> int \<Rightarrow> nat list \<Rightarrow> network \<Rightarrow> network res" where
  "recv_loop env inp r [] nw = Inr nw"
| "recv_loop env inp r (i # is) nw =
     (if r = 0 then Inr nw
      else
        rbind (deref (nw_mgr nw) (NodeAt i)) (\<lambda>n.
          if sock_fd (node_sock n) \<in> set (ni_ready inp) then
            rbind (serve_socket env (ni_now inp) (ni_recv inp (sock_fd (node_sock n))) i nw)
              (recv_loop env inp (r - 1) is)
          else recv_loop env inp r is nw))"

section \<open>One round\<close>

definition nfds :: "net_env \<Rightarrow> network \<Rightarrow> int res" where
  "nfds env nw =
     rbind (GetHighestFd (nw_mgr nw)) (\<lambda>h. Inr ((if h > ne_server env then h else ne_server env) + 1))"

definition close_pending :: "network \<Rightarrow> network res" where
  "close_pending nw = rbind (CloseAllPendingSockets (nw_mgr nw)) (\<lambda>m. Inr (nw\<lparr>nw_mgr := m\<rparr>))"

definition network_round :: "net_env \<Rightarrow> int \<Rightarrow> net_input \<Rightarrow> network \<Rightarrow> network res" where
  "network_round env junk inp nw =
     rbind (nfds env nw) (\<lambda>_.
       let nw = nw\<lparr>nw_diff := getMsTimeDiffToNow (ni_now inp) (nw_last nw), nw_last := ni_now inp\<rparr>;
           r = ni_select inp
       in if r = 0 then Inr nw
          else
            rbind (if ne_server env \<in> set (ni_ready inp)
                   then rbind (accept_client env (ni_now inp) junk (ni_accept inp) nw) (\<lambda>(again, nw).
                          Inr (again, r - 1, nw))
                   else Inr (False, r, nw)) (\<lambda>(again, r, nw).
              if again then Inr nw
              else
                rbind (if r > 0
                       then recv_loop env inp r (map node_id (sockets (nw_mgr nw))) nw
                       else Inr nw) close_pending))"

definition network_start :: "int \<Rightarrow> thread_mgr \<Rightarrow> timeval \<Rightarrow> network" where
  "network_start server threads now =
     \<lparr>nw_mgr = ConnectionMgr, nw_handler = PacketHandler, nw_set = {server}, nw_addr = Map.empty,
      nw_next = 0, nw_threads = threads, nw_signals = [], nw_last = now, nw_diff = 0\<rparr>"

text \<open>\<open>Application::Terminate\<close>, called by the signal handler.\<close>

definition Terminate :: "network \<Rightarrow> network res" where
  "Terminate nw =
     (let nw = nw\<lparr>nw_handler := Terminate_handler (nw_handler nw)\<rparr>
      in rbind (GetThreadStatus_named ''Queue'' (nw_threads nw)) (\<lambda>status.
           if status = THREAD_SUSPENDED then
             rbind (ResumeThread_named (\<lambda>_. 0) ''Queue'' (nw_threads nw)) (\<lambda>(_, cs).
               Inr (nw\<lparr>nw_signals := nw_signals nw @ cs\<rparr>))
           else Inr nw))"

end
