(* ===== verification/NetworkProps.thy ===== *)
theory NetworkProps
  imports Network
begin

text \<open>
  Rounds of the network thread.  \<open>extends\<close> relates two states when the second has some more events
  in its queue, whose data objects are new; \<open>net_inv\<close> is the invariant of the table, the descriptor
  set and the heap; \<open>round_calls\<close> is the specification of a round: the calls into the protocol
  library that it leads to.
\<close>

section \<open>Resuming the queue thread\<close>

definition threads_ok :: "net_env \<Rightarrow> network \<Rightarrow> bool" where
  "threads_ok env nw \<longleftrightarrow> 0 \<le> ne_queue env \<and> nat (ne_queue env) < length (pThreads (nw_threads nw))"

lemma threads_ok_other [simp]:
  "threads_ok env (nw\<lparr>nw_mgr := m\<rparr>) = threads_ok env nw"
  "threads_ok env (nw\<lparr>nw_set := s\<rparr>) = threads_ok env nw"
  "threads_ok env (nw\<lparr>nw_addr := f\<rparr>) = threads_ok env nw"
  "threads_ok env (nw\<lparr>nw_diff := d\<rparr>) = threads_ok env nw"
  "threads_ok env (nw\<lparr>nw_last := t\<rparr>) = threads_ok env nw"
  "threads_ok env (nw\<lparr>nw_handler := h\<rparr>) = threads_ok env nw"
  by (simp_all add: threads_ok_def)

definition resume_calls :: "net_env \<Rightarrow> thread_mgr \<Rightarrow> pthread_call list" where
  "resume_calls env m =
     (let t = pThreads m ! nat (ne_queue env)
      in if th_status t = THREAD_SUSPENDED then [Kill (th_handle t) SIGCONT] else [])"

lemma resume_queue_eq:
  "threads_ok env nw \<Longrightarrow>
   resume_queue env nw = Inr (nw\<lparr>nw_signals := nw_signals nw @ resume_calls env (nw_threads nw)\<rparr>)"
  by (simp add: resume_queue_def threads_ok_def GetThreadStatus_int_def GetThreadStatus_def
      ResumeThread_def SendSignalToThread_def getThread_Inr resume_calls_def Let_def)

section \<open>States with more events\<close>

definition extends :: "network \<Rightarrow> network \<Rightarrow> event list \<Rightarrow> bool" where
  "extends nw nw' evs \<longleftrightarrow>
     ev_queue (nw_handler nw') = ev_queue (nw_handler nw) @ evs
     \<and> delayedQueue (nw_handler nw') = delayedQueue (nw_handler nw)
     \<and> process (nw_handler nw') = process (nw_handler nw)
     \<and> calls (nw_handler nw') = calls (nw_handler nw)
     \<and> nw_next nw \<le> nw_next nw'
     \<and> (\<forall>r < nw_next nw. heap (nw_handler nw') r = heap (nw_handler nw) r)
     \<and> distinct (refs evs)
     \<and> (\<forall>r \<in> set (refs evs). nw_next nw \<le> r \<and> r < nw_next nw' \<and> heap (nw_handler nw') r \<noteq> None)
     \<and> nw_threads nw' = nw_threads nw"

lemma refs_append [simp]: "refs (a @ b) = refs a @ refs b"
  by (simp add: refs_def)

lemma refs_Nil [simp]: "refs [] = []"
  by (simp add: refs_def)

lemma refs_plain [simp]: "\<not> owns_data e \<Longrightarrow> refs (e # es) = refs es"
  by (simp add: refs_def)

lemma refs_data [simp]: "owns_data e \<Longrightarrow> refs (e # es) = ev_data e # refs es"
  by (simp add: refs_def)

lemma extends_refl: "extends nw nw []"
  by (simp add: extends_def)

lemma extends_trans:
  assumes "extends a b es" and "extends b c fs"
  shows "extends a c (es @ fs)"
proof -
  have "set (refs es) \<inter> set (refs fs) = {}"
    using assms by (force simp: extends_def)
  then show ?thesis using assms by (auto simp: extends_def)
qed

text \<open>Fields that \<open>extends\<close> does not look at.\<close>

lemma extends_other [simp]:
  "extends a (b\<lparr>nw_mgr := m\<rparr>) es = extends a b es"
  "extends a (b\<lparr>nw_set := s\<rparr>) es = extends a b es"
  "extends a (b\<lparr>nw_addr := f\<rparr>) es = extends a b es"
  "extends a (b\<lparr>nw_signals := l\<rparr>) es = extends a b es"
  "extends a (b\<lparr>nw_diff := d\<rparr>) es = extends a b es"
  "extends a (b\<lparr>nw_last := t\<rparr>) es = extends a b es"
  "extends (a\<lparr>nw_mgr := m\<rparr>) b es = extends a b es"
  "extends (a\<lparr>nw_set := s\<rparr>) b es = extends a b es"
  "extends (a\<lparr>nw_addr := f\<rparr>) b es = extends a b es"
  "extends (a\<lparr>nw_diff := d\<rparr>) b es = extends a b es"
  "extends (a\<lparr>nw_last := t\<rparr>) b es = extends a b es"
  by (simp_all add: extends_def)

lemma call_of_heap: "(owns_data e \<Longrightarrow> hp (ev_data e) = hp' (ev_data e)) \<Longrightarrow> call_of p hp e = call_of p hp' e"
  by (cases "owns_data e") (simp_all add: call_of_def, simp add: call_of_plain [unfolded call_of_def])

text \<open>The calls of events stay the same when later events come.\<close>

lemma extends_calls:
  assumes "extends a b es" and "extends b c fs"
  shows "map (call_of p (heap (nw_handler c))) es = map (call_of p (heap (nw_handler b))) es"
proof (rule map_cong [OF refl])
  fix e assume e: "e \<in> set es"
  show "call_of p (heap (nw_handler c)) e = call_of p (heap (nw_handler b)) e"
  proof (rule call_of_heap)
    assume "owns_data e"
    then have "ev_data e \<in> set (refs es)" using e by (auto simp: refs_def)
    then show "heap (nw_handler c) (ev_data e) = heap (nw_handler b) (ev_data e)"
      using assms by (auto simp: extends_def)
  qed
qed

definition calls_of :: "protocol \<Rightarrow> network \<Rightarrow> event list \<Rightarrow> call list" where
  "calls_of p nw es = concat (map (call_of p (heap (nw_handler nw))) es)"

lemma calls_of_Nil [simp]: "calls_of p nw [] = []"
  by (simp add: calls_of_def)

lemma calls_of_trans:
  "extends a b es \<Longrightarrow> extends b c fs \<Longrightarrow> calls_of p c (es @ fs) = calls_of p b es @ calls_of p c fs"
  by (simp add: calls_of_def extends_calls)

lemma calls_of_other [simp]:
  "calls_of p (nw\<lparr>nw_mgr := m\<rparr>) es = calls_of p nw es"
  "calls_of p (nw\<lparr>nw_set := s\<rparr>) es = calls_of p nw es"
  "calls_of p (nw\<lparr>nw_signals := l\<rparr>) es = calls_of p nw es"
  by (simp_all add: calls_of_def)

section \<open>Raising events\<close>

lemma new_data_simps [simp]:
  "nw_mgr (snd (new_data d nw)) = nw_mgr nw" "nw_set (snd (new_data d nw)) = nw_set nw"
  "nw_addr (snd (new_data d nw)) = nw_addr nw" "nw_threads (snd (new_data d nw)) = nw_threads nw"
  "fst (new_data d nw) = nw_next nw"
  by (simp_all add: new_data_def)

lemma new_data_extends: "extends nw (snd (new_data d nw)) []"
  by (simp add: new_data_def extends_def)

lemma raise_event_extends:
  assumes "threads_ok env nw" and "owns_data e \<Longrightarrow> extends nw0 nw [] \<and> nw_next nw0 \<le> ev_data e
      \<and> ev_data e < nw_next nw \<and> heap (nw_handler nw) (ev_data e) \<noteq> None"
    and "extends nw0 nw []"
  shows "\<exists>nw'. raise_event env e nw = Inr nw' \<and> extends nw0 nw' [e] \<and> nw_mgr nw' = nw_mgr nw
    \<and> nw_set nw' = nw_set nw \<and> nw_addr nw' = nw_addr nw \<and> heap (nw_handler nw') = heap (nw_handler nw)"
proof -
  let ?nw = "nw\<lparr>nw_handler := AddEvent e (nw_handler nw)\<rparr>"
  have "threads_ok env ?nw" using assms(1) by (simp add: threads_ok_def)
  then have "raise_event env e nw = Inr (?nw\<lparr>nw_signals := nw_signals nw @ resume_calls env (nw_threads nw)\<rparr>)"
    by (simp add: raise_event_def resume_queue_eq)
  moreover have "extends nw0 ?nw [e]"
  proof (cases "owns_data e")
    case True
    then show ?thesis
      using assms by (auto simp: extends_def AddEvent_def)
  next
    case False
    then show ?thesis
      using assms by (auto simp: extends_def AddEvent_def)
  qed
  ultimately show ?thesis by (simp add: AddEvent_def)
qed

text \<open>An event without data: one new object that the event refers to but nobody deletes.\<close>

definition raise_plain :: "net_env \<Rightarrow> event_type \<Rightarrow> int \<Rightarrow> nat \<Rightarrow> network \<Rightarrow> network res" where
  "raise_plain env t fd addr nw = (let (e, nw) = plain_event t fd addr nw in raise_event env e nw)"

lemma raise_plain_extends:
  assumes "threads_ok env nw" and "t \<in> {EVENT_CONNECT, EVENT_DISCONNECT}"
  shows "\<exists>nw' e. raise_plain env t fd addr nw = Inr nw' \<and> extends nw nw' [e] \<and> nw_mgr nw' = nw_mgr nw
    \<and> nw_set nw' = nw_set nw \<and> nw_addr nw' = nw_addr nw
    \<and> EventType e = t \<and> ev_fd e = fd \<and> ev_address e = addr \<and> \<not> owns_data e"
proof -
  let ?e = "\<lparr>EventType = t, ev_fd = fd, ev_address = addr, ev_data = nw_next nw,
             ev_recieved = 0, ev_errorcode = 0\<rparr>"
  let ?nw = "snd (new_data bd_init nw)"
  have p: "plain_event t fd addr nw = (?e, ?nw)"
    by (simp add: plain_event_def new_data_def)
  have o': "\<not> owns_data ?e" using assms(2) by (auto simp: owns_data_def)
  have "threads_ok env ?nw" using assms(1) by (simp add: threads_ok_def)
  from raise_event_extends [OF this _ new_data_extends, of ?e] o' show ?thesis
    by (fastforce simp: raise_plain_def p)
qed

section \<open>What one recv gives\<close>

definition block_size :: nat where
  "block_size = 16 * 1024"

definition got :: "recv_event \<Rightarrow> string" where
  "got rcv = (case rcv of Data bs \<Rightarrow> take block_size bs | _ \<Rightarrow> [])"

definition filled :: "string \<Rightarrow> bindata" where
  "filled bs = bd_init\<lparr>bd_data := Some (bs @ replicate (block_size - length bs) nul),
     maxLength := block_size\<rparr>"

definition ended :: "recv_event \<Rightarrow> bool" where
  "ended rcv \<longleftrightarrow> (case rcv of Data bs \<Rightarrow> bs = [] | Eof \<Rightarrow> True | RecvErr e \<Rightarrow> False)"

definition closes :: "recv_event \<Rightarrow> bool" where
  "closes rcv \<longleftrightarrow> ended rcv \<or> rcv = RecvErr EBADF"

lemma reserve_block: "reserve bd_init (16 * 1024) = Inr (filled [])"
  by (simp add: reserve_def bd_init_def filled_def block_size_def)

lemma length_got: "length (got rcv) \<le> block_size"
  by (simp add: got_def split: recv_event.splits)

lemma wr_filled: "length bs \<le> block_size \<Longrightarrow> wr_bytes (filled []) 0 bs = Inr (filled bs)"
  by (simp add: wr_bytes_def filled_def)

lemma filled_max [simp]: "maxLength (filled bs) = block_size"
  by (simp add: filled_def)

lemma Recieve_block:
  "\<exists>so'. Recieve_data rcv so (filled []) =
      Inr (if ended rcv then 0 else case rcv of RecvErr e \<Rightarrow> -1 | _ \<Rightarrow> int (length (got rcv)),
           filled (got rcv), so')
    \<and> sock_fd so' = sock_fd so \<and> (\<forall>e. rcv = RecvErr e \<longrightarrow> sock_error so' = e)"
proof (cases rcv)
  case (Data bs)
  have "block_size \<noteq> 0" by (simp add: block_size_def)
  then have "(take block_size bs = []) = (bs = [])" by simp
  then show ?thesis
    using Data wr_filled [OF length_got, of rcv]
    by (auto simp: Recieve_data_def Socket_Recieve_def Let_def got_def ended_def)
next
  case Eof
  then show ?thesis
    using wr_filled [of "[]"] by (simp add: Recieve_data_def Socket_Recieve_def got_def ended_def)
next
  case (RecvErr e)
  then show ?thesis
    using wr_filled [of "[]"] by (simp add: Recieve_data_def Socket_Recieve_def got_def ended_def)
qed

lemma got_nonempty: "\<not> ended rcv \<Longrightarrow> (\<forall>e. rcv \<noteq> RecvErr e) \<Longrightarrow> 0 < length (got rcv)"
  by (cases rcv) (auto simp: ended_def got_def block_size_def)

section \<open>The table\<close>

lemma set_sock_ids [simp]: "map node_id (sockets (set_sock i so m)) = map node_id (sockets m)"
  by (induction "sockets m") (simp_all add: set_sock_def)

lemma set_sock_keys [simp]: "map node_key (sockets (set_sock i so m)) = map node_key (sockets m)"
  by (induction "sockets m") (simp_all add: set_sock_def)

lemma set_sock_simps [simp]:
  "queue (set_sock i so m) = queue m" "closeImmediatly (set_sock i so m) = closeImmediatly m"
  "next_id (set_sock i so m) = next_id m" "closed (set_sock i so m) = closed m"
  by (simp_all add: set_sock_def)

lemma set_sock_member:
  "n \<in> set (sockets m) \<Longrightarrow> n\<lparr>node_sock := so\<rparr> \<in> set (sockets (set_sock (node_id n) so m))"
  by (auto simp: set_sock_def image_iff)

lemma set_sock_wf:
  assumes "wf_mgr m" and "n \<in> set (sockets m)" and "sock_fd so = node_key n"
  shows "wf_mgr (set_sock (node_id n) so m)"
proof -
  have "node_key x = node_key n" if "x \<in> set (sockets m)" "node_id x = node_id n" for x
    using node_by_id [OF assms(1,2) that(1)] that(2) by simp
  then have "\<forall>x \<in> set (sockets (set_sock (node_id n) so m)).
      node_id x < next_id m \<and> node_key x = sock_fd (node_sock x)"
    using assms(1,3) by (auto simp: set_sock_def wf_mgr_def)
  then show ?thesis
    using assms(1) unfolding wf_mgr_def set_sock_keys set_sock_ids set_sock_simps by blast
qed

text \<open>Identity and key of the nodes: what stays when a socket's flags change.\<close>

definition shape :: "conn_mgr \<Rightarrow> (nat \<times> int) list" where
  "shape m = map (\<lambda>n. (node_id n, node_key n)) (sockets m)"

lemma shape_set_sock [simp]: "shape (set_sock i so m) = shape m"
  by (induction "sockets m") (simp_all add: set_sock_def shape_def)

lemma shape_queue [simp]: "shape (m\<lparr>queue := q\<rparr>) = shape m"
  by (simp add: shape_def)

lemma shape_ids: "map fst (shape m) = map node_id (sockets m)"
  by (simp add: shape_def comp_def)

lemma shape_fds: "map snd (shape m) = fds m"
  by (simp add: shape_def fds_def comp_def)

lemma shape_member: "((i, k) \<in> set (shape m)) = (\<exists>n \<in> set (sockets m). node_id n = i \<and> node_key n = k)"
  by (auto simp: shape_def)

section \<open>The invariant while the sockets are served\<close>

text \<open>\<open>ids\<close> are the nodes that wait to be closed.\<close>

definition serving :: "net_env \<Rightarrow> network \<Rightarrow> nat list \<Rightarrow> bool" where
  "serving env nw ids \<longleftrightarrow>
     wf_mgr (nw_mgr nw) \<and> \<not> closeImmediatly (nw_mgr nw)
     \<and> queue (nw_mgr nw) = map NodeAt ids \<and> distinct ids
     \<and> set ids \<subseteq> fst ` set (shape (nw_mgr nw))
     \<and> nw_set nw = insert (ne_server env) {k. \<exists>i. (i, k) \<in> set (shape (nw_mgr nw)) \<and> i \<notin> set ids}
     \<and> (\<forall>k \<in> set (fds (nw_mgr nw)). 0 \<le> k \<and> k < 1024 \<and> k \<noteq> ne_server env)
     \<and> threads_ok env nw"

definition undelayed :: "protocol \<Rightarrow> bool" where
  "undelayed p \<longleftrightarrow> \<not> hasConnectDelayed p \<and> \<not> hasRecieveDelayed p \<and> \<not> hasDisconnectDelayed p"

text \<open>The specification of one socket: the calls its input leads to.\<close>

definition socket_calls :: "protocol \<Rightarrow> nat \<Rightarrow> int \<Rightarrow> recv_event \<Rightarrow> call list" where
  "socket_calls p addr fd rcv =
     (if ended rcv then (if hasDisconnect p then [OnDisconnect addr fd] else [])
      else case rcv of
        RecvErr e \<Rightarrow> []
      | _ \<Rightarrow> if hasRecieve p
            then [OnRecieve addr fd (Some (got rcv @ replicate (block_size - length (got rcv)) nul))]
            else [])"

lemma CloseSocketByFd_queue:
  assumes "wf_mgr m" and "\<not> closeImmediatly m" and "n \<in> set (sockets m)"
  shows "CloseSocketByFd (node_key n) m = Inr (m\<lparr>queue := queue m @ [NodeAt (node_id n)]\<rparr>)"
proof -
  have "node_key n \<in> set (fds m)" using assms(3) by (simp add: fds_def)
  then obtain n' where "n' \<in> set (sockets m)" "find_key (sockets m) (node_key n) = Some n'"
    "node_key n' = node_key n"
    using find_key_fd [OF assms(1)] by blast
  moreover from this have "n' = n" using node_by_key [OF assms(1)] assms(3) by blast
  ultimately show ?thesis using assms(2) by (simp add: CloseSocketByFd_def)
qed

lemma serving_close:
  assumes "serving env nw ids" and "(i, k) \<in> set (shape (nw_mgr nw))" and "i \<notin> set ids"
  shows "serving env (nw\<lparr>nw_mgr := (nw_mgr nw)\<lparr>queue := queue (nw_mgr nw) @ [NodeAt i]\<rparr>,
      nw_set := FD_CLR k (nw_set nw)\<rparr>) (ids @ [i])"
proof -
  have wf: "wf_mgr (nw_mgr nw)" using assms(1) by (simp add: serving_def)
  obtain n where n: "n \<in> set (sockets (nw_mgr nw))" "node_id n = i" "node_key n = k"
    using assms(2) by (auto simp: shape_member)
  have "i' = i" if "(i', k) \<in> set (shape (nw_mgr nw))" for i'
    using that n node_by_key [OF wf] by (auto simp: shape_member)
  moreover have "k' = k" if "(i, k') \<in> set (shape (nw_mgr nw))" for k'
    using that n node_by_id [OF wf] by (auto simp: shape_member)
  moreover have "k \<noteq> ne_server env" using assms(1) n by (auto simp: serving_def fds_def)
  ultimately have "FD_CLR k (nw_set nw) =
      insert (ne_server env) {k'. \<exists>i'. (i', k') \<in> set (shape (nw_mgr nw)) \<and> i' \<notin> set (ids @ [i])}"
    using assms(1) by (auto simp: serving_def FD_CLR_def)
  then show ?thesis
    using assms by (auto simp: serving_def wf_queue fds_def threads_ok_def image_iff
        intro: bexI [of _ "(i, k)"])
qed

lemma serving_cong:
  assumes "serving env nw ids" and "nw_mgr nw' = nw_mgr nw" and "nw_set nw' = nw_set nw"
    and "nw_threads nw' = nw_threads nw"
  shows "serving env nw' ids"
  using assms by (simp add: serving_def threads_ok_def)

lemma serving_set_sock:
  assumes "serving env nw ids" and "n \<in> set (sockets (nw_mgr nw))" and "sock_fd so = node_key n"
  shows "serving env (nw\<lparr>nw_mgr := set_sock (node_id n) so (nw_mgr nw)\<rparr>) ids"
proof -
  have "fds (set_sock (node_id n) so (nw_mgr nw)) = fds (nw_mgr nw)" by (simp add: fds_def)
  then show ?thesis using assms by (simp add: serving_def set_sock_wf threads_ok_def)
qed

section \<open>Serving one socket\<close>

lemma got_Data_Nil [simp]: "(got (Data bs) = []) = (bs = [])"
  by (simp add: got_def block_size_def)

lemma raise_plain_fold:
  "(let (e, nw) = plain_event t fd addr nw in raise_event env e nw) = raise_plain env t fd addr nw"
  by (simp add: raise_plain_def)

lemma socket_ended_ok:
  assumes sv: "serving env nw ids" and n: "n \<in> set (sockets (nw_mgr nw))" "node_id n \<notin> set ids"
    and u: "undelayed (ne_proto env)"
  shows "\<exists>nw' evs. socket_ended env now (node_id n) nw = Inr nw'
    \<and> serving env nw' (ids @ [node_id n]) \<and> shape (nw_mgr nw') = shape (nw_mgr nw)
    \<and> nw_addr nw' = nw_addr nw \<and> extends nw nw' evs
    \<and> calls_of (ne_proto env) nw' evs =
        (if hasDisconnect (ne_proto env) then [OnDisconnect (peer_addr (node_key n) nw) (node_key n)] else [])"
proof -
  let ?m = "(nw_mgr nw)\<lparr>queue := queue (nw_mgr nw) @ [NodeAt (node_id n)]\<rparr>"
  let ?nw = "nw\<lparr>nw_mgr := ?m, nw_set := FD_CLR (node_key n) (nw_set nw)\<rparr>"
  have wf: "wf_mgr (nw_mgr nw)" "\<not> closeImmediatly (nw_mgr nw)" using sv by (simp_all add: serving_def)
  have key: "sock_fd (node_sock n) = node_key n" using wf(1) n(1) by (simp add: wf_mgr_def)
  have d: "deref (nw_mgr nw) (NodeAt (node_id n)) = Inr n" "deref ?m (NodeAt (node_id n)) = Inr n"
    using deref_member [OF wf(1) n(1)] deref_member [OF wf_queue [OF wf(1)], of n] n(1) by simp_all
  have sv': "serving env ?nw (ids @ [node_id n])"
    using n by (intro serving_close [OF sv]) (auto simp: shape_member)
  have ext: "extends nw ?nw []" by (simp add: extends_refl)
  have pe: "peer_addr (node_key n) nw = peer_addr (node_key n) ?nw" by (simp add: peer_addr_def)
  have eq: "socket_ended env now (node_id n) nw =
      (if hasDisconnect (ne_proto env)
       then raise_plain env EVENT_DISCONNECT (node_key n) (peer_addr (node_key n) nw) ?nw else Inr ?nw)"
    using d CloseSocketByFd_queue [OF wf n(1)] u
    by (simp add: socket_ended_def key raise_plain_fold undelayed_def Let_def)
      (simp add: raise_plain_def split: prod.splits)
  show ?thesis
  proof (cases "hasDisconnect (ne_proto env)")
    case False
    then show ?thesis using eq sv' ext by (intro exI [of _ ?nw] exI [of _ "[]"]) simp
  next
    case True
    have "threads_ok env ?nw" using sv' by (simp add: serving_def)
    from raise_plain_extends [OF this, of EVENT_DISCONNECT "node_key n" "peer_addr (node_key n) nw"]
    obtain nw' e where r: "raise_plain env EVENT_DISCONNECT (node_key n) (peer_addr (node_key n) nw) ?nw = Inr nw'"
      "extends ?nw nw' [e]" "nw_mgr nw' = ?m" "nw_set nw' = nw_set ?nw" "nw_addr nw' = nw_addr nw"
      "EventType e = EVENT_DISCONNECT" "ev_fd e = node_key n" "ev_address e = peer_addr (node_key n) nw"
      by auto
    have "nw_threads nw' = nw_threads ?nw" using r(2) by (simp add: extends_def)
    then have "serving env nw' (ids @ [node_id n])" using r by (intro serving_cong [OF sv']) simp_all
    moreover have "extends nw nw' [e]" using extends_trans [OF ext r(2)] by simp
    ultimately show ?thesis
      using eq True r
      by (intro exI [of _ nw'] exI [of _ "[e]"]) (simp add: calls_of_def call_of_def Let_def)
  qed
qed

lemma socket_data_ok:
  assumes sv: "serving env nw ids" and n: "n \<in> set (sockets (nw_mgr nw))"
    and u: "undelayed (ne_proto env)" and ext: "extends nw0 nw []"
    and r: "nw_next nw0 \<le> r" "r < nw_next nw" "heap (nw_handler nw) r = Some d"
  shows "\<exists>nw' evs. socket_data env now (node_id n) r k nw = Inr nw'
    \<and> serving env nw' ids \<and> shape (nw_mgr nw') = shape (nw_mgr nw)
    \<and> nw_addr nw' = nw_addr nw \<and> extends nw0 nw' evs
    \<and> calls_of (ne_proto env) nw' evs =
        (if hasRecieve (ne_proto env)
         then [OnRecieve (peer_addr (node_key n) nw) (node_key n) (bd_data d)] else [])"
proof -
  let ?e = "\<lparr>EventType = EVENT_RECIEVE, ev_fd = node_key n, ev_address = peer_addr (node_key n) nw,
            ev_data = r, ev_recieved = k, ev_errorcode = sock_error (node_sock n)\<rparr>"
  have wf: "wf_mgr (nw_mgr nw)" and t: "threads_ok env nw" using sv by (simp_all add: serving_def)
  have d: "deref (nw_mgr nw) (NodeAt (node_id n)) = Inr n" by (rule deref_member [OF wf n])
  have eq: "socket_data env now (node_id n) r k nw =
      (if hasRecieve (ne_proto env) then raise_event env ?e nw else Inr nw)"
    using u d by (simp add: socket_data_def undelayed_def Let_def)
  show ?thesis
  proof (cases "hasRecieve (ne_proto env)")
    case False
    then show ?thesis using eq sv ext by (intro exI [of _ nw] exI [of _ "[]"]) simp
  next
    case True
    have "\<exists>nw'. raise_event env ?e nw = Inr nw' \<and> extends nw0 nw' [?e] \<and> nw_mgr nw' = nw_mgr nw
      \<and> nw_set nw' = nw_set nw \<and> nw_addr nw' = nw_addr nw \<and> heap (nw_handler nw') = heap (nw_handler nw)"
      using r ext by (intro raise_event_extends [OF t]) auto
    then obtain nw' where nw': "raise_event env ?e nw = Inr nw'" "extends nw0 nw' [?e]"
      "nw_mgr nw' = nw_mgr nw" "nw_set nw' = nw_set nw" "nw_addr nw' = nw_addr nw"
      "heap (nw_handler nw') = heap (nw_handler nw)"
      by blast
    have "nw_threads nw' = nw_threads nw" using nw'(2) ext by (simp add: extends_def)
    then have "serving env nw' ids" using nw' by (intro serving_cong [OF sv]) simp_all
    then show ?thesis
      using eq True nw' r(3)
      by (intro exI [of _ nw'] exI [of _ "[?e]"]) (simp add: calls_of_def call_of_def)
  qed
qed

lemma socket_error_ok:
  assumes sv: "serving env nw ids" and n: "n \<in> set (sockets (nw_mgr nw))" "node_id n \<notin> set ids"
  shows "\<exists>nw'. socket_error (node_id n) nw = Inr nw'
    \<and> serving env nw' (ids @ (if sock_error (node_sock n) = EBADF then [node_id n] else []))
    \<and> shape (nw_mgr nw') = shape (nw_mgr nw) \<and> nw_addr nw' = nw_addr nw \<and> extends nw nw' []"
proof -
  have wf: "wf_mgr (nw_mgr nw)" "\<not> closeImmediatly (nw_mgr nw)" using sv by (simp_all add: serving_def)
  have key: "sock_fd (node_sock n) = node_key n" using wf(1) n(1) by (simp add: wf_mgr_def)
  have d: "deref (nw_mgr nw) (NodeAt (node_id n)) = Inr n" by (rule deref_member [OF wf(1) n(1)])
  have "(node_id n, node_key n) \<in> set (shape (nw_mgr nw))" using n by (auto simp: shape_member)
  from serving_close [OF sv this n(2)] show ?thesis
    using sv d CloseSocketByFd_queue [OF wf n(1)]
    by (simp add: socket_error_def key extends_refl)
qed

lemma serve_socket_ok:
  assumes sv: "serving env nw ids" and n: "n \<in> set (sockets (nw_mgr nw))" "node_id n \<notin> set ids"
    and u: "undelayed (ne_proto env)"
  shows "\<exists>nw' evs. serve_socket env now rcv (node_id n) nw = Inr nw'
    \<and> serving env nw' (ids @ (if closes rcv then [node_id n] else []))
    \<and> shape (nw_mgr nw') = shape (nw_mgr nw) \<and> nw_addr nw' = nw_addr nw \<and> extends nw nw' evs
    \<and> calls_of (ne_proto env) nw' evs =
        socket_calls (ne_proto env) (peer_addr (node_key n) nw) (node_key n) rcv"
proof -
  have wf: "wf_mgr (nw_mgr nw)" using sv by (simp add: serving_def)
  have key: "sock_fd (node_sock n) = node_key n" using wf n(1) by (simp add: wf_mgr_def)
  obtain so' where so': "Recieve_data rcv (node_sock n) (filled []) =
      Inr (if ended rcv then 0 else case rcv of RecvErr e \<Rightarrow> -1 | _ \<Rightarrow> int (length (got rcv)),
           filled (got rcv), so')" "sock_fd so' = node_key n" "\<forall>e. rcv = RecvErr e \<longrightarrow> sock_error so' = e"
    using Recieve_block [of rcv "node_sock n"] key by auto
  let ?nw1 = "snd (new_data (filled (got rcv)) nw)"
  let ?nw = "?nw1\<lparr>nw_mgr := set_sock (node_id n) so' (nw_mgr nw)\<rparr>"
  let ?n = "n\<lparr>node_sock := so'\<rparr>"
  have sv1: "serving env ?nw1 ids" by (rule serving_cong [OF sv]) simp_all
  have sv2: "serving env ?nw ids" using serving_set_sock [OF sv1, of n so'] n so'(2) by simp
  have n2: "?n \<in> set (sockets (nw_mgr ?nw))" "node_id ?n \<notin> set ids"
    using set_sock_member [OF n(1)] n(2) by simp_all
  have ext: "extends nw ?nw []" using new_data_extends by simp
  have heap: "heap (nw_handler ?nw) (nw_next nw) = Some (filled (got rcv))" "nw_next nw < nw_next ?nw"
    by (simp_all add: new_data_def)
  have pe: "peer_addr k ?nw = peer_addr k nw" for k by (simp add: peer_addr_def)
  have eq: "serve_socket env now rcv (node_id n) nw =
      (if ended rcv then socket_ended env now (node_id n) ?nw
       else case rcv of RecvErr e \<Rightarrow> socket_error (node_id n) ?nw
            | _ \<Rightarrow> socket_data env now (node_id n) (nw_next nw) (int (length (got rcv))) ?nw)"
    using deref_member [OF wf n(1)] so'(1) got_nonempty [of rcv] reserve_block
    by (auto simp: serve_socket_def new_data_def ended_def Let_def split: recv_event.splits)
  show ?thesis
  proof (cases "ended rcv")
    case True
    from socket_ended_ok [OF sv2 n2 u, of now] obtain nw' evs where "socket_ended env now (node_id n) ?nw = Inr nw'"
      "serving env nw' (ids @ [node_id n])" "shape (nw_mgr nw') = shape (nw_mgr ?nw)"
      "nw_addr nw' = nw_addr nw" "extends ?nw nw' evs" "calls_of (ne_proto env) nw' evs =
        (if hasDisconnect (ne_proto env) then [OnDisconnect (peer_addr (node_key n) nw) (node_key n)] else [])"
      by (auto simp: pe)
    then show ?thesis
      using eq True extends_trans [OF ext, of nw' evs]
      by (intro exI [of _ nw'] exI [of _ evs]) (simp add: closes_def socket_calls_def)
  next
    case nend: False
    show ?thesis
    proof (cases rcv)
      case (RecvErr e)
      have id: "node_id ?n = node_id n" by simp
      from socket_error_ok [OF sv2 n2, unfolded id] obtain nw' where "socket_error (node_id n) ?nw = Inr nw'"
        "serving env nw' (ids @ (if e = EBADF then [node_id n] else []))"
        "shape (nw_mgr nw') = shape (nw_mgr ?nw)" "nw_addr nw' = nw_addr nw" "extends ?nw nw' []"
        using so'(3) RecvErr by auto
      then show ?thesis
        using eq nend RecvErr extends_trans [OF ext, of nw' "[]"]
        by (intro exI [of _ nw'] exI [of _ "[]"]) (simp add: closes_def socket_calls_def)
    next
      case (Data bs)
      from socket_data_ok [OF sv2 n2(1) u ext _ heap(2,1), of now "int (length (got rcv))"]
      obtain nw' evs where "socket_data env now (node_id n) (nw_next nw) (int (length (got rcv))) ?nw = Inr nw'"
        "serving env nw' ids" "shape (nw_mgr nw') = shape (nw_mgr ?nw)" "nw_addr nw' = nw_addr nw"
        "extends nw nw' evs" "calls_of (ne_proto env) nw' evs = (if hasRecieve (ne_proto env)
         then [OnRecieve (peer_addr (node_key n) nw) (node_key n) (bd_data (filled (got rcv)))] else [])"
        by (auto simp: pe)
      then show ?thesis
        using eq nend Data
        by (intro exI [of _ nw'] exI [of _ evs]) (simp add: closes_def socket_calls_def filled_def)
    next
      case Eof
      then show ?thesis using nend by (simp add: ended_def)
    qed
  qed
qed

section \<open>The loop over the table\<close>

text \<open>
  The specification of the loop: the sockets in the order of the table, from which the ready ones
  are taken until the count of \<open>select\<close> is used up.
\<close>

fun taken :: "('a \<Rightarrow> int) \<Rightarrow> net_input \<Rightarrow> int \<Rightarrow> 'a list \<Rightarrow> 'a list" where
  "taken key inp r [] = []"
| "taken key inp r (x # xs) =
     (if r = 0 then []
      else if key x \<in> set (ni_ready inp) then x # taken key inp (r - 1) xs
      else taken key inp r xs)"

definition taken_closing :: "('a \<Rightarrow> int) \<Rightarrow> net_input \<Rightarrow> int \<Rightarrow> 'a list \<Rightarrow> 'a list" where
  "taken_closing key inp r xs = filter (\<lambda>x. closes (ni_recv inp (key x))) (taken key inp r xs)"

lemma taken_zero [simp]: "taken key inp 0 xs = []"
  by (cases xs) simp_all

lemma taken_map: "taken key inp r (map f xs) = map f (taken (key \<circ> f) inp r xs)"
  by (induction xs arbitrary: r) simp_all

lemma set_taken: "set (taken key inp r xs) \<subseteq> set xs"
proof (induction xs arbitrary: r)
  case (Cons x xs)
  have "set (taken key inp (r - 1) xs) \<subseteq> set xs" "set (taken key inp r xs) \<subseteq> set xs"
    by (rule Cons.IH)+
  then show ?case by auto
qed simp

text \<open>With the count that \<open>select\<close> promises, every ready socket is taken.\<close>

lemma taken_all:
  "r = int (length (filter (\<lambda>x. key x \<in> set (ni_ready inp)) xs)) \<Longrightarrow>
   taken key inp r xs = filter (\<lambda>x. key x \<in> set (ni_ready inp)) xs"
proof (induction xs arbitrary: r)
  case (Cons x xs)
  show ?case
  proof (cases "r = 0")
    case True
    then have none: "filter (\<lambda>x. key x \<in> set (ni_ready inp)) (x # xs) = []" using Cons.prems by simp
    show ?thesis unfolding none using True by simp
  next
    case False
    then show ?thesis using Cons.IH [of "r - 1"] Cons.IH [of r] Cons.prems by (simp split: if_splits)
  qed
qed simp

text \<open>The calls that the sockets lead to, given as pairs of node and descriptor.\<close>

definition loop_calls :: "protocol \<Rightarrow> (int \<Rightarrow> nat) \<Rightarrow> net_input \<Rightarrow> (nat \<times> int) list \<Rightarrow> call list" where
  "loop_calls p addr inp l = concat (map (\<lambda>(i, k). socket_calls p (addr k) k (ni_recv inp k)) l)"

lemma recv_loop_ok:
  "serving env nw ids \<Longrightarrow> undelayed (ne_proto env) \<Longrightarrow>
   set l \<subseteq> set (shape (nw_mgr nw)) \<Longrightarrow> distinct (map fst l) \<Longrightarrow> set (map fst l) \<inter> set ids = {} \<Longrightarrow>
   \<exists>nw' evs. recv_loop env inp r (map fst l) nw = Inr nw'
     \<and> serving env nw' (ids @ map fst (taken_closing snd inp r l))
     \<and> shape (nw_mgr nw') = shape (nw_mgr nw) \<and> nw_addr nw' = nw_addr nw \<and> extends nw nw' evs
     \<and> calls_of (ne_proto env) nw' evs =
         loop_calls (ne_proto env) (\<lambda>fd. peer_addr fd nw) inp (taken snd inp r l)"
proof (induction l arbitrary: nw ids r)
  case Nil
  then show ?case
    by (intro exI [of _ nw] exI [of _ "[]"]) (simp add: extends_refl loop_calls_def taken_closing_def)
next
  case (Cons x l)
  obtain i k where x: "x = (i, k)" by (cases x)
  obtain n where n: "n \<in> set (sockets (nw_mgr nw))" "node_id n = i" "node_key n = k"
    using Cons.prems(3) by (auto simp: x shape_member)
  have wf: "wf_mgr (nw_mgr nw)" using Cons.prems(1) by (simp add: serving_def)
  have d: "deref (nw_mgr nw) (NodeAt i) = Inr n" using deref_member [OF wf n(1)] n(2) by simp
  have key: "sock_fd (node_sock n) = k" using wf n by (simp add: wf_mgr_def)
  show ?case
  proof (cases "r \<noteq> 0 \<and> k \<in> set (ni_ready inp)")
    case True
    have "node_id n \<notin> set ids" using Cons.prems(5) by (simp add: x n(2))
    from serve_socket_ok [OF Cons.prems(1) n(1) this Cons.prems(2), of "ni_now inp" "ni_recv inp k", unfolded n]
    obtain nw1 evs where s: "serve_socket env (ni_now inp) (ni_recv inp k) i nw = Inr nw1"
      "serving env nw1 (ids @ (if closes (ni_recv inp k) then [i] else []))"
      "shape (nw_mgr nw1) = shape (nw_mgr nw)" "nw_addr nw1 = nw_addr nw" "extends nw nw1 evs"
      "calls_of (ne_proto env) nw1 evs = socket_calls (ne_proto env) (peer_addr k nw) k (ni_recv inp k)"
      by blast
    have "set (map fst l) \<inter> set (ids @ (if closes (ni_recv inp k) then [i] else [])) = {}"
      using Cons.prems(4,5) by (auto simp: x)
    from Cons.IH [OF s(2) Cons.prems(2) _ _ this, of "r - 1"] Cons.prems(3,4)
    obtain nw2 evs2 where t: "recv_loop env inp (r - 1) (map fst l) nw1 = Inr nw2"
      "serving env nw2 ((ids @ (if closes (ni_recv inp k) then [i] else []))
         @ map fst (taken_closing snd inp (r - 1) l))"
      "shape (nw_mgr nw2) = shape (nw_mgr nw)" "nw_addr nw2 = nw_addr nw"
      "extends nw1 nw2 evs2" "calls_of (ne_proto env) nw2 evs2 =
         loop_calls (ne_proto env) (\<lambda>fd. peer_addr fd nw1) inp (taken snd inp (r - 1) l)"
      using s(3,4) by (auto simp: x)
    have "(\<lambda>fd. peer_addr fd nw1) = (\<lambda>fd. peer_addr fd nw)" using s(4) by (simp add: peer_addr_def)
    then have c: "calls_of (ne_proto env) nw2 (evs @ evs2) =
        loop_calls (ne_proto env) (\<lambda>fd. peer_addr fd nw) inp (taken snd inp r (x # l))"
      using True s(6) t(6) by (simp add: x loop_calls_def calls_of_trans [OF s(5) t(5)])
    have "serving env nw2 (ids @ map fst (taken_closing snd inp r (x # l)))"
      using t(2) True by (cases "closes (ni_recv inp k)") (simp_all add: x taken_closing_def)
    then show ?thesis
      using True d key s t c extends_trans [OF s(5) t(5)]
      by (intro exI [of _ nw2] exI [of _ "evs @ evs2"]) (simp add: x)
  next
    case no: False
    show ?thesis
    proof (cases "r = 0")
      case True
      then show ?thesis
        using Cons.prems
        by (intro exI [of _ nw] exI [of _ "[]"])
          (simp add: x extends_refl loop_calls_def taken_closing_def)
    next
      case False
      from Cons.IH [OF Cons.prems(1,2), of r] Cons.prems(3-5)
      show ?thesis using False no d key by (simp add: x taken_closing_def)
    qed
  qed
qed

section \<open>The pending sockets\<close>

lemma pending_nodes:
  assumes "serving env nw ids"
  shows "\<exists>ns. set ns \<subseteq> set (sockets (nw_mgr nw)) \<and> map node_id ns = ids
    \<and> CloseAllPendingSockets (nw_mgr nw) = Inr ((nw_mgr nw)\<lparr>sockets := filter (\<lambda>n. node_id n \<notin> set ids) (sockets (nw_mgr nw)),
        queue := [], closed := closed (nw_mgr nw) @ map node_key ns\<rparr>)"
proof -
  let ?m = "nw_mgr nw"
  have wf: "wf_mgr ?m" and q: "queue ?m = map NodeAt ids" and d: "distinct ids"
    and sub: "set ids \<subseteq> fst ` set (shape ?m)"
    using assms by (simp_all add: serving_def)
  define nd where "nd = (\<lambda>i. SOME n. n \<in> set (sockets ?m) \<and> node_id n = i)"
  have nd: "nd i \<in> set (sockets ?m) \<and> node_id (nd i) = i" if "i \<in> set ids" for i
  proof -
    have "\<exists>n. n \<in> set (sockets ?m) \<and> node_id n = i" using sub that by (force simp: shape_def)
    then show ?thesis unfolding nd_def by (rule someI_ex)
  qed
  let ?ns = "map nd ids"
  have ids: "map node_id ?ns = ids" using nd by (simp add: map_idI)
  have q': "queue ?m = map (\<lambda>n. NodeAt (node_id n)) ?ns" using q ids nd by simp
  have sub': "set ?ns \<subseteq> set (sockets ?m)" using nd by auto
  have d': "distinct (map node_id ?ns)" unfolding ids by (rule d)
  have im: "node_id ` set ?ns = set ids" using ids by (metis set_map)
  show ?thesis using pending_closes [OF wf q' sub' d'] im ids sub' by (intro exI [of _ ?ns]) simp
qed

lemma pending_ids:
  assumes "serving env nw ids"
  shows "\<exists>nw'. close_pending nw = Inr nw' \<and> serving env nw' []
    \<and> shape (nw_mgr nw') = filter (\<lambda>(i, k). i \<notin> set ids) (shape (nw_mgr nw))
    \<and> nw_addr nw' = nw_addr nw \<and> extends nw nw' [] \<and> (\<forall>p evs. calls_of p nw' evs = calls_of p nw evs)"
proof -
  let ?m = "nw_mgr nw"
  from pending_nodes [OF assms] obtain ns :: "node list" where cl: "CloseAllPendingSockets ?m = Inr (?m\<lparr>
      sockets := filter (\<lambda>n. node_id n \<notin> set ids) (sockets ?m), queue := [], closed := closed ?m @ map node_key ns\<rparr>)"
    by blast
  let ?m' = "?m\<lparr>sockets := filter (\<lambda>n. node_id n \<notin> set ids) (sockets ?m), queue := [],
      closed := closed ?m @ map node_key ns\<rparr>"
  have "wf_mgr ?m" using assms by (simp add: serving_def)
  then have wf': "wf_mgr ?m'" by (auto simp: wf_mgr_def sorted_map_filter distinct_map_filter)
  have sh: "shape ?m' = filter (\<lambda>(i, k). i \<notin> set ids) (shape ?m)"
    by (simp add: shape_def filter_map comp_def)
  have "serving env (nw\<lparr>nw_mgr := ?m'\<rparr>) []"
    using assms wf' sh by (auto simp: serving_def fds_def)
  then show ?thesis using cl sh by (simp add: close_pending_def extends_refl)
qed

text \<open>Every socket that leaves the table in this way is closed, once; no other one is.\<close>

definition closes_removed :: "int set \<Rightarrow> network \<Rightarrow> network \<Rightarrow> bool" where
  "closes_removed open nw nw' \<longleftrightarrow>
     (\<exists>l. closed (nw_mgr nw') = closed (nw_mgr nw) @ l \<and> distinct l \<and> set l = open - set (fds (nw_mgr nw')))"

lemma pending_removed:
  assumes "serving env nw ids" and "close_pending nw = Inr nw'"
  shows "closes_removed (set (fds (nw_mgr nw))) nw nw'"
proof -
  let ?m = "nw_mgr nw"
  from pending_nodes [OF assms(1)] obtain ns where ns: "set ns \<subseteq> set (sockets ?m)" "map node_id ns = ids"
    "nw_mgr nw' = ?m\<lparr>sockets := filter (\<lambda>n. node_id n \<notin> set ids) (sockets ?m), queue := [],
       closed := closed ?m @ map node_key ns\<rparr>"
    using assms(2) by (fastforce simp: close_pending_def)
  have wf: "wf_mgr ?m" and d: "distinct ids" using assms(1) by (simp_all add: serving_def)
  have key: "inj_on node_key (set (sockets ?m))" and nid: "inj_on node_id (set (sockets ?m))"
    using wf by (simp_all add: wf_mgr_def distinct_map)
  have "distinct ns" using d ns(2) by (auto simp: distinct_map)
  then have dl: "distinct (map node_key ns)" using key ns(1) by (simp add: distinct_map inj_on_subset)
  have mem: "(node_id n \<in> set ids) = (n \<in> set ns)" if "n \<in> set (sockets ?m)" for n
    using inj_on_image_mem_iff [OF nid that ns(1)] ns(2) by (metis set_map)
  have "set (fds (nw_mgr nw')) = node_key ` (set (sockets ?m) - set ns)"
    using ns(3) mem by (auto simp: fds_def)
  also have "\<dots> = set (fds ?m) - node_key ` set ns"
    using inj_on_image_set_diff [OF key _ ns(1)] by (simp add: fds_def)
  finally have "set (map node_key ns) = set (fds ?m) - set (fds (nw_mgr nw'))"
    using ns(1) by (auto simp: fds_def)
  then show ?thesis using ns(3) dl unfolding closes_removed_def by (intro exI [of _ "map node_key ns"]) simp
qed

end
