(* ===== verification/Simulation.thy ===== *)
theory Simulation
  imports Sessions
begin

text \<open>
  The contract of a refinement: every admissible step of the detailed system succeeds, keeps the
  invariant, and is the step of a specification on the abstract state.  Whole runs then succeed
  and are runs of the specification.
\<close>

fun run_ok :: "('i \<Rightarrow> 'c \<Rightarrow> 'c res) \<Rightarrow> ('i \<Rightarrow> 'c \<Rightarrow> bool) \<Rightarrow> 'i list \<Rightarrow> 'c \<Rightarrow> bool" where
  "run_ok step ok [] c = True"
| "run_ok step ok (i # is) c =
     (ok i c \<and> (case step i c of Inl e \<Rightarrow> True | Inr c' \<Rightarrow> run_ok step ok is c'))"

locale simulation =
  fixes step :: "'i \<Rightarrow> 'c \<Rightarrow> 'c res"
    and ok :: "'i \<Rightarrow> 'c \<Rightarrow> bool"
    and inv :: "'c \<Rightarrow> bool"
    and abs :: "'c \<Rightarrow> 'a"
    and spec :: "'i \<Rightarrow> 'a \<Rightarrow> 'a"
  assumes simulates: "inv c \<Longrightarrow> ok i c \<Longrightarrow>
    \<exists>c'. step i c = Inr c' \<and> inv c' \<and> abs c' = spec i (abs c)"
begin

lemma run_simulates:
  "inv c \<Longrightarrow> run_ok step ok is c \<Longrightarrow>
   \<exists>c'. run_inputs step is c = Inr c' \<and> inv c' \<and> abs c' = fold spec is (abs c)"
proof (induction "is" arbitrary: c)
  case (Cons i "is")
  then obtain c1 where c1: "step i c = Inr c1" "inv c1" "abs c1 = spec i (abs c)"
    using simulates by fastforce
  then obtain c' where "run_inputs step is c1 = Inr c'" "inv c'" "abs c' = fold spec is (abs c1)"
    using Cons by fastforce
  then show ?case using c1 by simp
qed simp

lemma run_never_fails: "inv c \<Longrightarrow> run_ok step ok is c \<Longrightarrow> is_ok (run_inputs step is c)"
  using run_simulates by (fastforce simp: is_ok_iff)

lemma run_keeps_invariant:
  "inv c \<Longrightarrow> run_ok step ok is c \<Longrightarrow> run_inputs step is c = Inr c' \<Longrightarrow> inv c'"
  using run_simulates by fastforce

end

end
