(* ===== verification/NetworkRounds.thy ===== *)
theory NetworkRounds
  imports NetworkProps Simulation
begin

text \<open>
  Whole rounds, and the interleaving of rounds of the network thread with rounds of the queue
  thread, against a specification with the list of clients and the calls owed to the protocol.
\<close>

section \<open>Accepting\<close>

lemma map_insort_key: "map f (insort_key f x xs) = insort (f x) (map f xs)"
  by (induction xs) simp_all

lemma accept_ok:
  assumes sv: "serving env nw []" and u: "undelayed (ne_proto env)"
    and fd: "fd \<notin> set (fds (nw_mgr nw))" "0 \<le> fd" "fd < 1024" "fd \<noteq> ne_server env"
  shows "\<exists>nw' evs. accept_client env now junk (Inr (fd, a)) nw = Inr (False, nw')
    \<and> serving env nw' [] \<and> fds (nw_mgr nw') = insort fd (fds (nw_mgr nw))
    \<and> nw_addr nw' = (nw_addr nw)(fd \<mapsto> a) \<and> extends nw nw' evs
    \<and> calls_of (ne_proto env) nw' evs = (if hasConnect (ne_proto env) then [OnConnect a fd] else [])"
proof -
  let ?nw1 = "nw\<lparr>nw_addr := (nw_addr nw)(fd \<mapsto> a), nw_mgr := AddSocket (Socket junk fd) (nw_mgr nw)\<rparr>"
  have none: "find_key (sockets (nw_mgr nw)) fd = None"
    using fd(1) by (simp add: find_key_None fds_def)
  have add: "AddSocket (Socket junk fd) (nw_mgr nw) = (nw_mgr nw)\<lparr>
      sockets := insort_key node_key \<lparr>node_id = next_id (nw_mgr nw), node_key = fd, node_sock = Socket junk fd\<rparr>
        (sockets (nw_mgr nw)), next_id := Suc (next_id (nw_mgr nw))\<rparr>"
    using none by (simp add: AddSocket_def sockets_insert_def Socket_def)
  have t: "threads_ok env ?nw1" using sv by (simp add: serving_def)
  have "\<exists>nw2 evs. (if hasConnect (ne_proto env) then raise_plain env EVENT_CONNECT fd a ?nw1 else Inr ?nw1) = Inr nw2
      \<and> extends ?nw1 nw2 evs \<and> nw_mgr nw2 = nw_mgr ?nw1 \<and> nw_set nw2 = nw_set ?nw1 \<and> nw_addr nw2 = nw_addr ?nw1
      \<and> calls_of (ne_proto env) nw2 evs = (if hasConnect (ne_proto env) then [OnConnect a fd] else [])"
  proof (cases "hasConnect (ne_proto env)")
    case True
    with raise_plain_extends [OF t, of EVENT_CONNECT fd a] obtain nw2 e where
      "raise_plain env EVENT_CONNECT fd a ?nw1 = Inr nw2" "extends ?nw1 nw2 [e]" "nw_mgr nw2 = nw_mgr ?nw1"
      "nw_set nw2 = nw_set ?nw1" "nw_addr nw2 = nw_addr ?nw1" "EventType e = EVENT_CONNECT" "ev_fd e = fd"
      "ev_address e = a" by auto
    then show ?thesis
      using True by (intro exI [of _ nw2] exI [of _ "[e]"]) (simp add: calls_of_def call_of_def Let_def)
  next
    case False
    then show ?thesis by (intro exI [of _ ?nw1] exI [of _ "[]"]) (simp add: extends_refl)
  qed
  then obtain nw2 evs where r: "(if hasConnect (ne_proto env) then raise_plain env EVENT_CONNECT fd a ?nw1 else Inr ?nw1) = Inr nw2"
      "extends ?nw1 nw2 evs" "nw_mgr nw2 = nw_mgr ?nw1" "nw_set nw2 = nw_set ?nw1" "nw_addr nw2 = nw_addr ?nw1"
      "calls_of (ne_proto env) nw2 evs = (if hasConnect (ne_proto env) then [OnConnect a fd] else [])"
    by blast
  let ?nw = "nw2\<lparr>nw_set := insert fd (nw_set nw)\<rparr>"
  have eq: "accept_client env now junk (Inr (fd, a)) nw = Inr (False, ?nw)"
    using r(1,4) u none fd
    by (cases "hasConnect (ne_proto env)")
      (simp_all add: accept_client_def FD_SET_def undelayed_def raise_plain_def Let_def)
  have sh: "set (shape (nw_mgr ?nw1)) = insert (next_id (nw_mgr nw), fd) (set (shape (nw_mgr nw)))"
    by (simp add: add shape_def set_insort_key)
  have fds': "fds (nw_mgr ?nw1) = insort fd (fds (nw_mgr nw))"
    by (simp add: add fds_def map_insort_key)
  have th: "nw_threads nw2 = nw_threads nw" using r(2) by (simp add: extends_def)
  have "wf_mgr (nw_mgr ?nw1)" using sv AddSocket_wf by (simp add: serving_def)
  then have "serving env ?nw []"
    using sv fd r(3,4) sh fds' th
    by (auto simp: serving_def threads_ok_def set_insort_key) (simp_all add: add)
  then show ?thesis
    using eq r fds' by (intro exI [of _ ?nw] exI [of _ evs]) simp
qed

section \<open>The invariant between rounds\<close>

definition heap_ok :: "network \<Rightarrow> bool" where
  "heap_ok nw \<longleftrightarrow>
     distinct (refs (ev_queue (nw_handler nw)))
     \<and> (\<forall>r \<in> set (refs (ev_queue (nw_handler nw))). r < nw_next nw \<and> heap (nw_handler nw) r \<noteq> None)
     \<and> delayedQueue (nw_handler nw) = []"

definition net_inv :: "net_env \<Rightarrow> network \<Rightarrow> bool" where
  "net_inv env nw \<longleftrightarrow> serving env nw [] \<and> heap_ok nw"

lemma heap_ok_extends:
  assumes "heap_ok nw" and "extends nw nw' evs"
  shows "heap_ok nw'"
proof -
  have "set (refs (ev_queue (nw_handler nw))) \<inter> set (refs evs) = {}"
    using assms by (force simp: heap_ok_def extends_def)
  then show ?thesis using assms by (auto simp: heap_ok_def extends_def)
qed

text \<open>What is assumed of the kernel: a new descriptor is not one that is in use.\<close>

definition input_ok :: "net_env \<Rightarrow> network \<Rightarrow> net_input \<Rightarrow> bool" where
  "input_ok env nw inp \<longleftrightarrow>
     (case ni_accept inp of
        Inl e \<Rightarrow> True
      | Inr (fd, a) \<Rightarrow> fd \<notin> set (fds (nw_mgr nw)) \<and> fd \<noteq> ne_server env \<and> 0 \<le> fd \<and> fd < 1024)"

section \<open>The specification\<close>

text \<open>
  The abstract server: its clients in the order of their descriptors with their addresses, and
  the calls into the protocol library, those made and those owed.
\<close>

type_synonym server = "(int \<times> nat) list \<times> call list"

definition server_of :: "protocol \<Rightarrow> network \<Rightarrow> server" where
  "server_of p nw =
     (map (\<lambda>fd. (fd, peer_addr fd nw)) (fds (nw_mgr nw)),
      calls (nw_handler nw) @ calls_of p nw (ev_queue (nw_handler nw)))"

definition serve_clients :: "protocol \<Rightarrow> net_input \<Rightarrow> int \<Rightarrow> server \<Rightarrow> server" where
  "serve_clients p inp r s =
     (case s of (cs, log) \<Rightarrow>
        if r > 0 then
          (filter (\<lambda>c. c \<notin> set (taken_closing fst inp r cs)) cs,
           log @ concat (map (\<lambda>(fd, a). socket_calls p a fd (ni_recv inp fd)) (taken fst inp r cs)))
        else s)"

definition server_round :: "net_env \<Rightarrow> net_input \<Rightarrow> server \<Rightarrow> server" where
  "server_round env inp s =
     (if ni_select inp = 0 then s
      else if ne_server env \<in> set (ni_ready inp) then
        (case ni_accept inp of
           Inl e \<Rightarrow> s
         | Inr (fd, a) \<Rightarrow>
             serve_clients (ne_proto env) inp (ni_select inp - 1)
               (insort_key fst (fd, a) (fst s),
                snd s @ (if hasConnect (ne_proto env) then [OnConnect a fd] else [])))
      else serve_clients (ne_proto env) inp (ni_select inp) s)"

lemma server_of_extends:
  assumes "heap_ok nw" and "extends nw nw' evs"
  shows "snd (server_of p nw') = snd (server_of p nw) @ calls_of p nw' evs"
proof -
  have "map (call_of p (heap (nw_handler nw'))) (ev_queue (nw_handler nw)) =
      map (call_of p (heap (nw_handler nw))) (ev_queue (nw_handler nw))"
  proof (rule map_cong [OF refl])
    fix e assume e: "e \<in> set (ev_queue (nw_handler nw))"
    show "call_of p (heap (nw_handler nw')) e = call_of p (heap (nw_handler nw)) e"
    proof (rule call_of_heap)
      assume "owns_data e"
      then have "ev_data e \<in> set (refs (ev_queue (nw_handler nw)))" using e by (auto simp: refs_def)
      then show "heap (nw_handler nw') (ev_data e) = heap (nw_handler nw) (ev_data e)"
        using assms by (auto simp: heap_ok_def extends_def)
    qed
  qed
  then show ?thesis
    using assms(2) unfolding server_of_def calls_of_def extends_def
    by (simp only: snd_conv map_append concat_append append_assoc)
qed

text \<open>The serving part of a round: the loop and the closing of what it queued.\<close>

definition serve_all :: "net_env \<Rightarrow> net_input \<Rightarrow> int \<Rightarrow> network \<Rightarrow> network res" where
  "serve_all env inp r nw =
     rbind (if r > 0 then recv_loop env inp r (map node_id (sockets (nw_mgr nw))) nw else Inr nw) close_pending"

lemma shape_distinct:
  "wf_mgr m \<Longrightarrow> distinct (map fst (shape m)) \<and> distinct (map snd (shape m))"
  by (simp add: shape_ids shape_fds wf_mgr_def fds_def)

lemma serve_all_ok:
  assumes inv: "net_inv env nw" and u: "undelayed (ne_proto env)"
  shows "\<exists>nw'. serve_all env inp r nw = Inr nw' \<and> net_inv env nw'
    \<and> server_of (ne_proto env) nw' = serve_clients (ne_proto env) inp r (server_of (ne_proto env) nw)
    \<and> process (nw_handler nw') = process (nw_handler nw)"
proof (cases "r > 0")
  case False
  have sv: "serving env nw []" and h: "heap_ok nw" using inv by (simp_all add: net_inv_def)
  from pending_ids [OF sv] obtain nw' where c: "close_pending nw = Inr nw'" "serving env nw' []"
    "shape (nw_mgr nw') = shape (nw_mgr nw)" "nw_addr nw' = nw_addr nw" "extends nw nw' []"
    by (auto simp: filter_True)
  have "fds (nw_mgr nw') = fds (nw_mgr nw)" using c(3) by (metis shape_fds)
  moreover have "snd (server_of (ne_proto env) nw') = snd (server_of (ne_proto env) nw)"
    using server_of_extends [OF h c(5)] by simp
  ultimately have "server_of (ne_proto env) nw' = server_of (ne_proto env) nw"
    using c(4) by (simp add: server_of_def peer_addr_def)
  moreover have "process (nw_handler nw') = process (nw_handler nw)" using c(5) by (simp add: extends_def)
  ultimately show ?thesis
    using False c heap_ok_extends [OF h c(5)] by (simp add: serve_all_def serve_clients_def net_inv_def split: prod.splits)
next
  case True
  let ?p = "ne_proto env" and ?sh = "shape (nw_mgr nw)"
  have sv: "serving env nw []" and h: "heap_ok nw" using inv by (simp_all add: net_inv_def)
  have wf: "wf_mgr (nw_mgr nw)" using sv by (simp add: serving_def)
  from recv_loop_ok [OF sv u, of ?sh inp r] shape_distinct [OF wf]
  obtain nw1 evs where l: "recv_loop env inp r (map fst ?sh) nw = Inr nw1"
    "serving env nw1 (map fst (taken_closing snd inp r ?sh))"
    "shape (nw_mgr nw1) = ?sh" "nw_addr nw1 = nw_addr nw" "extends nw nw1 evs"
    "calls_of ?p nw1 evs = loop_calls ?p (\<lambda>fd. peer_addr fd nw) inp (taken snd inp r ?sh)"
    by auto
  from pending_ids [OF l(2)] obtain nw2 where c: "close_pending nw1 = Inr nw2" "serving env nw2 []"
    "shape (nw_mgr nw2) = filter (\<lambda>(i, k). i \<notin> set (map fst (taken_closing snd inp r ?sh))) ?sh"
    "nw_addr nw2 = nw_addr nw" "extends nw1 nw2 []" "\<forall>es. calls_of ?p nw2 es = calls_of ?p nw1 es"
    using l(3,4) by auto
  have ext: "extends nw nw2 evs" using extends_trans [OF l(5) c(5)] by simp
  let ?g = "\<lambda>(i, k). (k, peer_addr k nw)"
  have cl: "map (\<lambda>fd. (fd, peer_addr fd nw)) (fds (nw_mgr nw)) = map ?g ?sh"
    unfolding shape_fds [symmetric] by (simp add: comp_def split_beta)
  have fg: "fst \<circ> ?g = snd" by (simp add: fun_eq_iff split_beta)
  have tk: "taken fst inp r (map ?g ?sh) = map ?g (taken snd inp r ?sh)"
    by (simp add: taken_map fg)
  have tc: "taken_closing fst inp r (map ?g ?sh) = map ?g (taken_closing snd inp r ?sh)"
    unfolding taken_closing_def tk filter_map comp_def by (simp add: split_beta)
  have same: "(fst x \<in> set (map fst (taken_closing snd inp r ?sh))) =
      (?g x \<in> set (taken_closing fst inp r (map ?g ?sh)))" if x: "x \<in> set ?sh" for x
  proof -
    have sub: "set (taken_closing snd inp r ?sh) \<subseteq> set ?sh"
      using set_taken [of snd inp r ?sh] by (auto simp: taken_closing_def)
    have i: "inj_on fst (set ?sh)" "inj_on snd (set ?sh)"
      using shape_distinct [OF wf] by (simp_all add: distinct_map)
    have "(fst x \<in> set (map fst (taken_closing snd inp r ?sh))) = (x \<in> set (taken_closing snd inp r ?sh))"
      using inj_on_image_mem_iff [OF i(1) x sub] by simp
    moreover have "inj_on ?g (set ?sh)" using i(2) by (auto simp: inj_on_def split_beta)
    then have "(?g x \<in> ?g ` set (taken_closing snd inp r ?sh)) = (x \<in> set (taken_closing snd inp r ?sh))"
      using inj_on_image_mem_iff [OF _ x sub] by blast
    ultimately show ?thesis by (simp only: tc set_map)
  qed
  obtain log where log: "server_of ?p nw = (map ?g ?sh, log)"
    using cl by (simp add: server_of_def)
  have f: "map ?g (shape (nw_mgr nw2)) =
      filter (\<lambda>c. c \<notin> set (taken_closing fst inp r (map ?g ?sh))) (map ?g ?sh)"
    unfolding c(3) filter_map comp_def using same
    by (intro arg_cong [of _ _ "map ?g"] filter_cong [OF refl]) (simp add: split_beta)
  have "fst (server_of ?p nw2) = map ?g (shape (nw_mgr nw2))"
    unfolding server_of_def shape_fds [symmetric] using c(4)
    by (simp add: comp_def split_beta peer_addr_def)
  note f = this [unfolded f]
  have "concat (map (\<lambda>(fd, a). socket_calls ?p a fd (ni_recv inp fd)) (map ?g (taken snd inp r ?sh))) =
      calls_of ?p nw2 evs"
    using c(6) l(6) by (simp add: loop_calls_def comp_def case_prod_unfold)
  then have g: "snd (server_of ?p nw2) = log
      @ concat (map (\<lambda>(fd, a). socket_calls ?p a fd (ni_recv inp fd)) (taken fst inp r (map ?g ?sh)))"
    unfolding tk using server_of_extends [OF h ext, of ?p] log by simp
  have "server_of ?p nw2 = serve_clients ?p inp r (server_of ?p nw)"
    unfolding log serve_clients_def prod.case if_P [OF True] by (rule prod_eqI) (simp_all only: f g fst_conv snd_conv)
  moreover have "process (nw_handler nw2) = process (nw_handler nw)" using ext by (simp add: extends_def)
  ultimately show ?thesis
    using True l(1) c(1,2) heap_ok_extends [OF h ext]
    by (intro exI [of _ nw2]) (simp add: serve_all_def net_inv_def shape_ids)
qed

end
