(* ===== verification/Server.thy ===== *)
theory Server
  imports NetworkRounds
begin

text \<open>
  The server as the composition of its two threads: any interleaving of rounds of the network
  thread, rounds of the queue thread and changes of the queue thread's status refines the abstract
  server, in which a client's input leads at once to its calls into the protocol library.
\<close>

section \<open>One round\<close>

lemma fds_sorted: "serving env nw ids \<Longrightarrow> sorted (fds (nw_mgr nw)) \<and> distinct (fds (nw_mgr nw))"
  by (simp add: serving_def wf_mgr_def fds_def)

lemma nfds_ok:
  assumes "serving env nw ids"
  shows "\<exists>n. nfds env nw = Inr n"
  using GetHighestFd_max [of "nw_mgr nw"] assms by (simp add: nfds_def serving_def)

lemma insort_clients:
  "fd \<notin> set fs \<Longrightarrow>
   insort_key fst (fd, a) (map (\<lambda>k. (k, f k)) fs) = map (\<lambda>k. (k, if k = fd then a else f k)) (insort fd fs)"
  by (induction fs) auto

lemma server_of_simps [simp]:
  "server_of p (nw\<lparr>nw_diff := d\<rparr>) = server_of p nw" "server_of p (nw\<lparr>nw_last := t\<rparr>) = server_of p nw"
  "server_of p (nw\<lparr>nw_threads := m\<rparr>) = server_of p nw"
  by (simp_all add: server_of_def calls_of_def peer_addr_def)

lemma net_inv_simps [simp]:
  "net_inv env (nw\<lparr>nw_diff := d\<rparr>) = net_inv env nw" "net_inv env (nw\<lparr>nw_last := t\<rparr>) = net_inv env nw"
  by (simp_all add: net_inv_def serving_def heap_ok_def)

lemma network_round_ok:
  assumes inv: "net_inv env nw" and u: "undelayed (ne_proto env)" and i: "input_ok env nw inp"
  shows "\<exists>nw'. network_round env junk inp nw = Inr nw' \<and> net_inv env nw'
    \<and> server_of (ne_proto env) nw' = server_round env inp (server_of (ne_proto env) nw)
    \<and> process (nw_handler nw') = process (nw_handler nw)"
proof -
  let ?p = "ne_proto env"
  let ?nw = "nw\<lparr>nw_diff := getMsTimeDiffToNow (ni_now inp) (nw_last nw), nw_last := ni_now inp\<rparr>"
  have inv': "net_inv env ?nw" using inv by simp
  have sv: "serving env ?nw []" and h: "heap_ok ?nw" using inv' by (simp_all only: net_inv_def)
  obtain n where n: "nfds env nw = Inr n"
    using nfds_ok [of env nw "[]"] inv by (auto simp: net_inv_def)
  show ?thesis
  proof (cases "ni_select inp = 0")
    case True
    then show ?thesis using n inv' by (simp add: network_round_def server_round_def Let_def)
  next
    case r: False
    show ?thesis
    proof (cases "ne_server env \<in> set (ni_ready inp)")
      case False
      then have "network_round env junk inp nw = serve_all env inp (ni_select inp) ?nw"
        using n r by (simp add: network_round_def serve_all_def Let_def)
      then show ?thesis
        using serve_all_ok [OF inv' u, of inp "ni_select inp"] r False by (simp add: server_round_def)
    next
      case srv: True
      show ?thesis
      proof (cases "ni_accept inp")
        case (Inl e)
        then show ?thesis
          using n r srv inv' by (simp add: network_round_def accept_client_def server_round_def Let_def)
      next
        case (Inr fa)
        obtain fd a where fa: "fa = (fd, a)" by (cases fa)
        have "fd \<notin> set (fds (nw_mgr ?nw))" "0 \<le> fd" "fd < 1024" "fd \<noteq> ne_server env"
          using i by (simp_all add: input_ok_def Inr fa)
        note fd = this
        from accept_ok [OF sv u fd, of "ni_now inp" junk a] obtain nw1 evs where
          acc: "accept_client env (ni_now inp) junk (Inr (fd, a)) ?nw = Inr (False, nw1)"
          "serving env nw1 []" "fds (nw_mgr nw1) = insort fd (fds (nw_mgr ?nw))"
          "nw_addr nw1 = (nw_addr ?nw)(fd \<mapsto> a)" "extends ?nw nw1 evs"
          "calls_of ?p nw1 evs = (if hasConnect ?p then [OnConnect a fd] else [])"
          by blast
        have inv1: "net_inv env nw1"
          using acc(2) heap_ok_extends [OF h acc(5)] by (simp add: net_inv_def)
        have ab: "server_of ?p nw1 = (insort_key fst (fd, a) (fst (server_of ?p nw)),
            snd (server_of ?p nw) @ (if hasConnect ?p then [OnConnect a fd] else []))"
        proof (rule prod_eqI)
          show "snd (server_of ?p nw1) = snd (insort_key fst (fd, a) (fst (server_of ?p nw)),
            snd (server_of ?p nw) @ (if hasConnect ?p then [OnConnect a fd] else []))"
            using server_of_extends [OF h acc(5), of ?p] acc(6) by simp
          show "fst (server_of ?p nw1) = fst (insort_key fst (fd, a) (fst (server_of ?p nw)),
            snd (server_of ?p nw) @ (if hasConnect ?p then [OnConnect a fd] else []))"
            using acc(3,4) fd(1) insort_clients [of fd "fds (nw_mgr nw)" a "\<lambda>k. peer_addr k nw"]
            by (simp add: server_of_def peer_addr_def if_distrib cong: if_cong)
        qed
        have "process (nw_handler nw1) = process (nw_handler nw)" using acc(5) by (simp add: extends_def)
        moreover have "network_round env junk inp nw = serve_all env inp (ni_select inp - 1) nw1"
          using n r srv acc(1) Inr fa by (simp add: network_round_def serve_all_def Let_def)
        ultimately show ?thesis
          using serve_all_ok [OF inv1 u, of inp "ni_select inp - 1"] ab r srv Inr fa
          by (simp add: server_round_def)
      qed
    qed
  qed
qed

section \<open>The queue thread\<close>

lemma process_round_ok:
  assumes inv: "net_inv env nw"
  shows "\<exists>b h'. process_round (ne_proto env) began now (nw_handler nw) = Inr (b, h')
    \<and> net_inv env (nw\<lparr>nw_handler := h'\<rparr>)
    \<and> server_of (ne_proto env) (nw\<lparr>nw_handler := h'\<rparr>) = server_of (ne_proto env) nw"
proof -
  let ?p = "ne_proto env" and ?h = "nw_handler nw"
  let ?h2 = "?h\<lparr>diffTime := getMsTimeDiffToNow now began\<rparr>"
  have ho: "heap_ok nw" and sv: "serving env nw []" using inv by (simp_all add: net_inv_def)
  have u: "UpdateDelayed now ?h = ?h" using ho by (simp add: UpdateDelayed_def heap_ok_def)
  have sv': "serving env (nw\<lparr>nw_handler := h'\<rparr>) []" for h'
    by (rule serving_cong [OF sv]) simp_all
  show ?thesis
  proof (cases "ev_queue ?h")
    case Nil
    then have "net_inv env (nw\<lparr>nw_handler := ?h2\<rparr>)" using sv' ho by (simp add: net_inv_def heap_ok_def)
    then show ?thesis
      using Nil u
      by (intro exI [of _ "delayedQueue ?h = []"] exI [of _ ?h2])
        (simp add: process_round_def server_of_def calls_of_def peer_addr_def Let_def)
  next
    case (Cons e q)
    let ?hp = "if owns_data e then (heap ?h)(ev_data e := None) else heap ?h"
    let ?h3 = "?h2\<lparr>calls := calls ?h @ call_of ?p (heap ?h) e, heap := ?hp, ev_queue := q\<rparr>"
    have live: "owns_data e \<longrightarrow> heap ?h2 (ev_data e) \<noteq> None"
      using ho Cons by (auto simp: heap_ok_def)
    have d: "owns_data e \<Longrightarrow> ev_data e \<notin> set (refs q)" "distinct (refs q)"
      using ho Cons by (cases "owns_data e"; simp add: heap_ok_def)+
    have sub: "set (refs q) \<subseteq> set (refs (ev_queue ?h))"
      using Cons by (cases "owns_data e") auto
    have run: "process_round ?p began now ?h = Inr (False, ?h3)"
      using dispatch_live [OF live, of ?p] u Cons by (simp add: process_round_def Let_def)
    have "heap_ok (nw\<lparr>nw_handler := ?h3\<rparr>)"
      using ho d sub unfolding heap_ok_def by (auto simp: subset_iff)
    moreover have "map (call_of ?p ?hp) q = map (call_of ?p (heap ?h)) q"
    proof (rule map_cong [OF refl], rule call_of_heap)
      fix e' assume "e' \<in> set q" "owns_data e'"
      then have "ev_data e' \<in> set (refs q)" by (auto simp: refs_def)
      then show "?hp (ev_data e') = heap ?h (ev_data e')" using d(1) by auto
    qed
    then have "concat (map (call_of ?p ?hp) q) = concat (map (call_of ?p (heap ?h)) q)" by (rule arg_cong)
    then have "server_of ?p (nw\<lparr>nw_handler := ?h3\<rparr>) = server_of ?p nw"
      using Cons by (simp add: server_of_def calls_of_def peer_addr_def)
    ultimately show ?thesis using run sv' [of ?h3] unfolding net_inv_def by blast
  qed
qed

section \<open>The two threads\<close>

datatype server_input = Round net_input | QueueRound timeval timeval | QueueStatus int

fun server_step :: "net_env \<Rightarrow> int \<Rightarrow> server_input \<Rightarrow> network \<Rightarrow> network res" where
  "server_step env junk (Round inp) nw = network_round env junk inp nw"
| "server_step env junk (QueueRound began now) nw =
     (if process (nw_handler nw)
      then rbind (process_round (ne_proto env) began now (nw_handler nw)) (\<lambda>(_, h).
             Inr (nw\<lparr>nw_handler := h\<rparr>))
      else Inr nw)"
| "server_step env junk (QueueStatus s) nw =
     Inr (nw\<lparr>nw_threads := SetThreadStatus (nat (ne_queue env)) s (nw_threads nw)\<rparr>)"

fun server_input_ok :: "net_env \<Rightarrow> server_input \<Rightarrow> network \<Rightarrow> bool" where
  "server_input_ok env (Round inp) nw = input_ok env nw inp"
| "server_input_ok env _ nw = True"

fun server_spec :: "net_env \<Rightarrow> server_input \<Rightarrow> server \<Rightarrow> server" where
  "server_spec env (Round inp) s = server_round env inp s"
| "server_spec env _ s = s"

lemma server_simulates:
  assumes "undelayed (ne_proto env)" and "net_inv env nw" and "server_input_ok env i nw"
  shows "\<exists>nw'. server_step env junk i nw = Inr nw' \<and> net_inv env nw'
    \<and> server_of (ne_proto env) nw' = server_spec env i (server_of (ne_proto env) nw)"
proof (cases i)
  case (Round inp)
  then show ?thesis using network_round_ok [OF assms(2,1)] assms(3) by fastforce
next
  case (QueueRound began now)
  from process_round_ok [OF assms(2), of began now] assms(2) show ?thesis by (auto simp: QueueRound)
next
  case (QueueStatus s)
  have "net_inv env (nw\<lparr>nw_threads := SetThreadStatus (nat (ne_queue env)) s (nw_threads nw)\<rparr>)"
    using assms(2) by (simp add: net_inv_def serving_def heap_ok_def threads_ok_def)
  then show ?thesis by (simp add: QueueStatus)
qed

text \<open>The environment with a protocol whose delayed functions are not configured.\<close>

definition plain_env :: "net_env \<Rightarrow> net_env" where
  "plain_env env = env\<lparr>ne_proto := (ne_proto env)\<lparr>hasConnectDelayed := False,
     hasRecieveDelayed := False, hasDisconnectDelayed := False\<rparr>\<rparr>"

lemma plain_env_undelayed [simp]: "undelayed (ne_proto (plain_env env))"
  by (simp add: plain_env_def undelayed_def)

lemma plain_env_id: "undelayed (ne_proto env) \<Longrightarrow> plain_env env = env"
  by (simp add: plain_env_def undelayed_def)

interpretation server: simulation
  "server_step (plain_env env) junk" "server_input_ok (plain_env env)" "net_inv (plain_env env)"
  "server_of (ne_proto (plain_env env))" "server_spec (plain_env env)" for env junk
  by unfold_locales (rule server_simulates [OF plain_env_undelayed])

lemma server_run:
  assumes "undelayed (ne_proto env)" and "net_inv env nw"
    and "run_ok (server_step env junk) (server_input_ok env) is nw"
  shows "\<exists>nw'. run_inputs (server_step env junk) is nw = Inr nw' \<and> net_inv env nw'
    \<and> server_of (ne_proto env) nw' = fold (server_spec env) is (server_of (ne_proto env) nw)"
  using server.run_simulates [of env nw junk "is"] assms(2,3) by (simp only: plain_env_id [OF assms(1)])

section \<open>Starting\<close>

lemma start_inv:
  "0 \<le> ne_queue env \<Longrightarrow> nat (ne_queue env) < length (pThreads m) \<Longrightarrow>
   net_inv env (network_start (ne_server env) m t)"
  by (simp add: net_inv_def serving_def heap_ok_def network_start_def threads_ok_def PacketHandler_def
      shape_def fds_def ConnectionMgr_def wf_mgr_def)

lemma start_server: "server_of p (network_start s m t) = ([], [])"
  by (simp add: server_of_def network_start_def ConnectionMgr_def fds_def PacketHandler_def)

definition sample_net_protocol :: protocol where
  "sample_net_protocol = \<lparr>hasConnect = True, hasRecieve = True, hasSend = False, hasDisconnect = True,
     hasConnectDelayed = False, hasRecieveDelayed = False, hasSendDelayed = False,
     hasDisconnectDelayed = False\<rparr>"

definition sample_env :: net_env where
  "sample_env = \<lparr>ne_server = 4, ne_queue = 0, ne_proto = sample_net_protocol, ne_ints = (\<lambda>_. 0)\<rparr>"

definition sample_time :: timeval where
  "sample_time = \<lparr>tv_sec = 0, tv_usec = 0\<rparr>"

definition sample_net :: network where
  "sample_net = network_start 4 queue_mgr sample_time"

text \<open>A client connects, sends two bytes, and goes.\<close>

definition connect_input :: net_input where
  "connect_input = \<lparr>ni_now = sample_time, ni_select = 1, ni_ready = [4], ni_accept = Inr (5, 127), ni_recv = (\<lambda>_. Eof)\<rparr>"

definition data_input :: "recv_event \<Rightarrow> net_input" where
  "data_input ev = \<lparr>ni_now = sample_time, ni_select = 1, ni_ready = [5], ni_accept = Inl 11, ni_recv = (\<lambda>_. ev)\<rparr>"

lemma sample_env_simps [simp]:
  "ne_server sample_env = 4" "ne_queue sample_env = 0" "ne_proto sample_env = sample_net_protocol"
  "undelayed (ne_proto sample_env)"
  by (simp_all add: sample_env_def undelayed_def sample_net_protocol_def)

lemma sample_net_inv [simp]: "net_inv sample_env sample_net"
  using start_inv [of sample_env queue_mgr sample_time] by (simp add: sample_net_def queue_mgr_simps)

lemma sample_run_ok:
  "run_ok (server_step sample_env 0) (server_input_ok sample_env)
     [Round connect_input, Round (data_input (Data ''hi'')), QueueRound sample_time sample_time,
      Round (data_input Eof), QueueRound sample_time sample_time] sample_net"
  by (simp add: input_ok_def connect_input_def data_input_def sample_net_def network_start_def
      ConnectionMgr_def fds_def split: sum.splits)

section \<open>Properties\<close>

text \<open>
  C1. The server with its two threads refines a sequential machine.  Let no delayed function be
  configured, and the protocol leave the closing of sockets to the network thread.  For every
  interleaving of rounds of the network thread (with whatever the kernel answers, as long as a new
  descriptor is below 1024 and not in use), rounds of the queue thread and changes of that thread's
  status, the run succeeds without undefined behaviour, the clients in the
  table are those of the machine, and the calls made together with the calls owed for the queued
  events are the machine's log; when the queue is empty the protocol library has been called
  exactly as the machine's log says, in that order.
\<close>
theorem server_refines_machine:
  assumes "undelayed (ne_proto env)" and "net_inv env nw"
    and "run_ok (server_step env junk) (server_input_ok env) is nw"
  shows "\<exists>nw'. run_inputs (server_step env junk) is nw = Inr nw'
    \<and> server_of (ne_proto env) nw' = fold (server_spec env) is (server_of (ne_proto env) nw)
    \<and> (ev_queue (nw_handler nw') \<noteq> []
        \<or> calls (nw_handler nw') = snd (fold (server_spec env) is (server_of (ne_proto env) nw)))"
proof -
  obtain nw' where nw': "run_inputs (server_step env junk) is nw = Inr nw'"
    "server_of (ne_proto env) nw' = fold (server_spec env) is (server_of (ne_proto env) nw)"
    using server_run [OF assms] by blast
  then show ?thesis by (metis append_Nil2 calls_of_Nil server_of_def snd_conv)
qed

theorem server_refines_machine_witness:
  "\<exists>nw'. run_inputs (server_step sample_env 0)
      [Round connect_input, Round (data_input (Data ''hi'')), QueueRound sample_time sample_time,
       Round (data_input Eof), QueueRound sample_time sample_time] sample_net = Inr nw'
    \<and> server_of sample_net_protocol nw' =
        ([], [OnConnect 127 5, OnRecieve 127 5 (Some (''hi'' @ replicate 16382 nul)), OnDisconnect 127 5])"
proof -
  have "fold (server_spec sample_env)
      [Round connect_input, Round (data_input (Data ''hi'')), QueueRound sample_time sample_time,
       Round (data_input Eof), QueueRound sample_time sample_time] ([], []) =
    ([], [OnConnect 127 5, OnRecieve 127 5 (Some (''hi'' @ replicate 16382 nul)), OnDisconnect 127 5])"
    by (simp add: server_round_def serve_clients_def connect_input_def data_input_def socket_calls_def
        taken_closing_def closes_def ended_def got_def block_size_def sample_net_protocol_def)
  then show ?thesis
    using server_refines_machine [OF sample_env_simps(4) sample_net_inv sample_run_ok]
    by (auto simp: sample_net_def start_server)
qed

text \<open>
  C2. The invariant of the network thread, in every state that such an interleaving can reach from
  the start: the set given to \<open>select\<close> is the server socket and exactly the sockets in the table,
  ordered and without duplicates; no socket waits to be closed; and every queued receive event
  refers to its own data object, which has not been deleted.
\<close>
theorem network_invariant:
  assumes "undelayed (ne_proto env)" and "threads_ok env (network_start (ne_server env) m t)"
    and "run_ok (server_step env junk) (server_input_ok env) is (network_start (ne_server env) m t)"
    and "run_inputs (server_step env junk) is (network_start (ne_server env) m t) = Inr nw"
  shows "nw_set nw = insert (ne_server env) (set (fds (nw_mgr nw)))
    \<and> sorted (fds (nw_mgr nw)) \<and> distinct (fds (nw_mgr nw)) \<and> queue (nw_mgr nw) = []
    \<and> distinct (refs (ev_queue (nw_handler nw)))
    \<and> list_all (\<lambda>r. heap (nw_handler nw) r \<noteq> None) (refs (ev_queue (nw_handler nw)))"
proof -
  have "net_inv env (network_start (ne_server env) m t)"
    using assms(2) by (intro start_inv) (simp_all add: threads_ok_def network_start_def)
  from server_run [OF assms(1) this assms(3)] have inv: "net_inv env nw" using assms(4) by auto
  have "{k. \<exists>i. (i, k) \<in> set (shape (nw_mgr nw))} = set (fds (nw_mgr nw))"
    unfolding shape_fds [symmetric] by force
  then show ?thesis
    using inv fds_sorted [of env nw "[]"] by (auto simp: net_inv_def serving_def heap_ok_def list_all_iff)
qed

theorem network_invariant_witness:
  "\<exists>nw. run_inputs (server_step sample_env 0) [Round connect_input] sample_net = Inr nw
    \<and> nw_set nw = insert 4 (set (fds (nw_mgr nw)))"
proof -
  have r: "run_ok (server_step sample_env 0) (server_input_ok sample_env) [Round connect_input] sample_net"
    using sample_run_ok by (auto split: sum.splits)
  obtain nw where nw: "run_inputs (server_step sample_env 0) [Round connect_input] sample_net = Inr nw"
    using server_run [OF sample_env_simps(4) sample_net_inv r] by blast
  have n: "network_start (ne_server sample_env) queue_mgr sample_time = sample_net"
    by (simp add: sample_net_def)
  have t: "threads_ok sample_env sample_net"
    by (simp add: threads_ok_def sample_net_def network_start_def queue_mgr_simps)
  note inv = network_invariant [of sample_env queue_mgr sample_time 0 "[Round connect_input]" nw,
      unfolded n, OF sample_env_simps(4) t r nw]
  have "nw_set nw = insert 4 (set (fds (nw_mgr nw)))" using inv by simp
  then show ?thesis using nw by blast
qed

end
