(* ===== verification/ServerProps.thy ===== *)
theory ServerProps
  imports Server
begin

text \<open>
  More about the network thread: what it gives to \<open>select\<close>, the limit on descriptors, the delivery
  of a block, and what a protocol's QUIT does to the next round.
\<close>

section \<open>A round in which one socket is ready\<close>

text \<open>The data of an event as the protocol library reads it: the characters before the first NUL.\<close>

definition recieved_text :: "string option \<Rightarrow> string" where
  "recieved_text d = (case d of Some s \<Rightarrow> c_str s | None \<Rightarrow> [])"

lemma c_str_padded: "nul \<notin> set s \<Longrightarrow> c_str (s @ replicate (Suc n) nul) = s"
  unfolding c_str_def by (induction s) auto

lemma taken_single:
  "distinct (map key xs) \<Longrightarrow> x \<in> set xs \<Longrightarrow> ni_ready inp = [key x] \<Longrightarrow> taken key inp 1 xs = [x]"
  by (induction xs) auto

lemma serve_single:
  assumes "distinct (map fst cs)" and "(fd, a) \<in> set cs" and "ni_ready inp = [fd]"
  shows "serve_clients p inp 1 (cs, log) =
    (if closes (ni_recv inp fd) then filter (\<lambda>c. c \<noteq> (fd, a)) cs else cs,
     log @ socket_calls p a fd (ni_recv inp fd))"
  using assms taken_single [of fst cs "(fd, a)" inp]
  by (simp add: serve_clients_def taken_closing_def)

lemma server_fds: "map fst (fst (server_of p nw)) = fds (nw_mgr nw)"
  by (simp add: server_of_def comp_def)

lemma server_member:
  "fd \<in> set (fds (nw_mgr nw)) \<Longrightarrow> (fd, peer_addr fd nw) \<in> set (fst (server_of p nw))"
  by (simp add: server_of_def)

text \<open>Handling all queued events makes the calls owed.\<close>

lemma queue_emptied:
  assumes "net_inv env nw" and "process (nw_handler nw)"
  shows "\<exists>h. process_rounds (ne_proto env) now (length (ev_queue (nw_handler nw))) (nw_handler nw) = Inr h
    \<and> ev_queue h = [] \<and> calls h = snd (server_of (ne_proto env) nw)"
  using process_rounds_fifo [OF assms(2) _ refl, of "ne_proto env" now] assms(1)
  by (auto simp: net_inv_def heap_ok_def server_of_def calls_of_def)

section \<open>The watched descriptors\<close>

lemma watched: "serving env nw [] \<Longrightarrow> nw_set nw = insert (ne_server env) (set (fds (nw_mgr nw)))"
  unfolding serving_def shape_fds [symmetric] by force

section \<open>Closing a socket that waits to be closed\<close>

lemma recv_loop_single:
  "wf_mgr (nw_mgr nw) \<Longrightarrow> set l \<subseteq> set (shape (nw_mgr nw)) \<Longrightarrow> distinct (map snd l) \<Longrightarrow> (i, k) \<in> set l \<Longrightarrow>
   ni_ready inp = [k] \<Longrightarrow> serve_socket env (ni_now inp) (ni_recv inp k) i nw = Inr nw' \<Longrightarrow>
   recv_loop env inp 1 (map fst l) nw = Inr nw'"
proof (induction l)
  case (Cons x l)
  obtain j k' where x: "x = (j, k')" by (cases x)
  obtain n where n: "n \<in> set (sockets (nw_mgr nw))" "node_id n = j" "node_key n = k'"
    using Cons.prems(2) by (auto simp: x shape_member)
  have d: "deref (nw_mgr nw) (NodeAt j) = Inr n" using deref_member [OF Cons.prems(1) n(1)] n(2) by simp
  have key: "sock_fd (node_sock n) = k'" using Cons.prems(1) n by (simp add: wf_mgr_def)
  show ?case
  proof (cases "k' = k")
    case True
    then have "j = i" using Cons.prems(3,4) by (auto simp: x image_iff dest: bspec)
    moreover have "recv_loop env inp 0 is nw' = Inr nw'" for "is" by (cases "is") simp_all
    ultimately show ?thesis using d key True Cons.prems(5,6) by (simp add: x)
  next
    case False
    then have "(i, k) \<in> set l" using Cons.prems(4) by (auto simp: x)
    then show ?thesis using Cons d key False by (simp add: x)
  qed
qed simp

text \<open>\<open>queued\<close>: the table is in order and \<open>q\<close> waits to be closed, maybe with repetitions.\<close>

definition queued :: "net_env \<Rightarrow> network \<Rightarrow> sock_iter list \<Rightarrow> bool" where
  "queued env nw q \<longleftrightarrow> wf_mgr (nw_mgr nw) \<and> \<not> closeImmediatly (nw_mgr nw) \<and> queue (nw_mgr nw) = q
     \<and> threads_ok env nw"

lemma socket_ended_queues:
  assumes q: "queued env nw q" and n: "n \<in> set (sockets (nw_mgr nw))" and u: "undelayed (ne_proto env)"
  shows "\<exists>nw'. socket_ended env now (node_id n) nw = Inr nw' \<and> queued env nw' (q @ [NodeAt (node_id n)])
    \<and> sockets (nw_mgr nw') = sockets (nw_mgr nw)"
proof -
  let ?m = "(nw_mgr nw)\<lparr>queue := queue (nw_mgr nw) @ [NodeAt (node_id n)]\<rparr>"
  let ?nw = "nw\<lparr>nw_mgr := ?m, nw_set := FD_CLR (node_key n) (nw_set nw)\<rparr>"
  have wf: "wf_mgr (nw_mgr nw)" "\<not> closeImmediatly (nw_mgr nw)" using q by (simp_all add: queued_def)
  have key: "sock_fd (node_sock n) = node_key n" using wf(1) n by (simp add: wf_mgr_def)
  have d: "deref (nw_mgr nw) (NodeAt (node_id n)) = Inr n" "deref ?m (NodeAt (node_id n)) = Inr n"
    using deref_member [OF wf(1) n] deref_member [OF wf_queue [OF wf(1)], of n] n by simp_all
  have q': "queued env ?nw (q @ [NodeAt (node_id n)])"
    using q wf_queue by (simp add: queued_def)
  have eq: "socket_ended env now (node_id n) nw =
      (if hasDisconnect (ne_proto env)
       then raise_plain env EVENT_DISCONNECT (node_key n) (peer_addr (node_key n) nw) ?nw else Inr ?nw)"
    using d CloseSocketByFd_queue [OF wf n] u
    by (simp add: socket_ended_def key undelayed_def raise_plain_def Let_def)
  show ?thesis
  proof (cases "hasDisconnect (ne_proto env)")
    case False
    then show ?thesis using eq q' by simp
  next
    case True
    have "threads_ok env ?nw" using q' by (simp add: queued_def)
    from raise_plain_extends [OF this, of EVENT_DISCONNECT "node_key n" "peer_addr (node_key n) nw"]
    obtain nw' e where "raise_plain env EVENT_DISCONNECT (node_key n) (peer_addr (node_key n) nw) ?nw = Inr nw'"
      "extends ?nw nw' [e]" "nw_mgr nw' = ?m" by auto
    moreover from this have "nw_threads nw' = nw_threads ?nw" by (simp add: extends_def)
    ultimately show ?thesis
      using eq True q' wf_queue [OF wf(1), of "q @ [NodeAt (node_id n)]"] by (simp add: queued_def threads_ok_def)
  qed
qed

lemma serve_ended_queues:
  assumes q: "queued env nw q" and n: "n \<in> set (sockets (nw_mgr nw))" and u: "undelayed (ne_proto env)"
    and e: "ended rcv"
  shows "\<exists>nw' so. serve_socket env now rcv (node_id n) nw = Inr nw'
    \<and> queued env nw' (q @ [NodeAt (node_id n)]) \<and> n\<lparr>node_sock := so\<rparr> \<in> set (sockets (nw_mgr nw'))"
proof -
  have wf: "wf_mgr (nw_mgr nw)" using q by (simp add: queued_def)
  have key: "sock_fd (node_sock n) = node_key n" using wf n(1) by (simp add: wf_mgr_def)
  obtain so' where so': "Recieve_data rcv (node_sock n) (filled []) = Inr (0, filled (got rcv), so')"
    "sock_fd so' = node_key n"
    using Recieve_block [of rcv "node_sock n"] key e by auto
  let ?nw = "(snd (new_data (filled (got rcv)) nw))\<lparr>nw_mgr := set_sock (node_id n) so' (nw_mgr nw)\<rparr>"
  have q2: "queued env ?nw q"
    using q set_sock_wf [OF wf n so'(2)] by (simp add: queued_def threads_ok_def)
  have n2: "n\<lparr>node_sock := so'\<rparr> \<in> set (sockets (nw_mgr ?nw))" using set_sock_member [OF n] by simp
  from socket_ended_queues [OF q2 n2 u, of now] obtain nw' where
    "socket_ended env now (node_id n) ?nw = Inr nw'" "queued env nw' (q @ [NodeAt (node_id n)])"
    "sockets (nw_mgr nw') = sockets (nw_mgr ?nw)" by auto
  moreover have "serve_socket env now rcv (node_id n) nw = socket_ended env now (node_id n) ?nw"
    using deref_member [OF wf n(1)] so'(1) reserve_block by (simp add: serve_socket_def new_data_def Let_def)
  ultimately show ?thesis using n2 by auto
qed

section \<open>Properties\<close>

text \<open>
  C31. The first argument of \<open>select\<close> is right in every state of the invariant: computing it has no
  undefined behaviour, every watched descriptor is below it, one of them is just below it, and it
  is at most the size of an \<open>fd_set\<close>.
\<close>
theorem select_bound:
  assumes "net_inv env nw" and "0 \<le> ne_server env" and "ne_server env < 1024"
  shows "\<exists>n. nfds env nw = Inr n \<and> list_all (\<lambda>fd. fd < n) (ne_server env # fds (nw_mgr nw))
    \<and> n - 1 \<in> nw_set nw \<and> 0 < n \<and> n \<le> 1024"
proof -
  let ?m = "nw_mgr nw"
  have sv: "serving env nw []" using assms(1) by (simp add: net_inv_def)
  have wf: "wf_mgr ?m" and range: "\<forall>k \<in> set (fds ?m). 0 \<le> k \<and> k < 1024" using sv by (auto simp: serving_def)
  note w = watched [OF sv]
  show ?thesis
  proof (cases "sockets ?m = []")
    case True
    then show ?thesis
      using assms GetHighestFd_max [OF wf] w by (simp add: nfds_def fds_def)
  next
    case False
    then have ne: "set (fds ?m) \<noteq> {}" by (simp add: fds_def)
    let ?h = "Max (set (fds ?m))"
    have h: "GetHighestFd ?m = Inr ?h" using False GetHighestFd_max [OF wf] by simp
    have m: "?h \<in> set (fds ?m)" using ne by (intro Max_in) simp_all
    have le: "\<forall>k \<in> set (fds ?m). k \<le> ?h" by simp
    have "nfds env nw = Inr (max ?h (ne_server env) + 1)" using h by (simp add: nfds_def max_def)
    moreover have "list_all (\<lambda>fd. fd < max ?h (ne_server env) + 1) (ne_server env # fds ?m)"
    proof (unfold list_all_iff, rule ballI)
      fix k assume "k \<in> set (ne_server env # fds ?m)"
      then have "k \<le> max ?h (ne_server env)" using le by (auto simp: le_max_iff_disj)
      then show "k < max ?h (ne_server env) + 1" by simp
    qed
    moreover have "max ?h (ne_server env) \<in> nw_set nw" using w m by (simp add: max_def)
    ultimately show ?thesis using range m assms(2,3) by (intro exI [of _ "max ?h (ne_server env) + 1"]) auto
  qed
qed

theorem select_bound_witness:
  "\<exists>n. nfds sample_env sample_net = Inr n \<and> 0 < n \<and> n \<le> 1024"
  using select_bound [OF sample_net_inv] by auto

text \<open>
  The server has no limit on clients, but its descriptor set has: accepting a client whose
  descriptor is 1024 or more writes outside the set, so a client that opens about a thousand
  connections ends in undefined behaviour.
\<close>
theorem descriptor_limit:
  assumes "net_inv env nw" and "undelayed (ne_proto env)" and "ni_select inp \<noteq> 0"
    and "ne_server env \<in> set (ni_ready inp)" and "ni_accept inp = Inr (fd, a)" and "1024 \<le> fd"
  shows "network_round env junk inp nw = Inl OutOfBounds"
proof -
  let ?nw = "nw\<lparr>nw_diff := getMsTimeDiffToNow (ni_now inp) (nw_last nw), nw_last := ni_now inp\<rparr>"
  have sv: "serving env nw []" using assms(1) by (simp add: net_inv_def)
  obtain n where n: "nfds env nw = Inr n" using nfds_ok [OF sv] by blast
  have t: "threads_ok env (?nw\<lparr>nw_addr := f, nw_mgr := m\<rparr>)" for f m using sv by (simp add: serving_def)
  have "accept_client env (ni_now inp) junk (Inr (fd, a)) ?nw = Inl OutOfBounds"
  proof (cases "hasConnect (ne_proto env)")
    case False
    then show ?thesis
      using assms(2,6) by (simp add: accept_client_def undelayed_def FD_SET_def Let_def)
  next
    case True
    define nw1 where "nw1 = ?nw\<lparr>nw_addr := (if find_key (sockets (nw_mgr ?nw)) fd = None
        then (nw_addr ?nw)(fd \<mapsto> a) else nw_addr ?nw),
      nw_mgr := AddSocket (Socket junk fd) (nw_mgr ?nw)\<rparr>"
    have "threads_ok env nw1" unfolding nw1_def by (rule t)
    from raise_plain_extends [OF this, of EVENT_CONNECT fd a] obtain nw2 where
      r: "raise_plain env EVENT_CONNECT fd a nw1 = Inr nw2" by auto
    have "accept_client env (ni_now inp) junk (Inr (fd, a)) ?nw =
        rbind (raise_plain env EVENT_CONNECT fd a nw1) (\<lambda>nw.
          rbind (FD_SET fd (nw_set nw)) (\<lambda>s. Inr (False, nw\<lparr>nw_set := s\<rparr>)))"
      using True assms(2)
      by (simp add: accept_client_def undelayed_def raise_plain_def nw1_def Let_def split del: if_split)
    then show ?thesis using r assms(6) by (simp add: FD_SET_def)
  qed
  then show ?thesis using n assms(3-5) by (simp add: network_round_def Let_def)
qed

theorem descriptor_limit_witness:
  "network_round sample_env 0 (connect_input\<lparr>ni_accept := Inr (1024, 127)\<rparr>) sample_net = Inl OutOfBounds"
  by (rule descriptor_limit [where fd = 1024 and a = 127])
    (simp_all add: connect_input_def undelayed_def sample_net_protocol_def)

text \<open>
  C4. End to end: when a client has sent a block of fewer than 16384 bytes without NUL, the next
  round and the handling of the queue lead to exactly one call of the protocol's receive function
  for it, after all calls owed before, with the client's address and descriptor, and the text that
  the function reads is the block.
\<close>
theorem block_delivered:
  assumes "net_inv env nw" and "undelayed (ne_proto env)" and "hasRecieve (ne_proto env)"
    and "process (nw_handler nw)" and "fd \<in> set (fds (nw_mgr nw))"
    and "ni_select inp = 1" and "ni_ready inp = [fd]" and "ni_recv inp fd = Data bs" and "input_ok env nw inp"
    and "bs \<noteq> []" and "length bs < 16384" and "nul \<notin> set bs"
  shows "\<exists>nw' h d. network_round env junk inp nw = Inr nw'
    \<and> process_rounds (ne_proto env) now (length (ev_queue (nw_handler nw'))) (nw_handler nw') = Inr h
    \<and> calls h = snd (server_of (ne_proto env) nw) @ [OnRecieve (peer_addr fd nw) fd d]
    \<and> recieved_text d = bs \<and> fds (nw_mgr nw') = fds (nw_mgr nw)"
proof -
  let ?p = "ne_proto env"
  have sv: "serving env nw []" using assms(1) by (simp add: net_inv_def)
  obtain nw' where nw': "network_round env junk inp nw = Inr nw'" "net_inv env nw'"
    "server_of ?p nw' = server_round env inp (server_of ?p nw)" and p': "process (nw_handler nw')"
    using network_round_ok [OF assms(1,2,9)] assms(4) by blast
  have srv: "ne_server env \<noteq> fd" using sv assms(5) by (auto simp: serving_def)
  have dist: "distinct (map fst (fst (server_of ?p nw)))" using fds_sorted [OF sv] by (simp add: server_fds)
  have g: "got (Data bs) = bs" using assms(11) by (simp add: got_def block_size_def)
  have d: "\<not> ended (Data bs)" "\<not> closes (Data bs)" using assms(10) by (simp_all add: closes_def ended_def)
  define block where "block = Some (bs @ replicate (block_size - length bs) nul)"
  have s: "server_of ?p nw' = (fst (server_of ?p nw), snd (server_of ?p nw) @ [OnRecieve (peer_addr fd nw) fd block])"
    using serve_single [OF dist server_member [OF assms(5)] assms(7), of ?p "snd (server_of ?p nw)"] srv d g assms(3,6,7,8)
    by (simp add: nw'(3) server_round_def socket_calls_def block_def)
  from queue_emptied [OF nw'(2) p', of now] obtain h where h:
    "process_rounds ?p now (length (ev_queue (nw_handler nw'))) (nw_handler nw') = Inr h"
    "calls h = snd (server_of ?p nw')" by blast
  have "block_size - length bs = Suc (block_size - length bs - 1)" using assms(11) by (simp add: block_size_def)
  then have "recieved_text block = bs"
    using c_str_padded [OF assms(12)] by (metis block_def option.simps(5) recieved_text_def)
  moreover have "fds (nw_mgr nw') = fds (nw_mgr nw)" using s by (metis fst_conv server_fds)
  ultimately show ?thesis using nw'(1) h s by (intro exI [of _ nw'] exI [of _ h] exI [of _ block]) simp
qed

text \<open>The sample server with one client.\<close>

lemma one_client:
  "\<exists>nw. network_round sample_env 0 connect_input sample_net = Inr nw \<and> net_inv sample_env nw
    \<and> server_of sample_net_protocol nw = ([(5, 127)], [OnConnect 127 5]) \<and> process (nw_handler nw)
    \<and> fds (nw_mgr nw) = [5] \<and> peer_addr 5 nw = 127"
proof -
  have "input_ok sample_env sample_net connect_input"
    by (simp add: input_ok_def connect_input_def sample_net_def network_start_def ConnectionMgr_def fds_def)
  from network_round_ok [OF sample_net_inv sample_env_simps(4) this, of 0]
  obtain nw where nw: "network_round sample_env 0 connect_input sample_net = Inr nw" "net_inv sample_env nw"
    "server_of sample_net_protocol nw = server_round sample_env connect_input (server_of sample_net_protocol sample_net)"
    "process (nw_handler nw) = process (nw_handler sample_net)" by auto
  have s: "server_of sample_net_protocol nw = ([(5, 127)], [OnConnect 127 5])"
    unfolding nw(3) by (simp add: server_round_def serve_clients_def connect_input_def sample_net_def
        start_server sample_net_protocol_def)
  have "map fst [(5::int, 127::nat)] = fds (nw_mgr nw)" using server_fds [of sample_net_protocol nw] s by simp
  then have f: "fds (nw_mgr nw) = [5]" by simp
  then have "peer_addr 5 nw = 127" using s by (simp add: server_of_def)
  moreover have "process (nw_handler nw)" using nw(4) by (simp add: sample_net_def network_start_def PacketHandler_def)
  ultimately show ?thesis using nw(1,2) s f by blast
qed

theorem block_delivered_witness:
  "\<exists>nw nw' h d. network_round sample_env 0 connect_input sample_net = Inr nw
    \<and> network_round sample_env 0 (data_input (Data ''USER me'')) nw = Inr nw'
    \<and> process_rounds sample_net_protocol sample_time (length (ev_queue (nw_handler nw'))) (nw_handler nw') = Inr h
    \<and> calls h = [OnConnect 127 5, OnRecieve 127 5 d] \<and> recieved_text d = ''USER me''"
proof -
  obtain nw where nw: "network_round sample_env 0 connect_input sample_net = Inr nw" "net_inv sample_env nw"
    "server_of sample_net_protocol nw = ([(5, 127)], [OnConnect 127 5])" "process (nw_handler nw)"
    "fds (nw_mgr nw) = [5]" "peer_addr 5 nw = 127"
    using one_client by blast
  have i: "input_ok sample_env nw (data_input (Data ''USER me''))" by (simp add: input_ok_def data_input_def)
  have h: "hasRecieve (ne_proto sample_env)" by (simp add: sample_net_protocol_def)
  have f: "5 \<in> set (fds (nw_mgr nw))" by (simp add: nw(5))
  have r: "ni_select (data_input (Data ''USER me'')) = 1" "ni_ready (data_input (Data ''USER me'')) = [5]"
    "ni_recv (data_input (Data ''USER me'')) 5 = Data ''USER me''" by (simp_all add: data_input_def)
  have b: "''USER me'' \<noteq> []" "length ''USER me'' < 16384" "nul \<notin> set ''USER me''" by simp_all
  from block_delivered [OF nw(2) sample_env_simps(4) h nw(4) f r i b, of 0 sample_time] obtain nw' h d where
    "network_round sample_env 0 (data_input (Data ''USER me'')) nw = Inr nw'"
    "process_rounds sample_net_protocol sample_time (length (ev_queue (nw_handler nw'))) (nw_handler nw') = Inr h"
    "calls h = [OnConnect 127 5, OnRecieve 127 5 d]" "recieved_text d = ''USER me''"
    by (auto simp: nw(3,6))
  then show ?thesis using nw(1) by blast
qed

text \<open>
  C15. QUIT leads to undefined behaviour.  The command of FTP and SMTP queues the socket for closing
  from the queue thread, without taking it out of the set of \<open>select\<close>; when the client then goes
  away and this is what the next round sees, the socket is queued a second time, and the end of the
  round uses the iterator after the element was erased.
\<close>
theorem quit_then_disconnect_undefined:
  assumes "net_inv env nw" and "undelayed (ne_proto env)" and "fd \<in> set (fds (nw_mgr nw))"
    and "CloseSocketByFd fd (nw_mgr nw) = Inr m" and "ni_select inp = 1" and "ni_ready inp = [fd]"
    and "ended (ni_recv inp fd)"
  shows "network_round env junk inp (nw\<lparr>nw_mgr := m\<rparr>) = Inl DanglingIterator"
proof -
  have sv: "serving env nw []" using assms(1) by (simp add: net_inv_def)
  then have wf: "wf_mgr (nw_mgr nw)" "\<not> closeImmediatly (nw_mgr nw)" "queue (nw_mgr nw) = []"
    "threads_ok env nw" "fd \<noteq> ne_server env"
    using assms(3) by (auto simp: serving_def)
  obtain n where n: "n \<in> set (sockets (nw_mgr nw))" "node_key n = fd"
    using assms(3) by (auto simp: fds_def)
  have m: "m = (nw_mgr nw)\<lparr>queue := [NodeAt (node_id n)]\<rparr>"
    using CloseSocketByFd_queue [OF wf(1,2) n(1)] assms(4) n(2) wf(3) by simp
  let ?nw = "nw\<lparr>nw_mgr := m, nw_diff := getMsTimeDiffToNow (ni_now inp) (nw_last nw), nw_last := ni_now inp\<rparr>"
  have q: "queued env ?nw [NodeAt (node_id n)]"
    using wf wf_queue by (simp add: queued_def m)
  have n': "n \<in> set (sockets (nw_mgr ?nw))" using n(1) by (simp add: m)
  from serve_ended_queues [OF q n' assms(2,7), of "ni_now inp"] obtain nw' so where s:
    "serve_socket env (ni_now inp) (ni_recv inp fd) (node_id n) ?nw = Inr nw'"
    "queued env nw' [NodeAt (node_id n), NodeAt (node_id n)]" "n\<lparr>node_sock := so\<rparr> \<in> set (sockets (nw_mgr nw'))"
    by auto
  have "recv_loop env inp 1 (map fst (shape m)) ?nw = Inr nw'"
  proof (rule recv_loop_single [OF _ _ _ _ assms(6) s(1)])
    show "wf_mgr (nw_mgr ?nw)" using q by (simp add: queued_def)
    show "set (shape m) \<subseteq> set (shape (nw_mgr ?nw))" by simp
    show "distinct (map snd (shape m))" using shape_distinct [OF wf(1)] by (simp add: m)
    show "(node_id n, fd) \<in> set (shape m)" using n by (auto simp: m shape_member)
  qed
  moreover have "close_pending nw' = Inl DanglingIterator"
    using s(2,3) pending_twice [of "nw_mgr nw'" "n\<lparr>node_sock := so\<rparr>" "[]"]
    by (simp add: close_pending_def queued_def)
  moreover have "\<exists>k. nfds env (nw\<lparr>nw_mgr := m\<rparr>) = Inr k"
    using GetHighestFd_max [of m] wf_queue [OF wf(1)] by (simp add: nfds_def m)
  ultimately show ?thesis
    using assms(5,6) wf(5) by (auto simp: network_round_def Let_def shape_ids)
qed

theorem quit_then_disconnect_undefined_witness:
  "\<exists>nw m. network_round sample_env 0 connect_input sample_net = Inr nw
    \<and> CloseSocketByFd 5 (nw_mgr nw) = Inr m
    \<and> network_round sample_env 0 (data_input Eof) (nw\<lparr>nw_mgr := m\<rparr>) = Inl DanglingIterator"
proof -
  obtain nw where nw: "network_round sample_env 0 connect_input sample_net = Inr nw" "net_inv sample_env nw"
    "fds (nw_mgr nw) = [5]"
    using one_client by blast
  then have wf: "wf_mgr (nw_mgr nw)" "\<not> closeImmediatly (nw_mgr nw)" by (simp_all add: net_inv_def serving_def)
  have f: "5 \<in> set (fds (nw_mgr nw))" by (simp add: nw(3))
  then obtain n where "n \<in> set (sockets (nw_mgr nw))" "node_key n = 5" by (auto simp: fds_def)
  then obtain m where m: "CloseSocketByFd 5 (nw_mgr nw) = Inr m"
    using CloseSocketByFd_queue [OF wf] by metis
  have "network_round sample_env 0 (data_input Eof) (nw\<lparr>nw_mgr := m\<rparr>) = Inl DanglingIterator"
    by (rule quit_then_disconnect_undefined [OF nw(2) sample_env_simps(4) f m])
      (simp_all add: data_input_def ended_def)
  then show ?thesis using nw(1) m by blast
qed

text \<open>
  After a QUIT without a further input of the client the socket is closed at the end of the
  next round, but its descriptor stays in the set: from then on \<open>select\<close> is given a descriptor that
  is not open, until the number is used again.
\<close>
theorem quit_leaves_descriptor:
  assumes "net_inv env nw" and "fd \<in> set (fds (nw_mgr nw))"
    and "CloseSocketByFd fd (nw_mgr nw) = Inr m"
  shows "\<exists>nw'. close_pending (nw\<lparr>nw_mgr := m\<rparr>) = Inr nw' \<and> fd \<in> set (closed (nw_mgr nw'))
    \<and> fd \<notin> set (fds (nw_mgr nw')) \<and> fd \<in> nw_set nw'"
proof -
  have sv: "serving env nw []" using assms(1) by (simp add: net_inv_def)
  then have wf: "wf_mgr (nw_mgr nw)" "\<not> closeImmediatly (nw_mgr nw)" "queue (nw_mgr nw) = []"
    by (simp_all add: serving_def)
  obtain n where n: "n \<in> set (sockets (nw_mgr nw))" "node_key n = fd"
    using assms(2) by (auto simp: fds_def)
  have m: "m = (nw_mgr nw)\<lparr>queue := map (\<lambda>n. NodeAt (node_id n)) [n]\<rparr>"
    using CloseSocketByFd_queue [OF wf(1,2) n(1)] assms(3) n(2) wf(3) by simp
  have "CloseAllPendingSockets m = Inr (m\<lparr>sockets := filter (\<lambda>n'. node_id n' \<notin> node_id ` set [n]) (sockets m),
      queue := [], closed := closed m @ map node_key [n]\<rparr>)"
    using n(1) wf_queue [OF wf(1)] by (intro pending_closes) (simp_all add: m)
  moreover have "fd \<notin> node_key ` set (filter (\<lambda>n'. node_id n' \<notin> node_id ` set [n]) (sockets m))"
    using node_by_key [OF wf(1) n(1)] n(2) by (auto simp: m)
  moreover have "fd \<in> nw_set nw" using watched [OF sv] assms(2) by simp
  ultimately show ?thesis by (simp add: close_pending_def fds_def n(2))
qed

theorem quit_leaves_descriptor_witness:
  "\<exists>nw m nw'. network_round sample_env 0 connect_input sample_net = Inr nw
    \<and> CloseSocketByFd 5 (nw_mgr nw) = Inr m \<and> close_pending (nw\<lparr>nw_mgr := m\<rparr>) = Inr nw'
    \<and> 5 \<notin> set (fds (nw_mgr nw')) \<and> 5 \<in> nw_set nw'"
proof -
  obtain nw where nw: "network_round sample_env 0 connect_input sample_net = Inr nw" "net_inv sample_env nw"
    "fds (nw_mgr nw) = [5]"
    using one_client by blast
  then have wf: "wf_mgr (nw_mgr nw)" "\<not> closeImmediatly (nw_mgr nw)" by (simp_all add: net_inv_def serving_def)
  have f: "5 \<in> set (fds (nw_mgr nw))" by (simp add: nw(3))
  then obtain n where "n \<in> set (sockets (nw_mgr nw))" "node_key n = 5" by (auto simp: fds_def)
  then obtain m where m: "CloseSocketByFd 5 (nw_mgr nw) = Inr m"
    using CloseSocketByFd_queue [OF wf] by metis
  from quit_leaves_descriptor [OF nw(2) f m] show ?thesis using nw(1) m by blast
qed

end
