(* ===== verification/Kernel.thy ===== *)
theory Kernel
  imports Descriptors ServerProps
begin

text \<open>
  The server on the descriptor table of the process: the steps of \<open>Server\<close>, with \<open>accept\<close> taking
  the lowest free descriptor and every socket that leaves the table \<open>ConnectionMgr\<close> closing its own,
  interleaved with whatever the other threads open and close.  What \<open>Server\<close> assumes of a new
  descriptor is proved here.  The libraries leave the closing of control connections to the network
  thread, and close no descriptor that is not theirs; \<open>Descriptors\<close> and the rounds after a QUIT in
  \<open>ServerProps\<close> show where FTP breaks that.
\<close>

section \<open>What the rounds close\<close>

lemma AddSocket_closed [simp]: "closed (AddSocket s m) = closed m" "closeImmediatly (AddSocket s m) = closeImmediatly m"
  by (simp_all add: AddSocket_def sockets_insert_def split: option.splits)

lemma CloseSocketByFd_closed:
  "CloseSocketByFd fd m = Inr m' \<Longrightarrow> \<not> closeImmediatly m \<Longrightarrow> closed m' = closed m \<and> \<not> closeImmediatly m'"
  by (auto simp: CloseSocketByFd_def split: option.splits)

lemma resume_queue_mgr: "resume_queue env nw = Inr nw' \<Longrightarrow> nw_mgr nw' = nw_mgr nw"
  by (auto simp: resume_queue_def res_simps split: if_splits)

lemma raise_mgr:
  "raise_event env e nw = Inr nw' \<Longrightarrow> nw_mgr nw' = nw_mgr nw"
  "raise_delayed env now d e nw = Inr nw' \<Longrightarrow> nw_mgr nw' = nw_mgr nw"
  by (auto simp: raise_event_def raise_delayed_def dest!: resume_queue_mgr)

lemma plain_event_mgr: "nw_mgr (snd (plain_event t fd a nw)) = nw_mgr nw"
  by (simp add: plain_event_def new_data_def Let_def)

lemma accept_closed:
  assumes "accept_client env now junk acc nw = Inr (b, nw')"
  shows "closed (nw_mgr nw') = closed (nw_mgr nw) \<and> closeImmediatly (nw_mgr nw') = closeImmediatly (nw_mgr nw)"
  using assms
  by (auto simp: accept_client_def res_simps Let_def plain_event_def new_data_def dest!: raise_mgr
      split: sum.splits if_splits)

lemma socket_closed:
  assumes "\<not> closeImmediatly (nw_mgr nw)"
  shows "socket_ended env now i nw = Inr nw' \<Longrightarrow> closed (nw_mgr nw') = closed (nw_mgr nw) \<and> \<not> closeImmediatly (nw_mgr nw')"
    and "socket_data env now i r n nw = Inr nw' \<Longrightarrow> closed (nw_mgr nw') = closed (nw_mgr nw) \<and> \<not> closeImmediatly (nw_mgr nw')"
    and "socket_error i nw = Inr nw' \<Longrightarrow> closed (nw_mgr nw') = closed (nw_mgr nw) \<and> \<not> closeImmediatly (nw_mgr nw')"
  using assms
  by (auto simp: socket_ended_def socket_data_def socket_error_def res_simps Let_def plain_event_def new_data_def
      dest!: raise_mgr CloseSocketByFd_closed split: if_splits)

lemma serve_socket_closed:
  assumes "serve_socket env now rcv i nw = Inr nw'" and "\<not> closeImmediatly (nw_mgr nw)"
  shows "closed (nw_mgr nw') = closed (nw_mgr nw) \<and> \<not> closeImmediatly (nw_mgr nw')"
  using assms
  by (auto simp: serve_socket_def res_simps Let_def new_data_def set_sock_def dest!: socket_closed [rotated]
      split: if_splits)

lemma recv_loop_closed:
  "recv_loop env inp r is nw = Inr nw' \<Longrightarrow> \<not> closeImmediatly (nw_mgr nw) \<Longrightarrow>
   closed (nw_mgr nw') = closed (nw_mgr nw) \<and> \<not> closeImmediatly (nw_mgr nw')"
proof (induction "is" arbitrary: r nw)
  case (Cons i "is")
  show ?case
    using Cons.prems by (auto simp: res_simps split: if_splits dest: serve_socket_closed dest!: Cons.IH)
qed simp

lemma serve_all_closed:
  assumes inv: "net_inv env nw" and u: "undelayed (ne_proto env)" and s: "serve_all env inp r nw = Inr nw'"
  shows "closes_removed (set (fds (nw_mgr nw))) nw nw'"
proof (cases "r > 0")
  case False
  then show ?thesis using pending_removed [of env nw "[]"] inv s by (simp add: serve_all_def net_inv_def)
next
  case True
  let ?sh = "shape (nw_mgr nw)"
  have sv: "serving env nw []" and wf: "wf_mgr (nw_mgr nw)" using inv by (simp_all add: net_inv_def serving_def)
  from recv_loop_ok [OF sv u, of ?sh inp r] shape_distinct [OF wf] obtain nw1 where
    l: "recv_loop env inp r (map fst ?sh) nw = Inr nw1" "serving env nw1 (map fst (taken_closing snd inp r ?sh))"
    "shape (nw_mgr nw1) = ?sh" by auto
  have "close_pending nw1 = Inr nw'" using s True l(1) by (simp add: serve_all_def shape_ids)
  note p = pending_removed [OF l(2) this]
  have "fds (nw_mgr nw1) = fds (nw_mgr nw)" using l(3) by (metis shape_fds)
  moreover have "closed (nw_mgr nw1) = closed (nw_mgr nw)"
    using recv_loop_closed [OF l(1)] sv by (simp add: serving_def)
  ultimately show ?thesis using p by (simp add: closes_removed_def)
qed

text \<open>The descriptor that a round accepts, and the table after it.\<close>

definition takes_client :: "net_env \<Rightarrow> net_input \<Rightarrow> bool" where
  "takes_client env inp \<longleftrightarrow> ni_select inp \<noteq> 0 \<and> ne_server env \<in> set (ni_ready inp)"

definition newcomer :: "net_env \<Rightarrow> net_input \<Rightarrow> (int \<times> nat) set" where
  "newcomer env inp = (if takes_client env inp then (case ni_accept inp of Inl e \<Rightarrow> {} | Inr fa \<Rightarrow> {fa}) else {})"

lemma network_round_closed:
  assumes inv: "net_inv env nw" and u: "undelayed (ne_proto env)" and i: "input_ok env nw inp"
    and run: "network_round env junk inp nw = Inr nw'"
  shows "closes_removed (set (fds (nw_mgr nw)) \<union> fst ` newcomer env inp) nw nw'"
proof -
  let ?nw = "nw\<lparr>nw_diff := getMsTimeDiffToNow (ni_now inp) (nw_last nw), nw_last := ni_now inp\<rparr>"
  have inv': "net_inv env ?nw" using inv by simp
  then have sv: "serving env ?nw []" by (simp only: net_inv_def)
  obtain n where n: "nfds env nw = Inr n" using nfds_ok [of env nw "[]"] inv by (auto simp: net_inv_def)
  have none: "closes_removed (set (fds (nw_mgr nw))) nw nw'" if "nw' = ?nw"
    using that by (simp add: closes_removed_def)
  show ?thesis
  proof (cases "takes_client env inp")
    case False
    show ?thesis
    proof (cases "ni_select inp = 0")
      case True
      then show ?thesis using none run n by (simp add: network_round_def newcomer_def takes_client_def Let_def)
    next
      case r: False
      then have "serve_all env inp (ni_select inp) ?nw = Inr nw'"
        using n run False by (simp add: network_round_def serve_all_def takes_client_def Let_def)
      then show ?thesis using serve_all_closed [OF inv' u] False by (simp add: newcomer_def closes_removed_def)
    qed
  next
    case True
    show ?thesis
    proof (cases "ni_accept inp")
      case (Inl e)
      then show ?thesis
        using none run n True by (simp add: network_round_def accept_client_def newcomer_def takes_client_def Let_def)
    next
      case (Inr fa)
      obtain fd a where fa: "fa = (fd, a)" by (cases fa)
      have fd: "fd \<notin> set (fds (nw_mgr ?nw))" "0 \<le> fd" "fd < 1024" "fd \<noteq> ne_server env"
        using i by (simp_all add: input_ok_def Inr fa)
      from accept_ok [OF sv u fd, of "ni_now inp" junk a] obtain nw1 evs where
        acc: "accept_client env (ni_now inp) junk (Inr (fd, a)) ?nw = Inr (False, nw1)"
        "serving env nw1 []" "fds (nw_mgr nw1) = insort fd (fds (nw_mgr ?nw))" "extends ?nw nw1 evs"
        by blast
      have inv1: "net_inv env nw1"
        using acc(2) heap_ok_extends [OF _ acc(4)] inv' by (simp add: net_inv_def)
      have "serve_all env inp (ni_select inp - 1) nw1 = Inr nw'"
        using n run True acc(1) Inr fa by (simp add: network_round_def serve_all_def takes_client_def Let_def)
      from serve_all_closed [OF inv1 u this] accept_closed [OF acc(1)] show ?thesis
        using acc(3) True Inr fa by (simp add: newcomer_def closes_removed_def set_insort_key)
    qed
  qed
qed

section \<open>The network thread on the descriptor table\<close>

record kernel =
  k_net :: network
  k_fds :: fds
  k_failed :: "int list"   \<comment> \<open>what the network thread closed although it was not open\<close>

datatype kernel_input = KServer server_input | KOpen fd_use | KClose int

definition EMFILE :: int where "EMFILE = 24"

text \<open>
  \<open>accept\<close>: the descriptor is not an input any more but the lowest free one below the limit of the
  process; of the answer given with the round only the address of the client or the error is used.
\<close>

definition kernel_accept :: "nat \<Rightarrow> net_env \<Rightarrow> net_input \<Rightarrow> fds \<Rightarrow> net_input \<times> fds" where
  "kernel_accept lim env inp t =
     (if takes_client env inp then
        (case ni_accept inp of
           Inl e \<Rightarrow> (inp, t)
         | Inr (_, a) \<Rightarrow>
             (let (fd, t') = fd_open lim (ControlConn (int a)) t
              in if fd < 0 then (inp\<lparr>ni_accept := Inl EMFILE\<rparr>, t) else (inp\<lparr>ni_accept := Inr (fd, a)\<rparr>, t')))
      else (inp\<lparr>ni_accept := Inl EMFILE\<rparr>, t))"

fun close_each :: "int list \<Rightarrow> fds \<Rightarrow> int list \<times> fds" where
  "close_each [] t = ([], t)"
| "close_each (fd # cs) t =
     (let (r, t) = fd_close fd t; (failed, t) = close_each cs t
      in (if r < 0 then fd # failed else failed, t))"

definition kernel_round :: "nat \<Rightarrow> net_env \<Rightarrow> int \<Rightarrow> net_input \<Rightarrow> kernel \<Rightarrow> kernel res" where
  "kernel_round lim env junk inp k =
     (let (inp, t) = kernel_accept lim env inp (k_fds k)
      in rbind (network_round env junk inp (k_net k)) (\<lambda>nw.
           let (failed, t) = close_each (drop (length (closed (nw_mgr (k_net k)))) (closed (nw_mgr nw))) t
           in Inr \<lparr>k_net = nw, k_fds = t, k_failed = k_failed k @ failed\<rparr>))"

text \<open>The other threads open and close descriptors between the steps of the server.\<close>

fun kernel_step :: "nat \<Rightarrow> net_env \<Rightarrow> int \<Rightarrow> kernel_input \<Rightarrow> kernel \<Rightarrow> kernel res" where
  "kernel_step lim env junk (KServer (Round inp)) k = kernel_round lim env junk inp k"
| "kernel_step lim env junk (KServer i) k =
     rbind (server_step env junk i (k_net k)) (\<lambda>nw. Inr (k\<lparr>k_net := nw\<rparr>))"
| "kernel_step lim env junk (KOpen u) k = Inr (k\<lparr>k_fds := snd (fd_open lim u (k_fds k))\<rparr>)"
| "kernel_step lim env junk (KClose fd) k = Inr (k\<lparr>k_fds := snd (fd_close fd (k_fds k))\<rparr>)"

text \<open>The other threads accept no clients and close neither a client's descriptor nor the server's.\<close>

definition is_conn :: "fd_use \<Rightarrow> bool" where
  "is_conn u = (case u of ControlConn _ \<Rightarrow> True | _ \<Rightarrow> False)"

fun kernel_ok :: "kernel_input \<Rightarrow> kernel \<Rightarrow> bool" where
  "kernel_ok (KServer i) k = True"
| "kernel_ok (KOpen u) k = (\<not> is_conn u)"
| "kernel_ok (KClose fd) k =
     (case fd_use_of fd (k_fds k) of None \<Rightarrow> True | Some u \<Rightarrow> \<not> is_conn u \<and> u \<noteq> ServerSocket)"

definition connections :: "fds \<Rightarrow> (int \<times> int) set" where
  "connections t = {(int n, a) | n a. t n = Some (ControlConn a)}"

definition kernel_inv :: "net_env \<Rightarrow> kernel \<Rightarrow> bool" where
  "kernel_inv env k \<longleftrightarrow> net_inv env (k_net k) \<and> 0 \<le> ne_server env
     \<and> k_fds k (nat (ne_server env)) = Some ServerSocket \<and> k_failed k = []
     \<and> connections (k_fds k) = (\<lambda>(fd, a). (fd, int a)) ` set (fst (server_of (ne_proto env) (k_net k)))"

section \<open>The specification\<close>

text \<open>A client that leaves the abstract server leaves the descriptor table, and nothing else does.\<close>

definition sweep :: "server \<Rightarrow> fds \<Rightarrow> fds" where
  "sweep s t = (\<lambda>n. case t n of
     Some (ControlConn a) \<Rightarrow> if int n \<in> fst ` set (fst s) then t n else None
   | _ \<Rightarrow> t n)"

fun kernel_spec :: "nat \<Rightarrow> net_env \<Rightarrow> kernel_input \<Rightarrow> server \<times> fds \<Rightarrow> server \<times> fds" where
  "kernel_spec lim env (KServer (Round inp)) (s, t) =
     (let (inp, t) = kernel_accept lim env inp t; s = server_round env inp s in (s, sweep s t))"
| "kernel_spec lim env (KServer i) (s, t) = (server_spec env i s, t)"
| "kernel_spec lim env (KOpen u) (s, t) = (s, snd (fd_open lim u t))"
| "kernel_spec lim env (KClose fd) (s, t) = (s, snd (fd_close fd t))"

definition kernel_of :: "protocol \<Rightarrow> kernel \<Rightarrow> server \<times> fds" where
  "kernel_of p k = (server_of p (k_net k), k_fds k)"

section \<open>The refinement\<close>

lemma clients_fds: "fst ` set (fst (server_of p nw)) = set (fds (nw_mgr nw))"
  by (auto simp: server_of_def image_image)

lemma server_round_clients: "set (fst (server_round env inp s)) \<subseteq> set (fst s) \<union> newcomer env inp"
  by (auto simp: server_round_def serve_clients_def newcomer_def takes_client_def set_insort_key
      split: prod.splits sum.splits if_splits)

lemma close_each_open:
  "distinct l \<Longrightarrow> (\<And>k. k \<in> set l \<Longrightarrow> 0 \<le> k \<and> t (nat k) \<noteq> None) \<Longrightarrow>
   close_each l t = ([], \<lambda>n. if int n \<in> set l then None else t n)"
proof (induction l arbitrary: t)
  case (Cons k l)
  have k: "0 \<le> k" "t (nat k) \<noteq> None" using Cons.prems(2) [of k] by simp_all
  then have c: "fd_close k t = (0, t(nat k := None))" by (simp add: fd_close_def fd_use_of_def)
  have "close_each l (t(nat k := None)) = ([], \<lambda>n. if int n \<in> set l then None else (t(nat k := None)) n)"
  proof (rule Cons.IH)
    fix j assume "j \<in> set l"
    moreover from this have "j \<noteq> k" using Cons.prems(1) by auto
    ultimately show "0 \<le> j \<and> (t(nat k := None)) (nat j) \<noteq> None"
      using Cons.prems(2) [of j] k(1) by (simp add: nat_eq_iff)
  qed (use Cons.prems(1) in simp)
  then show ?case using c k(1) Cons.prems(1) by (auto simp: fun_eq_iff)
qed simp

lemma connections_iff: "(x \<in> connections t) = (0 \<le> fst x \<and> t (nat (fst x)) = Some (ControlConn (snd x)))"
  by (cases x) (auto simp: connections_def intro: exI [of _ "nat (fst x)"])

lemma connections_other:
  assumes "\<And>u. t m = Some u \<Longrightarrow> \<not> is_conn u" and "\<And>u. x = Some u \<Longrightarrow> \<not> is_conn u"
  shows "connections (t(m := x)) = connections t"
proof -
  have "t m \<noteq> Some (ControlConn a)" "x \<noteq> Some (ControlConn a)" for a
    using assms by (auto simp: is_conn_def)
  then show ?thesis by (intro set_eqI) (auto simp: connections_iff split: if_splits)
qed

lemma connections_new:
  "t m = None \<Longrightarrow> connections (t(m := Some (ControlConn a))) = insert (int m, a) (connections t)"
  by (auto simp: connections_def)

lemma fd_open_bound: "fd_open lim u t = (fd, t') \<Longrightarrow> fd < int lim"
  by (auto simp: fd_open_def find_Some_iff split: option.splits)

lemma kernel_accept_ok:
  assumes inv: "kernel_inv env k" and lim: "lim \<le> 1024"
    and acc: "kernel_accept lim env inp (k_fds k) = (inp1, t1)"
  shows "input_ok env (k_net k) inp1" and "t1 (nat (ne_server env)) = Some ServerSocket"
    and "connections t1 = connections (k_fds k) \<union> (\<lambda>(fd, a). (fd, int a)) ` newcomer env inp1"
proof -
  let ?t = "k_fds k" and ?nw = "k_net k"
  have srv: "?t (nat (ne_server env)) = Some ServerSocket" "0 \<le> ne_server env"
    using inv by (simp_all add: kernel_inv_def)
  have "input_ok env ?nw inp1 \<and> t1 (nat (ne_server env)) = Some ServerSocket
    \<and> connections t1 = connections ?t \<union> (\<lambda>(fd, a). (fd, int a)) ` newcomer env inp1"
  proof (cases "t1 = ?t \<and> (\<exists>e. ni_accept inp1 = Inl e)")
    case True
    then show ?thesis using srv by (auto simp: input_ok_def newcomer_def)
  next
    case False
    then obtain fd0 a where a: "takes_client env inp" "ni_accept inp = Inr (fd0, a)"
      using acc by (fastforce simp: kernel_accept_def split: if_splits sum.splits)
    obtain m where m: "?t m = None" "fd_open lim (ControlConn (int a)) ?t = (int m, ?t(m := Some (ControlConn (int a))))"
    proof (rule fd_open_cases [of lim "ControlConn (int a)" ?t])
      assume "fd_open lim (ControlConn (int a)) ?t = (-1, ?t)"
      then have "t1 = ?t \<and> ni_accept inp1 = Inl EMFILE" using acc a by (auto simp: kernel_accept_def)
      then show ?thesis using False by blast
    qed (rule that)
    have k1: "inp1 = inp\<lparr>ni_accept := Inr (int m, a)\<rparr>" "t1 = ?t(m := Some (ControlConn (int a)))"
      using acc a m(2) by (simp_all add: kernel_accept_def)
    have "int m \<notin> set (fds (nw_mgr ?nw))"
    proof
      assume "int m \<in> set (fds (nw_mgr ?nw))"
      then obtain b where "(int m, b) \<in> connections ?t"
        using inv unfolding clients_fds [of "ne_proto env" ?nw, symmetric] by (force simp: kernel_inv_def)
      then show False using m(1) by (simp add: connections_def)
    qed
    moreover have nm: "nat (ne_server env) \<noteq> m" using srv(1) m(1) by (cases "nat (ne_server env) = m") simp_all
    moreover from nm have "int m \<noteq> ne_server env" by auto
    moreover have "int m < 1024" using fd_open_bound [OF m(2)] lim by simp
    ultimately have "input_ok env ?nw inp1" using k1 by (simp add: input_ok_def)
    moreover have "newcomer env inp1 = {(int m, a)}" using k1 a by (simp add: newcomer_def takes_client_def)
    ultimately show ?thesis using k1 srv nm connections_new [of ?t, OF m(1)] by simp
  qed
  then show "input_ok env ?nw inp1" "t1 (nat (ne_server env)) = Some ServerSocket"
    "connections t1 = connections ?t \<union> (\<lambda>(fd, a). (fd, int a)) ` newcomer env inp1" by simp_all
qed

lemma kernel_round_ok:
  assumes inv: "kernel_inv env k" and lim: "lim \<le> 1024" and u: "undelayed (ne_proto env)"
  shows "\<exists>k'. kernel_round lim env junk inp k = Inr k' \<and> kernel_inv env k'
    \<and> kernel_of (ne_proto env) k' = kernel_spec lim env (KServer (Round inp)) (kernel_of (ne_proto env) k)"
proof -
  let ?p = "ne_proto env" and ?nw = "k_net k"
  obtain inp1 t1 where acc: "kernel_accept lim env inp (k_fds k) = (inp1, t1)" by (cases "kernel_accept lim env inp (k_fds k)")
  note ok = kernel_accept_ok [OF inv lim acc]
  have net: "net_inv env ?nw" using inv by (simp add: kernel_inv_def)
  from network_round_ok [OF net u ok(1), of junk] obtain nw where
    run: "network_round env junk inp1 ?nw = Inr nw" and net': "net_inv env nw"
    and sv: "server_of ?p nw = server_round env inp1 (server_of ?p ?nw)" by blast
  from network_round_closed [OF net u ok(1) run] obtain l where l:
    "closed (nw_mgr nw) = closed (nw_mgr ?nw) @ l" "distinct l"
    "set l = (set (fds (nw_mgr ?nw)) \<union> fst ` newcomer env inp1) - set (fds (nw_mgr nw))"
    unfolding closes_removed_def by blast
  let ?cs = "\<lambda>(fd, a). (fd, int a)" and ?s = "server_of ?p nw"
  let ?t = "\<lambda>n. if int n \<in> set l then None else t1 n"
  have con: "connections t1 = ?cs ` (set (fst (server_of ?p ?nw)) \<union> newcomer env inp1)"
    using ok(3) inv by (simp add: kernel_inv_def image_Un)
  have dom: "fst ` connections t1 = set (fds (nw_mgr ?nw)) \<union> fst ` newcomer env inp1"
    unfolding con clients_fds [of ?p, symmetric] by (simp add: image_image image_Un split_beta)
  have op: "0 \<le> j \<and> t1 (nat j) \<noteq> None" if "j \<in> set l" for j
    using that unfolding l(3) dom [symmetric] by (auto simp: connections_def)
  have cl: "close_each l t1 = ([], ?t)" by (rule close_each_open [OF l(2) op])
  have mem: "(int n \<in> set l) = (int n \<notin> set (fds (nw_mgr nw)))" if "t1 n = Some (ControlConn a)" for n a
  proof -
    have "int n \<in> fst ` connections t1" using that by (force simp: connections_def)
    then show ?thesis using l(3) dom by simp
  qed
  have non: "int n \<notin> set l" if "\<nexists>a. t1 n = Some (ControlConn a)" for n
    using that unfolding l(3) dom [symmetric] by (auto simp: connections_def)
  have sw: "?t = sweep ?s t1"
    using mem non by (fastforce simp: sweep_def clients_fds fun_eq_iff split: option.splits fd_use.splits)
  have sub: "?cs ` set (fst ?s) \<subseteq> connections t1"
    unfolding con sv using server_round_clients [of env inp1 "server_of ?p ?nw"] by (rule image_mono)
  have "connections ?t = ?cs ` set (fst ?s)"
  proof (rule set_eqI)
    fix x :: "int \<times> int"
    show "(x \<in> connections ?t) = (x \<in> ?cs ` set (fst ?s))"
    proof
      assume x: "x \<in> connections ?t"
      then have t1: "x \<in> connections t1" and "fst x \<notin> set l" by (auto simp: connections_iff split: if_splits)
      then have "fst x \<in> set (fds (nw_mgr nw))" using mem [of "nat (fst x)"] by (auto simp: connections_iff)
      then obtain b where b: "(fst x, b) \<in> set (fst ?s)" unfolding clients_fds [of ?p, symmetric] by auto
      then have "(fst x, int b) \<in> connections t1" using sub by auto
      then have "x = (fst x, int b)" using t1 by (auto simp: connections_iff prod_eq_iff)
      then show "x \<in> ?cs ` set (fst ?s)" using b by force
    next
      assume x: "x \<in> ?cs ` set (fst ?s)"
      then have "fst x \<in> fst ` set (fst ?s)" by force
      then have "fst x \<notin> set l" unfolding clients_fds l(3) by simp
      then show "x \<in> connections ?t" using sub x by (auto simp: connections_iff)
    qed
  qed
  moreover have "int (nat (ne_server env)) \<notin> set l" by (rule non) (use ok(2) in simp)
  then have "?t (nat (ne_server env)) = Some ServerSocket" using ok(2) by (simp del: int_nat_eq)
  ultimately have inv': "kernel_inv env \<lparr>k_net = nw, k_fds = ?t, k_failed = []\<rparr>"
    using inv net' by (simp add: kernel_inv_def)
  moreover have "kernel_round lim env junk inp k = Inr \<lparr>k_net = nw, k_fds = ?t, k_failed = []\<rparr>"
    using acc run l(1) cl inv by (simp add: kernel_round_def kernel_inv_def)
  moreover have "kernel_of ?p \<lparr>k_net = nw, k_fds = ?t, k_failed = []\<rparr> =
      kernel_spec lim env (KServer (Round inp)) (kernel_of ?p k)"
    using acc sv sw by (simp add: kernel_of_def Let_def)
  ultimately show ?thesis by blast
qed

lemma kernel_server_ok:
  assumes inv: "kernel_inv env k" and u: "undelayed (ne_proto env)" and i: "\<And>inp. i \<noteq> Round inp"
  shows "\<exists>k'. kernel_step lim env junk (KServer i) k = Inr k' \<and> kernel_inv env k'
    \<and> kernel_of (ne_proto env) k' = kernel_spec lim env (KServer i) (kernel_of (ne_proto env) k)"
proof -
  have net: "net_inv env (k_net k)" using inv by (simp add: kernel_inv_def)
  have "server_input_ok env i (k_net k)" and s: "server_spec env i x = x" for x
    using i by (cases i; simp)+
  from server_simulates [OF u net this(1), of junk] obtain nw where
    nw: "server_step env junk i (k_net k) = Inr nw" "net_inv env nw"
    "server_of (ne_proto env) nw = server_of (ne_proto env) (k_net k)" by (auto simp: s)
  have "kernel_step lim env junk (KServer i) k = Inr (k\<lparr>k_net := nw\<rparr>)"
    and "kernel_spec lim env (KServer i) (kernel_of (ne_proto env) k) = kernel_of (ne_proto env) k"
    using nw(1) i by (cases i; simp add: kernel_of_def)+
  then show ?thesis using inv nw by (simp add: kernel_inv_def kernel_of_def)
qed

lemma kernel_inv_fds:
  assumes "kernel_inv env k" and "connections t = connections (k_fds k)"
    and "t (nat (ne_server env)) = Some ServerSocket"
  shows "kernel_inv env (k\<lparr>k_fds := t\<rparr>)"
  using assms by (simp add: kernel_inv_def)

lemma kernel_open_ok:
  assumes inv: "kernel_inv env k" and u: "\<not> is_conn u"
  shows "kernel_inv env (k\<lparr>k_fds := snd (fd_open lim u (k_fds k))\<rparr>)"
proof (rule fd_open_cases [of lim u "k_fds k"])
  assume "fd_open lim u (k_fds k) = (-1, k_fds k)"
  then show ?thesis using inv by (intro kernel_inv_fds) (simp_all add: kernel_inv_def)
next
  fix m assume m: "k_fds k m = None" "fd_open lim u (k_fds k) = (int m, (k_fds k)(m := Some u))"
  have "m \<noteq> nat (ne_server env)" using inv m(1) by (cases "m = nat (ne_server env)") (simp_all add: kernel_inv_def)
  moreover have "connections ((k_fds k)(m := Some u)) = connections (k_fds k)"
    by (rule connections_other) (use m(1) u in simp_all)
  ultimately show ?thesis using inv m(2) by (intro kernel_inv_fds) (simp_all add: kernel_inv_def)
qed

lemma kernel_close_ok:
  assumes inv: "kernel_inv env k" and u: "kernel_ok (KClose fd) k"
  shows "kernel_inv env (k\<lparr>k_fds := snd (fd_close fd (k_fds k))\<rparr>)"
proof (cases "fd_use_of fd (k_fds k)")
  case None
  then show ?thesis using inv by (intro kernel_inv_fds) (simp_all add: kernel_inv_def fd_close_def)
next
  case (Some x)
  then have x: "\<not> is_conn x" "x \<noteq> ServerSocket" "k_fds k (nat fd) = Some x"
    using u by (auto simp: fd_use_of_def split: if_splits)
  have "nat fd \<noteq> nat (ne_server env)"
    using inv x(2,3) by (cases "nat fd = nat (ne_server env)") (simp_all add: kernel_inv_def)
  moreover have "connections ((k_fds k)(nat fd := None)) = connections (k_fds k)"
    by (rule connections_other) (use x in simp_all)
  ultimately show ?thesis using inv Some by (intro kernel_inv_fds) (simp_all add: kernel_inv_def fd_close_def)
qed

lemma kernel_simulates:
  assumes u: "undelayed (ne_proto env)" and lim: "lim \<le> 1024" and inv: "kernel_inv env k" and ok: "kernel_ok i k"
  shows "\<exists>k'. kernel_step lim env junk i k = Inr k' \<and> kernel_inv env k'
    \<and> kernel_of (ne_proto env) k' = kernel_spec lim env i (kernel_of (ne_proto env) k)"
proof (cases i)
  case (KServer j)
  show ?thesis
  proof (cases "\<exists>inp. j = Round inp")
    case True
    then show ?thesis using kernel_round_ok [OF inv lim u] KServer by auto
  next
    case False
    then show ?thesis using kernel_server_ok [OF inv u, of j lim junk] KServer by auto
  qed
next
  case (KOpen x)
  then show ?thesis using kernel_open_ok [OF inv] ok by (simp add: kernel_of_def)
next
  case (KClose fd)
  then show ?thesis using kernel_close_ok [OF inv] ok by (simp add: kernel_of_def)
qed

interpretation kernel: simulation
  "kernel_step (min lim 1024) (plain_env env) junk" kernel_ok "kernel_inv (plain_env env)"
  "kernel_of (ne_proto (plain_env env))" "kernel_spec (min lim 1024) (plain_env env)" for lim env junk
  by unfold_locales (rule kernel_simulates [OF plain_env_undelayed min.cobounded2])

lemma kernel_run:
  assumes "undelayed (ne_proto env)" and "lim \<le> 1024" and "kernel_inv env k"
    and "run_ok (kernel_step lim env junk) kernel_ok is k"
  shows "\<exists>k'. run_inputs (kernel_step lim env junk) is k = Inr k' \<and> kernel_inv env k'
    \<and> kernel_of (ne_proto env) k' = fold (kernel_spec lim env) is (kernel_of (ne_proto env) k)"
  using kernel.run_simulates [of env k lim junk "is"] assms(3,4)
  by (simp only: plain_env_id [OF assms(1)] min.absorb1 [OF assms(2)])

section \<open>Starting\<close>

definition kernel_start :: "int \<Rightarrow> thread_mgr \<Rightarrow> timeval \<Rightarrow> fds \<Rightarrow> kernel" where
  "kernel_start server m now t = \<lparr>k_net = network_start server m now, k_fds = t, k_failed = []\<rparr>"

text \<open>What the server finds: its own socket, and no connection of a client.\<close>

definition start_fds :: "net_env \<Rightarrow> fds \<Rightarrow> bool" where
  "start_fds env t \<longleftrightarrow> 0 \<le> ne_server env \<and> fd_use_of (ne_server env) t = Some ServerSocket \<and> connections t = {}"

lemma kernel_start_inv:
  assumes "threads_ok env (network_start (ne_server env) m now)" and "start_fds env t"
  shows "kernel_inv env (kernel_start (ne_server env) m now t)"
proof -
  have "net_inv env (network_start (ne_server env) m now)"
    using assms(1) by (intro start_inv) (simp_all add: threads_ok_def network_start_def)
  then show ?thesis
    using assms(2) by (auto simp: kernel_inv_def kernel_start_def start_fds_def fd_use_of_def start_server split: if_splits)
qed

section \<open>Clients without limit\<close>

lemma find_append: "List.find P (xs @ ys) = (case List.find P xs of None \<Rightarrow> List.find P ys | Some x \<Rightarrow> Some x)"
  by (induction xs) simp_all

lemma fd_open_split:
  assumes "b < lim" and "t b = None"
  shows "fd_open lim u t = (if \<exists>n < b. t n = None then fd_open b u t else (int b, t(b := Some u)))"
proof -
  have u: "[0..<lim] = [0..<b] @ b # [Suc b..<lim]"
    using assms(1) upt_add_eq_append [of 0 b "lim - b"] by (simp add: upt_conv_Cons)
  show ?thesis
  proof (cases "List.find (\<lambda>n. t n = None) [0..<b]")
    case None
    then have "\<nexists>n. n < b \<and> t n = None" by (auto simp: find_None_iff)
    then show ?thesis using None assms(2) by (auto simp: fd_open_def u find_append)
  next
    case (Some n)
    then have "n < b \<and> t n = None" by (auto simp: find_Some_iff)
    then show ?thesis using Some by (auto simp: fd_open_def u find_append)
  qed
qed

text \<open>A round in which nothing happens but that a client connects.\<close>

definition only_connects :: "net_env \<Rightarrow> net_input \<Rightarrow> bool" where
  "only_connects env inp \<longleftrightarrow> ni_select inp = 1 \<and> ne_server env \<in> set (ni_ready inp) \<and> (\<exists>fa. ni_accept inp = Inr fa)"

lemma connect_takes_lowest:
  assumes inv: "kernel_inv env k" and u: "undelayed (ne_proto env)" and c: "only_connects env inp"
    and free: "n < 1024" "k_fds k n = None" and lim: "1024 < lim" "k_fds k 1024 = None"
  shows "\<exists>k' m x. kernel_round lim env junk inp k = Inr k' \<and> kernel_inv env k'
    \<and> m < 1024 \<and> k_fds k m = None \<and> k_fds k' = (k_fds k)(m := Some x)"
proof -
  let ?t = "k_fds k"
  obtain fd0 a where a: "ni_accept inp = Inr (fd0, a)" using c by (auto simp: only_connects_def)
  have tk: "takes_client env inp" "ni_select inp = 1" "ne_server env \<in> set (ni_ready inp)"
    using c by (simp_all add: only_connects_def takes_client_def)
  have low: "fd_open lim v ?t = fd_open 1024 v ?t" for v using fd_open_split [where b = 1024 and t = ?t and u = v, OF lim] free by auto
  then have "kernel_accept lim env inp ?t = kernel_accept 1024 env inp ?t" using a by (simp add: kernel_accept_def)
  then have eq: "kernel_round lim env junk inp k = kernel_round 1024 env junk inp k" by (simp add: kernel_round_def)
  obtain m where m: "m < 1024" "?t m = None"
    "fd_open 1024 (ControlConn (int a)) ?t = (int m, ?t(m := Some (ControlConn (int a))))"
    using fd_open_free [of n 1024 ?t, OF free] by blast
  have acc: "kernel_accept 1024 env inp ?t = (inp\<lparr>ni_accept := Inr (int m, a)\<rparr>, ?t(m := Some (ControlConn (int a))))"
    using tk(1) a m(3) by (simp add: kernel_accept_def)
  from kernel_round_ok [OF inv le_refl u, of junk inp] obtain k' where k':
    "kernel_round 1024 env junk inp k = Inr k'" "kernel_inv env k'"
    "kernel_of (ne_proto env) k' = kernel_spec 1024 env (KServer (Round inp)) (kernel_of (ne_proto env) k)" by blast
  let ?s = "server_of (ne_proto env) (k_net k')"
  have s: "fst ?s = insort_key fst (int m, a) (fst (server_of (ne_proto env) (k_net k)))"
    and t: "k_fds k' = sweep ?s (?t(m := Some (ControlConn (int a))))"
    using k'(3) acc tk by (simp_all add: kernel_of_def server_round_def serve_clients_def Let_def split: prod.splits)
  have "int j \<in> fst ` set (fst (server_of (ne_proto env) (k_net k)))" if "?t j = Some (ControlConn b)" for j b
  proof -
    have "(int j, b) \<in> connections ?t" using that by (simp add: connections_iff)
    then show ?thesis using inv by (force simp: kernel_inv_def)
  qed
  then have "k_fds k' = ?t(m := Some (ControlConn (int a)))"
    unfolding t by (auto simp: sweep_def s set_insort_key fun_eq_iff split: option.splits fd_use.splits)
  then show ?thesis using eq k'(1,2) m(1,2) by auto
qed

definition free_below :: "nat \<Rightarrow> fds \<Rightarrow> nat" where
  "free_below b t = length (filter (\<lambda>n. t n = None) [0..<b])"

lemma free_below_less:
  assumes "m < b" and "t m = None"
  shows "free_below b t = Suc (free_below b (t(m := Some x)))"
proof -
  have u: "[0..<b] = [0..<m] @ m # [Suc m..<b]"
    using assms(1) upt_add_eq_append [of 0 m "b - m"] by (simp add: upt_conv_Cons)
  have f: "filter (\<lambda>n. (t(m := Some x)) n = None) [0..<m] = filter (\<lambda>n. t n = None) [0..<m]"
    "filter (\<lambda>n. (t(m := Some x)) n = None) [Suc m..<b] = filter (\<lambda>n. t n = None) [Suc m..<b]"
    by (auto intro: filter_cong)
  show ?thesis unfolding free_below_def u filter_append length_append f using assms(2) f by simp
qed

lemma free_below_zero: "free_below b t = 0 \<longleftrightarrow> (\<forall>n < b. t n \<noteq> None)"
  by (auto simp: free_below_def filter_empty_conv)

section \<open>Properties\<close>

text \<open>
  C3. The clients of the server are exactly its open connections.  Let the process have at most 1024
  descriptors and start with the server socket and no connection.  For every interleaving of rounds
  of both threads with other threads that open and close descriptors of their own, and for whatever
  \<open>select\<close>, \<open>accept\<close> and \<open>recv\<close> answer, the run succeeds without undefined behaviour, where the
  descriptors of new clients come from the table and nothing is assumed of them.  The run refines the
  abstract server together with the descriptor table, in which a client that leaves loses its
  descriptor; in the end the open control connections, each with the address of its peer, are those
  of the clients (none has leaked), and the network thread has closed no descriptor that was not
  open (none twice).
\<close>
theorem connections_exact:
  assumes "undelayed (ne_proto env)" and "lim \<le> 1024" and "start_fds env t"
    and "threads_ok env (network_start (ne_server env) m now)"
    and "run_ok (kernel_step lim env junk) kernel_ok is (kernel_start (ne_server env) m now t)"
  shows "\<exists>k. run_inputs (kernel_step lim env junk) is (kernel_start (ne_server env) m now t) = Inr k
    \<and> kernel_of (ne_proto env) k = fold (kernel_spec lim env) is (([], []), t)
    \<and> connections (k_fds k) = (\<lambda>(fd, a). (fd, int a)) ` set (fst (server_of (ne_proto env) (k_net k)))
    \<and> k_failed k = []"
proof -
  from kernel_run [OF assms(1,2) kernel_start_inv [OF assms(4,3)] assms(5)]
  show ?thesis by (auto simp: kernel_inv_def kernel_of_def kernel_start_def start_server)
qed

definition few_fds :: fds where
  "few_fds = [0 \<mapsto> Standard, 1 \<mapsto> Standard, 2 \<mapsto> Standard, 4 \<mapsto> ServerSocket]"

definition kernel_inputs :: "kernel_input list" where
  "kernel_inputs = [KServer (Round connect_input), KOpen OpenFile, KServer (Round connect_input),
     KServer (Round ((data_input Eof)\<lparr>ni_ready := [3]\<rparr>)), KServer (QueueRound sample_time sample_time)]"

lemma few_fds_start: "start_fds Server.sample_env few_fds"
  by (auto simp: start_fds_def few_fds_def fd_use_of_def connections_def split: if_splits)

lemma kernel_inputs_spec:
  "fold (kernel_spec 8 Server.sample_env) kernel_inputs (([], []), few_fds) =
     (([(6, 127)], [OnConnect 127 3, OnConnect 127 6, OnDisconnect 127 3]),
      few_fds(5 \<mapsto> OpenFile, 6 \<mapsto> ControlConn 127))"
proof -
  let ?spec = "kernel_spec 8 Server.sample_env" and ?c = "Some (ControlConn 127)"
  let ?t1 = "few_fds(3 := ?c)" and ?t2 = "few_fds(3 := ?c, 5 \<mapsto> OpenFile)"
    and ?t3 = "few_fds(3 := ?c, 5 \<mapsto> OpenFile, 6 := ?c)"
  have u: "[0..<8] = [0, 1, 2, 3, 4, 5, 6, 7 :: nat]" by (simp add: upt_rec)
  have o: "fd_open 8 v few_fds = (3, few_fds(3 \<mapsto> v))" "fd_open 8 v ?t1 = (5, ?t1(5 \<mapsto> v))"
    "fd_open 8 v ?t2 = (6, ?t2(6 \<mapsto> v))" for v by (simp_all add: fd_open_def u few_fds_def)
  note defs = kernel_accept_def takes_client_def server_round_def serve_clients_def connect_input_def data_input_def
    sample_net_protocol_def
  have w: "sweep ([(3, 127)], l) ?t1 = ?t1" "sweep ([(3, 127), (6, 127)], l) ?t3 = ?t3"
    "sweep ([(6, 127)], l) ?t3 = few_fds(5 \<mapsto> OpenFile, 6 := ?c)" for l
    by (auto simp: sweep_def few_fds_def fun_eq_iff)
  have "?spec (KServer (Round connect_input)) (([], []), few_fds) = (([(3, 127)], [OnConnect 127 3]), ?t1)"
    by (simp add: defs o w)
  moreover have "?spec (KServer (Round connect_input)) (([(3, 127)], [OnConnect 127 3]), ?t2) =
      (([(3, 127), (6, 127)], [OnConnect 127 3, OnConnect 127 6]), ?t3)"
    by (simp add: defs o w)
  moreover have "?spec (KServer (Round ((data_input Eof)\<lparr>ni_ready := [3]\<rparr>)))
      (([(3, 127), (6, 127)], [OnConnect 127 3, OnConnect 127 6]), ?t3) =
      (([(6, 127)], [OnConnect 127 3, OnConnect 127 6, OnDisconnect 127 3]), few_fds(5 \<mapsto> OpenFile, 6 := ?c))"
    by (simp add: defs w socket_calls_def taken_closing_def closes_def ended_def got_def)
  ultimately show ?thesis by (simp add: kernel_inputs_def o)
qed

lemma sample_threads:
  "threads_ok Server.sample_env (network_start (ne_server Server.sample_env) queue_mgr sample_time)"
  by (simp add: threads_ok_def network_start_def queue_mgr_simps)

theorem connections_exact_witness:
  "\<exists>k. run_inputs (kernel_step 8 Server.sample_env 0) kernel_inputs (kernel_start 4 queue_mgr sample_time few_fds) = Inr k
    \<and> k_fds k = few_fds(5 \<mapsto> OpenFile, 6 \<mapsto> ControlConn 127) \<and> connections (k_fds k) = {(6, 127)}"
proof -
  have r: "run_ok (kernel_step 8 Server.sample_env 0) kernel_ok kernel_inputs
      (kernel_start (ne_server Server.sample_env) queue_mgr sample_time few_fds)"
    by (simp add: kernel_inputs_def is_conn_def split: sum.splits)
  from connections_exact [OF sample_env_simps(4) _ few_fds_start sample_threads r, unfolded kernel_inputs_spec]
  show ?thesis by (auto simp: kernel_of_def)
qed

text \<open>
  C32. The server takes clients without limit.  When the process may have more than 1024 descriptors,
  a client that only connects, once for every free descriptor below 1024 and once more, drives the
  server into undefined behaviour: every round but the last one takes the lowest free descriptor,
  and the last one writes outside the set given to \<open>select\<close>.
\<close>
theorem clients_overflow_set:
  assumes "undelayed (ne_proto env)" and "kernel_inv env k" and "only_connects env inp"
    and "1024 < lim" and "k_fds k 1024 = None"
  shows "run_inputs (kernel_step lim env junk) (replicate (Suc (free_below 1024 (k_fds k))) (KServer (Round inp))) k = Inl OutOfBounds"
  using assms(2,5)
proof (induction "free_below 1024 (k_fds k)" arbitrary: k)
  case 0
  obtain fd0 a where a: "ni_accept inp = Inr (fd0, a)" using assms(3) by (auto simp: only_connects_def)
  have "fd_open lim (ControlConn (int a)) (k_fds k) = (1024, (k_fds k)(1024 := Some (ControlConn (int a))))"
    using fd_open_split [where b = 1024 and t = "k_fds k" and lim = lim] assms(4) 0 free_below_zero [of 1024 "k_fds k"] by auto
  then have "kernel_accept lim env inp (k_fds k) =
      (inp\<lparr>ni_accept := Inr (1024, a)\<rparr>, (k_fds k)(1024 := Some (ControlConn (int a))))"
    using assms(3) a by (auto simp: kernel_accept_def takes_client_def only_connects_def)
  moreover have "network_round env junk (inp\<lparr>ni_accept := Inr (1024, a)\<rparr>) (k_net k) = Inl OutOfBounds"
    by (rule descriptor_limit [where fd = 1024 and a = a])
      (use 0 assms(1,3) in \<open>simp_all add: kernel_inv_def only_connects_def\<close>)
  ultimately show ?case using 0 by (simp add: kernel_round_def)
next
  case (Suc n)
  have "\<exists>j < 1024. k_fds k j = None" using Suc.hyps(2) free_below_zero [of 1024 "k_fds k"] by auto
  then obtain j where j: "j < 1024" "k_fds k j = None" by blast
  from connect_takes_lowest [OF Suc.prems(1) assms(1,3) j assms(4) Suc.prems(2), of junk] obtain k' m x where
    k': "kernel_round lim env junk inp k = Inr k'" "kernel_inv env k'" "m < 1024" "k_fds k m = None"
    "k_fds k' = (k_fds k)(m := Some x)" by blast
  have "n = free_below 1024 (k_fds k')"
    using Suc.hyps(2) free_below_less [of m 1024 "k_fds k" x, OF k'(3,4)] k'(5) by simp
  moreover have "k_fds k' 1024 = None" using k'(3,5) Suc.prems(2) by simp
  ultimately have "run_inputs (kernel_step lim env junk) (replicate (Suc n) (KServer (Round inp))) k' = Inl OutOfBounds"
    using Suc.hyps(1) [of k'] k'(2) by simp
  then show ?case using Suc.hyps(2) k'(1) by simp
qed

theorem clients_overflow_set_witness:
  "run_inputs (kernel_step 4096 Server.sample_env 0) (replicate 1021 (KServer (Round connect_input)))
     (kernel_start 4 queue_mgr sample_time few_fds) = Inl OutOfBounds"
proof -
  let ?k = "kernel_start (ne_server Server.sample_env) queue_mgr sample_time few_fds"
  have "free_below 1024 Map.empty = 1024" by (simp add: free_below_def)
  then have n: "free_below 1024 few_fds = 1020"
    using free_below_less [of 0 1024 Map.empty Standard] free_below_less [of 1 1024 "[0 \<mapsto> Standard]" Standard]
      free_below_less [of 2 1024 "[0 \<mapsto> Standard, 1 \<mapsto> Standard]" Standard]
      free_below_less [of 4 1024 "[0 \<mapsto> Standard, 1 \<mapsto> Standard, 2 \<mapsto> Standard]" ServerSocket]
    by (simp add: few_fds_def)
  have c: "only_connects Server.sample_env connect_input" by (simp add: only_connects_def connect_input_def)
  have f: "k_fds ?k = few_fds" by (simp add: kernel_start_def)
  have "(1024::nat) < 4096" "k_fds ?k 1024 = None" unfolding f by (simp_all add: few_fds_def)
  note run = clients_overflow_set [OF sample_env_simps(4) kernel_start_inv [OF sample_threads few_fds_start] c this, of 0]
  have "Suc (free_below 1024 (k_fds ?k)) = 1021" unfolding f n by simp
  from run [unfolded this] show ?thesis by (simp only: sample_env_simps(1))
qed

end
