(* ===== verification/LibraryCalls.thy ===== *)
theory LibraryCalls
  imports ServerProps
begin

text \<open>
  Where the calls into a protocol library come from.  The queue thread calls the library for the
  events of the network thread; every call goes back to something that a client did on its own
  connection, and a receive call hands over the block that arrived, as a C string.
\<close>

section \<open>What the library sees\<close>

text \<open>
  \<open>processRecieve\<close> gets a pointer and reads up to the first NUL: there is none when the
  block is full.
\<close>

definition c_string :: "string option \<Rightarrow> string res" where
  "c_string d = (case d of
     None \<Rightarrow> Inl NullPointer
   | Some s \<Rightarrow> if nul \<in> set s then Inr (c_str s) else Inl OutOfBounds)"

fun call_owner :: "call \<Rightarrow> int option" where
  "call_owner (OnConnect a fd) = Some fd"
| "call_owner (OnRecieve a fd d) = Some fd"
| "call_owner (OnDisconnect a fd) = Some fd"
| "call_owner c = None"

text \<open>The connection that a call is about; the calls for events that are sent have none.\<close>

definition visit_fd :: "'e \<times> conn_mgr \<times> call \<Rightarrow> int" where
  "visit_fd v = (case call_owner (snd (snd v)) of Some fd \<Rightarrow> fd | None \<Rightarrow> -1)"

lemma visit_fd_simps [simp]:
  "visit_fd (e, m, OnConnect a fd) = fd" "visit_fd (e, m, OnRecieve a fd d) = fd"
  "visit_fd (e, m, OnDisconnect a fd) = fd"
  by (simp_all add: visit_fd_def)

section \<open>From the network to calls\<close>

text \<open>What a client did in a round that leads to a call.\<close>

definition block :: "string \<Rightarrow> string" where
  "block bs = take block_size bs @ replicate (block_size - length bs) nul"

fun caused_by :: "net_env \<Rightarrow> net_input \<Rightarrow> call \<Rightarrow> bool" where
  "caused_by env inp (OnConnect a fd) = (ne_server env \<in> set (ni_ready inp) \<and> ni_accept inp = Inr (fd, a))"
| "caused_by env inp (OnRecieve a fd d) =
     (fd \<in> set (ni_ready inp)
      \<and> (case ni_recv inp fd of Data bs \<Rightarrow> bs \<noteq> [] \<and> d = Some (block bs) | _ \<Rightarrow> False))"
| "caused_by env inp (OnDisconnect a fd) = (fd \<in> set (ni_ready inp) \<and> ended (ni_recv inp fd))"
| "caused_by env inp c = False"

lemma taken_ready: "x \<in> set (taken key inp r xs) \<Longrightarrow> key x \<in> set (ni_ready inp)"
  by (induction xs arbitrary: r) (auto split: if_splits)

lemma socket_calls_caused:
  "c \<in> set (socket_calls p a fd (ni_recv inp fd)) \<Longrightarrow> fd \<in> set (ni_ready inp) \<Longrightarrow> caused_by env inp c"
  by (cases "ni_recv inp fd")
    (auto simp: socket_calls_def ended_def got_def block_def block_size_def split: if_splits)

lemma serve_clients_caused:
  "c \<in> set (snd (serve_clients p inp r s)) \<Longrightarrow> c \<in> set (snd s) \<or> caused_by env inp c"
proof (cases s)
  case (Pair cs log)
  assume "c \<in> set (snd (serve_clients p inp r s))"
  then have "c \<in> set log \<or> (\<exists>x \<in> set (taken fst inp r cs). c \<in> set (socket_calls p (snd x) (fst x) (ni_recv inp (fst x))))"
    by (auto simp: serve_clients_def Pair split: if_splits) force
  then show ?thesis by (metis Pair snd_conv taken_ready socket_calls_caused)
qed

lemma server_round_caused:
  "c \<in> set (snd (server_round env inp s)) \<Longrightarrow> c \<in> set (snd s) \<or> caused_by env inp c"
  by (auto simp: server_round_def dest!: serve_clients_caused [where env = env] split: if_splits sum.splits)

lemma serve_clients_members: "x \<in> set (fst (serve_clients p inp r s)) \<Longrightarrow> x \<in> set (fst s)"
  by (cases s) (auto simp: serve_clients_def split: if_splits)

definition accepts :: "net_env \<Rightarrow> net_input \<Rightarrow> int \<Rightarrow> nat \<Rightarrow> bool" where
  "accepts env inp fd a \<longleftrightarrow> ne_server env \<in> set (ni_ready inp) \<and> ni_accept inp = Inr (fd, a)"

fun call_peer :: "call \<Rightarrow> (int \<times> nat) option" where
  "call_peer (OnConnect a fd) = Some (fd, a)"
| "call_peer (OnRecieve a fd d) = Some (fd, a)"
| "call_peer (OnDisconnect a fd) = Some (fd, a)"
| "call_peer c = None"

lemma server_round_members:
  "(fd, a) \<in> set (fst (server_round env inp s)) \<Longrightarrow> (fd, a) \<in> set (fst s) \<or> accepts env inp fd a"
  by (auto simp: server_round_def accepts_def set_insort_key dest!: serve_clients_members
      split: if_splits sum.splits)

lemma serve_clients_peer:
  "c \<in> set (snd (serve_clients p inp r s)) \<Longrightarrow>
   c \<in> set (snd s) \<or> (\<exists>fd a. call_peer c = Some (fd, a) \<and> (fd, a) \<in> set (fst s))"
proof (cases s)
  case (Pair cs log)
  have peer: "c \<in> set (socket_calls p a fd rcv) \<Longrightarrow> call_peer c = Some (fd, a)" for a fd rcv
    by (auto simp: socket_calls_def split: if_splits recv_event.splits)
  assume "c \<in> set (snd (serve_clients p inp r s))"
  then have "c \<in> set log \<or> (\<exists>x \<in> set (taken fst inp r cs). c \<in> set (socket_calls p (snd x) (fst x) (ni_recv inp (fst x))))"
    by (auto simp: serve_clients_def Pair split: if_splits) force
  then show ?thesis using set_taken [of fst inp r cs] peer by (auto simp: Pair)
qed

lemma server_round_peer:
  "c \<in> set (snd (server_round env inp s)) \<Longrightarrow>
   c \<in> set (snd s) \<or> (\<exists>fd a. call_peer c = Some (fd, a) \<and> ((fd, a) \<in> set (fst s) \<or> accepts env inp fd a))"
  by (auto simp: server_round_def accepts_def set_insort_key dest!: serve_clients_peer
      split: if_splits sum.splits)

text \<open>The clients of the machine were accepted, and its calls come from what they did.\<close>

lemma clients_accepted:
  "(fd, a) \<in> set (fst (fold (server_spec env) is ([], []))) \<Longrightarrow>
   \<exists>inp. Round inp \<in> set is \<and> accepts env inp fd a"
proof (induction "is" rule: rev_induct)
  case (snoc i "is")
  then show ?case by (cases i) (auto dest!: server_round_members)
qed simp

lemma log_caused:
  "c \<in> set (snd (fold (server_spec env) is ([], []))) \<Longrightarrow>
   \<exists>is1 inp is2 fd a. is = is1 @ Round inp # is2 \<and> caused_by env inp c \<and> call_peer c = Some (fd, a)
     \<and> (\<exists>inp0. Round inp0 \<in> set (is1 @ [Round inp]) \<and> accepts env inp0 fd a)"
proof (induction "is" rule: rev_induct)
  case (snoc i "is")
  let ?s = "fold (server_spec env) is ([], [])"
  show ?case
  proof (cases "c \<in> set (snd ?s)")
    case True
    then obtain is1 inp is2 fd a where "is = is1 @ Round inp # is2" "caused_by env inp c"
      "call_peer c = Some (fd, a)" "\<exists>inp0. Round inp0 \<in> set (is1 @ [Round inp]) \<and> accepts env inp0 fd a"
      using snoc.IH by blast
    then show ?thesis by (intro exI [of _ is1] exI [of _ inp] exI [of _ "is2 @ [i]"]) auto
  next
    case False
    then obtain inp where i: "i = Round inp" "c \<in> set (snd (server_round env inp ?s))"
      using snoc.prems by (cases i) auto
    then obtain fd a where "call_peer c = Some (fd, a)" "(fd, a) \<in> set (fst ?s) \<or> accepts env inp fd a"
      using server_round_peer [OF i(2)] False by blast
    then show ?thesis
      using i server_round_caused [OF i(2)] False clients_accepted [of fd a env "is"]
      by (intro exI [of _ "is"] exI [of _ inp] exI [of _ "[]"]) auto
  qed
qed simp

text \<open>A block with a NUL reads as what the client sent, up to the first NUL.\<close>

lemma c_str_block: "nul \<in> set (block bs) \<Longrightarrow> c_str (block bs) = c_str bs"
proof -
  have pad: "c_str (xs @ replicate n nul) = c_str xs" for xs n
    unfolding c_str_def by (induction xs) (cases n, auto)
  have cut: "nul \<in> set (take n xs) \<Longrightarrow> c_str (take n xs) = c_str xs" for n xs
    unfolding c_str_def by (induction xs arbitrary: n) (auto simp: take_Cons split: nat.splits)
  assume "nul \<in> set (block bs)"
  then show ?thesis
    by (cases "block_size < length bs") (auto simp: block_def pad cut)
qed

lemma network_calls:
  assumes "undelayed (ne_proto env)" and "threads_ok env (network_start (ne_server env) m t)"
    and "run_ok (server_step env junk) (server_input_ok env) is (network_start (ne_server env) m t)"
    and "run_inputs (server_step env junk) is (network_start (ne_server env) m t) = Inr nw"
  shows "set (calls (nw_handler nw)) \<subseteq> set (snd (fold (server_spec env) is ([], [])))"
proof -
  have "net_inv env (network_start (ne_server env) m t)"
    using assms(2) by (intro start_inv) (simp_all add: threads_ok_def network_start_def)
  from server_run [OF assms(1) this assms(3)]
  have "server_of (ne_proto env) nw = fold (server_spec env) is ([], [])"
    using assms(4) by (auto simp: start_server)
  then have "snd (fold (server_spec env) is ([], [])) = snd (server_of (ne_proto env) nw)" by simp
  then show ?thesis by (simp add: server_of_def)
qed

lemma c_string_block: "nul \<notin> set bs \<Longrightarrow> length bs < block_size \<Longrightarrow> c_string (Some (block bs)) = Inr bs"
  using c_str_padded [of bs "block_size - length bs - 1"] by (simp add: c_string_def block_def Suc_diff_Suc)

section \<open>Runs in which everything is handled\<close>

lemma run_ok_append:
  "run_ok step ok (is @ js) c \<longleftrightarrow> run_ok step ok is c
     \<and> (case run_inputs step is c of Inl _ \<Rightarrow> True | Inr c' \<Rightarrow> run_ok step ok js c')"
  by (induction "is" arbitrary: c) (auto split: sum.splits)

lemma queue_rounds_ok:
  "run_ok (server_step env junk) (server_input_ok env) (replicate n (QueueRound began now)) nw"
  by (induction n arbitrary: nw) (simp_all del: server_step.simps split: sum.splits)

lemma queue_rounds_run:
  "run_inputs (server_step env junk) (replicate n (QueueRound now now)) nw =
   rbind (process_rounds (ne_proto env) now n (nw_handler nw)) (\<lambda>h. Inr (nw\<lparr>nw_handler := h\<rparr>))"
proof (induction n arbitrary: nw)
  case (Suc n)
  show ?case
  proof (cases "process (nw_handler nw)")
    case True
    then show ?thesis
      using Suc by (cases "process_round (ne_proto env) now now (nw_handler nw)") (auto simp: split_def)
  next
    case False
    then have "process_rounds (ne_proto env) now n (nw_handler nw) = Inr (nw_handler nw)" by (cases n) simp_all
    then show ?thesis using False Suc by simp
  qed
qed simp

lemma rounds_kept:
  "undelayed (ne_proto env) \<Longrightarrow> net_inv env nw \<Longrightarrow>
   run_ok (server_step env junk) (server_input_ok env) (map Round inps) nw \<Longrightarrow>
   \<exists>nw'. run_inputs (server_step env junk) (map Round inps) nw = Inr nw' \<and> net_inv env nw'
     \<and> server_of (ne_proto env) nw' = fold (server_spec env) (map Round inps) (server_of (ne_proto env) nw)
     \<and> process (nw_handler nw') = process (nw_handler nw)"
proof (induction inps arbitrary: nw)
  case (Cons inp inps)
  obtain nw1 where nw1: "network_round env junk inp nw = Inr nw1" "net_inv env nw1"
    "server_of (ne_proto env) nw1 = server_round env inp (server_of (ne_proto env) nw)"
    "process (nw_handler nw1) = process (nw_handler nw)"
    using network_round_ok [OF Cons.prems(2,1)] Cons.prems(3) by auto
  then show ?case using Cons.IH [OF Cons.prems(1) nw1(2)] Cons.prems(3) by simp
qed simp

lemma rounds_handled:
  assumes "undelayed (ne_proto env)" and "net_inv env nw" and "process (nw_handler nw)"
    and "run_ok (server_step env junk) (server_input_ok env) (map Round inps) nw"
  shows "\<exists>n nw'. run_inputs (server_step env junk) (map Round inps @ replicate n (QueueRound now now)) nw = Inr nw'
    \<and> run_ok (server_step env junk) (server_input_ok env) (map Round inps @ replicate n (QueueRound now now)) nw
    \<and> calls (nw_handler nw') = snd (fold (server_spec env) (map Round inps) (server_of (ne_proto env) nw))"
proof -
  from rounds_kept [OF assms(1,2,4)] assms(3) obtain nw1 where
    nw1: "run_inputs (server_step env junk) (map Round inps) nw = Inr nw1" "net_inv env nw1"
      "server_of (ne_proto env) nw1 = fold (server_spec env) (map Round inps) (server_of (ne_proto env) nw)"
      "process (nw_handler nw1)"
    by blast
  from queue_emptied [OF nw1(2,4), of now] obtain h where
    h: "process_rounds (ne_proto env) now (length (ev_queue (nw_handler nw1))) (nw_handler nw1) = Inr h"
      "calls h = snd (server_of (ne_proto env) nw1)" by blast
  show ?thesis
    using nw1(1,3) h assms(4)
    by (intro exI [of _ "length (ev_queue (nw_handler nw1))"] exI [of _ "nw1\<lparr>nw_handler := h\<rparr>"])
      (simp add: run_inputs_append run_ok_append queue_rounds_run queue_rounds_ok)
qed

text \<open>A client connects, sends its name and its password.\<close>

definition login_rounds :: "net_input list" where
  "login_rounds = [connect_input, data_input (Data ''USER bob''), data_input (Data ''PASS pw'')]"

definition login_calls :: "call list" where
  "login_calls =
     [OnConnect 127 5, OnRecieve 127 5 (Some (block ''USER bob'')), OnRecieve 127 5 (Some (block ''PASS pw''))]"

lemma sample_start_eq:
  "network_start (ne_server Server.sample_env) queue_mgr sample_time = sample_net"
  by (simp add: sample_net_def)

lemma sample_threads_ok:
  "threads_ok Server.sample_env (network_start (ne_server Server.sample_env) queue_mgr sample_time)"
  by (simp add: threads_ok_def network_start_def queue_mgr_simps)

lemma login_rounds_ok:
  "run_ok (server_step Server.sample_env 0) (server_input_ok Server.sample_env) (map Round login_rounds) sample_net"
  by (simp add: login_rounds_def input_ok_def connect_input_def data_input_def sample_net_def network_start_def
      ConnectionMgr_def fds_def split: sum.splits)

lemma login_log:
  "snd (fold (server_spec Server.sample_env) (map Round login_rounds) ([], [])) = login_calls"
  by (simp add: login_rounds_def login_calls_def server_round_def serve_clients_def connect_input_def
      data_input_def socket_calls_def taken_closing_def closes_def ended_def got_def block_def block_size_def
      sample_net_protocol_def)

lemma login_handled:
  "\<exists>n nw. run_inputs (server_step Server.sample_env 0)
      (map Round login_rounds @ replicate n (QueueRound sample_time sample_time)) sample_net = Inr nw
    \<and> run_ok (server_step Server.sample_env 0) (server_input_ok Server.sample_env)
      (map Round login_rounds @ replicate n (QueueRound sample_time sample_time)) sample_net
    \<and> login_calls = calls (nw_handler nw)"
proof -
  have "process (nw_handler sample_net)" by (simp add: sample_net_def network_start_def PacketHandler_def)
  from rounds_handled [OF Server.sample_env_simps(4) sample_net_inv this login_rounds_ok, of sample_time]
  obtain n nw where "run_inputs (server_step Server.sample_env 0)
      (map Round login_rounds @ replicate n (QueueRound sample_time sample_time)) sample_net = Inr nw"
    "run_ok (server_step Server.sample_env 0) (server_input_ok Server.sample_env)
      (map Round login_rounds @ replicate n (QueueRound sample_time sample_time)) sample_net"
    "calls (nw_handler nw) = snd (fold (server_spec Server.sample_env) (map Round login_rounds)
      (server_of sample_net_protocol sample_net))"
    by (auto simp only: Server.sample_env_simps)
  moreover have "server_of sample_net_protocol sample_net = ([], [])" by (simp add: sample_net_def start_server)
  ultimately show ?thesis using login_log by metis
qed

section \<open>Properties\<close>

text \<open>
  C9. Every call into the protocol library goes back to a client.  Whatever the two threads and the
  kernel do, each call that has been made names a descriptor and an address that an earlier (or the
  same) round accepted, and comes from a round in which that client connected, sent a block, or
  ended the connection: a receive call carries exactly the block that arrived on this descriptor.
\<close>
theorem calls_have_origin:
  assumes "undelayed (ne_proto env)" and "threads_ok env (network_start (ne_server env) m t)"
    and "run_ok (server_step env junk) (server_input_ok env) is (network_start (ne_server env) m t)"
    and "run_inputs (server_step env junk) is (network_start (ne_server env) m t) = Inr nw"
    and "c \<in> set (calls (nw_handler nw))"
  shows "\<exists>is1 inp is2 fd a. is = is1 @ Round inp # is2 \<and> caused_by env inp c \<and> call_peer c = Some (fd, a)
    \<and> (\<exists>inp0. Round inp0 \<in> set (is1 @ [Round inp]) \<and> accepts env inp0 fd a)"
  using log_caused network_calls [OF assms(1-4)] assms(5) by blast

theorem calls_have_origin_witness:
  "\<exists>n nw. run_inputs (server_step Server.sample_env 0)
      (map Round login_rounds @ replicate n (QueueRound sample_time sample_time)) sample_net = Inr nw
    \<and> (\<exists>is1 inp is2 fd a. map Round login_rounds @ replicate n (QueueRound sample_time sample_time) = is1 @ Round inp # is2
        \<and> caused_by Server.sample_env inp (OnRecieve 127 5 (Some (block ''USER bob'')))
        \<and> call_peer (OnRecieve 127 5 (Some (block ''USER bob''))) = Some (fd, a)
        \<and> (\<exists>inp0. Round inp0 \<in> set (is1 @ [Round inp]) \<and> accepts Server.sample_env inp0 fd a))"
proof -
  obtain n nw where nw: "run_inputs (server_step Server.sample_env 0)
      (map Round login_rounds @ replicate n (QueueRound sample_time sample_time)) sample_net = Inr nw"
    and ok: "run_ok (server_step Server.sample_env 0) (server_input_ok Server.sample_env)
      (map Round login_rounds @ replicate n (QueueRound sample_time sample_time)) sample_net"
    and log: "login_calls = calls (nw_handler nw)"
    using login_handled by blast
  have c: "OnRecieve 127 5 (Some (block ''USER bob'')) \<in> set (calls (nw_handler nw))"
    unfolding log [symmetric] by (simp add: login_calls_def)
  show ?thesis
    using calls_have_origin [OF Server.sample_env_simps(4) sample_threads_ok ok [unfolded sample_start_eq [symmetric]]
      nw [unfolded sample_start_eq [symmetric]] c] nw by blast
qed

end
