(* ===== verification/FtpServer.thy ===== *)
theory FtpServer
  imports LibraryCalls FtpCommands
begin

text \<open>
  The FTP library behind the server: the calls that the queue thread makes, each with the socket
  table and the answers of the operating system at that time, drive the control connections.  Every
  call goes back to something that a client did on its own connection, so what is proved of the
  library's inputs is proved of what the clients send.
\<close>

section \<open>From calls to inputs\<close>

text \<open>The bytes of an \<open>in_addr\<close> in memory; \<open>s_addr\<close> is in network order, on a little endian host.\<close>

definition address_bytes :: "nat \<Rightarrow> nat list" where
  "address_bytes a = [a mod 256, a div 256 mod 256, a div 65536 mod 256, a div 16777216 mod 256]"

type_synonym visit = "ftp_env \<times> conn_mgr \<times> call"

fun ftp_visit :: "ftp_config \<Rightarrow> visit \<Rightarrow> ftp_state \<Rightarrow> ftp_state res" where
  "ftp_visit cfg (env, m, OnConnect a fd) st =
     ftp_handle cfg (FtpConnect (address_bytes a) fd) (st\<lparr>ftp_sockets := m\<rparr>)"
| "ftp_visit cfg (env, m, OnRecieve a fd d) st =
     rbind (c_string d) (\<lambda>bytes. ftp_handle cfg (FtpRecieve env fd bytes) (st\<lparr>ftp_sockets := m\<rparr>))"
| "ftp_visit cfg (env, m, OnDisconnect a fd) st =
     ftp_handle cfg (FtpDisconnect fd) (st\<lparr>ftp_sockets := m\<rparr>)"
| "ftp_visit cfg (env, m, c) st = Inr st"

text \<open>A visit either does nothing or handles one input on the same sessions.\<close>

lemma ftp_visit_cases:
  assumes "ftp_visit cfg (env, m, c) st = Inr st'"
  shows "st' = st \<and> call_owner c = None
    \<or> (\<exists>i. ftp_handle cfg i (st\<lparr>ftp_sockets := m\<rparr>) = Inr st' \<and> call_owner c = Some (ftp_owner i)
        \<and> (\<forall>env' fd bytes. i = FtpRecieve env' fd bytes \<longrightarrow>
             env' = env \<and> (\<exists>a d. c = OnRecieve a fd d \<and> c_string d = Inr bytes)))"
  using assms
proof (cases c)
  case (OnConnect a fd)
  then show ?thesis using assms by (intro disjI2 exI [of _ "FtpConnect (address_bytes a) fd"]) simp
next
  case (OnDisconnect a fd)
  then show ?thesis using assms by (intro disjI2 exI [of _ "FtpDisconnect fd"]) simp
next
  case (OnRecieve a fd d)
  then obtain bytes where "c_string d = Inr bytes"
    "ftp_handle cfg (FtpRecieve env fd bytes) (st\<lparr>ftp_sockets := m\<rparr>) = Inr st'"
    using assms by (auto simp: res_simps)
  then show ?thesis using OnRecieve by (intro disjI2 exI [of _ "FtpRecieve env fd bytes"]) simp
qed auto

lemma ftp_visit_others:
  assumes "ftp_visit cfg v st = Inr st'" and "fd \<noteq> visit_fd v"
  shows "sessionData st' fd = sessionData st fd"
proof -
  obtain env m c where v: "v = (env, m, c)" by (cases v)
  from ftp_visit_cases [OF assms(1) [unfolded v]] show ?thesis
    using ftp_others_kept [where st = "st\<lparr>ftp_sockets := m\<rparr>" and st' = st' and fd = fd] assms(2)
    by (auto simp: v visit_fd_def)
qed

interpretation ftp_net: session_server "ftp_visit cfg" visit_fd sessionData for cfg
  by unfold_locales (rule ftp_visit_others)

lemma visits_login:
  "run_inputs (ftp_visit cfg) vs (ftp_init m) = Inr st \<Longrightarrow> sessionData st fd = Some s \<Longrightarrow> loggedIn s \<Longrightarrow>
   \<exists>vs1 env m1 a d vs2 bytes st1 s1. vs = vs1 @ (env, m1, OnRecieve a fd d) # vs2
     \<and> run_inputs (ftp_visit cfg) vs1 (ftp_init m) = Inr st1 \<and> sessionData st1 fd = Some s1
     \<and> c_string d = Inr bytes \<and> command_word bytes = ''pass'' \<and> loginPrompted s1
     \<and> authorised cfg env (username s1) (pass_text (line_text bytes))
     \<and> (\<forall>v \<in> set vs2. \<forall>b. snd (snd v) \<noteq> OnDisconnect b fd)"
proof (induction vs arbitrary: st s rule: rev_induct)
  case Nil
  then show ?case by (auto simp: ftp_init_def)
next
  case (snoc v vs)
  obtain env m' c where v: "v = (env, m', c)" by (cases v)
  obtain st1 where st1: "run_inputs (ftp_visit cfg) vs (ftp_init m) = Inr st1"
    "ftp_visit cfg (env, m', c) st1 = Inr st"
    using snoc.prems(1) by (auto simp: run_inputs_append res_simps v)
  have live: "\<forall>b. c \<noteq> OnDisconnect b fd"
    using st1(2) snoc.prems(2) by (auto simp: ftp_processDisconnect_def)
  show ?case
  proof (cases "\<exists>s1. sessionData st1 fd = Some s1 \<and> loggedIn s1")
    case True
    then obtain s1 where "sessionData st1 fd = Some s1" "loggedIn s1" by blast
    from snoc.IH [OF st1(1) this] obtain vs1 env1 m1 a d vs2 bytes st0 s0 where
      "vs = vs1 @ (env1, m1, OnRecieve a fd d) # vs2"
      "run_inputs (ftp_visit cfg) vs1 (ftp_init m) = Inr st0" "sessionData st0 fd = Some s0"
      "c_string d = Inr bytes" "command_word bytes = ''pass''" "loginPrompted s0"
      "authorised cfg env1 (username s0) (pass_text (line_text bytes))"
      "\<forall>v \<in> set vs2. \<forall>b. snd (snd v) \<noteq> OnDisconnect b fd" by blast
    then show ?thesis
      using live by (intro exI [of _ vs1] exI [of _ env1] exI [of _ m1] exI [of _ a] exI [of _ d]
          exI [of _ "vs2 @ [v]"] exI [of _ bytes] exI [of _ st0] exI [of _ s0]) (auto simp: v)
  next
    case False
    then have "st \<noteq> st1" using snoc.prems(2,3) by auto
    then obtain i where i: "ftp_handle cfg i (st1\<lparr>ftp_sockets := m'\<rparr>) = Inr st"
      "\<And>env' fd bytes. i = FtpRecieve env' fd bytes \<Longrightarrow>
         env' = env \<and> (\<exists>a d. c = OnRecieve a fd d \<and> c_string d = Inr bytes)"
      using ftp_visit_cases [OF st1(2)] by blast
    from False have "\<nexists>s1. sessionData (st1\<lparr>ftp_sockets := m'\<rparr>) fd = Some s1 \<and> loggedIn s1" by simp
    from login_step [OF i(1) snoc.prems(2,3) this] obtain env' bytes s1 where
      "i = FtpRecieve env' fd bytes" "sessionData st1 fd = Some s1" "command_word bytes = ''pass''" "loginPrompted s1"
      "authorised cfg env' (username s1) (pass_text (line_text bytes))" by auto
    moreover from i(2) [OF this(1)] obtain a d where
      "env' = env" "c = OnRecieve a fd d" "c_string d = Inr bytes" by blast
    ultimately show ?thesis using st1(1) v by fastforce
  qed
qed

lemma line_text_block:
  "c_string (Some (block bs)) = Inr bytes \<Longrightarrow> line_text bytes = line_text bs \<and> command_word bytes = command_word bs"
proof -
  assume "c_string (Some (block bs)) = Inr bytes"
  then have "bytes = c_str bs" using c_str_block by (auto simp: c_string_def split: if_splits)
  moreover have "c_str (c_str bs) = c_str bs" by (simp add: c_str_def)
  ultimately show ?thesis by (simp add: line_text_def command_word_def)
qed

section \<open>A client that logs in\<close>

definition login_visits :: "visit list" where
  "login_visits = map (\<lambda>c. (FtpCommands.sample_env, AddSocket (Socket 0 5) ConnectionMgr, c)) login_calls"

lemma login_visits_calls: "map (\<lambda>(_, _, c). c) login_visits = login_calls"
  by (simp add: login_visits_def comp_def)

definition login_result :: "ftp_state res" where
  "login_result = run_inputs (\<lambda>i st. ftp_handle sample_ftp_config i
       (st\<lparr>ftp_sockets := AddSocket (Socket 0 5) ConnectionMgr\<rparr>))
     [FtpConnect [127, 0, 0, 0] 5, FtpRecieve FtpCommands.sample_env 5 ''USER bob'',
      FtpRecieve FtpCommands.sample_env 5 ''PASS pw''] (ftp_init (AddSocket (Socket 0 5) ConnectionMgr))"

lemma login_result_ok:
  "case login_result of Inl _ \<Rightarrow> False
   | Inr st \<Rightarrow> (case sessionData st 5 of None \<Rightarrow> False | Some s \<Rightarrow> loggedIn s)"
  by code_simp

lemma run_inputs_list_all2:
  "list_all2 (\<lambda>v i. h v = k i) vs is \<Longrightarrow> run_inputs h vs = run_inputs k is"
  by (induction rule: list_all2_induct) (auto intro!: ext)

lemma login_visits_run:
  "run_inputs (ftp_visit sample_ftp_config) login_visits (ftp_init (AddSocket (Socket 0 5) ConnectionMgr)) = login_result"
proof -
  have c: "c_string (Some (block ''USER bob'')) = Inr ''USER bob''"
    "c_string (Some (block ''PASS pw'')) = Inr ''PASS pw''"
    by (rule c_string_block; simp add: block_size_def)+
  show ?thesis
    unfolding login_visits_def login_calls_def login_result_def
    by (rule fun_cong [OF run_inputs_list_all2])
      (simp add: c address_bytes_def fun_eq_iff del: ftp_handle.simps)
qed

section \<open>Properties\<close>

text \<open>
  C8. Logging in over the network.  Let the calls that the server makes drive the FTP library, each
  with any socket table and any answers of the database.  If a session is then logged in, a client
  has sent, in some round and on the descriptor of this session, a block whose first word is PASS and
  whose rest authorised the user name pending at that time; nothing another client sends and no
  other command logs it in, and the library has not been told since that the connection ended.
\<close>
theorem logged_in_over_network:
  assumes "undelayed (ne_proto env)" and "threads_ok env (network_start (ne_server env) m t)"
    and "run_ok (server_step env junk) (server_input_ok env) is (network_start (ne_server env) m t)"
    and "run_inputs (server_step env junk) is (network_start (ne_server env) m t) = Inr nw"
    and "map (\<lambda>(_, _, c). c) visits = calls (nw_handler nw)"
    and "run_inputs (ftp_visit cfg) visits (ftp_init cm) = Inr st"
    and "sessionData st fd = Some s" and "loggedIn s"
  shows "\<exists>inp bs vs1 fenv m1 a d vs2 st1 s1. Round inp \<in> set is \<and> fd \<in> set (ni_ready inp)
    \<and> ni_recv inp fd = Data bs \<and> d = Some (block bs)
    \<and> visits = vs1 @ (fenv, m1, OnRecieve a fd d) # vs2
    \<and> (\<forall>v \<in> set vs2. \<forall>b. snd (snd v) \<noteq> OnDisconnect b fd)
    \<and> run_inputs (ftp_visit cfg) vs1 (ftp_init cm) = Inr st1 \<and> sessionData st1 fd = Some s1
    \<and> command_word bs = ''pass'' \<and> loginPrompted s1 \<and> authorised cfg fenv (username s1) (pass_text (line_text bs))"
proof -
  from visits_login [OF assms(6-8)] obtain vs1 fenv m1 a d vs2 bytes st1 s1 where
    v: "visits = vs1 @ (fenv, m1, OnRecieve a fd d) # vs2" and
    l: "run_inputs (ftp_visit cfg) vs1 (ftp_init cm) = Inr st1" "sessionData st1 fd = Some s1"
      "c_string d = Inr bytes" "command_word bytes = ''pass''" "loginPrompted s1"
      "authorised cfg fenv (username s1) (pass_text (line_text bytes))"
      "\<forall>v \<in> set vs2. \<forall>b. snd (snd v) \<noteq> OnDisconnect b fd"
    by blast
  have "OnRecieve a fd d \<in> set (map (\<lambda>(_, _, c). c) visits)" by (simp add: v)
  then have "OnRecieve a fd d \<in> set (calls (nw_handler nw))" by (simp only: assms(5))
  then obtain is1 inp is2 where i: "is = is1 @ Round inp # is2" "caused_by env inp (OnRecieve a fd d)"
    using log_caused network_calls [OF assms(1-4)] by blast
  then obtain bs where b: "fd \<in> set (ni_ready inp)" "ni_recv inp fd = Data bs" "d = Some (block bs)"
    by (auto split: recv_event.splits)
  have "line_text bytes = line_text bs" "command_word bytes = command_word bs" using line_text_block l(3) b(3) by blast+
  then show ?thesis using v l i(1) b by fastforce
qed

theorem logged_in_over_network_witness:
  "\<exists>st s. login_result = Inr st \<and> sessionData st 5 = Some s \<and> loggedIn s
    \<and> (\<exists>n inp bs. Round inp \<in> set (map Round login_rounds @ replicate n (QueueRound sample_time sample_time))
        \<and> 5 \<in> set (ni_ready inp) \<and> ni_recv inp 5 = Data bs \<and> command_word bs = ''pass''
        \<and> (\<exists>fenv user. authorised sample_ftp_config fenv user (pass_text (line_text bs))))"
proof -
  obtain n nw where nw: "run_inputs (server_step Server.sample_env 0)
      (map Round login_rounds @ replicate n (QueueRound sample_time sample_time)) sample_net = Inr nw"
    and ok: "run_ok (server_step Server.sample_env 0) (server_input_ok Server.sample_env)
      (map Round login_rounds @ replicate n (QueueRound sample_time sample_time)) sample_net"
    and log: "login_calls = calls (nw_handler nw)"
    using login_handled by blast
  obtain st s where st: "login_result = Inr st" "sessionData st 5 = Some s" "loggedIn s"
    using login_result_ok by (auto split: sum.splits option.splits)
  note start = sample_start_eq [symmetric]
  from logged_in_over_network [OF Server.sample_env_simps(4) sample_threads_ok ok [unfolded start]
      nw [unfolded start] log [folded login_visits_calls] trans [OF login_visits_run st(1)] st(2,3)]
  show ?thesis using st by blast
qed

end
