(* ===== verification/SmtpServer.thy ===== *)
theory SmtpServer
  imports LibraryCalls SmtpProps
begin

text \<open>
  The SMTP library behind the server: the calls that the queue thread makes, with those for other
  clients anywhere in between, drive the mail dialogues; and what the library makes of a block that
  holds more than one line.
\<close>

section \<open>From calls to inputs\<close>

text \<open>A call, with the memory behind the copy of its block and the socket table at that time.\<close>

type_synonym mail_visit = "string \<times> conn_mgr \<times> call"

fun smtp_visit :: "mail_visit \<Rightarrow> smtp_state \<Rightarrow> smtp_state res" where
  "smtp_visit (after, m, OnConnect a fd) st = smtp_handle (SmtpConnect fd) (st\<lparr>smtp_sockets := m\<rparr>)"
| "smtp_visit (after, m, OnRecieve a fd d) st =
     rbind (c_string d) (\<lambda>bytes. smtp_handle (SmtpRecieve after fd bytes) (st\<lparr>smtp_sockets := m\<rparr>))"
| "smtp_visit (after, m, OnDisconnect a fd) st = smtp_handle (SmtpDisconnect fd) (st\<lparr>smtp_sockets := m\<rparr>)"
| "smtp_visit (after, m, c) st = Inr st"

lemma smtp_view_sockets [simp]: "smtp_view (st\<lparr>smtp_sockets := m\<rparr>) = smtp_view st"
  by (simp add: smtp_view_def fun_eq_iff)

lemma smtp_visit_others:
  assumes "smtp_visit v st = Inr st'" and "fd \<noteq> visit_fd v"
  shows "smtp_view st' fd = smtp_view st fd"
proof -
  obtain after m c where v: "v = (after, m, c)" by (cases v)
  note others = smtp_others_kept [where st = "st\<lparr>smtp_sockets := m\<rparr>" and fd = fd and st' = st']
  show ?thesis
  proof (cases c)
    case (OnConnect a f)
    then show ?thesis using assms others [of "SmtpConnect f"] by (simp add: v visit_fd_def)
  next
    case (OnRecieve a f d)
    then obtain bytes where "smtp_handle (SmtpRecieve after f bytes) (st\<lparr>smtp_sockets := m\<rparr>) = Inr st'"
      using assms(1) by (auto simp: v res_simps simp del: smtp_handle.simps)
    then show ?thesis using assms(2) others OnRecieve by (fastforce simp: v visit_fd_def)
  next
    case (OnDisconnect a f)
    then show ?thesis using assms others [of "SmtpDisconnect f"] by (simp add: v visit_fd_def)
  qed (use assms v in auto)
qed

interpretation smtp_net: session_server smtp_visit visit_fd smtp_view
  by unfold_locales (rule smtp_visit_others)

section \<open>A dialogue among others\<close>

text \<open>What is kept of a connection, read back from its view.\<close>

definition view_status :: "(SMTPStates option \<times> smtp_session option) option \<Rightarrow> SMTPStates" where
  "view_status v = (case v of Some (Some s, _) \<Rightarrow> s | _ \<Rightarrow> SMTP_GREETINGS)"

definition view_session :: "(SMTPStates option \<times> smtp_session option) option \<Rightarrow> smtp_session" where
  "view_session v = (case v of Some (_, Some s) \<Rightarrow> s | _ \<Rightarrow> SMTPSessionData)"

lemma view_simps [simp]:
  "view_status (smtp_view st fd) = status_of fd st" "view_session (smtp_view st fd) = session_of fd st"
  by (auto simp: view_status_def view_session_def smtp_view_def status_of_def session_of_def split: option.splits)

text \<open>A receive call of the connection that hands over the text \<open>l\<close>.\<close>

definition hands_over :: "int \<Rightarrow> string \<Rightarrow> mail_visit \<Rightarrow> bool" where
  "hands_over fd l v \<longleftrightarrow> (case v of (after, m, c) \<Rightarrow> nul \<in> set after \<and> GetSocketByFd fd m \<noteq> None
     \<and> (case c of OnRecieve a f d \<Rightarrow> f = fd \<and> c_string d = Inr l | _ \<Rightarrow> False))"

lemma hands_over_visit:
  assumes "hands_over fd l v"
  shows "\<exists>after m k. nul \<in> set after \<and> GetSocketByFd fd m = Some k \<and> smtp_visit v st =
    rbind (smtp_processRecieve after fd l (st\<lparr>smtp_sockets := m\<rparr>)) (\<lambda>(st, _). Inr st)"
proof -
  obtain after m c where v: "v = (after, m, c)" by (cases v)
  obtain a d where "c = OnRecieve a fd d" "c_string d = Inr l" "nul \<in> set after" "GetSocketByFd fd m \<noteq> None"
    using assms by (cases c) (auto simp: v hands_over_def)
  then show ?thesis by (auto simp: v)
qed

text \<open>The dialogue after \<open>k\<close> of its blocks.\<close>

definition dialogue :: "string \<Rightarrow> string \<Rightarrow> string list \<Rightarrow> string list" where
  "dialogue from_addr to_addr bs =
     [line (''MAIL FROM:<'' @ from_addr @ ''>''), line (''RCPT TO:<'' @ to_addr @ ''>''), line ''DATA''] @ bs"

definition progress ::
  "string \<Rightarrow> string list \<Rightarrow> nat \<Rightarrow> (SMTPStates option \<times> smtp_session option) option \<Rightarrow> bool" where
  "progress to_addr bs k v \<longleftrightarrow> (view_status v = SMTP_MAIL_DATA \<longleftrightarrow> 3 \<le> k)
     \<and> mailTo (view_session v) = (if k < 2 then [] else [to_addr])
     \<and> mail_data (view_session v) = concat (take (k - 3) bs)"

lemma status_of_data: "status_of fd st = SMTP_MAIL_DATA \<Longrightarrow> smtp_status st fd = Some SMTP_MAIL_DATA"
  by (simp add: status_of_def split: option.splits)

lemma status_of_set [simp]:
  "status_of fd (set_session fd s st) = status_of fd st" "status_of fd (set_status fd x st) = x"
  "status_of fd (st\<lparr>smtp_sockets := m\<rparr>) = status_of fd st"
  "session_of fd (st\<lparr>smtp_sockets := m\<rparr>) = session_of fd st"
  by (simp_all add: status_of_def session_of_def)

lemma progress_step:
  assumes addr: "plain_address from_addr" "plain_address to_addr" and mail: "mail_blocks bs b"
    and p: "progress to_addr bs k (smtp_view st fd)" and k: "k < length (dialogue from_addr to_addr bs)"
    and h: "hands_over fd (dialogue from_addr to_addr bs ! k) v"
  shows "\<exists>st'. smtp_visit v st = Inr st' \<and> progress to_addr bs (Suc k) (smtp_view st' fd)
    \<and> smtp_files st' = smtp_files st"
proof -
  obtain after m so where v: "nul \<in> set after" "GetSocketByFd fd m = Some so" "smtp_visit v st =
      rbind (smtp_processRecieve after fd (dialogue from_addr to_addr bs ! k) (st\<lparr>smtp_sockets := m\<rparr>))
        (\<lambda>(st, _). Inr st)"
    using hands_over_visit [OF h] by blast
  let ?st = "st\<lparr>smtp_sockets := m\<rparr>"
  have so: "GetSocketByFd fd (smtp_sockets ?st) = Some so" using v(2) by simp
  consider "k = 0" | "k = 1" | "k = 2" | "3 \<le> k" by linarith
  then show ?thesis
  proof cases
    case 1
    then show ?thesis
      using mail_line [OF addr(1) v(1) _ so] v(3) p by (auto simp: dialogue_def progress_def)
  next
    case 2
    then show ?thesis
      using rcpt_line [OF addr(2) v(1) _ so] v(3) p by (auto simp: dialogue_def progress_def)
  next
    case 3
    then show ?thesis
      using data_line [OF v(1) _ so] v(3) p by (auto simp: dialogue_def progress_def)
  next
    case 4
    define j where "j = k - 3"
    have j: "k = j + 3" "j < length bs" using 4 k by (simp_all add: j_def dialogue_def)
    then have nth: "dialogue from_addr to_addr bs ! k = bs ! j" by (simp add: dialogue_def numeral_3_eq_3)
    have d: "smtp_status ?st fd = Some SMTP_MAIL_DATA" "mail_data (session_of fd ?st) = concat (take j bs)"
      "mailTo (session_of fd ?st) = [to_addr]"
      using p j(1) status_of_data [of fd st] by (simp_all add: progress_def)
    have n: "find_sub mail_end (mail_data (session_of fd ?st) @ concat (take n [bs ! j])) = None" if "n \<le> 1" for n
    proof (cases n)
      case 0
      then show ?thesis using mail j(2) d(2) by (simp add: mail_blocks_def)
    next
      case (Suc n')
      then have "concat (take j bs) @ concat (take n [bs ! j]) = concat (take (Suc j) bs)"
        using that j(2) by (simp add: take_Suc_conv_app_nth)
      then show ?thesis using mail j(2) d(2) by (simp add: mail_blocks_def)
    qed
    have "list_all block_ok [bs ! j]" using mail j(2) by (simp add: mail_blocks_def list_all_length)
    then have "recieve_blocks after fd [bs ! j] ?st =
      Inr (set_session fd ((session_of fd ?st)\<lparr>mail_data := mail_data (session_of fd ?st) @ concat [bs ! j]\<rparr>) ?st, [])"
      using n d(1) by (intro collect_blocks [OF v(1)]) auto
    then have "smtp_visit v st = Inr (set_session fd ((session_of fd ?st)\<lparr>mail_data := concat (take (Suc j) bs)\<rparr>) ?st)"
      using v(3) j(2) nth d(2) by (auto simp: take_Suc_conv_app_nth res_simps)
    moreover have "status_of fd ?st = SMTP_MAIL_DATA" using d(1) by (simp add: status_of_def)
    ultimately show ?thesis using d(3) j(1) by (simp add: progress_def)
  qed
qed

lemma dialogue_follows:
  assumes addr: "plain_address from_addr" "plain_address to_addr" and mail: "mail_blocks bs b"
    and own: "list_all2 (hands_over fd) (dialogue from_addr to_addr bs) (filter (\<lambda>v. visit_fd v = fd) vs)"
    and start: "progress to_addr bs 0 (smtp_view st fd)" and run: "run_inputs smtp_visit vs st = Inr st'"
  shows "progress to_addr bs (length (dialogue from_addr to_addr bs)) (smtp_view st' fd)"
proof -
  let ?d = "dialogue from_addr to_addr bs"
  define Q where "Q rest v \<longleftrightarrow> (\<exists>k \<le> length ?d. list_all2 (hands_over fd) (drop k ?d) rest \<and> progress to_addr bs k v)"
    for rest v
  have "Q [] (smtp_view st' fd)"
  proof (rule smtp_net.run_follows [OF _ run])
    show "Q (filter (\<lambda>v. visit_fd v = fd) vs) (smtp_view st fd)"
      using own start unfolding Q_def by (intro exI [of _ 0]) simp
  next
    fix i rest st1 st2
    assume h: "smtp_visit i st1 = Inr st2" and q: "Q (i # rest) (smtp_view st1 fd)"
    then obtain k where k: "k \<le> length ?d" "list_all2 (hands_over fd) (drop k ?d) (i # rest)"
      "progress to_addr bs k (smtp_view st1 fd)" unfolding Q_def by blast
    then have l: "k < length ?d" by (cases "k = length ?d") auto
    then have "drop k ?d = ?d ! k # drop (Suc k) ?d" by (simp add: Cons_nth_drop_Suc)
    then have own: "hands_over fd (?d ! k) i" "list_all2 (hands_over fd) (drop (Suc k) ?d) rest" using k(2) by simp_all
    then show "Q rest (smtp_view st2 fd)"
      using progress_step [OF addr mail k(3) l own(1)] h l own(2) unfolding Q_def by (intro exI [of _ "Suc k"]) auto
  qed
  then show ?thesis unfolding Q_def by auto
qed

text \<open>The call that completes the mail.\<close>

lemma mail_completed:
  assumes mail: "mail_blocks bs b" and h: "hands_over fd b v" and to: "plain_address to_addr"
    and p: "progress to_addr bs (length (dialogue from_addr to_addr bs)) (smtp_view st fd)"
  shows "\<exists>st'. smtp_visit v st = Inr st'
    \<and> smtp_files st' = (case smtp_files st to_addr of
        None \<Rightarrow> smtp_files st
      | Some old \<Rightarrow> (smtp_files st)(to_addr \<mapsto> overwrite old (concat bs @ b)))
    \<and> status_of fd st' = SMTP_GREETINGS \<and> mailTo (session_of fd st') = [] \<and> mail_data (session_of fd st') = []"
proof -
  obtain after m so where l: "nul \<in> set after" "GetSocketByFd fd m = Some so" "smtp_visit v st =
      rbind (smtp_processRecieve after fd b (st\<lparr>smtp_sockets := m\<rparr>)) (\<lambda>(st, _). Inr st)"
    using hands_over_visit [OF h] by blast
  have p': "status_of fd st = SMTP_MAIL_DATA" "mailTo (session_of fd st) = [to_addr]"
    "mail_data (session_of fd st) = concat bs"
    using p by (simp_all add: progress_def dialogue_def)
  have "smtp_status (st\<lparr>smtp_sockets := m\<rparr>) fd = Some SMTP_MAIL_DATA" using status_of_data p'(1) by simp
  from last_block [OF l(1) this, of b so] have "smtp_visit v st =
    Inr (set_session fd ((session_of fd st)\<lparr>mail_data := [], mailTo := []\<rparr>)
      ((set_status fd SMTP_GREETINGS (st\<lparr>smtp_sockets := m\<rparr>))\<lparr>smtp_files :=
        af_SaveToFile (af_writeFile (concat bs @ b) (AsciiFile (smtp_files st) to_addr)) (smtp_files st)\<rparr>))"
    using l(2,3) p' mail by (simp add: mail_blocks_def)
  moreover have "to_addr \<noteq> []" using to by (simp add: plain_address_def)
  ultimately show ?thesis using save_new by (simp add: status_of_def)
qed

section \<open>A block with several lines\<close>

lemma switch_first_word:
  assumes "get_word d = Inr (w, e)" and "get_word d' = Inr (w, e')" and "s \<noteq> SMTP_MAIL_DATA"
  shows "smtp_switch s so fd data d st = smtp_switch s so fd data' d' st"
  using assms by (cases s) (simp_all add: smtp_hello_def smtp_mail_def smtp_rcpt_def)

lemma select_no_data: "s \<noteq> SMTP_MAIL_DATA \<Longrightarrow> select_state c s \<noteq> SMTP_MAIL_DATA"
  by (simp add: select_state_def Let_def)

lemma switch_no_argument: "s = SMTP_MAIL_DATA_START \<or> s = SMTP_QUIT \<Longrightarrow> smtp_switch s so fd data d st = smtp_switch s so fd data' d' st"
  by auto

text \<open>The first word of a block, however it ends, and what is left to read after it.\<close>

lemma recieve_first_word:
  assumes "plain_word w" and "word_stop c" and "nl \<in> set (c # others)" and "nul \<notin> set others" and "nul \<in> set after"
    and "length w + length others < 2 ^ 32" and "status_of fd st \<noteq> SMTP_MAIL_DATA"
  shows "\<exists>d. wf_bd d \<and> unread d = others \<and> smtp_processRecieve after fd (w @ c # others) st =
    smtp_switch (select_state (trimmed w) (status_of fd st)) (GetSocketByFd fd (smtp_sockets st)) fd
      (w @ c # others) d (set_status fd (select_state (trimmed w) (status_of fd st)) st)"
proof -
  have "c \<noteq> nul" using assms(2) by (auto simp: word_stop_def)
  then have b: "c_str (w @ c # others) = w @ c # others"
    using plain_word_nul [OF assms(1)] assms(4) by (intro c_str_plain) simp
  then have "length (c_str (w @ c # others)) < 2 ^ 63" using assms(6) by simp
  from recieve_command [OF b this assms(1-3,5,7)] show ?thesis unfolding b by blast
qed

lemma recieve_two_words:
  assumes "plain_word w1" and "word_stop c1" and "plain_word w2" and "word_stop c2" and "nl \<in> set (c2 # rest)"
    and "nul \<notin> set rest" and "nul \<in> set after" and "length w1 + length w2 + length rest < 2 ^ 31"
    and "status_of fd st \<noteq> SMTP_MAIL_DATA"
  shows "\<exists>d e. get_word d = Inr (w2, e) \<and> smtp_processRecieve after fd (w1 @ c1 # w2 @ c2 # rest) st =
    smtp_switch (select_state (trimmed w1) (status_of fd st)) (GetSocketByFd fd (smtp_sockets st)) fd
      (w1 @ c1 # w2 @ c2 # rest) d (set_status fd (select_state (trimmed w1) (status_of fd st)) st)"
proof -
  have "nul \<notin> set (w2 @ c2 # rest)" using plain_word_nul [OF assms(3)] assms(4,6) by (auto simp: word_stop_def)
  from recieve_first_word [OF assms(1,2) _ this assms(7) _ assms(9)] assms(5,8) obtain d where
    d: "wf_bd d" "unread d = w2 @ c2 # rest" "smtp_processRecieve after fd (w1 @ c1 # w2 @ c2 # rest) st =
      smtp_switch (select_state (trimmed w1) (status_of fd st)) (GetSocketByFd fd (smtp_sockets st)) fd
        (w1 @ c1 # w2 @ c2 # rest) d (set_status fd (select_state (trimmed w1) (status_of fd st)) st)"
    by auto
  from get_word_split [OF d(1,2) assms(3-5)] d(3) show ?thesis by blast
qed

section \<open>Properties\<close>

text \<open>
  C18. A mail among other clients.  Let the calls of the server drive the library, in any order of
  the clients: connections, blocks and ends of other connections anywhere in between, whatever they
  hold.  If the calls for one connection hand over MAIL, RCPT, DATA and then the blocks of a mail,
  its last call writes exactly the blocks of this client, joined, over the beginning of the file
  that the recipient names, if this file exists then, changes no other file, and leaves the
  connection ready for the next mail.
\<close>
theorem mail_among_others:
  assumes "plain_address from_addr" and "plain_address to_addr" and "mail_blocks bs b"
    and "list_all2 (hands_over fd) (dialogue from_addr to_addr bs) (filter (\<lambda>v. visit_fd v = fd) visits)"
    and "hands_over fd b last_visit"
    and "status_of fd st \<noteq> SMTP_MAIL_DATA" and "mailTo (session_of fd st) = []" and "mail_data (session_of fd st) = []"
    and "run_inputs smtp_visit (visits @ [last_visit]) st = Inr st'"
  shows "\<exists>st1. run_inputs smtp_visit visits st = Inr st1
    \<and> smtp_files st' = (case smtp_files st1 to_addr of
        None \<Rightarrow> smtp_files st1
      | Some old \<Rightarrow> (smtp_files st1)(to_addr \<mapsto> overwrite old (concat bs @ b)))
    \<and> status_of fd st' = SMTP_GREETINGS \<and> mailTo (session_of fd st') = [] \<and> mail_data (session_of fd st') = []"
proof -
  obtain st1 where run: "run_inputs smtp_visit visits st = Inr st1" "smtp_visit last_visit st1 = Inr st'"
    using assms(9) by (auto simp: run_inputs_append res_simps)
  have "progress to_addr bs 0 (smtp_view st fd)" using assms(6-8) by (simp add: progress_def)
  from mail_completed [OF assms(3,5,2) dialogue_follows [OF assms(1-4) this run(1)]] run
  show ?thesis by auto
qed

text \<open>A client on descriptor 4 sends a mail while another connects and sends it to the same file.\<close>

definition sends :: "string \<Rightarrow> mail_visit" where
  "sends l = ([nul], AddSocket (Socket 0 4) ConnectionMgr, OnRecieve 127 4 (Some (l @ [nul])))"

definition other_connects :: mail_visit where
  "other_connects = ([nul], AddSocket (Socket 0 4) ConnectionMgr, OnConnect 127 5)"

definition sample_visits :: "mail_visit list" where
  "sample_visits =
     [sends (line (''MAIL FROM:<'' @ ''me'' @ ''>'')), other_connects,
      sends (line (''RCPT TO:<'' @ ''box'' @ ''>'')), sends (line ''DATA'')]"

lemma sends_hands_over: "nul \<notin> set l \<Longrightarrow> hands_over 4 l (sends l)"
  using c_str_padded [of l 0] sample_smtp_simps(3)
  by (simp add: hands_over_def sends_def c_string_def sample_smtp_def)

lemma sample_fds [simp]: "visit_fd (sends l) = 4" "visit_fd other_connects = 5"
  by (simp_all add: sends_def other_connects_def)

lemma sample_plan:
  "plain_address ''me''" "plain_address ''box''" "mail_blocks [] sample_block"
  "hands_over 4 sample_block (sends sample_block)"
  "hands_over 4 (line (''MAIL FROM:<'' @ ''me'' @ ''>'')) (sends (line (''MAIL FROM:<'' @ ''me'' @ ''>'')))"
  "hands_over 4 (line (''RCPT TO:<'' @ ''box'' @ ''>'')) (sends (line (''RCPT TO:<'' @ ''box'' @ ''>'')))"
  "hands_over 4 (line ''DATA'') (sends (line ''DATA''))"
  by (simp_all only: sends_hands_over plain_address_def plain_word_def mail_blocks_def block_ok_def)
    (simp_all add: sends_hands_over word_stop_def sample_block_def mail_end_def crlf_def line_def)

lemma sample_own:
  "list_all2 (hands_over 4) (dialogue ''me'' ''box'' []) (filter (\<lambda>v. visit_fd v = 4) sample_visits)"
  using sample_plan(5-7) by (simp add: dialogue_def sample_visits_def)

lemma sample_start: "progress ''box'' [] 0 (smtp_view sample_smtp 4)"
  by (simp add: progress_def sample_smtp_simps SMTPSessionData_def)

lemma sample_run: "\<exists>st'. run_inputs smtp_visit (sample_visits @ [sends sample_block]) sample_smtp = Inr st'"
proof -
  have nth: "dialogue ''me'' ''box'' [] ! 0 = line (''MAIL FROM:<'' @ ''me'' @ ''>'')"
    "dialogue ''me'' ''box'' [] ! Suc 0 = line (''RCPT TO:<'' @ ''box'' @ ''>'')"
    "dialogue ''me'' ''box'' [] ! Suc (Suc 0) = line ''DATA''"
    "length (dialogue ''me'' ''box'' []) = Suc (Suc (Suc 0))"
    by (simp_all add: dialogue_def)
  note step = progress_step [OF sample_plan(1-3), unfolded nth(4)]
  obtain st1 where st1: "smtp_visit (sends (line (''MAIL FROM:<'' @ ''me'' @ ''>''))) sample_smtp = Inr st1"
    "progress ''box'' [] (Suc 0) (smtp_view st1 4)"
    using step [OF sample_start, unfolded nth] sample_plan(5) by blast
  obtain st2 where st2: "smtp_visit other_connects st1 = Inr st2" by (simp add: other_connects_def)
  have "smtp_view st2 4 = smtp_view st1 4" using smtp_visit_others [OF st2, of 4] by simp
  then have "progress ''box'' [] (Suc 0) (smtp_view st2 4)" using st1(2) by simp
  then obtain st3 where st3: "smtp_visit (sends (line (''RCPT TO:<'' @ ''box'' @ ''>''))) st2 = Inr st3"
    "progress ''box'' [] (Suc (Suc 0)) (smtp_view st3 4)"
    using step [of "Suc 0" st2 4, unfolded nth] sample_plan(6) by blast
  then obtain st4 where st4: "smtp_visit (sends (line ''DATA'')) st3 = Inr st4"
    "progress ''box'' [] (Suc (Suc (Suc 0))) (smtp_view st4 4)"
    using step [of "Suc (Suc 0)" st3 4, unfolded nth] sample_plan(7) by blast
  then obtain st5 where "smtp_visit (sends sample_block) st4 = Inr st5"
    using mail_completed [OF sample_plan(3,4,2), of "''me''" st4, unfolded nth] by blast
  then show ?thesis using st1(1) st2 st3(1) st4(1) by (simp add: sample_visits_def)
qed

theorem mail_among_others_witness:
  "\<exists>st1 st'. run_inputs smtp_visit (sample_visits @ [sends sample_block]) sample_smtp = Inr st'
    \<and> run_inputs smtp_visit sample_visits sample_smtp = Inr st1
    \<and> smtp_files st' = (case smtp_files st1 ''box'' of
        None \<Rightarrow> smtp_files st1
      | Some old \<Rightarrow> (smtp_files st1)(''box'' \<mapsto> overwrite old (concat [] @ sample_block)))"
proof -
  obtain st' where st': "run_inputs smtp_visit (sample_visits @ [sends sample_block]) sample_smtp = Inr st'"
    using sample_run by blast
  have start: "status_of 4 sample_smtp \<noteq> SMTP_MAIL_DATA" "mailTo (session_of 4 sample_smtp) = []"
    "mail_data (session_of 4 sample_smtp) = []"
    by (simp_all add: sample_smtp_simps SMTPSessionData_def)
  from mail_among_others [OF sample_plan(1-3) sample_own sample_plan(4) start st'] st' show ?thesis by blast
qed

text \<open>
  C19. One block, one command.  The library takes what one \<open>recv\<close> returned for a command.  Outside
  the text of a mail a block in which a line end follows the second word is executed as the command
  of these two words, where a word ends at a blank or at a line end; everything behind them is lost
  without a reply.  So of the lines of a block the second is executed at most as far as it gives a
  first line of one word its argument.  \<open>DATA\<close> and \<open>QUIT\<close> lose all that follows them, also the
  text of the mail, whatever it looks like.
\<close>
theorem block_is_one_command:
  assumes "plain_word w1" and "word_stop c1" and "nl \<in> set (c1 # others)" and "nul \<notin> set others"
    and "nul \<in> set after" and "length w1 + length others < 2 ^ 31" and "status_of fd st \<noteq> SMTP_MAIL_DATA"
  shows "(\<forall>w2 c2 rest. others = w2 @ c2 # rest \<and> plain_word w2 \<and> word_stop c2 \<and> nl \<in> set (c2 # rest) \<longrightarrow>
        smtp_processRecieve after fd (w1 @ c1 # others) st = smtp_processRecieve after fd (w1 @ space # w2 @ [nl]) st)
    \<and> (lower (trimmed w1) \<in> {''data'', ''quit''} \<longrightarrow>
        smtp_processRecieve after fd (w1 @ c1 # others) st = smtp_processRecieve after fd (w1 @ [nl]) st)"
proof (intro conjI allI impI)
  let ?s = "select_state (trimmed w1) (status_of fd st)"
  fix w2 c2 rest
  assume m: "others = w2 @ c2 # rest \<and> plain_word w2 \<and> word_stop c2 \<and> nl \<in> set (c2 # rest)"
  from recieve_two_words [OF assms(1,2) _ _ _ _ assms(5) _ assms(7), of w2 c2 rest] m assms(4,6) obtain d e where
    d: "get_word d = Inr (w2, e)" "smtp_processRecieve after fd (w1 @ c1 # others) st =
      smtp_switch ?s (GetSocketByFd fd (smtp_sockets st)) fd (w1 @ c1 # others) d (set_status fd ?s st)" by auto
  from recieve_two_words [OF assms(1) stops(1) _ stops(2) _ _ assms(5) _ assms(7), of w2 "[]"] m assms(6) obtain d' e' where
    d': "get_word d' = Inr (w2, e')" "smtp_processRecieve after fd (w1 @ space # w2 @ [nl]) st =
      smtp_switch ?s (GetSocketByFd fd (smtp_sockets st)) fd (w1 @ space # w2 @ [nl]) d' (set_status fd ?s st)" by auto
  show "smtp_processRecieve after fd (w1 @ c1 # others) st = smtp_processRecieve after fd (w1 @ space # w2 @ [nl]) st"
    unfolding d(2) d'(2) by (rule switch_first_word [OF d(1) d'(1) select_no_data [OF assms(7)]])
next
  let ?s = "select_state (trimmed w1) (status_of fd st)"
  assume "lower (trimmed w1) \<in> {''data'', ''quit''}"
  then have s: "?s = SMTP_MAIL_DATA_START \<or> ?s = SMTP_QUIT"
    using select_lower [OF refl, of w1 "status_of fd st"] by auto
  from recieve_first_word [OF assms(1-5) _ assms(7)] assms(6) obtain d where
    d: "smtp_processRecieve after fd (w1 @ c1 # others) st =
      smtp_switch ?s (GetSocketByFd fd (smtp_sockets st)) fd (w1 @ c1 # others) d (set_status fd ?s st)" by auto
  from recieve_first_word [OF assms(1) stops(2) _ _ assms(5) _ assms(7), of "[]"] assms(6) obtain d' where
    d': "smtp_processRecieve after fd (w1 @ [nl]) st =
      smtp_switch ?s (GetSocketByFd fd (smtp_sockets st)) fd (w1 @ [nl]) d' (set_status fd ?s st)" by auto
  show "smtp_processRecieve after fd (w1 @ c1 # others) st = smtp_processRecieve after fd (w1 @ [nl]) st"
    unfolding d d' by (rule switch_no_argument [OF s])
qed

text \<open>Three blocks: two lines, a line of one word with its argument on the next, and a mail sent with its \<open>DATA\<close>.\<close>

theorem block_is_one_command_witness:
  "smtp_processRecieve [nul] 4 (''MAIL'' @ space # ''FROM:<me>'' @ nl # ''RCPT TO:<box>'') sample_smtp =
    smtp_processRecieve [nul] 4 (''MAIL'' @ space # ''FROM:<me>'' @ [nl]) sample_smtp
   \<and> smtp_processRecieve [nul] 4 (''MAIL'' @ nl # ''FROM:<me>'' @ nl # ''RCPT TO:<box>'') sample_smtp =
    smtp_processRecieve [nul] 4 (''MAIL'' @ space # ''FROM:<me>'' @ [nl]) sample_smtp
   \<and> smtp_processRecieve [nul] 4 (''DATA'' @ nl # ''the mail'') sample_smtp =
    smtp_processRecieve [nul] 4 (''DATA'' @ [nl]) sample_smtp"
proof -
  have plain: "plain_word ''MAIL''" "plain_word ''DATA''" "plain_word ''FROM:<me>''"
    by (simp_all add: plain_word_def word_stop_def)
  have stop: "nul \<notin> set (''FROM:<me>'' @ nl # ''RCPT TO:<box>'')" "nl \<in> set (nl # ''RCPT TO:<box>'')"
    "status_of 4 sample_smtp \<noteq> SMTP_MAIL_DATA" by (simp_all add: sample_smtp_simps)
  have cmd: "smtp_processRecieve [nul] 4 (''MAIL'' @ c # ''FROM:<me>'' @ nl # ''RCPT TO:<box>'') sample_smtp =
      smtp_processRecieve [nul] 4 (''MAIL'' @ space # ''FROM:<me>'' @ [nl]) sample_smtp" if "word_stop c" for c
    using block_is_one_command [OF plain(1) that _ stop(1) _ _ stop(3), of "[nul]"] plain(3) stop(2) stops(2)
    by (simp del: append.simps)
  have "lower (trimmed ''DATA'') = ''data''" by code_simp
  then have "smtp_processRecieve [nul] 4 (''DATA'' @ nl # ''the mail'') sample_smtp =
      smtp_processRecieve [nul] 4 (''DATA'' @ [nl]) sample_smtp"
    using block_is_one_command [OF plain(2) stops(2) _ _ _ _ stop(3), of "''the mail''" "[nul]"] by simp
  then show ?thesis using cmd [OF stops(1)] cmd [OF stops(2)] by blast
qed

end
