(* ===== verification/Database.thy ===== *)
theory Database
  imports Ftp
begin

text \<open>
  \<open>MySQL/Database.{h,cpp}\<close>: \<open>Field\<close>, \<open>QueryResult\<close> and \<open>Database\<close>, the wrapper of the MySQL
  client library, and the lines of the FTP protocol's \<open>PASS\<close> that use it.

  The client library is not part of the repository: the record \<open>mysql_api\<close> holds the functions
  that the code calls, over a type \<open>'c\<close> of connections and a type \<open>'r\<close> of result sets; a result
  set passed as NULL is \<open>None\<close>.  \<open>stored_results\<close> states what the library documents of a result
  set: its rows are fetched one by one from a position that \<open>mysql_data_seek\<close> moves.

  A \<open>char*\<close> that may be NULL is a \<open>string option\<close>.  A \<open>MYSQL_ROW\<close> is an array of such pointers,
  one for each field, and NULL after the last row.
\<close>

section \<open>The client library\<close>

record mysql_field =
  fi_name :: string
  fi_table :: string
  fi_db :: string
  fi_flags :: "32 word"

type_synonym mysql_row = "string option list"

record ('c, 'r) mysql_api =
  mysql_real_connect ::
    "'c \<Rightarrow> string option \<Rightarrow> string option \<Rightarrow> string option \<Rightarrow> string option \<Rightarrow> 32 word \<Rightarrow>
     string option \<Rightarrow> 64 word \<Rightarrow> bool \<times> 'c"
  mysql_query :: "'c \<Rightarrow> string \<Rightarrow> int \<times> 'c"
  mysql_store_result :: "'c \<Rightarrow> 'r option \<times> 'c"
  mysql_real_escape_string :: "'c \<Rightarrow> string \<Rightarrow> string"
  mysql_fetch_row :: "'r option \<Rightarrow> (mysql_row option \<times> 'r option) res"
  mysql_fetch_fields :: "'r option \<Rightarrow> mysql_field list res"
  mysql_num_rows :: "'r option \<Rightarrow> (64 word) res"
  mysql_num_fields :: "'r option \<Rightarrow> (32 word) res"
  mysql_data_seek :: "'r option \<Rightarrow> 64 word \<Rightarrow> ('r option) res"

record stored =
  st_rows :: "mysql_row list"
  st_fields :: "mysql_field list"
  st_pos :: nat

definition fetched :: "stored \<Rightarrow> mysql_row option \<times> stored" where
  "fetched s =
     (if st_pos s < length (st_rows s) then (Some (st_rows s ! st_pos s), s\<lparr>st_pos := Suc (st_pos s)\<rparr>)
      else (None, s))"

definition stored_results :: "('c, 'r) mysql_api \<Rightarrow> ('r \<Rightarrow> stored) \<Rightarrow> bool" where
  "stored_results api view \<longleftrightarrow>
     (\<forall>r. (\<exists>r'. mysql_fetch_row api (Some r) = Inr (fst (fetched (view r)), Some r') \<and>
                view r' = snd (fetched (view r))) \<and>
          mysql_fetch_fields api (Some r) = Inr (st_fields (view r)) \<and>
          mysql_num_rows api (Some r) = Inr (of_nat (length (st_rows (view r)))) \<and>
          mysql_num_fields api (Some r) = Inr (of_nat (length (st_fields (view r)))) \<and>
          (\<forall>k. \<exists>r'. mysql_data_seek api (Some r) k = Inr (Some r') \<and>
                view r' = (view r)\<lparr>st_pos := unat k\<rparr>))"

definition well_formed_result :: "stored \<Rightarrow> bool" where
  "well_formed_result s \<longleftrightarrow>
     length (st_rows s) < 2 ^ 64 \<and> length (st_fields s) < 2 ^ 32 \<and>
     list_all (\<lambda>row. length row = length (st_fields s)) (st_rows s)"

section \<open>The class Field\<close>

record field_data =
  fd_value :: "string option"
  fd_info :: mysql_field

definition SetStructureData :: "string option \<Rightarrow> mysql_field \<Rightarrow> field_data" where
  "SetStructureData v i = \<lparr>fd_value = v, fd_info = i\<rparr>"

definition GetString :: "field_data \<Rightarrow> string option" where
  "GetString f = fd_value f"

text \<open>\<open>atol\<close>: \<open>strtol\<close>, clamped to \<open>long\<close>.  Both read through the pointer.\<close>

definition atol :: "string \<Rightarrow> int" where
  "atol s = max (- (2 ^ 63)) (min (2 ^ 63 - 1) (signed_val (dropWhile is_space (c_str s))))"

definition through :: "field_data \<Rightarrow> (string \<Rightarrow> 'a) \<Rightarrow> 'a res" where
  "through f g = (case fd_value f of None \<Rightarrow> Inl NullPointer | Some s \<Rightarrow> Inr (g s))"

definition GetUInt8 :: "field_data \<Rightarrow> (8 word) res" where
  "GetUInt8 f = through f (\<lambda>s. word_of_int (atoi s))"

definition GetUInt16 :: "field_data \<Rightarrow> (16 word) res" where
  "GetUInt16 f = through f (\<lambda>s. word_of_int (atoi s))"

definition GetUInt32 :: "field_data \<Rightarrow> (32 word) res" where
  "GetUInt32 f = through f (\<lambda>s. word_of_int (atoi s))"

definition GetUInt64 :: "field_data \<Rightarrow> (64 word) res" where
  "GetUInt64 f = through f (\<lambda>s. word_of_int (atol s))"

definition GetChar :: "field_data \<Rightarrow> (8 word) res" where
  "GetChar f = through f (\<lambda>s. word_of_int (atoi s))"

definition GetShort :: "field_data \<Rightarrow> (16 word) res" where
  "GetShort f = through f (\<lambda>s. word_of_int (atoi s))"

definition GetInt :: "field_data \<Rightarrow> int res" where
  "GetInt f = through f atoi"

definition GetLong :: "field_data \<Rightarrow> int res" where
  "GetLong f = through f atol"

text \<open>The flag macros and constants of \<open>mysql.h\<close>, and the questions asked with them.\<close>

record mysql_flags =
  IS_NUM :: "32 word \<Rightarrow> bool"
  IS_BLOB :: "32 word \<Rightarrow> bool"
  NOT_NULL_FLAG :: "32 word"
  UNSIGNED_FLAG :: "32 word"
  PRI_KEY_FLAG :: "32 word"
  NO_DEFAULT_VALUE_FLAG :: "32 word"

definition has_flag :: "32 word \<Rightarrow> field_data \<Rightarrow> bool" where
  "has_flag k f \<longleftrightarrow> and (fi_flags (fd_info f)) k \<noteq> 0"

definition IsNumeric :: "mysql_flags \<Rightarrow> field_data \<Rightarrow> bool" where
  "IsNumeric m f = IS_NUM m (fi_flags (fd_info f))"

definition IsNotNull :: "mysql_flags \<Rightarrow> field_data \<Rightarrow> bool" where
  "IsNotNull m f = has_flag (NOT_NULL_FLAG m) f"

definition IsBlob :: "mysql_flags \<Rightarrow> field_data \<Rightarrow> bool" where
  "IsBlob m f = IS_BLOB m (fi_flags (fd_info f))"

definition IsUnsigned :: "mysql_flags \<Rightarrow> field_data \<Rightarrow> bool" where
  "IsUnsigned m f = has_flag (UNSIGNED_FLAG m) f"

definition IsPrimaryKey :: "mysql_flags \<Rightarrow> field_data \<Rightarrow> bool" where
  "IsPrimaryKey m f = has_flag (PRI_KEY_FLAG m) f"

definition HasDefaultValue :: "mysql_flags \<Rightarrow> field_data \<Rightarrow> bool" where
  "HasDefaultValue m f = has_flag (NO_DEFAULT_VALUE_FLAG m) f"

section \<open>The class QueryResult\<close>

text \<open>\<open>qr_current\<close> is the array that \<open>_currentRow\<close> points to; both pointers are NULL once freed.\<close>

record 'r query_result =
  qr_id :: "64 word"
  qr_num_rows :: "64 word"
  qr_num_fields :: "64 word"
  qr_result :: "'r option"
  qr_current :: "field_data list option"
  qr_fields :: "mysql_field list"

definition no_field :: field_data where
  "no_field = \<lparr>fd_value = None, fd_info = \<lparr>fi_name = [], fi_table = [], fi_db = [], fi_flags = 0\<rparr>\<rparr>"

definition array_at :: "'a list \<Rightarrow> nat \<Rightarrow> 'a res" where
  "array_at xs i = (if i < length xs then Inr (xs ! i) else Inl OutOfBounds)"

definition pointer_at :: "'a list option \<Rightarrow> nat \<Rightarrow> 'a res" where
  "pointer_at p i = (case p of None \<Rightarrow> Inl NullPointer | Some xs \<Rightarrow> array_at xs i)"

text \<open>The loop of \<open>FillFields\<close>, from \<open>i\<close> with \<open>n\<close> rounds left.\<close>

fun fill_loop ::
  "mysql_row option \<Rightarrow> mysql_field list \<Rightarrow> nat \<Rightarrow> nat \<Rightarrow> field_data list option \<Rightarrow>
   field_data list option res" where
  "fill_loop row infos i 0 cur = Inr cur"
| "fill_loop row infos i (Suc n) cur =
     rbind (pointer_at cur i) (\<lambda>_.
     rbind (pointer_at row i) (\<lambda>v.
     rbind (array_at infos i) (\<lambda>info.
       fill_loop row infos (Suc i) n
         (map_option (\<lambda>fs. fs[i := SetStructureData v info]) cur))))"

definition FillFields ::
  "mysql_row option \<Rightarrow> mysql_field list \<Rightarrow> 'r query_result \<Rightarrow> 'r query_result res" where
  "FillFields row infos q =
     rbind (fill_loop row infos 0 (unat (qr_num_fields q)) (qr_current q)) (\<lambda>cur.
       Inr (q\<lparr>qr_current := cur\<rparr>))"

definition QueryResult ::
  "('c, 'r) mysql_api \<Rightarrow> 'r option \<Rightarrow> mysql_row option \<Rightarrow> mysql_field list \<Rightarrow>
   'r query_result res" where
  "QueryResult api result row infos =
     rbind (mysql_num_rows api result) (\<lambda>rows.
     rbind (mysql_num_fields api result) (\<lambda>n.
       FillFields row infos
         \<lparr>qr_id = 0, qr_num_rows = rows, qr_num_fields = ucast n, qr_result = result,
          qr_current = Some (replicate (unat n) no_field), qr_fields = infos\<rparr>))"

definition free_result :: "'r query_result \<Rightarrow> 'r query_result" where
  "free_result q = q\<lparr>qr_result := None, qr_current := None\<rparr>"

definition NextRow ::
  "('c, 'r) mysql_api \<Rightarrow> 'r query_result \<Rightarrow> (bool \<times> 'r query_result) res" where
  "NextRow api q =
     (if qr_result q = None then Inr (False, q)
      else
        rbind (mysql_fetch_row api (qr_result q)) (\<lambda>(row, r).
          let q = q\<lparr>qr_result := r\<rparr>
          in if row = None then Inr (False, q)
             else
               rbind (FillFields row (qr_fields q) (q\<lparr>qr_id := qr_id q + 1\<rparr>)) (\<lambda>q. Inr (True, q))))"

definition TellRow :: "'r query_result \<Rightarrow> 32 word" where
  "TellRow q = ucast (qr_id q)"

definition SeekRow ::
  "('c, 'r) mysql_api \<Rightarrow> 64 word \<Rightarrow> 'r query_result \<Rightarrow> 'r query_result res" where
  "SeekRow api k q =
     (let q = q\<lparr>qr_id := k\<rparr>
      in rbind (mysql_data_seek api (qr_result q) k) (\<lambda>r.
         rbind (NextRow api (q\<lparr>qr_result := r\<rparr>)) (\<lambda>(_, q). Inr q)))"

definition GetRowsCount :: "'r query_result \<Rightarrow> 64 word" where
  "GetRowsCount q = qr_num_rows q"

definition GetFieldsCount :: "'r query_result \<Rightarrow> 32 word" where
  "GetFieldsCount q = ucast (qr_num_fields q)"

definition FetchFields :: "'r query_result \<Rightarrow> field_data list option" where
  "FetchFields q = qr_current q"

section \<open>The class Database\<close>

text \<open>
  \<open>db_closed\<close> tells that \<open>mysql_close\<close> has freed the connection object; the pointer to it stays.
\<close>

record 'c database =
  db_conn :: 'c
  db_closed :: bool
  db_connected :: bool
  db_host :: "string option"
  db_user :: "string option"
  db_name :: "string option"
  db_port :: "32 word"
  db_unix_socket :: "string option"
  db_client_flag :: "64 word"

text \<open>The argument is the connection object that \<open>mysql_init\<close> returns.\<close>

definition Database :: "'c \<Rightarrow> 'c database" where
  "Database c =
     \<lparr>db_conn = c, db_closed = False, db_connected = False, db_host = None, db_user = None,
      db_name = None, db_port = 0, db_unix_socket = None, db_client_flag = 0\<rparr>"

definition DuplicateString :: "string option \<Rightarrow> string option" where
  "DuplicateString p = map_option c_str p"

text \<open>A call of the library with the connection: the object must not have been freed.\<close>

definition on_conn :: "('c \<Rightarrow> 'a \<times> 'c) \<Rightarrow> 'c database \<Rightarrow> ('a \<times> 'c database) res" where
  "on_conn f d =
     (if db_closed d then Inl DoubleFree
      else (let (a, c) = f (db_conn d) in Inr (a, d\<lparr>db_conn := c\<rparr>)))"

definition db_Connect ::
  "('c, 'r) mysql_api \<Rightarrow> string option \<Rightarrow> string option \<Rightarrow> string option \<Rightarrow> string option \<Rightarrow>
   32 word \<Rightarrow> string option \<Rightarrow> 64 word \<Rightarrow> 'c database \<Rightarrow> (bool \<times> 'c database) res" where
  "db_Connect api host user passwd db port sockname flag d =
     (let d = d\<lparr>db_host := DuplicateString host, db_user := DuplicateString user,
                db_name := DuplicateString db, db_port := port,
                db_unix_socket := DuplicateString sockname, db_client_flag := flag\<rparr>
      in rbind (on_conn (\<lambda>c. mysql_real_connect api c (db_host d) (db_user d) passwd (db_name d)
                                port sockname flag) d)
           (\<lambda>(ok, d). Inr (ok, d\<lparr>db_connected := ok\<rparr>)))"

definition mysql_close :: "'c database \<Rightarrow> 'c database res" where
  "mysql_close d = (if db_closed d then Inl DoubleFree else Inr (d\<lparr>db_closed := True\<rparr>))"

definition db_Close :: "'c database \<Rightarrow> 'c database res" where
  "db_Close d = mysql_close (d\<lparr>db_connected := False\<rparr>)"

definition db_destroy :: "'c database \<Rightarrow> 'c database res" where
  "db_destroy d = mysql_close d"

definition db_Query ::
  "('c, 'r) mysql_api \<Rightarrow> string \<Rightarrow> 'c database \<Rightarrow> ('r query_result option \<times> 'c database) res" where
  "db_Query api stmt d =
     rbind (on_conn (\<lambda>c. mysql_query api c stmt) d) (\<lambda>(e, d).
       if e = 0 then
         rbind (on_conn (mysql_store_result api) d) (\<lambda>(result, d).
         rbind (mysql_fetch_fields api result) (\<lambda>infos.
         rbind (mysql_fetch_row api result) (\<lambda>(row, result).
         rbind (QueryResult api result row infos) (\<lambda>q. Inr (Some q, d)))))
       else Inr (None, d))"

text \<open>
  \<open>vsnprintf\<close> with the conversion \<open>%s\<close>, the only one that the callers use.  A conversion without
  an argument reads past the arguments.
\<close>

fun format_s :: "string \<Rightarrow> string list \<Rightarrow> string res" where
  "format_s [] args = Inr []"
| "format_s [c] args = Inr [c]"
| "format_s (c # d # fmt) args =
     (if c = CHR ''%'' \<and> d = CHR ''s'' then
        (case args of
           [] \<Rightarrow> Inl OutOfBounds
         | a # args' \<Rightarrow> rbind (format_s fmt args') (\<lambda>s. Inr (c_str a @ s)))
      else rbind (format_s (d # fmt) args) (\<lambda>s. Inr (c # s)))"

definition MAX_SQL_BUFFER :: nat where
  "MAX_SQL_BUFFER = 2048"

definition vsnprintf_s :: "string \<Rightarrow> string list \<Rightarrow> string res" where
  "vsnprintf_s fmt args =
     rbind (format_s fmt args) (\<lambda>s. Inr (take (MAX_SQL_BUFFER - 1) s))"

definition db_PQuery ::
  "('c, 'r) mysql_api \<Rightarrow> string \<Rightarrow> string list \<Rightarrow> 'c database \<Rightarrow>
   ('r query_result option \<times> 'c database) res" where
  "db_PQuery api stmt args d =
     rbind (vsnprintf_s stmt args) (\<lambda>sql.
     rbind (on_conn (\<lambda>c. mysql_query api c sql) d) (\<lambda>(e, d).
       if e = 0 then
         rbind (on_conn (mysql_store_result api) d) (\<lambda>(result, d).
         rbind (mysql_fetch_row api result) (\<lambda>(row, result).
         rbind (mysql_fetch_fields api result) (\<lambda>infos.
           if row = None then Inr (None, d)
           else rbind (QueryResult api result row infos) (\<lambda>q. Inr (Some q, d)))))
       else Inr (None, d)))"

definition db_Execute :: "('c, 'r) mysql_api \<Rightarrow> string \<Rightarrow> 'c database \<Rightarrow> (bool \<times> 'c database) res" where
  "db_Execute api stmt d =
     rbind (on_conn (\<lambda>c. mysql_query api c stmt) d) (\<lambda>(e, d). Inr (e = 0, d))"

definition db_PExecute ::
  "('c, 'r) mysql_api \<Rightarrow> string \<Rightarrow> string list \<Rightarrow> 'c database \<Rightarrow> (bool \<times> 'c database) res" where
  "db_PExecute api stmt args d =
     rbind (vsnprintf_s stmt args) (\<lambda>sql. db_Execute api sql d)"

text \<open>\<open>EscapeString\<close>: the library writes the escaped text and its NUL into the new array.\<close>

definition EscapeString :: "('c, 'r) mysql_api \<Rightarrow> string \<Rightarrow> 'c database \<Rightarrow> string res" where
  "EscapeString api input d =
     (if db_closed d then Inl DoubleFree
      else
        (let n = length (c_str input); esc = mysql_real_escape_string api (db_conn d) (c_str input)
         in if length esc + 1 \<le> n * 2 + 1 then Inr (c_str esc) else Inl OutOfBounds))"

section \<open>The FTP protocol: connecting at load, and the login query\<close>

text \<open>
  The part of \<open>Init\<close> that connects: the flag tells that \<open>app->Terminate\<close> is called.  (The
  argument \<open>c\<close> is the object that \<open>mysql_init\<close> returns.)
\<close>

definition ftp_open_database ::
  "('c, 'r) mysql_api \<Rightarrow> ftp_config \<Rightarrow> 'c \<Rightarrow> (bool \<times> 'c database) res" where
  "ftp_open_database api cfg c =
     (let d = Database c
      in if cfg_use_db_auth cfg then
           rbind (db_Connect api (Some (c_str (cfg_db_host cfg))) (Some (c_str (cfg_db_user cfg)))
                    (Some (c_str (cfg_db_password cfg))) (Some (c_str (cfg_db_name cfg))) 0 None 0 d)
             (\<lambda>(_, d). Inr (\<not> db_connected d, d))
         else Inr (False, d))"

definition login_format :: string where
  "login_format =
     ''Select * from users where username = '' @ [quote] @ ''%s'' @ [quote] @
     '' and password = '' @ [quote] @ ''%s'' @ [quote]"

text \<open>
  The home directory of the row found, or \<open>None\<close> without a row.  The line of debug output reads
  the first and the fourth field whether it is shown or not; the home directory is a
  \<open>std::string\<close> made from the fourth.
\<close>

definition authenticate ::
  "('c, 'r) mysql_api \<Rightarrow> string \<Rightarrow> string \<Rightarrow> 'c database \<Rightarrow> (string option \<times> 'c database) res" where
  "authenticate api user pass d =
     rbind (EscapeString api (c_str user) d) (\<lambda>u.
     rbind (EscapeString api (c_str pass) d) (\<lambda>p.
     rbind (db_PQuery api login_format [u, p] d) (\<lambda>(result, d).
       case result of
         None \<Rightarrow> Inr (None, d)
       | Some q \<Rightarrow>
           rbind (pointer_at (FetchFields q) 0) (\<lambda>f0.
           rbind (GetUInt32 f0) (\<lambda>_.
           rbind (pointer_at (FetchFields q) 3) (\<lambda>f3.
             case GetString f3 of
               None \<Rightarrow> Inl NullPointer
             | Some home \<Rightarrow> Inr (Some (c_str home), d)))))))"

end
