(* ===== verification/DatabaseProps.thy ===== *)
theory DatabaseProps
  imports Database FtpCommands
begin

text \<open>
  Properties of the database wrapper: the rows of a result are shown one by one and in order
  (\<open>rows_read_in_order\<close>), the row number after \<open>SeekRow\<close>, results without rows, numbers read
  from fields, and the login of the FTP protocol over the database (\<open>database_login\<close>,
  \<open>password_cut_off\<close>).
\<close>

section \<open>Filling the fields of a row\<close>

definition row_fields :: "stored \<Rightarrow> mysql_row \<Rightarrow> field_data list" where
  "row_fields s row = map2 SetStructureData row (st_fields s)"

lemma fill_loop_ok:
  assumes "length vs = length fs" and "length cur = length fs" and "i + n = length fs"
  shows "fill_loop (Some vs) fs i n (Some cur)
       = Inr (Some (take i cur @ map2 SetStructureData (drop i vs) (drop i fs)))"
  using assms
proof (induction n arbitrary: i cur)
  case (Suc n)
  then have i: "i < length fs" by simp
  have eq: "drop i vs = vs ! i # drop (Suc i) vs" "drop i fs = fs ! i # drop (Suc i) fs"
    using i Suc.prems(1) by (simp_all add: Cons_nth_drop_Suc)
  show ?case
    using i Suc.prems by (simp add: Suc.IH pointer_at_def array_at_def eq take_Suc_conv_app_nth)
qed simp

lemma FillFields_ok:
  assumes "length vs = length (qr_fields q)" and "qr_current q = Some cur"
    and "length cur = length (qr_fields q)" and "unat (qr_num_fields q) = length (qr_fields q)"
  shows "FillFields (Some vs) (qr_fields q) q
       = Inr (q\<lparr>qr_current := Some (map2 SetStructureData vs (qr_fields q))\<rparr>)"
  using assms fill_loop_ok [of vs "qr_fields q" cur 0 "length (qr_fields q)"]
  by (simp add: FillFields_def)

section \<open>Moving over the rows\<close>

text \<open>\<open>q\<close> shows row \<open>k\<close> of the stored result \<open>s\<close>, and the library's position is behind it.\<close>

definition at_row :: "('r \<Rightarrow> stored) \<Rightarrow> stored \<Rightarrow> nat \<Rightarrow> 'r query_result \<Rightarrow> bool" where
  "at_row view s k q \<longleftrightarrow>
     (\<exists>r. qr_result q = Some r \<and> view r = s\<lparr>st_pos := Suc k\<rparr>) \<and> k < length (st_rows s) \<and>
     qr_current q = Some (row_fields s (st_rows s ! k)) \<and> qr_fields q = st_fields s \<and>
     unat (qr_num_fields q) = length (st_fields s)"

lemma row_length:
  "well_formed_result s \<Longrightarrow> k < length (st_rows s) \<Longrightarrow> length (st_rows s ! k) = length (st_fields s)"
  by (simp add: well_formed_result_def list_all_length)

lemma fetch_law:
  assumes "stored_results api view"
  obtains r' where "mysql_fetch_row api (Some r) = Inr (fst (fetched (view r)), Some r')"
    and "view r' = snd (fetched (view r))"
  using assms unfolding stored_results_def by blast

lemma NextRow_fetched:
  assumes laws: "stored_results api view" and wf: "well_formed_result s"
    and r: "qr_result q = Some r" and v: "view r = s\<lparr>st_pos := p\<rparr>"
    and cur: "qr_current q = Some cur" "length cur = length (st_fields s)"
    and f: "qr_fields q = st_fields s" and n: "unat (qr_num_fields q) = length (st_fields s)"
  shows "p < length (st_rows s) \<Longrightarrow>
           \<exists>q'. NextRow api q = Inr (True, q') \<and> at_row view s p q' \<and> qr_id q' = qr_id q + 1"
    and "\<not> p < length (st_rows s) \<Longrightarrow>
           \<exists>r'. NextRow api q = Inr (False, q\<lparr>qr_result := Some r'\<rparr>) \<and> view r' = view r"
proof -
  obtain r' where fr: "mysql_fetch_row api (Some r) = Inr (fst (fetched (view r)), Some r')"
    and v': "view r' = snd (fetched (view r))"
    using fetch_law [OF laws] .
  {
    assume p: "p < length (st_rows s)"
    let ?q = "q\<lparr>qr_result := Some r', qr_id := qr_id q + 1\<rparr>"
    have "FillFields (Some (st_rows s ! p)) (qr_fields ?q) ?q
        = Inr (?q\<lparr>qr_current := Some (map2 SetStructureData (st_rows s ! p) (qr_fields ?q))\<rparr>)"
      using cur f n row_length [OF wf p] by (intro FillFields_ok) simp_all
    then show "\<exists>q'. NextRow api q = Inr (True, q') \<and> at_row view s p q' \<and> qr_id q' = qr_id q + 1"
      using r fr v v' p f n
      by (simp add: NextRow_def fetched_def at_row_def row_fields_def)
  next
    assume "\<not> p < length (st_rows s)"
    then show "\<exists>r'. NextRow api q = Inr (False, q\<lparr>qr_result := Some r'\<rparr>) \<and> view r' = view r"
      using r fr v v' by (intro exI [of _ r']) (simp add: NextRow_def fetched_def)
  }
qed

lemma row_fields_length [simp]:
  "length row = length (st_fields s) \<Longrightarrow> length (row_fields s row) = length (st_fields s)"
  by (simp add: row_fields_def)

lemma NextRow_at:
  assumes laws: "stored_results api view" and wf: "well_formed_result s" and at: "at_row view s k q"
  shows "Suc k < length (st_rows s) \<Longrightarrow>
           \<exists>q'. NextRow api q = Inr (True, q') \<and> at_row view s (Suc k) q' \<and> qr_id q' = qr_id q + 1"
    and "\<not> Suc k < length (st_rows s) \<Longrightarrow>
           \<exists>q'. NextRow api q = Inr (False, q') \<and> at_row view s k q' \<and> qr_id q' = qr_id q"
proof -
  obtain r where r: "qr_result q = Some r" "view r = s\<lparr>st_pos := Suc k\<rparr>"
    using at by (auto simp: at_row_def)
  have k: "k < length (st_rows s)" using at by (simp add: at_row_def)
  note step = NextRow_fetched [OF laws wf r, of "row_fields s (st_rows s ! k)"]
  show "Suc k < length (st_rows s) \<Longrightarrow>
           \<exists>q'. NextRow api q = Inr (True, q') \<and> at_row view s (Suc k) q' \<and> qr_id q' = qr_id q + 1"
    using step(1) at row_length [OF wf k] by (simp add: at_row_def)
  show "\<not> Suc k < length (st_rows s) \<Longrightarrow>
           \<exists>q'. NextRow api q = Inr (False, q') \<and> at_row view s k q' \<and> qr_id q' = qr_id q"
    using step(2) at row_length [OF wf k] r(2) by (auto simp: at_row_def)
qed

section \<open>Executing a query\<close>

lemma QueryResult_ok:
  assumes laws: "stored_results api view" and wf: "well_formed_result s"
    and v: "view r = s\<lparr>st_pos := 1\<rparr>" and rows: "st_rows s \<noteq> []"
  shows "\<exists>q. QueryResult api (Some r) (Some (st_rows s ! 0)) (st_fields s) = Inr q
           \<and> at_row view s 0 q \<and> qr_id q = 0"
proof -
  have nums: "mysql_num_rows api (Some r) = Inr (of_nat (length (st_rows s)))"
    "mysql_num_fields api (Some r) = Inr (of_nat (length (st_fields s)))"
    using laws v by (simp_all add: stored_results_def)
  have n32: "unat (of_nat (length (st_fields s)) :: 32 word) = length (st_fields s)"
    using wf by (simp add: well_formed_result_def unsigned_of_nat take_bit_nat_eq_self)
  then have n64: "unat (ucast (of_nat (length (st_fields s)) :: 32 word) :: 64 word)
      = length (st_fields s)"
    using wf by (simp add: unsigned_ucast_eq take_bit_nat_eq_self well_formed_result_def)
  let ?q = "\<lparr>qr_id = 0, qr_num_rows = of_nat (length (st_rows s)),
      qr_num_fields = ucast (of_nat (length (st_fields s)) :: 32 word), qr_result = Some r,
      qr_current = Some (replicate (length (st_fields s)) no_field), qr_fields = st_fields s\<rparr>"
  have "FillFields (Some (st_rows s ! 0)) (qr_fields ?q) ?q
      = Inr (?q\<lparr>qr_current := Some (map2 SetStructureData (st_rows s ! 0) (qr_fields ?q))\<rparr>)"
    using row_length [OF wf, of 0] rows n64
    by (intro FillFields_ok [where cur = "replicate (length (st_fields s)) no_field"]) simp_all
  then show ?thesis
    using v rows n64 by (simp add: QueryResult_def nums n32 at_row_def row_fields_def)
qed

text \<open>A statement that the server accepts and whose result the library stores.\<close>

definition stores ::
  "('c, 'r) mysql_api \<Rightarrow> 'c \<Rightarrow> string \<Rightarrow> 'r \<Rightarrow> 'c \<Rightarrow> bool" where
  "stores api c stmt r c' \<longleftrightarrow>
     fst (mysql_query api c stmt) = 0 \<and>
     mysql_store_result api (snd (mysql_query api c stmt)) = (Some r, c')"

lemma on_conn_query:
  assumes "stores api (db_conn d) stmt r c'" and "\<not> db_closed d"
  shows "on_conn (\<lambda>c. mysql_query api c stmt) d
       = Inr (0, d\<lparr>db_conn := snd (mysql_query api (db_conn d) stmt)\<rparr>)"
    and "on_conn (mysql_store_result api) (d\<lparr>db_conn := snd (mysql_query api (db_conn d) stmt)\<rparr>)
       = Inr (Some r, d\<lparr>db_conn := c'\<rparr>)"
  using assms by (auto simp: on_conn_def stores_def split: prod.splits)

lemma db_Query_ok:
  assumes laws: "stored_results api view" and wf: "well_formed_result (view r)"
    and pos: "st_pos (view r) = 0" and rows: "st_rows (view r) \<noteq> []"
    and st: "stores api (db_conn d) stmt r c'" and open_conn: "\<not> db_closed d"
  shows "\<exists>q. db_Query api stmt d = Inr (Some q, d\<lparr>db_conn := c'\<rparr>)
           \<and> at_row view (view r) 0 q \<and> qr_id q = 0"
proof -
  obtain r' where fr: "mysql_fetch_row api (Some r) = Inr (fst (fetched (view r)), Some r')"
    and v': "view r' = snd (fetched (view r))"
    using fetch_law [OF laws] .
  have fetched: "fetched (view r) = (Some (st_rows (view r) ! 0), (view r)\<lparr>st_pos := 1\<rparr>)"
    using rows pos by (simp add: fetched_def)
  have fs: "mysql_fetch_fields api (Some r) = Inr (st_fields (view r))"
    using laws by (simp add: stored_results_def)
  obtain q where "QueryResult api (Some r') (Some (st_rows (view r) ! 0)) (st_fields (view r)) = Inr q"
      "at_row view (view r) 0 q" "qr_id q = 0"
    using QueryResult_ok [OF laws wf _ rows, of r'] v' fetched by auto
  then show ?thesis
    using on_conn_query [OF st open_conn] fs fr fetched by (simp add: db_Query_def)
qed

section \<open>Reading all rows\<close>

text \<open>
  The loop over a result, \<open>do { use FetchFields(); } while (NextRow());\<close>, with at most \<open>n + 1\<close>
  rounds: the rows it sees.
\<close>

fun read_rows ::
  "('c, 'r) mysql_api \<Rightarrow> nat \<Rightarrow> 'r query_result \<Rightarrow>
   (field_data list option list \<times> 'r query_result) res" where
  "read_rows api 0 q = Inr ([FetchFields q], q)"
| "read_rows api (Suc n) q =
     rbind (NextRow api q) (\<lambda>(more, q').
       if more then rbind (read_rows api n q') (\<lambda>(seen, q''). Inr (FetchFields q # seen, q''))
       else Inr ([FetchFields q], q'))"

lemma read_rows_from:
  assumes laws: "stored_results api view" and wf: "well_formed_result s"
    and "at_row view s k q" and "length (st_rows s) \<le> k + n" and "qr_id q = of_nat k"
  shows "\<exists>q'. read_rows api n q = Inr (map (\<lambda>row. Some (row_fields s row)) (drop k (st_rows s)), q')
           \<and> qr_id q' = of_nat (length (st_rows s) - 1)"
  using assms(3-5)
proof (induction n arbitrary: k q)
  case 0
  then show ?case by (simp add: at_row_def)
next
  case (Suc n)
  have k: "k < length (st_rows s)" and shown: "FetchFields q = Some (row_fields s (st_rows s ! k))"
    using Suc.prems(1) by (simp_all add: at_row_def FetchFields_def)
  have split: "drop k (st_rows s) = st_rows s ! k # drop (Suc k) (st_rows s)"
    using k by (simp add: Cons_nth_drop_Suc)
  show ?case
  proof (cases "Suc k < length (st_rows s)")
    case True
    then obtain q' where q': "NextRow api q = Inr (True, q')" "at_row view s (Suc k) q'"
        "qr_id q' = qr_id q + 1"
      using NextRow_at(1) [OF laws wf Suc.prems(1)] by blast
    moreover have "length (st_rows s) \<le> Suc k + n" "qr_id q' = of_nat (Suc k)"
      using Suc.prems(2,3) q'(3) by simp_all
    ultimately show ?thesis using Suc.IH [of "Suc k" q'] split shown by auto
  next
    case False
    then obtain q' where q': "NextRow api q = Inr (False, q')" "qr_id q' = qr_id q"
      using NextRow_at(2) [OF laws wf Suc.prems(1)] by blast
    moreover have "length (st_rows s) - 1 = k" using False k by simp
    moreover have "drop (Suc k) (st_rows s) = []" using False by simp
    ultimately show ?thesis using split shown Suc.prems(3) by simp
  qed
qed

lemma SeekRow_at:
  assumes laws: "stored_results api view" and wf: "well_formed_result s" and at: "at_row view s j q"
    and k: "unat k < length (st_rows s)"
  shows "\<exists>q'. SeekRow api k q = Inr q' \<and> at_row view s (unat k) q' \<and> qr_id q' = k + 1"
proof -
  obtain r where r: "qr_result q = Some r" "view r = s\<lparr>st_pos := Suc j\<rparr>"
    using at by (auto simp: at_row_def)
  obtain r' where sk: "mysql_data_seek api (Some r) k = Inr (Some r')"
    and v': "view r' = s\<lparr>st_pos := unat k\<rparr>"
    using laws r(2) unfolding stored_results_def by (metis stored.update_convs(3) stored.surjective)
  let ?q = "q\<lparr>qr_id := k, qr_result := Some r'\<rparr>"
  have j: "j < length (st_rows s)" using at by (simp add: at_row_def)
  obtain q' where "NextRow api ?q = Inr (True, q')" "at_row view s (unat k) q'" "qr_id q' = k + 1"
    using NextRow_fetched(1) [OF laws wf, of ?q r' "unat k" "row_fields s (st_rows s ! j)"]
      at v' k row_length [OF wf j] by (auto simp: at_row_def)
  then show ?thesis using r sk by (simp add: SeekRow_def)
qed

section \<open>A library with one stored result\<close>

text \<open>A concrete library for the witnesses: a connection holds the result of the next statement.\<close>

definition sample_api :: "(stored option, stored) mysql_api" where
  "sample_api =
     \<lparr>mysql_real_connect = (\<lambda>c _ _ _ _ _ _ _. (True, c)),
      mysql_query = (\<lambda>c _. (if c = None then 1 else 0, c)),
      mysql_store_result = (\<lambda>c. (c, c)),
      mysql_real_escape_string = (\<lambda>_ s. s),
      mysql_fetch_row = (\<lambda>r. case r of None \<Rightarrow> Inl NullPointer
                              | Some s \<Rightarrow> Inr (fst (fetched s), Some (snd (fetched s)))),
      mysql_fetch_fields = (\<lambda>r. case r of None \<Rightarrow> Inl NullPointer | Some s \<Rightarrow> Inr (st_fields s)),
      mysql_num_rows = (\<lambda>r. case r of None \<Rightarrow> Inl NullPointer
                             | Some s \<Rightarrow> Inr (of_nat (length (st_rows s)))),
      mysql_num_fields = (\<lambda>r. case r of None \<Rightarrow> Inl NullPointer
                               | Some s \<Rightarrow> Inr (of_nat (length (st_fields s)))),
      mysql_data_seek = (\<lambda>r k. case r of None \<Rightarrow> Inl NullPointer
                                | Some s \<Rightarrow> Inr (Some (s\<lparr>st_pos := unat k\<rparr>)))\<rparr>"

lemma sample_api_laws: "stored_results sample_api (\<lambda>s. s)"
  by (simp add: stored_results_def sample_api_def)

definition sample_column :: "string \<Rightarrow> mysql_field" where
  "sample_column name = \<lparr>fi_name = name, fi_table = ''users'', fi_db = ''ikaros'', fi_flags = 0\<rparr>"

definition sample_users :: stored where
  "sample_users =
     \<lparr>st_rows = [[Some ''1'', Some ''bob'', Some ''pw'', Some ''/home/bob''],
                 [Some ''2'', Some ''bob'', Some ''pw'', None]],
      st_fields = map sample_column [''id'', ''username'', ''password'', ''home''],
      st_pos = 0\<rparr>"

lemma sample_users_facts:
  "well_formed_result sample_users" "st_pos sample_users = 0" "st_rows sample_users \<noteq> []"
  by (simp_all add: sample_users_def well_formed_result_def)

lemma sample_stores: "stores sample_api (Some s) stmt s (Some s)"
  by (simp add: stores_def sample_api_def)

section \<open>Properties of the results\<close>

text \<open>
  The reading loop over the result of a statement ends and sees exactly the rows that the
  server returned, each once and in their order, and leaves the number of the last row; the bound
  on the rounds does not matter once it covers the rows.
\<close>

theorem rows_read_in_order:
  assumes "stored_results api view" and "well_formed_result (view r)" and "st_pos (view r) = 0"
    and "st_rows (view r) \<noteq> []" and "stores api (db_conn d) stmt r c'" and "\<not> db_closed d"
    and "length (st_rows (view r)) \<le> n"
  shows "\<exists>q d' q'. db_Query api stmt d = Inr (Some q, d') \<and>
     read_rows api n q = Inr (map (\<lambda>row. Some (row_fields (view r) row)) (st_rows (view r)), q') \<and>
     TellRow q' = ucast (of_nat (length (st_rows (view r)) - 1) :: 64 word)"
proof -
  obtain q where q: "db_Query api stmt d = Inr (Some q, d\<lparr>db_conn := c'\<rparr>)"
      "at_row view (view r) 0 q" "qr_id q = 0"
    using db_Query_ok [OF assms(1-6)] by blast
  obtain q' where "read_rows api n q
        = Inr (map (\<lambda>row. Some (row_fields (view r) row)) (drop 0 (st_rows (view r))), q')"
      "qr_id q' = of_nat (length (st_rows (view r)) - 1)"
    using read_rows_from [OF assms(1,2) q(2), of n] assms(7) q(3) by auto
  then show ?thesis using q(1) by (simp add: TellRow_def)
qed

theorem rows_read_in_order_witness:
  "\<exists>q d' q'. db_Query sample_api ''select'' (Database (Some sample_users)) = Inr (Some q, d') \<and>
     read_rows sample_api 2 q
       = Inr (map (\<lambda>row. Some (row_fields sample_users row)) (st_rows sample_users), q') \<and>
     TellRow q' = ucast (of_nat (length (st_rows sample_users) - 1) :: 64 word)"
  by (rule rows_read_in_order [OF sample_api_laws sample_users_facts, where c' = "Some sample_users"])
    (simp_all add: Database_def sample_stores, simp add: sample_users_def)

text \<open>
  \<open>SeekRow\<close> shows the row asked for but counts it twice: the row number is one more than the
  one that the reading loop leaves for the same row.
\<close>

theorem seek_counts_twice:
  assumes "stored_results api view" and "well_formed_result (view r)" and "st_pos (view r) = 0"
    and "stores api (db_conn d) stmt r c'" and "\<not> db_closed d"
    and "unat k < length (st_rows (view r))"
  shows "\<exists>q d' q'. db_Query api stmt d = Inr (Some q, d') \<and> SeekRow api k q = Inr q' \<and>
     FetchFields q' = Some (row_fields (view r) (st_rows (view r) ! unat k)) \<and>
     TellRow q' = ucast (k + 1)"
proof -
  have "st_rows (view r) \<noteq> []" using assms(6) by auto
  then obtain q where q: "db_Query api stmt d = Inr (Some q, d\<lparr>db_conn := c'\<rparr>)"
      "at_row view (view r) 0 q"
    using db_Query_ok [OF assms(1-3) _ assms(4,5)] by blast
  then show ?thesis
    using SeekRow_at [OF assms(1,2) q(2) assms(6)]
    by (auto simp: at_row_def FetchFields_def TellRow_def)
qed

theorem seek_counts_twice_witness:
  "\<exists>q d' q'. db_Query sample_api ''select'' (Database (Some sample_users)) = Inr (Some q, d') \<and>
     SeekRow sample_api 1 q = Inr q' \<and>
     FetchFields q' = Some (row_fields sample_users (st_rows sample_users ! unat (1 :: 64 word))) \<and>
     TellRow q' = ucast ((1 :: 64 word) + 1)"
  by (rule seek_counts_twice [OF sample_api_laws sample_users_facts(1,2), where c' = "Some sample_users"])
    (simp_all add: Database_def sample_stores, simp add: sample_users_def)

text \<open>
  A statement that finds no row: \<open>PQuery\<close> returns NULL, \<open>Query\<close> reads the row through NULL.
\<close>

theorem query_without_rows:
  assumes laws: "stored_results api view" and "well_formed_result (view r)"
    and rows: "st_rows (view r) = []" and cols: "st_fields (view r) \<noteq> []"
    and st: "stores api (db_conn d) stmt r c'" and op: "\<not> db_closed d"
    and short: "vsnprintf_s fmt args = Inr stmt"
  shows "db_Query api stmt d = Inl NullPointer \<and>
     db_PQuery api fmt args d = Inr (None, d\<lparr>db_conn := c'\<rparr>)"
proof -
  obtain r' where fr: "mysql_fetch_row api (Some r) = Inr (None, Some r')" and v': "view r' = view r"
    using fetch_law [OF laws, of r] rows by (auto simp: fetched_def)
  have nums: "mysql_num_rows api (Some r') = Inr 0"
    "mysql_num_fields api (Some r') = Inr (of_nat (length (st_fields (view r))))"
    "mysql_fetch_fields api (Some r) = Inr (st_fields (view r))"
    "mysql_fetch_fields api (Some r') = Inr (st_fields (view r))"
    using laws v' rows by (simp_all add: stored_results_def)
  have n: "unat (of_nat (length (st_fields (view r))) :: 32 word) = length (st_fields (view r))"
    "unat (ucast (of_nat (length (st_fields (view r))) :: 32 word) :: 64 word)
      = length (st_fields (view r))"
    using assms(2)
    by (simp_all add: unsigned_ucast_eq unsigned_of_nat take_bit_nat_eq_self well_formed_result_def)
  obtain m where m: "length (st_fields (view r)) = Suc m" using cols by (cases "st_fields (view r)") auto
  show ?thesis
    using on_conn_query [OF st op] fr nums n short m
    by (simp add: db_Query_def db_PQuery_def QueryResult_def FillFields_def pointer_at_def array_at_def)
qed

theorem query_without_rows_witness:
  "db_Query sample_api ''select'' (Database (Some (sample_users\<lparr>st_rows := []\<rparr>))) = Inl NullPointer \<and>
   db_PQuery sample_api ''select'' [] (Database (Some (sample_users\<lparr>st_rows := []\<rparr>)))
     = Inr (None, (Database (Some (sample_users\<lparr>st_rows := []\<rparr>)))
                    \<lparr>db_conn := Some (sample_users\<lparr>st_rows := []\<rparr>)\<rparr>)"
  by (rule query_without_rows [OF sample_api_laws, where r = "sample_users\<lparr>st_rows := []\<rparr>"])
    (simp_all add: Database_def sample_stores well_formed_result_def sample_users_def vsnprintf_s_def
      MAX_SQL_BUFFER_def)

section \<open>Numbers\<close>

lemma digits_as_c_string: "dropWhile is_space (c_str (nat_dec n)) = nat_dec n"
proof -
  have "nul \<notin> set (nat_dec n)"
    using nat_dec_digits [of nul n] by (auto simp: is_digit_def less_eq_char_def)
  then have "c_str (nat_dec n) = nat_dec n" by (rule c_str_name)
  moreover have "dropWhile is_space (nat_dec n) = nat_dec n"
    using dropWhile_head [of "nat_dec n" is_space] hd_nat_dec_digit [of n]
    by (simp add: is_digit_not_space)
  ultimately show ?thesis by simp
qed

lemma atol_nat_dec: "atol (nat_dec n) = min (2 ^ 63 - 1) (int n)"
  using signed_val_nat_dec [of "[]" n] by (simp add: atol_def digits_as_c_string)

lemma atoi_atol: "atoi s = sint (word_of_int (atol s) :: 32 word)"
  by (simp add: atoi_def atol_def)

text \<open>
  A field with the decimal digits of an unsigned number: \<open>GetUInt32\<close> gives back every 32-bit
  number although it goes through \<open>atoi\<close>, the narrower ones their remainder, and \<open>GetUInt64\<close> at
  most \<open>2 ^ 63 - 1\<close>.
\<close>

theorem numbers_read:
  assumes "fd_value f = Some (nat_dec n)" and "n < 2 ^ 64"
  shows "GetUInt64 f = Inr (of_nat (min (2 ^ 63 - 1) n)) \<and>
     (n < 2 ^ 63 \<longrightarrow> GetUInt32 f = Inr (of_nat n) \<and> GetUInt16 f = Inr (of_nat n) \<and>
        GetUInt8 f = Inr (of_nat n))"
proof -
  have "word_of_int (atol (nat_dec n)) = (of_nat (min (2 ^ 63 - 1) n) :: 64 word)"
    by (simp add: atol_nat_dec min_def)
  then have u64: "GetUInt64 f = Inr (of_nat (min (2 ^ 63 - 1) n))"
    using assms by (simp add: GetUInt64_def through_def)
  have small: "n < 2 ^ 63 \<Longrightarrow> atoi (nat_dec n) = sint (of_nat n :: 32 word)"
    by (simp add: atoi_atol atol_nat_dec min_absorb2)
  have down: "(scast (of_nat n :: 32 word) :: 16 word) = of_nat n"
    "(scast (of_nat n :: 32 word) :: 8 word) = of_nat n"
    by (simp_all add: bit_eq_iff bit_simps)
  show ?thesis
    using u64 assms small down
    by (simp add: GetUInt32_def GetUInt16_def GetUInt8_def through_def)
qed

section \<open>Closing\<close>

text \<open>\<open>Close\<close> frees the connection that the destructor frees again.\<close>

lemma closed_then_destroyed:
  "rbind (db_Close d) db_destroy = Inl DoubleFree"
  by (simp add: db_Close_def db_destroy_def mysql_close_def)

section \<open>Connecting at load\<close>

lemma c_str_idem [simp]: "c_str (c_str s) = c_str s"
  by (simp add: c_str_def)

text \<open>
  The server is stopped exactly when the login uses the database and the connection is refused;
  otherwise the wrapper is open, and connected if the database is used.
\<close>

lemma database_opened:
  "\<exists>stop d. ftp_open_database api cfg c = Inr (stop, d) \<and> \<not> db_closed d \<and>
     (db_connected d \<longleftrightarrow> cfg_use_db_auth cfg \<and> \<not> stop) \<and>
     (stop \<longrightarrow> \<not> fst (mysql_real_connect api c (Some (c_str (cfg_db_host cfg)))
        (Some (c_str (cfg_db_user cfg))) (Some (c_str (cfg_db_password cfg)))
        (Some (c_str (cfg_db_name cfg))) 0 None 0))"
  by (cases "mysql_real_connect api c (Some (c_str (cfg_db_host cfg)))
        (Some (c_str (cfg_db_user cfg))) (Some (c_str (cfg_db_password cfg)))
        (Some (c_str (cfg_db_name cfg))) 0 None 0")
    (auto simp: ftp_open_database_def db_Connect_def on_conn_def Database_def DuplicateString_def Let_def)

section \<open>The login\<close>

definition login_prefix :: string where
  "login_prefix = ''Select * from users where username = '' @ [quote]"

definition login_middle :: string where
  "login_middle = [quote] @ '' and password = '' @ [quote]"

lemma format_s_Cons:
  "c \<noteq> CHR ''%'' \<Longrightarrow> format_s (c # fmt) args = rbind (format_s fmt args) (\<lambda>s. Inr (c # s))"
  by (cases fmt) simp_all

lemma format_s_arg:
  "format_s (CHR ''%'' # CHR ''s'' # fmt) (a # args)
     = rbind (format_s fmt args) (\<lambda>s. Inr (c_str a @ s))"
  by simp

lemma login_statement:
  "vsnprintf_s login_format [u, p]
     = Inr (take 2047 (login_prefix @ c_str u @ login_middle @ c_str p @ [quote]))"
  by (simp add: vsnprintf_s_def login_format_def login_prefix_def login_middle_def quote_def
      format_s_Cons format_s_arg MAX_SQL_BUFFER_def del: format_s.simps(3))

text \<open>What the library documents of escaping: a text at most doubles.\<close>

definition escape_fits :: "('c, 'r) mysql_api \<Rightarrow> 'c \<Rightarrow> bool" where
  "escape_fits api c \<longleftrightarrow> (\<forall>s. length (mysql_real_escape_string api c s) \<le> 2 * length s)"

definition escaped :: "('c, 'r) mysql_api \<Rightarrow> 'c \<Rightarrow> string \<Rightarrow> string" where
  "escaped api c s = c_str (mysql_real_escape_string api c (c_str s))"

definition sent_login :: "string \<Rightarrow> string \<Rightarrow> string" where
  "sent_login u p = take 2047 (login_prefix @ u @ login_middle @ p @ [quote])"

lemma EscapeString_fits:
  "escape_fits api (db_conn d) \<Longrightarrow> \<not> db_closed d \<Longrightarrow>
   EscapeString api s d = Inr (escaped api (db_conn d) s)"
  by (simp add: EscapeString_def escape_fits_def escaped_def Let_def mult.commute)

lemma authenticate_query:
  assumes "escape_fits api (db_conn d)" and "\<not> db_closed d"
  shows "authenticate api user pass d =
    rbind (rbind (on_conn (\<lambda>c. mysql_query api c
        (sent_login (escaped api (db_conn d) user) (escaped api (db_conn d) pass))) d) (\<lambda>(e, d).
       if e = 0 then
         rbind (on_conn (mysql_store_result api) d) (\<lambda>(result, d).
         rbind (mysql_fetch_row api result) (\<lambda>(row, result).
         rbind (mysql_fetch_fields api result) (\<lambda>infos.
           if row = None then Inr (None, d)
           else rbind (QueryResult api result row infos) (\<lambda>q. Inr (Some q, d)))))
       else Inr (None, d))) (\<lambda>(result, d).
       case result of
         None \<Rightarrow> Inr (None, d)
       | Some q \<Rightarrow>
           rbind (pointer_at (FetchFields q) 0) (\<lambda>f0.
           rbind (GetUInt32 f0) (\<lambda>_.
           rbind (pointer_at (FetchFields q) 3) (\<lambda>f3.
             case GetString f3 of
               None \<Rightarrow> Inl NullPointer
             | Some home \<Rightarrow> Inr (Some (c_str home), d)))))"
  using assms
  by (simp add: authenticate_def EscapeString_fits db_PQuery_def login_statement sent_login_def)
    (simp add: escaped_def)

text \<open>
  A user name whose escaped text has 2008 characters cuts the password check off: the statement
  sent ends behind the name's closing quote, and every password gives the same answer.
\<close>

theorem password_cut_off:
  assumes "escape_fits api (db_conn d)" and "\<not> db_closed d"
    and "length (escaped api (db_conn d) user) = 2008"
  shows "sent_login (escaped api (db_conn d) user) p
       = login_prefix @ escaped api (db_conn d) user @ [quote]
     \<and> authenticate api user pass d = authenticate api user pass' d"
proof -
  have len: "length login_prefix = 38" by (simp add: login_prefix_def)
  have cut: "sent_login (escaped api (db_conn d) user) p
      = login_prefix @ escaped api (db_conn d) user @ [quote]" for p
    using assms(3) by (simp add: sent_login_def len login_middle_def)
  show ?thesis
    using cut by (simp add: authenticate_query [OF assms(1,2)])
qed

theorem password_cut_off_witness:
  "sent_login (escaped sample_api (Some sample_users) (replicate 2008 CHR ''a'')) ''x''
     = login_prefix @ escaped sample_api (Some sample_users) (replicate 2008 CHR ''a'') @ [quote]
   \<and> authenticate sample_api (replicate 2008 CHR ''a'') ''x'' (Database (Some sample_users))
     = authenticate sample_api (replicate 2008 CHR ''a'') ''y'' (Database (Some sample_users))"
proof -
  have "escape_fits sample_api (db_conn (Database (Some sample_users)))"
    by (simp add: escape_fits_def sample_api_def)
  moreover have "length (escaped sample_api (db_conn (Database (Some sample_users)))
      (replicate 2008 CHR ''a'')) = 2008"
    by (simp add: escaped_def sample_api_def c_str_def)
  moreover have "db_conn (Database (Some sample_users)) = Some sample_users"
    "\<not> db_closed (Database (Some sample_users))"
    by (simp_all add: Database_def)
  ultimately show ?thesis
    using password_cut_off [of sample_api "Database (Some sample_users)"
        "replicate 2008 CHR ''a''" "''x''" "''x''" "''y''"] by simp
qed

text \<open>The answer of the database as the FTP model asks for it.\<close>

definition db_answer ::
  "('c, 'r) mysql_api \<Rightarrow> 'c database \<Rightarrow> string \<Rightarrow> string \<Rightarrow> string option" where
  "db_answer api d user pass =
     (case authenticate api user pass d of Inl _ \<Rightarrow> None | Inr (home, _) \<Rightarrow> home)"

lemma authenticate_no_row:
  assumes laws: "stored_results api view" and fits: "escape_fits api (db_conn d)"
    and op: "\<not> db_closed d" and rows: "st_rows (view r) = []"
    and st: "stores api (db_conn d)
      (sent_login (escaped api (db_conn d) user) (escaped api (db_conn d) pass)) r c'"
  shows "authenticate api user pass d = Inr (None, d\<lparr>db_conn := c'\<rparr>)"
proof -
  obtain r' where fr: "mysql_fetch_row api (Some r) = Inr (None, Some r')"
    using fetch_law [OF laws, of r] rows by (auto simp: fetched_def)
  have "mysql_fetch_fields api (Some r') = Inr (st_fields (view r'))"
    using laws by (simp add: stored_results_def)
  then show ?thesis
    using on_conn_query [OF st op] fr by (simp add: authenticate_query [OF fits op])
qed

lemma row_fields_nth:
  "length row = length (st_fields s) \<Longrightarrow> i < length (st_fields s) \<Longrightarrow>
   row_fields s row ! i = SetStructureData (row ! i) (st_fields s ! i)"
  by (simp add: row_fields_def)

lemma authenticate_row:
  assumes laws: "stored_results api view" and fits: "escape_fits api (db_conn d)"
    and op: "\<not> db_closed d" and wf: "well_formed_result (view r)" and pos: "st_pos (view r) = 0"
    and rows: "st_rows (view r) = row # rest" and cols: "4 \<le> length (st_fields (view r))"
    and st: "stores api (db_conn d)
      (sent_login (escaped api (db_conn d) user) (escaped api (db_conn d) pass)) r c'"
    and vals: "row ! 0 \<noteq> None" "row ! 3 = Some home"
  shows "authenticate api user pass d = Inr (Some (c_str home), d\<lparr>db_conn := c'\<rparr>)"
proof -
  obtain r' where fr: "mysql_fetch_row api (Some r) = Inr (fst (fetched (view r)), Some r')"
    and v': "view r' = snd (fetched (view r))"
    using fetch_law [OF laws] .
  have f: "fetched (view r) = (Some row, (view r)\<lparr>st_pos := 1\<rparr>)"
    using rows pos by (simp add: fetched_def)
  have fs: "mysql_fetch_fields api (Some r') = Inr (st_fields (view r))"
    using laws v' f by (simp add: stored_results_def)
  obtain q where q: "QueryResult api (Some r') (Some row) (st_fields (view r)) = Inr q"
      "at_row view (view r) 0 q"
    using QueryResult_ok [OF laws wf, of r'] v' f rows by auto
  have len: "length row = length (st_fields (view r))"
    using row_length [OF wf, of 0] rows by simp
  have cur: "FetchFields q = Some (row_fields (view r) row)"
    using q(2) rows by (simp add: at_row_def FetchFields_def)
  have at: "pointer_at (FetchFields q) 0 = Inr (SetStructureData (row ! 0) (st_fields (view r) ! 0))"
    "pointer_at (FetchFields q) 3 = Inr (SetStructureData (row ! 3) (st_fields (view r) ! 3))"
    using cols len by (auto simp: cur pointer_at_def array_at_def row_fields_nth)
  obtain v where "row ! 0 = Some v" using vals(1) by blast
  then show ?thesis
    using on_conn_query [OF st op] fr f fs q(1) vals(2) at
    by (simp add: authenticate_query [OF fits op] GetUInt32_def through_def SetStructureData_def
        GetString_def)
qed

text \<open>
  C26. A login over the database: the session is logged in, with the home directory of the fourth
  column, when the server finds a row for the escaped name and password; without a row it is
  refused with 530.
\<close>

theorem database_login:
  assumes "stored_results api view" and "escape_fits api (db_conn d)" and "\<not> db_closed d"
    and "well_formed_result (view r)" and "st_pos (view r) = 0" and "4 \<le> length (st_fields (view r))"
    and "stores api (db_conn d) (sent_login (escaped api (db_conn d) (username s))
           (escaped api (db_conn d) (pass_text line))) r c'"
    and "list_all (\<lambda>row. row ! 0 \<noteq> None \<and> row ! 3 \<noteq> None) (st_rows (view r))"
    and "env_auth env = db_answer api d" and "cfg_use_db_auth cfg"
    and "loginPrompted s" and "lower (username s) \<noteq> ''anonymous''" and "pass_text line \<noteq> []"
  shows "ftp_pass cfg env so line s = Inr (case st_rows (view r) of
       [] \<Rightarrow> (s\<lparr>password := pass_text line, loginPrompted := False\<rparr>, SendCommandResponse so 530)
     | row # _ \<Rightarrow> (s\<lparr>password := pass_text line, homeDirectory := c_str (the (row ! 3)),
                     loginPrompted := False, loggedIn := True\<rparr>, SendCommandResponse so 230))"
proof (cases "st_rows (view r)")
  case Nil
  then have "db_answer api d (username s) (pass_text line) = None"
    using authenticate_no_row [OF assms(1-3) _ assms(7)] by (simp add: db_answer_def)
  then show ?thesis using Nil assms(9-13) by (simp add: ftp_pass_eq)
next
  case (Cons row rest)
  then obtain home where home: "row ! 0 \<noteq> None" "row ! 3 = Some home" using assms(8) by auto
  then have "db_answer api d (username s) (pass_text line) = Some (c_str home)"
    using authenticate_row [OF assms(1-5) Cons assms(6,7) home] by (simp add: db_answer_def)
  then show ?thesis using Cons home(2) assms(9-13) by (simp add: ftp_pass_eq)
qed

definition sample_row :: stored where
  "sample_row = sample_users\<lparr>st_rows := [hd (st_rows sample_users)]\<rparr>"

definition sample_db :: "stored option database" where
  "sample_db = Database (Some sample_row)"

definition sample_prompted :: session where
  "sample_prompted = SessionDataStruct\<lparr>username := ''bob'', loginPrompted := True\<rparr>"

definition db_config :: ftp_config where
  "db_config = sample_ftp_config\<lparr>cfg_use_db_auth := True\<rparr>"

definition db_env :: ftp_env where
  "db_env = sample_env\<lparr>env_auth := db_answer sample_api sample_db\<rparr>"

lemma sample_db_facts:
  "escape_fits sample_api (db_conn sample_db)" "\<not> db_closed sample_db"
  "well_formed_result sample_row" "st_pos sample_row = 0" "4 \<le> length (st_fields sample_row)"
  "stores sample_api (db_conn sample_db) stmt sample_row (Some sample_row)"
  "list_all (\<lambda>row. row ! 0 \<noteq> None \<and> row ! 3 \<noteq> None) (st_rows sample_row)"
  by (simp_all add: escape_fits_def sample_api_def sample_db_def Database_def sample_row_def
      well_formed_result_def sample_users_def stores_def)

theorem database_login_witness:
  "ftp_pass db_config db_env None ''PASS pw'' sample_prompted = Inr (case st_rows sample_row of
       [] \<Rightarrow> (sample_prompted\<lparr>password := pass_text ''PASS pw'', loginPrompted := False\<rparr>,
              SendCommandResponse None 530)
     | row # _ \<Rightarrow> (sample_prompted\<lparr>password := pass_text ''PASS pw'',
                     homeDirectory := c_str (the (row ! 3)),
                     loginPrompted := False, loggedIn := True\<rparr>, SendCommandResponse None 230))"
proof (rule database_login [OF sample_api_laws sample_db_facts(1,2) _ _ _ sample_db_facts(6)])
  show "env_auth db_env = db_answer sample_api sample_db" by (simp add: db_env_def)
  show "cfg_use_db_auth db_config" by (simp add: db_config_def)
  show "lower (username sample_prompted) \<noteq> ''anonymous''" by code_simp
  show "pass_text ''PASS pw'' \<noteq> []" by code_simp
qed (rule sample_db_facts | simp add: sample_prompted_def)+

theorem numbers_read_witness:
  "GetUInt64 \<lparr>fd_value = Some (nat_dec 4000000000), fd_info = sample_column []\<rparr>
     = Inr (of_nat (min (2 ^ 63 - 1) 4000000000)) \<and>
   ((4000000000 :: nat) < 2 ^ 63 \<longrightarrow>
      GetUInt32 \<lparr>fd_value = Some (nat_dec 4000000000), fd_info = sample_column []\<rparr>
        = Inr (of_nat 4000000000) \<and>
      GetUInt16 \<lparr>fd_value = Some (nat_dec 4000000000), fd_info = sample_column []\<rparr>
        = Inr (of_nat 4000000000) \<and>
      GetUInt8 \<lparr>fd_value = Some (nat_dec 4000000000), fd_info = sample_column []\<rparr>
        = Inr (of_nat 4000000000))"
  by (rule numbers_read) simp_all

end
