(* ===== verification/BinCopy.thy ===== *)
theory BinCopy
  imports Files
begin

text \<open>
  Operations of \<open>BinnaryData\<close> and \<open>BinFile\<close> that take another buffer by value, and the destructor.
  The class has no copy constructor: the copy points to the allocation of the original, and its
  destructor frees it.  An object is a buffer together with the state of its allocation.
\<close>

section \<open>Objects and copies\<close>

datatype allocation = Live | Freed

record bd_object =
  bo_buf :: bindata
  bo_alloc :: allocation

definition bd_object :: "bindata \<Rightarrow> bd_object" where
  "bd_object d = \<lparr>bo_buf = d, bo_alloc = Live\<rparr>"

text \<open>Any access to the bytes goes through this check.\<close>

definition live_buf :: "bd_object \<Rightarrow> bindata res" where
  "live_buf x =
     (if bo_alloc x = Freed \<and> bd_data (bo_buf x) \<noteq> None then Inl DoubleFree else Inr (bo_buf x))"

text \<open>The destructor frees the allocation when one of the lengths is not 0.\<close>

definition bd_destroy :: "bd_object \<Rightarrow> bd_object res" where
  "bd_destroy x =
     (if (usedLength (bo_buf x) \<noteq> 0 \<or> maxLength (bo_buf x) \<noteq> 0) \<and> bd_data (bo_buf x) \<noteq> None then
        (if bo_alloc x = Freed then Inl DoubleFree else Inr (x\<lparr>bo_alloc := Freed\<rparr>))
      else Inr x)"

text \<open>
  An argument by value: \<open>f\<close> uses the copy, then the copy is destroyed, and what happened to its
  allocation happened to the original's.
\<close>

definition by_value :: "(bindata \<Rightarrow> 'a res) \<Rightarrow> bd_object \<Rightarrow> ('a \<times> bd_object) res" where
  "by_value f x =
     rbind (live_buf x) (\<lambda>copy.
     rbind (f copy) (\<lambda>r.
     rbind (bd_destroy x) (\<lambda>x. Inr (r, x))))"

section \<open>The operations\<close>

text \<open>\<open>operator << (BinnaryData)\<close>; the length is the conversion to \<open>size_t\<close>, the used length.\<close>

definition put_data :: "bindata \<Rightarrow> bd_object \<Rightarrow> (bindata \<times> bd_object) res" where
  "put_data d src =
     by_value (\<lambda>dat. rbind (rd_bytes dat 0 (usedLength dat)) (\<lambda>bytes. write_buf d bytes)) src"

text \<open>\<open>operator << (stringstream)\<close> writes the text of the stream.\<close>

definition put_stream :: "bindata \<Rightarrow> string \<Rightarrow> bindata res" where
  "put_stream d text = write_buf d text"

definition setLength :: "nat \<Rightarrow> bindata \<Rightarrow> bindata" where
  "setLength len d = d\<lparr>usedLength := len\<rparr>"

text \<open>\<open>BinFile::writeFile(BinnaryData)\<close>.\<close>

definition bf_writeData :: "bd_object \<Rightarrow> bin_file \<Rightarrow> (bin_file \<times> bd_object) res" where
  "bf_writeData src f =
     by_value (\<lambda>dat.
       rbind (rd_bytes dat 0 (usedLength dat)) (\<lambda>bytes.
       rbind (write_buf (bd_clear (bf_content f)) bytes) (\<lambda>d. Inr (f\<lparr>bf_content := d\<rparr>)))) src"

section \<open>What an insertion does to its argument\<close>

text \<open>
  Inserting a filled buffer into another writes exactly its bytes and frees its allocation: the
  argument cannot be used any more, and its own destructor frees the allocation again.
\<close>

theorem insertion_frees_argument:
  assumes "sink_ok (usedLength src) d" and "wf_bd src" and "usedLength src \<noteq> 0"
  shows "\<exists>d' x. put_data d (bd_object src) = Inr (d', x) \<and> contents d' = contents d @ contents src \<and>
     put_data d' x = Inl DoubleFree \<and> bd_destroy x = Inl DoubleFree"
proof -
  have data: "bd_data src \<noteq> None"
    using assms(2,3) by (cases "bd_data src") (simp_all add: wf_bd_def)
  have len: "length (contents src) = usedLength src"
    using assms(2) data by (auto simp: contents_def wf_bd_def)
  obtain d' where d': "write_buf d (contents src) = Inr d'" "contents d' = contents d @ contents src"
    using buf_sink.put_ok [OF assms(1), of "contents src"] len by (auto simp: put_string_def)
  let ?x = "(bd_object src)\<lparr>bo_alloc := Freed\<rparr>"
  have "put_data d (bd_object src) = Inr (d', ?x)"
    using data d'(1) assms(3) rd_all [OF assms(2)]
    by (simp add: put_data_def by_value_def live_buf_def bd_object_def bd_destroy_def)
  moreover have "put_data d' ?x = Inl DoubleFree" "bd_destroy ?x = Inl DoubleFree"
    using data assms(3)
    by (simp_all add: put_data_def by_value_def live_buf_def bd_object_def bd_destroy_def)
  ultimately show ?thesis using d'(2) by blast
qed

definition sample_filled :: bindata where
  "sample_filled = \<lparr>bd_data = Some ''abc'', usedLength = 3, maxLength = 3, pget = 0, pput = 3\<rparr>"

theorem insertion_frees_argument_witness:
  "\<exists>d' x. put_data bd_init (bd_object sample_filled) = Inr (d', x) \<and>
     contents d' = contents bd_init @ contents sample_filled \<and>
     put_data d' x = Inl DoubleFree \<and> bd_destroy x = Inl DoubleFree"
  by (rule insertion_frees_argument)
    (simp_all add: sample_filled_def sink_ok_init wf_bd_def)

end
