(* ===== verification/FileAccessor.thy ===== *)
theory FileAccessor
  imports Files FtpCommands
begin

text \<open>
  \<open>Protocol/FTP/FileAccessor.{h,cpp}\<close>: information on files and directories, the listing of a
  directory, renaming and removing, and running a program with its output in a file.

  The answers of the system are arguments.  Names that are pointers are modelled as pointers where
  what they point to can disappear: \<open>d_name\<close> points into the directory stream, and the name of a
  \<open>DirectoryEntry\<close> made from a \<open>std::string\<close> into a local copy.
\<close>

section \<open>Information on an entry\<close>

record file_stat =
  stat_mode :: "32 word"
  stat_uid :: "32 word"
  stat_gid :: "32 word"
  stat_size :: "64 word"
  stat_atime :: int
  stat_mtime :: int
  stat_ctime :: int

record entry_info =
  ei_stat :: file_stat
  ei_name :: "string option"

definition DirectoryEntryInfo :: "string option \<Rightarrow> file_stat \<Rightarrow> entry_info" where
  "DirectoryEntryInfo name st = \<lparr>ei_stat = st, ei_name = name\<rparr>"

text \<open>\<open>stat\<close> fails or gives the structure.\<close>

definition GetFileInfo :: "(string \<Rightarrow> file_stat option) \<Rightarrow> string \<Rightarrow> entry_info option" where
  "GetFileInfo stat name = map_option (DirectoryEntryInfo (Some name)) (stat name)"

definition GetMode :: "entry_info \<Rightarrow> 32 word" where "GetMode e = stat_mode (ei_stat e)"
definition GetGID :: "entry_info \<Rightarrow> 32 word" where "GetGID e = stat_gid (ei_stat e)"
definition GetUID :: "entry_info \<Rightarrow> 32 word" where "GetUID e = stat_uid (ei_stat e)"
definition GetSize :: "entry_info \<Rightarrow> 64 word" where "GetSize e = stat_size (ei_stat e)"
definition GetLastAccess :: "entry_info \<Rightarrow> int" where "GetLastAccess e = stat_atime (ei_stat e)"
definition GetLastModifycation :: "entry_info \<Rightarrow> int" where
  "GetLastModifycation e = stat_mtime (ei_stat e)"
definition GetLastStatusChange :: "entry_info \<Rightarrow> int" where
  "GetLastStatusChange e = stat_ctime (ei_stat e)"

section \<open>Directories\<close>

definition ENOENT :: int where "ENOENT = 2"
definition ENOTDIR :: int where "ENOTDIR = 20"

text \<open>\<open>dir\<close> keeps its value when the stream is closed.\<close>

datatype dir_stream = DirNull | DirOpen "string list" | DirClosed

text \<open>A \<open>char*\<close> to the name of the entry with this number in the stream.\<close>

datatype name_pointer = EntryName nat

record directory_info =
  di_info :: entry_info
  di_dir :: dir_stream
  di_files :: "name_pointer list"
  di_isDir :: bool
  di_err :: int

definition DirectoryInfo :: "string option \<Rightarrow> file_stat \<Rightarrow> directory_info" where
  "DirectoryInfo name st =
     \<lparr>di_info = DirectoryEntryInfo name st, di_dir = DirNull, di_files = [], di_isDir = True, di_err = 0\<rparr>"

definition read_name :: "name_pointer \<Rightarrow> directory_info \<Rightarrow> string res" where
  "read_name p d =
     (case p of EntryName i \<Rightarrow>
        (case di_dir d of
           DirOpen names \<Rightarrow> if i < length names then Inr (names ! i) else Inl OutOfBounds
         | _ \<Rightarrow> Inl DeadReference))"

text \<open>
  \<open>opendir\<close> gives \<open>errno\<close>, or the names that \<open>readdir\<close> will return together with the value of
  \<open>errno\<close> after the last call.
\<close>

type_synonym opendir = "string \<Rightarrow> int + (string list \<times> int)"

text \<open>The loop over the entries, with \<open>i\<close> names read.\<close>

fun read_entries :: "nat \<Rightarrow> string list \<Rightarrow> name_pointer list" where
  "read_entries i [] = []"
| "read_entries i (_ # rest) = EntryName i # read_entries (Suc i) rest"

definition GetFiles :: "opendir \<Rightarrow> directory_info \<Rightarrow> name_pointer list \<times> directory_info" where
  "GetFiles opendir d =
     (case ei_name (di_info d) of
        None \<Rightarrow> ([], d)
      | Some name \<Rightarrow>
          if di_dir d \<noteq> DirNull then ([], d)
          else if di_files d \<noteq> [] then (di_files d, d)
          else
            (case opendir name of
               Inl errno \<Rightarrow>
                 (let d = d\<lparr>di_err := errno\<rparr>
                  in ([], if di_err d = ENOTDIR then d\<lparr>di_isDir := False\<rparr> else d))
             | Inr (names, errno) \<Rightarrow>
                 (let d = d\<lparr>di_dir := DirOpen names, di_files := read_entries 0 names\<rparr>;
                      d = (if errno \<noteq> 0 then d\<lparr>di_err := errno\<rparr> else d);
                      d = d\<lparr>di_dir := DirClosed\<rparr>
                  in (di_files d, d))))"

definition IsDir :: "opendir \<Rightarrow> string \<Rightarrow> bool" where
  "IsDir opendir name = (case opendir name of Inl _ \<Rightarrow> False | Inr _ \<Rightarrow> True)"

section \<open>Renaming and removing\<close>

datatype path_pointer = PathText string | PathDead

record directory_entry =
  de_fileName :: path_pointer
  de_exists :: bool
  de_err :: int

definition DirectoryEntry :: "string \<Rightarrow> directory_entry" where
  "DirectoryEntry name = \<lparr>de_fileName = PathText name, de_exists = True, de_err = 0\<rparr>"

text \<open>The constructor from a \<open>std::string\<close> keeps the characters of its parameter.\<close>

definition DirectoryEntry_string :: "string \<Rightarrow> directory_entry" where
  "DirectoryEntry_string name = \<lparr>de_fileName = PathDead, de_exists = True, de_err = 0\<rparr>"

definition path_of :: "directory_entry \<Rightarrow> string res" where
  "path_of e = (case de_fileName e of PathText s \<Rightarrow> Inr s | PathDead \<Rightarrow> Inl DeadReference)"

text \<open>The system call gives its result and \<open>errno\<close>.\<close>

definition failed :: "int \<Rightarrow> directory_entry \<Rightarrow> directory_entry" where
  "failed errno e =
     (let e = e\<lparr>de_err := errno\<rparr> in if de_err e = ENOENT then e\<lparr>de_exists := False\<rparr> else e)"

definition DirectoryEntry_Remove ::
  "(string \<Rightarrow> int \<times> int) \<Rightarrow> directory_entry \<Rightarrow> (int \<times> directory_entry) res" where
  "DirectoryEntry_Remove remove e =
     rbind (path_of e) (\<lambda>name.
       let (ret, errno) = remove name
       in Inr (ret, if ret = 0 then e\<lparr>de_exists := False\<rparr> else failed errno e))"

definition DirectoryEntry_Rename ::
  "(string \<Rightarrow> string \<Rightarrow> int \<times> int) \<Rightarrow> string \<Rightarrow> directory_entry \<Rightarrow> (int \<times> directory_entry) res" where
  "DirectoryEntry_Rename rename newname e =
     rbind (path_of e) (\<lambda>name.
       let (ret, errno) = rename name newname
       in Inr (ret, if ret = 0 then e\<lparr>de_fileName := PathText newname\<rparr> else failed errno e))"

section \<open>Running a program\<close>

text \<open>\<open>system\<close> gives its result and the files it leaves.\<close>

record terminal_function =
  tf_program :: string
  tf_args :: string

definition tf_Run :: "(string \<Rightarrow> file_system \<Rightarrow> int \<times> file_system) \<Rightarrow> terminal_function \<Rightarrow> file_system \<Rightarrow>
  int \<times> file_system" where
  "tf_Run system t fs = system (c_str (tf_program t @ '' '' @ tf_args t)) fs"

definition tf_call :: "terminal_function \<Rightarrow> string" where
  "tf_call t = tf_program t @ '' '' @ tf_args t @ '' > tmpfile.txt''"

text \<open>
  The output of the program is read back from the file and copied; the file is removed.  (The
  copy is made from the C string of the content, which is that string already.)
\<close>

definition tf_RunWithCallback ::
  "(string \<Rightarrow> file_system \<Rightarrow> int \<times> file_system) \<Rightarrow> terminal_function \<Rightarrow> file_system \<Rightarrow>
   (int \<times> string \<times> file_system) res" where
  "tf_RunWithCallback system t fs =
     (let (ret, fs) = system (c_str (tf_call t)) fs
      in rbind (sreadFile fs ''tmpfile.txt'' AsciiFile_empty) (\<lambda>(tmp, f).
           Inr (ret, c_str tmp, fs(''tmpfile.txt'' := None))))"

end
