(* ===== verification/FileAccessorProps.thy ===== *)
theory FileAccessorProps
  imports FileAccessor
begin

text \<open>
  Properties of the file access of the FTP protocol: the names of a listed directory
  (\<open>listed_names_dangle\<close>), the output of a program (\<open>shell_answer\<close>, which connects this theory
  with the answers that the theory \<open>Ftp\<close> takes as an argument), and what a client can make the
  shell execute (\<open>list_runs_client_text\<close>).
\<close>

section \<open>Directories\<close>

lemma read_entries_pointers: "p \<in> set (read_entries i names) \<Longrightarrow> \<exists>j. p = EntryName j"
  by (induction i names rule: read_entries.induct) auto

lemma length_read_entries [simp]: "length (read_entries i names) = length names"
  by (induction i names rule: read_entries.induct) auto

lemma GetFiles_opened:
  assumes "opendir name = Inr (names, errno)"
  shows "GetFiles opendir (DirectoryInfo (Some name) st)
       = (read_entries 0 names, (DirectoryInfo (Some name) st)
            \<lparr>di_dir := DirClosed, di_files := read_entries 0 names, di_err := errno\<rparr>)"
  using assms by (simp add: GetFiles_def DirectoryInfo_def DirectoryEntryInfo_def Let_def)

text \<open>
  \<open>GetFiles\<close> returns one pointer for each entry of the directory, but the stream that holds the
  names is closed: reading any of them is a use of dead memory.  A second call returns nothing.
\<close>

theorem listed_names_dangle:
  assumes "opendir name = Inr (names, errno)"
    and "GetFiles opendir (DirectoryInfo (Some name) st) = (ps, d)"
  shows "length ps = length names \<and> (\<forall>p \<in> set ps. read_name p d = Inl DeadReference)
     \<and> GetFiles opendir d = ([], d)"
proof -
  have eq: "ps = read_entries 0 names" "d = (DirectoryInfo (Some name) st)
      \<lparr>di_dir := DirClosed, di_files := read_entries 0 names, di_err := errno\<rparr>"
    using GetFiles_opened [of opendir name names errno st] assms by simp_all
  have "read_name p d = Inl DeadReference" if "p \<in> set ps" for p
    using that eq read_entries_pointers [of p 0 names] by (auto simp: read_name_def)
  then show ?thesis
    by (simp add: eq GetFiles_def DirectoryInfo_def DirectoryEntryInfo_def)
qed

definition sample_stat :: file_stat where
  "sample_stat = \<lparr>stat_mode = 0, stat_uid = 0, stat_gid = 0, stat_size = 0, stat_atime = 0,
     stat_mtime = 0, stat_ctime = 0\<rparr>"

theorem listed_names_dangle_witness:
  "length [EntryName 0, EntryName 1] = length [''a'', ''b'']
     \<and> (\<forall>p \<in> set [EntryName 0, EntryName 1]. read_name p ((DirectoryInfo (Some ''/'') sample_stat)
          \<lparr>di_dir := DirClosed, di_files := [EntryName 0, EntryName 1], di_err := 0\<rparr>)
            = Inl DeadReference)
     \<and> GetFiles (\<lambda>_. Inr ([''a'', ''b''], 0)) ((DirectoryInfo (Some ''/'') sample_stat)
          \<lparr>di_dir := DirClosed, di_files := [EntryName 0, EntryName 1], di_err := 0\<rparr>)
       = ([], (DirectoryInfo (Some ''/'') sample_stat)
          \<lparr>di_dir := DirClosed, di_files := [EntryName 0, EntryName 1], di_err := 0\<rparr>)"
  by (rule listed_names_dangle [where name = "''/''" and st = sample_stat and errno = 0])
    (simp_all add: GetFiles_opened)

text \<open>A directory that cannot be opened: the error number is kept, and whether it is a directory.\<close>

lemma GetFiles_refused:
  assumes "opendir name = Inl errno"
  shows "GetFiles opendir (DirectoryInfo (Some name) st)
       = ([], (DirectoryInfo (Some name) st)\<lparr>di_err := errno, di_isDir := errno \<noteq> ENOTDIR\<rparr>)"
  using assms by (simp add: GetFiles_def DirectoryInfo_def DirectoryEntryInfo_def Let_def)

text \<open>Removing twice: the second call reports the missing entry.\<close>

lemma entry_removed_twice:
  assumes "remove name = (-1, ENOENT)"
  shows "\<exists>e. DirectoryEntry_Remove (\<lambda>_. (0, 0)) (DirectoryEntry name) = Inr (0, e) \<and> \<not> de_exists e \<and>
     DirectoryEntry_Remove remove e = Inr (-1, e\<lparr>de_err := ENOENT\<rparr>)"
  using assms by (simp add: DirectoryEntry_Remove_def DirectoryEntry_def path_of_def failed_def)

lemma entry_renamed:
  "\<exists>e. DirectoryEntry_Rename (\<lambda>_ _. (0, 0)) new (DirectoryEntry name) = Inr (0, e) \<and>
     path_of e = Inr new \<and> de_exists e"
  by (simp add: DirectoryEntry_Rename_def DirectoryEntry_def path_of_def)

lemma string_entry_unusable:
  "DirectoryEntry_Remove remove (DirectoryEntry_string name) = Inl DeadReference"
  "DirectoryEntry_Rename rename new (DirectoryEntry_string name) = Inl DeadReference"
  by (simp_all add: DirectoryEntry_Remove_def DirectoryEntry_Rename_def DirectoryEntry_string_def
      path_of_def)

section \<open>Running a program\<close>

text \<open>
  The output returned is what the program left in the file, as a C string, and the file is gone;
  with the file system as the answer of the shell this is the output that the theory \<open>Ftp\<close> uses.
\<close>

theorem shell_answer:
  assumes "system (c_str (program @ '' '' @ args @ '' > tmpfile.txt'')) fs = (ret, fs')"
    and "fs' ''tmpfile.txt'' = Some out" and "length out < size_max"
    and "env_shell env (program @ '' '' @ args @ '' > tmpfile.txt'') = out"
  shows "tf_RunWithCallback system \<lparr>tf_program = program, tf_args = args\<rparr> fs
       = Inr (ret, fst (RunWithCallback env program args), fs'(''tmpfile.txt'' := None))"
proof -
  obtain f where "sreadFile fs' ''tmpfile.txt'' AsciiFile_empty = Inr (c_str out, f)"
    using read_new [of fs' "''tmpfile.txt''" out] assms(2,3) by auto
  moreover have "c_str (c_str out) = c_str out" by (simp add: c_str_def)
  ultimately show ?thesis
    using assms(1,4) by (simp add: tf_RunWithCallback_def tf_call_def RunWithCallback_def)
qed

section \<open>What the shell executes\<close>

text \<open>A line of a logged-in client whose command is known.\<close>

lemma process_line:
  assumes "sessionData st fd = Some s" and "nul \<notin> set bytes"
    and "extract_word [] bytes = (command, rest)" and "parse_command command = c"
    and "c \<noteq> FTP_UNKNOWN"
  shows "ftp_processRecieve cfg env fd bytes st =
     ftp_command c cfg env fd bytes (strip (\<lambda>c. c \<in> set trim_ws) bytes) command rest
       (GetSocketByFd fd (ftp_sockets st)) s st"
proof -
  have "valid_start command" using parse_known assms(4,5) by simp
  moreover have "map_index SessionDataStruct fd (sessionData st) = (s, sessionData st)"
    using assms(1) by (simp add: map_index_def)
  ultimately show ?thesis
    using assms by (simp add: ftp_processRecieve_def c_str_name trim_strip)
qed

definition plain_word :: "string \<Rightarrow> bool" where
  "plain_word w \<longleftrightarrow> w \<noteq> [] \<and> list_all (\<lambda>c. \<not> is_space c \<and> c \<noteq> nul) w"

text \<open>A name that can stand behind a command: what \<open>trim\<close> leaves as it is.\<close>

definition plain_name :: "string \<Rightarrow> bool" where
  "plain_name n \<longleftrightarrow> n \<noteq> [] \<and> nul \<notin> set n \<and> hd n \<notin> set trim_ws \<and> last n \<notin> set trim_ws
     \<and> first_char n \<noteq> slash \<and> n \<noteq> ''.'' \<and> n \<noteq> ''..''"

lemma word_line:
  assumes "plain_word w"
  shows "extract_word [] (w @ space # n) = (w, space # n)"
    and "plain_name n \<Longrightarrow> argument (w @ space # n) = Inr n"
proof -
  have sp: "is_space space" by (simp add: is_space_def)
  have "dropWhile is_space (w @ space # n) = w @ space # n"
    using assms by (cases w) (simp_all add: plain_word_def)
  moreover have "takeWhile (\<lambda>c. \<not> is_space c) (w @ space # n) = w"
    "dropWhile (\<lambda>c. \<not> is_space c) (w @ space # n) = space # n"
    using assms sp by (simp_all add: plain_word_def list_all_iff takeWhile_append2 dropWhile_append2)
  ultimately show "extract_word [] (w @ space # n) = (w, space # n)"
    by (simp add: extract_word_def)
next
  assume n: "plain_name n"
  have "space \<notin> set w" using assms by (auto simp: plain_word_def list_all_iff is_space_def)
  then have "first_index (\<lambda>x. x = space) w = None" by (auto simp: first_index_None)
  then have f: "find_char space (w @ space # n) = Some (length w)"
    by (simp add: find_char_def first_index_append)
  have "strip (\<lambda>c. c \<in> set trim_ws) (space # n) = strip (\<lambda>c. c \<in> set trim_ws) n"
    using strip_surround [of "[space]" "\<lambda>c. c \<in> set trim_ws" "[]" n] by (simp add: trim_ws_def)
  also have "\<dots> = n" using n by (intro strip_fixed) (simp add: plain_name_def)
  finally show "argument (w @ space # n) = Inr n"
    by (simp add: argument_def f substr_suffix trim_strip)
qed

text \<open>The three commands: making a directory, entering it and listing it.\<close>

lemma mkd_line:
  assumes "sessionData st fd = Some s" and "loggedIn s" and "plain_name n"
  shows "\<exists>effs. ftp_processRecieve cfg env fd (''MKD'' @ space # n) st
     = Inr (st, Mkdir (homeDirectory s @ actualDir s @ n) # effs)"
proof -
  have w: "plain_word ''MKD''" by code_simp
  have "parse_command ''MKD'' = FTP_MAKE_DIR" by code_simp
  moreover have "nul \<notin> set (''MKD'' @ space # n)" using assms(3) by (simp add: plain_name_def)
  ultimately show ?thesis
    using process_line [OF assms(1) _ word_line(1) [OF w]] word_line(2) [OF w assms(3)] assms(1,2)
    by (simp add: ftp_mkd_def gate_def in_session_def Let_def session_same)
qed

lemma cwd_line:
  assumes "sessionData st fd = Some s" and "loggedIn s" and "plain_name n" and "last n \<noteq> slash"
    and "env_is_dir env (homeDirectory s @ actualDir s @ n)"
  shows "ftp_processRecieve cfg env fd (''CWD'' @ space # n) st
     = Inr (st\<lparr>sessionData := (sessionData st)(fd \<mapsto> s\<lparr>actualDir := actualDir s @ n @ [slash]\<rparr>)\<rparr>,
            SendCommandResponse (GetSocketByFd fd (ftp_sockets st)) 250)"
proof -
  have w: "plain_word ''CWD''" by code_simp
  have "parse_command ''CWD'' = FTP_CHANGE_WORKING_DIRECTORY" by code_simp
  moreover have "nul \<notin> set (''CWD'' @ space # n)" using assms(3) by (simp add: plain_name_def)
  moreover have "with_slash (actualDir s @ n) = Inr (actualDir s @ n @ [slash])"
    using assms(3,4) by (simp add: with_slash_def last_char_def plain_name_def)
  ultimately show ?thesis
    using process_line [OF assms(1) _ word_line(1) [OF w]] word_line(2) [OF w assms(3)] assms
    by (simp add: ftp_cwd_def gate_def in_session_def plain_name_def)
qed

lemma list_line:
  assumes "sessionData st fd = Some s" and "loggedIn s"
    and "env_is_dir env (homeDirectory s @ actualDir s)"
  shows "\<exists>st' effs. ftp_processRecieve cfg env fd ''LIST'' st
     = Inr (st', Shell (''ls -la '' @ [dquote] @ homeDirectory s @ actualDir s @ [dquote] @
                        '' > tmpfile.txt'') # effs)"
proof -
  have "extract_word [] ''LIST'' = (''LIST'', [])" by code_simp
  moreover have "parse_command ''LIST'' = FTP_LIST" by code_simp
  ultimately show ?thesis
    using process_line [OF assms(1), of "''LIST''" "''LIST''" "[]" FTP_LIST] assms
    by (simp add: ftp_list_def gate_def in_session_def RunWithCallback_def Let_def split: prod.splits)
qed

text \<open>
  C25. A logged-in client makes the shell execute text of its own: it creates a directory whose name
  holds two double quotes, enters it and lists it; the part of the name between the quotes stands
  outside all quotes in the command that the shell is given.
\<close>

theorem list_runs_client_text:
  assumes "sessionData st fd = Some s" and "loggedIn s"
    and "dquote \<notin> set (homeDirectory s @ actualDir s @ a)"
    and "n = a @ [dquote] @ b @ [dquote] @ c" and "plain_name n" and "last n \<noteq> slash"
    and "env_is_dir env (homeDirectory s @ actualDir s @ n)"
    and "env_is_dir env (homeDirectory s @ actualDir s @ n @ [slash])"
  shows "\<exists>st1 st2 st3 made replies sent pre post.
     ftp_processRecieve cfg env fd (''MKD'' @ space # n) st
       = Inr (st1, Mkdir (homeDirectory s @ actualDir s @ n) # made) \<and>
     ftp_processRecieve cfg env fd (''CWD'' @ space # n) st1 = Inr (st2, replies) \<and>
     ftp_processRecieve cfg env fd ''LIST'' st2 = Inr (st3, Shell (pre @ b @ post) # sent) \<and>
     even (count_list pre dquote)"
proof -
  let ?s = "s\<lparr>actualDir := actualDir s @ n @ [slash]\<rparr>"
  let ?st = "st\<lparr>sessionData := (sessionData st)(fd \<mapsto> ?s)\<rparr>"
  obtain made where made: "ftp_processRecieve cfg env fd (''MKD'' @ space # n) st
      = Inr (st, Mkdir (homeDirectory s @ actualDir s @ n) # made)"
    using mkd_line [OF assms(1,2,5)] by blast
  have "\<exists>st' effs. ftp_processRecieve cfg env fd ''LIST'' ?st
     = Inr (st', Shell (''ls -la '' @ [dquote] @ homeDirectory ?s @ actualDir ?s @ [dquote] @
                        '' > tmpfile.txt'') # effs)"
    using assms(2,8) by (intro list_line) simp_all
  then obtain st' effs where listed: "ftp_processRecieve cfg env fd ''LIST'' ?st
     = Inr (st', Shell (''ls -la '' @ [dquote] @ homeDirectory s @ actualDir s @ n @ [slash] @
                        [dquote] @ '' > tmpfile.txt'') # effs)"
    by auto
  let ?pre = "''ls -la '' @ [dquote] @ homeDirectory s @ actualDir s @ a @ [dquote]"
  let ?post = "[dquote] @ c @ [slash] @ [dquote] @ '' > tmpfile.txt''"
  have call: "''ls -la '' @ [dquote] @ homeDirectory s @ actualDir s @ n @ [slash] @
      [dquote] @ '' > tmpfile.txt'' = ?pre @ b @ ?post"
    by (simp add: assms(4))
  have "count_list ?pre dquote = 2"
    using assms(3) by (simp add: dquote_def count_notin)
  then have "even (count_list ?pre dquote)" by simp
  with made cwd_line [OF assms(1,2,5-7)] listed show ?thesis
    unfolding call by blast
qed

definition injected_name :: string where
  "injected_name = [dquote] @ ''; id; '' @ [dquote]"

lemma logged_in_session:
  "sessionData logged_in_state 4 = Some (SessionDataStruct\<lparr>loggedIn := True\<rparr>)"
  by (simp add: logged_in_state_def)

theorem list_runs_client_text_witness:
  "\<exists>st1 st2 st3 made replies sent pre post.
     ftp_processRecieve sample_ftp_config sample_env 4 (''MKD'' @ space # injected_name) logged_in_state
       = Inr (st1, Mkdir (homeDirectory (SessionDataStruct\<lparr>loggedIn := True\<rparr>)
                     @ actualDir (SessionDataStruct\<lparr>loggedIn := True\<rparr>) @ injected_name) # made) \<and>
     ftp_processRecieve sample_ftp_config sample_env 4 (''CWD'' @ space # injected_name) st1
       = Inr (st2, replies) \<and>
     ftp_processRecieve sample_ftp_config sample_env 4 ''LIST'' st2
       = Inr (st3, Shell (pre @ ''; id; '' @ post) # sent) \<and>
     even (count_list pre dquote)"
proof (rule list_runs_client_text [OF logged_in_session])
  show "injected_name = [] @ [dquote] @ ''; id; '' @ [dquote] @ []"
    by (simp add: injected_name_def)
  show "plain_name injected_name" by code_simp
  show "last injected_name \<noteq> slash" by code_simp
  show "dquote \<notin> set (homeDirectory (SessionDataStruct\<lparr>loggedIn := True\<rparr>)
      @ actualDir (SessionDataStruct\<lparr>loggedIn := True\<rparr>) @ [])" by code_simp
qed (simp_all add: sample_env_def SessionDataStruct_def)

theorem shell_answer_witness:
  "tf_RunWithCallback (\<lambda>_ fs. (0, fs(''tmpfile.txt'' \<mapsto> ''total 0''))) \<lparr>tf_program = ''ls'', tf_args = ''-la''\<rparr>
     (\<lambda>_. None)
   = Inr (0, fst (RunWithCallback (sample_env\<lparr>env_shell := (\<lambda>_. ''total 0'')\<rparr>) ''ls'' ''-la''),
          ((\<lambda>_. None)(''tmpfile.txt'' \<mapsto> ''total 0''))(''tmpfile.txt'' := None))"
  by (rule shell_answer [where out = "''total 0''"]) (simp_all add: size_max_def)

end
