(* ===== verification/Signals.thy ===== *)
theory Signals
  imports Prelude
begin

text \<open>
  \<open>Signal/SignalHandler.{h,cpp}\<close>: the class that keeps a function for each of seven signals and
  installs it with \<open>signal\<close>, and the two handlers that \<open>Update\<close> installs.

  A function pointer is an address; 0 is NULL, which \<open>signal\<close> takes for \<open>SIG_DFL\<close>, and 1 is
  \<open>SIG_IGN\<close>.  The disposition of the signals belongs to the process.
\<close>

section \<open>The class\<close>

datatype SignalType =
    Abort | FloatingPointException | InvalidInstruction | Interupt | SegmentationFault
  | Terminate_signal | Continue_signal

datatype disposition = SigDefault | SigIgnore | SigCalls nat

record signal_handler =
  fSIGABRT :: nat
  fSIGFPE :: nat
  fSIGILL :: nat
  fSIGINT :: nat
  fSIGSEGV :: nat
  fSIGTERM :: nat
  fSIGCONT :: nat
  dispositions :: "SignalType \<Rightarrow> disposition"

text \<open>\<open>new SignalHandler()\<close> sets the pointers to NULL; a process begins with the defaults.\<close>

definition SignalHandler :: signal_handler where
  "SignalHandler =
     \<lparr>fSIGABRT = 0, fSIGFPE = 0, fSIGILL = 0, fSIGINT = 0, fSIGSEGV = 0, fSIGTERM = 0, fSIGCONT = 0,
      dispositions = (\<lambda>_. SigDefault)\<rparr>"

definition disposition_of :: "nat \<Rightarrow> disposition" where
  "disposition_of f = (if f = 0 then SigDefault else if f = 1 then SigIgnore else SigCalls f)"

text \<open>The call \<open>signal(sig, f)\<close>.\<close>

definition posix_signal :: "SignalType \<Rightarrow> nat \<Rightarrow> signal_handler \<Rightarrow> signal_handler" where
  "posix_signal sig f h = h\<lparr>dispositions := (dispositions h)(sig := disposition_of f)\<rparr>"

definition setSignalHandler :: "SignalType \<Rightarrow> nat \<Rightarrow> signal_handler \<Rightarrow> signal_handler res" where
  "setSignalHandler sig func h =
     (if func = 0 then Inl AssertFail
      else Inr (case sig of
          Abort \<Rightarrow> (let h = h\<lparr>fSIGABRT := func\<rparr> in posix_signal Abort (fSIGABRT h) h)
        | FloatingPointException \<Rightarrow>
            (let h = h\<lparr>fSIGFPE := func\<rparr> in posix_signal FloatingPointException (fSIGFPE h) h)
        | InvalidInstruction \<Rightarrow>
            (let h = h\<lparr>fSIGILL := func\<rparr> in posix_signal InvalidInstruction (fSIGILL h) h)
        | Interupt \<Rightarrow> (let h = h\<lparr>fSIGINT := func\<rparr> in posix_signal Interupt (fSIGINT h) h)
        | SegmentationFault \<Rightarrow>
            (let h = h\<lparr>fSIGSEGV := func\<rparr> in posix_signal SegmentationFault (fSIGSEGV h) h)
        | Terminate_signal \<Rightarrow>
            (let h = h\<lparr>fSIGTERM := func\<rparr> in posix_signal Terminate_signal (fSIGTERM h) h)
        | Continue_signal \<Rightarrow>
            (let h = h\<lparr>fSIGCONT := func\<rparr> in posix_signal Continue_signal (fSIGCONT h) h)))"

definition setIgnoreSignal :: "SignalType \<Rightarrow> signal_handler \<Rightarrow> signal_handler" where
  "setIgnoreSignal sig h =
     (case sig of
        Abort \<Rightarrow> posix_signal Abort 1 h
      | FloatingPointException \<Rightarrow> posix_signal FloatingPointException 1 h
      | InvalidInstruction \<Rightarrow> posix_signal InvalidInstruction 1 h
      | Interupt \<Rightarrow> posix_signal Interupt 1 h
      | SegmentationFault \<Rightarrow> posix_signal SegmentationFault 1 h
      | Terminate_signal \<Rightarrow> posix_signal Terminate_signal 1 h
      | Continue_signal \<Rightarrow> posix_signal Continue_signal 1 h)"

definition setDefaultHandler :: "SignalType \<Rightarrow> signal_handler \<Rightarrow> signal_handler" where
  "setDefaultHandler sig h =
     (case sig of
        Abort \<Rightarrow> posix_signal Abort 0 h
      | FloatingPointException \<Rightarrow> posix_signal FloatingPointException 0 h
      | InvalidInstruction \<Rightarrow> posix_signal InvalidInstruction 0 h
      | Interupt \<Rightarrow> posix_signal Interupt 0 h
      | SegmentationFault \<Rightarrow> posix_signal SegmentationFault 0 h
      | Terminate_signal \<Rightarrow> posix_signal Terminate_signal 0 h
      | Continue_signal \<Rightarrow> posix_signal Continue_signal 0 h)"

text \<open>The two calls of \<open>Application::Update\<close>; \<open>f\<close> is the address of \<open>HandleInterupt\<close>.\<close>

definition install_handlers :: "nat \<Rightarrow> signal_handler \<Rightarrow> signal_handler res" where
  "install_handlers f h =
     rbind (setSignalHandler Interupt f h) (\<lambda>h. setSignalHandler Terminate_signal f h)"

section \<open>The table and the process agree\<close>

definition handler_of :: "SignalType \<Rightarrow> signal_handler \<Rightarrow> nat" where
  "handler_of sig h =
     (case sig of
        Abort \<Rightarrow> fSIGABRT h | FloatingPointException \<Rightarrow> fSIGFPE h | InvalidInstruction \<Rightarrow> fSIGILL h
      | Interupt \<Rightarrow> fSIGINT h | SegmentationFault \<Rightarrow> fSIGSEGV h | Terminate_signal \<Rightarrow> fSIGTERM h
      | Continue_signal \<Rightarrow> fSIGCONT h)"

inductive signal_step :: "signal_handler \<Rightarrow> signal_handler \<Rightarrow> bool" where
  step_set: "setSignalHandler sig f h = Inr h' \<Longrightarrow> signal_step h h'"
| step_ignore: "signal_step h (setIgnoreSignal sig h)"
| step_default: "signal_step h (setDefaultHandler sig h)"

definition signals_reach :: "signal_handler \<Rightarrow> bool" where
  "signals_reach h \<longleftrightarrow> signal_step\<^sup>*\<^sup>* SignalHandler h"

lemma setSignalHandler_eq:
  "f \<noteq> 0 \<Longrightarrow> \<exists>h'. setSignalHandler sig f h = Inr h' \<and>
     dispositions h' = (dispositions h)(sig := disposition_of f) \<and>
     (\<forall>s. handler_of s h' = (if s = sig then f else handler_of s h))"
  by (cases sig) (auto simp: setSignalHandler_def posix_signal_def handler_of_def split: SignalType.splits)

lemma setIgnoreSignal_eq: "setIgnoreSignal sig h = posix_signal sig 1 h"
  by (cases sig) (simp_all add: setIgnoreSignal_def)

lemma setDefaultHandler_eq: "setDefaultHandler sig h = posix_signal sig 0 h"
  by (cases sig) (simp_all add: setDefaultHandler_def)

lemma handler_of_posix_signal [simp]: "handler_of s (posix_signal sig f h) = handler_of s h"
  by (cases s) (simp_all add: handler_of_def posix_signal_def)

lemma dispositions_posix_signal [simp]:
  "dispositions (posix_signal sig f h) = (dispositions h)(sig := disposition_of f)"
  by (simp add: posix_signal_def)

definition table_agrees :: "signal_handler \<Rightarrow> bool" where
  "table_agrees h \<longleftrightarrow> (\<forall>sig f. dispositions h sig = SigCalls f \<longrightarrow> handler_of sig h = f)"

lemma table_agrees_step:
  assumes "signal_step h h'" and "table_agrees h"
  shows "table_agrees h'"
  using assms(1)
proof (cases rule: signal_step.cases)
  case (step_set sig f)
  then have "f \<noteq> 0" by (cases "f = 0") (simp_all add: setSignalHandler_def)
  from setSignalHandler_eq [OF this, of sig h] step_set assms(2) show ?thesis
    by (auto simp: table_agrees_def disposition_of_def split: if_splits)
next
  case (step_ignore sig)
  then show ?thesis
    using assms(2) by (simp add: setIgnoreSignal_eq table_agrees_def disposition_of_def)
next
  case (step_default sig)
  then show ?thesis
    using assms(2) by (simp add: setDefaultHandler_eq table_agrees_def disposition_of_def)
qed

lemma signals_reach_agrees: "signal_step\<^sup>*\<^sup>* SignalHandler h \<Longrightarrow> table_agrees h"
proof (induction rule: rtranclp_induct)
  case base
  show ?case by (simp add: table_agrees_def SignalHandler_def)
next
  case (step h h')
  then show ?case using table_agrees_step by blast
qed

lemma install_step:
  assumes "f \<noteq> 0"
  shows "\<exists>h'. install_handlers f h = Inr h' \<and> signal_step\<^sup>*\<^sup>* h h' \<and>
     dispositions h' = (dispositions h)(Interupt := disposition_of f, Terminate_signal := disposition_of f)"
proof -
  obtain h1 where h1: "setSignalHandler Interupt f h = Inr h1"
      "dispositions h1 = (dispositions h)(Interupt := disposition_of f)"
    using setSignalHandler_eq [OF assms, of Interupt h] by blast
  obtain h2 where h2: "setSignalHandler Terminate_signal f h1 = Inr h2"
      "dispositions h2 = (dispositions h1)(Terminate_signal := disposition_of f)"
    using setSignalHandler_eq [OF assms, of Terminate_signal h1] by blast
  have "signal_step\<^sup>*\<^sup>* h h2"
    using step_set [OF h1(1)] step_set [OF h2(1)] by (meson rtranclp.simps)
  then show ?thesis using h1 h2 by (simp add: install_handlers_def)
qed

text \<open>
  In every state that calls of the three operations reach, a signal whose handler is called is
  handled by the function that the table holds for it.
\<close>

theorem signal_table_agrees:
  assumes "signals_reach h" and "dispositions h sig = SigCalls f"
  shows "handler_of sig h = f"
  using signals_reach_agrees assms by (simp add: signals_reach_def table_agrees_def)

definition sample_signals :: signal_handler where
  "sample_signals = posix_signal Interupt 0 (case install_handlers 42 SignalHandler of Inr h \<Rightarrow> h)"

theorem signal_table_agrees_witness: "handler_of Terminate_signal sample_signals = 42"
proof (rule signal_table_agrees)
  obtain h where h: "install_handlers 42 SignalHandler = Inr h" "signal_step\<^sup>*\<^sup>* SignalHandler h"
      "dispositions h = (dispositions SignalHandler)
         (Interupt := disposition_of 42, Terminate_signal := disposition_of 42)"
    using install_step [of 42 SignalHandler] by auto
  have s: "sample_signals = setDefaultHandler Interupt h"
    by (simp add: sample_signals_def h(1) setDefaultHandler_eq)
  show "signals_reach sample_signals"
    unfolding signals_reach_def s by (rule rtranclp.rtrancl_into_rtrancl [OF h(2) step_default])
  show "dispositions sample_signals Terminate_signal = SigCalls 42"
    by (simp add: s setDefaultHandler_eq h(3) disposition_of_def)
qed

end
