(* ===== verification/Daemon.thy ===== *)
theory Daemon
  imports AppConfig
begin

text \<open>
  \<open>Daemon/Daemon.{h,cpp}\<close>: \<open>Daemonize\<close>, which detaches the server from its terminal, closes every
  descriptor, and holds a locked file with the process number.

  The state is what the system calls change: the table of descriptors with the path each one was
  opened for, the session, the working directory, the file mode mask, the ignored signals and the
  text of the lock file.  As POSIX demands, \<open>open\<close> and \<open>dup\<close> return the lowest free descriptor.
  The answers of the system are the record \<open>daemon_env\<close>.
\<close>

section \<open>The process\<close>

record process =
  ps_fds :: "nat \<Rightarrow> string option"
  ps_leader :: bool
  ps_cwd :: string
  ps_umask :: nat
  ps_ignored :: "string list"
  ps_lock_text :: string
  ps_daemon :: bool

text \<open>
  The number of the parent and of the process, the result of \<open>fork\<close> in this copy of the process,
  the size of the descriptor table, and which directories can be entered, files opened and locked.
\<close>

record daemon_env =
  de_ppid :: int
  de_fork :: int
  de_pid :: nat
  de_tablesize :: nat
  de_enters :: "string \<Rightarrow> bool"
  de_opens :: "string \<Rightarrow> bool"
  de_locks :: "string \<Rightarrow> bool"

datatype daemon_result = Exited int | Runs process

section \<open>System calls\<close>

definition absolute :: "string \<Rightarrow> string \<Rightarrow> string" where
  "absolute cwd path = (if first_char path = slash then path else cwd @ [slash] @ path)"

definition lowest_free :: "daemon_env \<Rightarrow> process \<Rightarrow> nat option" where
  "lowest_free env p = List.find (\<lambda>n. ps_fds p n = None) [0..<de_tablesize env]"

definition new_descriptor :: "daemon_env \<Rightarrow> string \<Rightarrow> process \<Rightarrow> int \<times> process" where
  "new_descriptor env path p =
     (case lowest_free env p of
        None \<Rightarrow> (-1, p)
      | Some n \<Rightarrow> (int n, p\<lparr>ps_fds := (ps_fds p)(n := Some path)\<rparr>))"

definition sys_open :: "daemon_env \<Rightarrow> string \<Rightarrow> process \<Rightarrow> int \<times> process" where
  "sys_open env path p =
     (let full = absolute (ps_cwd p) path
      in if path \<noteq> [] \<and> de_opens env full then new_descriptor env full p else (-1, p))"

definition sys_dup :: "daemon_env \<Rightarrow> int \<Rightarrow> process \<Rightarrow> int \<times> process" where
  "sys_dup env i p =
     (case (if i < 0 then None else ps_fds p (nat i)) of
        None \<Rightarrow> (-1, p)
      | Some path \<Rightarrow> new_descriptor env path p)"

definition sys_close :: "nat \<Rightarrow> process \<Rightarrow> process" where
  "sys_close i p = p\<lparr>ps_fds := (ps_fds p)(i := None)\<rparr>"

definition SetWorkingDirectory :: "daemon_env \<Rightarrow> string \<Rightarrow> process \<Rightarrow> int \<times> process" where
  "SetWorkingDirectory env dir p =
     (let full = absolute (ps_cwd p) dir
      in if dir \<noteq> [] \<and> de_enters env full then (0, p\<lparr>ps_cwd := full\<rparr>) else (-1, p))"

definition SetCurrentProcessSessionId :: "process \<Rightarrow> process" where
  "SetCurrentProcessSessionId p = p\<lparr>ps_leader := True\<rparr>"

definition ignore_signal :: "string \<Rightarrow> process \<Rightarrow> process" where
  "ignore_signal sig p = p\<lparr>ps_ignored := ps_ignored p @ [sig]\<rparr>"

section \<open>Daemonize\<close>

text \<open>The loop over all descriptors, from the size of the table down to 0.\<close>

fun close_down :: "nat \<Rightarrow> process \<Rightarrow> process" where
  "close_down 0 p = sys_close 0 p"
| "close_down (Suc i) p = close_down i (sys_close (Suc i) p)"

text \<open>
  The number of the process, printed into an array of ten characters, overwrites the beginning of
  the file, which is not emptied.
\<close>

definition write_pid :: "daemon_env \<Rightarrow> process \<Rightarrow> process res" where
  "write_pid env p =
     (let str = int_dec (int (de_pid env)) @ [nl]
      in if length str + 1 \<le> 10 then
           Inr (p\<lparr>ps_lock_text := str @ drop (length str) (ps_lock_text p)\<rparr>)
         else Inl OutOfBounds)"

definition take_lock :: "daemon_env \<Rightarrow> string option \<Rightarrow> process \<Rightarrow> daemon_result res" where
  "take_lock env lockFile p =
     (case lockFile of
        None \<Rightarrow> Inr (Runs p)
      | Some name \<Rightarrow>
          (let (lfp, p) = sys_open env name p
           in if lfp < 0 then Inr (Exited (-1))
              else if \<not> de_locks env (absolute (ps_cwd p) name) then Inr (Exited 0)
              else rbind (write_pid env p) (\<lambda>p. Inr (Runs p))))"

definition Daemonize ::
  "daemon_env \<Rightarrow> string option \<Rightarrow> string option \<Rightarrow> process \<Rightarrow> daemon_result res" where
  "Daemonize env lockFile workingDir p =
     (if de_ppid env = 1 then Inr (Runs p)
      else if de_fork env < 0 then Inr (Exited (-1))
      else if de_fork env > 0 then Inr (Exited 0)
      else
        (let p = SetCurrentProcessSessionId p;
             p = close_down (de_tablesize env) p;
             (i, p) = sys_open env ''/dev/null'' p;
             (_, p) = sys_dup env i p;
             (_, p) = sys_dup env i p;
             p = p\<lparr>ps_umask := 23\<rparr>;
             p = (case workingDir of None \<Rightarrow> p | Some dir \<Rightarrow> snd (SetWorkingDirectory env dir p))
         in rbind (take_lock env lockFile p) (\<lambda>r.
              case r of
                Exited c \<Rightarrow> Inr (Exited c)
              | Runs p \<Rightarrow>
                  (let p = ignore_signal ''SIGCHLD'' p;
                       p = ignore_signal ''SIGTSTP'' p;
                       p = ignore_signal ''SIGTTOU'' p;
                       p = ignore_signal ''SIGTTIN'' p
                   in Inr (Runs (p\<lparr>ps_daemon := True\<rparr>))))))"

text \<open>The call in the constructor of \<open>Application\<close>: both texts are C strings, never NULL.\<close>

definition app_daemonize :: "daemon_env \<Rightarrow> application \<Rightarrow> process \<Rightarrow> daemon_result res" where
  "app_daemonize env a p =
     (if BoolConfigs a CONFIG_BOOL_DAEMONIZE then
        Daemonize env (Some (c_str (StringConfigs a CONFIG_STRING_PID_FILE)))
          (Some (c_str (StringConfigs a CONFIG_STRING_WORKING_DIRECTORY))) p
      else Inr (Runs p))"

end
