(* ===== verification/DaemonProps.thy ===== *)
theory DaemonProps
  imports Daemon AppProps
begin

text \<open>
  Properties of \<open>Daemonize\<close>: the descriptors, the session and the lock file of the process that
  goes on (\<open>daemon_detached\<close>), a second instance, and the call without a configuration file.
\<close>

section \<open>Descriptors\<close>

lemma lowest_freeI:
  assumes "k < de_tablesize env" and "ps_fds p k = None" and "\<forall>i<k. ps_fds p i \<noteq> None"
  shows "lowest_free env p = Some k"
  unfolding lowest_free_def find_Some_iff
  using assms by (intro exI [of _ k]) simp

lemma new_descriptor_at:
  assumes "k < de_tablesize env" and "ps_fds p k = None" and "\<forall>i<k. ps_fds p i \<noteq> None"
  shows "new_descriptor env path p = (int k, p\<lparr>ps_fds := (ps_fds p)(k := Some path)\<rparr>)"
  by (simp add: new_descriptor_def lowest_freeI [OF assms])

lemma close_down_eq:
  "close_down n p = p\<lparr>ps_fds := (\<lambda>i. if i \<le> n then None else ps_fds p i)\<rparr>"
proof (induction n arbitrary: p)
  case 0
  have "(ps_fds p)(0 := None) = (\<lambda>i. if i \<le> 0 then None else ps_fds p i)"
    by (simp add: fun_eq_iff)
  then show ?case by (simp add: sys_close_def)
next
  case (Suc n)
  have "(\<lambda>i. if i \<le> n then None else ((ps_fds p)(Suc n := None)) i)
      = (\<lambda>i. if i \<le> Suc n then None else ps_fds p i)"
    by (auto simp: fun_eq_iff le_Suc_eq)
  then show ?case by (simp add: Suc.IH sys_close_def cong: if_cong)
qed

definition dev_null :: string where
  "dev_null = ''/dev/null''"

text \<open>Opening the null device and duplicating it twice, with no descriptor open.\<close>

definition standard_streams :: "nat \<Rightarrow> string option" where
  "standard_streams i = (if i < 3 then Some dev_null else None)"

lemma less_3: "(i < (3 :: nat)) = (i = 0 \<or> i = 1 \<or> i = 2)"
  by auto

lemma open_standard_streams:
  assumes "ps_fds p = (\<lambda>_. None)" and "3 \<le> de_tablesize env" and "de_opens env dev_null"
  shows "(let (i, p) = sys_open env ''/dev/null'' p; (_, p) = sys_dup env i p; (_, p) = sys_dup env i p
          in p) = p\<lparr>ps_fds := standard_streams\<rparr>"
proof -
  let ?p1 = "p\<lparr>ps_fds := (ps_fds p)(0 := Some dev_null)\<rparr>"
  let ?p2 = "p\<lparr>ps_fds := (ps_fds p)(0 := Some dev_null, Suc 0 := Some dev_null)\<rparr>"
  have "absolute (ps_cwd p) ''/dev/null'' = dev_null"
    by (simp add: absolute_def dev_null_def first_char_def slash_def)
  moreover have "''/dev/null'' \<noteq> []" by simp
  ultimately have o: "sys_open env ''/dev/null'' p = (0, ?p1)"
    using new_descriptor_at [of 0 env p dev_null] assms by (simp add: sys_open_def Let_def)
  have d1: "sys_dup env 0 ?p1 = (1, ?p2)"
    using new_descriptor_at [of "Suc 0" env ?p1 dev_null] assms(1,2) by (simp add: sys_dup_def)
  have d2: "sys_dup env 0 ?p2 = (2, p\<lparr>ps_fds := (ps_fds p)(0 := Some dev_null, Suc 0 := Some dev_null, 2 := Some dev_null)\<rparr>)"
    using new_descriptor_at [of 2 env ?p2 dev_null] assms(1,2)
    by (simp add: sys_dup_def less_2_cases_iff)
  have "(ps_fds p)(0 := Some dev_null, Suc 0 := Some dev_null, 2 := Some dev_null) = standard_streams"
    using assms(1) by (auto simp: fun_eq_iff standard_streams_def less_3)
  then show ?thesis by (simp add: o d1 d2)
qed

section \<open>The lock file\<close>

lemma int_dec_nat [simp]: "int_dec (int n) = nat_dec n"
  by (simp add: int_dec_def)

lemma write_pid_fits:
  assumes "de_pid env < 10 ^ 8"
  shows "write_pid env p = Inr (p\<lparr>ps_lock_text := nat_dec (de_pid env) @
     nl # drop (Suc (length (nat_dec (de_pid env)))) (ps_lock_text p)\<rparr>)"
  using nat_dec_length [of "de_pid env" 7] assms by (simp add: write_pid_def Let_def)

lemma c_str_nat_dec_append: "c_str (nat_dec n @ nl # rest) = nat_dec n @ nl # c_str rest"
proof -
  have "\<And>c. c \<in> set (nat_dec n) \<Longrightarrow> c \<noteq> nul"
    using nat_dec_digits by (fastforce simp: is_digit_def less_eq_char_def)
  then show ?thesis by (simp add: c_str_def takeWhile_append2)
qed

text \<open>What \<open>atoi\<close> reads from a file that begins with a number and a newline.\<close>

lemma atoi_pid_line:
  assumes "n < 10 ^ 8"
  shows "atoi (nat_dec n @ nl # rest) = int n"
proof -
  have "dropWhile is_space (nat_dec n @ nl # c_str rest) = nat_dec n @ nl # c_str rest"
    using hd_nat_dec_digit [of n] by (intro dropWhile_head) (auto dest: is_digit_not_space)
  moreover have "signed_val (nat_dec n @ nl # c_str rest) = int n"
    by (rule signed_val_nat_dec) (simp add: is_digit_def less_eq_char_def)
  ultimately have "atoi (nat_dec n @ nl # rest)
      = sint (word_of_int (max (- (2 ^ 63)) (min (2 ^ 63 - 1) (int n))) :: 32 word)"
    by (simp only: atoi_def c_str_nat_dec_append)
  also have "\<dots> = sint (word_of_int (int n) :: 32 word)" using assms by (simp add: max_def min_def)
  also have "\<dots> = int n"
    using assms by (simp add: signed_of_nat signed_take_bit_int_eq_self)
  finally show ?thesis .
qed

section \<open>Detaching\<close>

text \<open>The state after the descriptors, the mask and the working directory are set.\<close>

definition detached :: "string \<Rightarrow> process \<Rightarrow> process" where
  "detached dir p = p\<lparr>ps_leader := True, ps_fds := standard_streams, ps_umask := 23,
     ps_cwd := absolute (ps_cwd p) dir\<rparr>"

definition can_detach :: "daemon_env \<Rightarrow> string \<Rightarrow> process \<Rightarrow> bool" where
  "can_detach env dir p \<longleftrightarrow>
     de_ppid env \<noteq> 1 \<and> de_fork env = 0 \<and> 4 \<le> de_tablesize env \<and>
     (\<forall>i. ps_fds p i \<noteq> None \<longrightarrow> i < de_tablesize env) \<and> de_opens env dev_null \<and>
     dir \<noteq> [] \<and> de_enters env (absolute (ps_cwd p) dir)"

definition ignored_signals :: "string list" where
  "ignored_signals = [''SIGCHLD'', ''SIGTSTP'', ''SIGTTOU'', ''SIGTTIN'']"

lemma Daemonize_eq:
  assumes "can_detach env dir p"
  shows "Daemonize env lock (Some dir) p =
     rbind (take_lock env lock (detached dir p)) (\<lambda>r. case r of
        Exited c \<Rightarrow> Inr (Exited c)
      | Runs q \<Rightarrow> Inr (Runs (q\<lparr>ps_ignored := ps_ignored q @ ignored_signals, ps_daemon := True\<rparr>)))"
proof -
  let ?p = "close_down (de_tablesize env) (SetCurrentProcessSessionId p)"
  have c: "?p = p\<lparr>ps_leader := True, ps_fds := (\<lambda>_. None)\<rparr>"
  proof -
    have "(\<lambda>i. if i \<le> de_tablesize env then None else ps_fds p i) = (\<lambda>_. None)"
      using assms by (fastforce simp: can_detach_def fun_eq_iff)
    then show ?thesis by (simp add: close_down_eq SetCurrentProcessSessionId_def cong: if_cong)
  qed
  have streams: "(let (i, p) = sys_open env ''/dev/null'' ?p; (_, p) = sys_dup env i p;
        (_, p) = sys_dup env i p in p) = ?p\<lparr>ps_fds := standard_streams\<rparr>"
    using assms by (intro open_standard_streams) (simp_all add: c can_detach_def)
  obtain i q where q: "sys_open env ''/dev/null'' ?p = (i, q)" by fastforce
  obtain j1 q1 where q1: "sys_dup env i q = (j1, q1)" by fastforce
  obtain j2 q2 where q2: "sys_dup env i q1 = (j2, q2)" by fastforce
  have q2_eq: "q2 = p\<lparr>ps_leader := True, ps_fds := standard_streams\<rparr>"
    using streams q q1 q2 c by simp
  have d: "snd (SetWorkingDirectory env dir (q2\<lparr>ps_umask := 23\<rparr>)) = detached dir p"
    using assms by (simp add: SetWorkingDirectory_def q2_eq detached_def can_detach_def Let_def)
  have "Daemonize env lock (Some dir) p =
     rbind (take_lock env lock (detached dir p)) (\<lambda>r. case r of
        Exited c \<Rightarrow> Inr (Exited c)
      | Runs p \<Rightarrow> Inr (Runs ((ignore_signal ''SIGTTIN'' (ignore_signal ''SIGTTOU''
           (ignore_signal ''SIGTSTP'' (ignore_signal ''SIGCHLD'' p))))\<lparr>ps_daemon := True\<rparr>)))"
    using assms by (simp add: Daemonize_def can_detach_def q q1 q2 d Let_def cong: daemon_result.case_cong)
  then show ?thesis by (simp add: ignore_signal_def ignored_signals_def cong: daemon_result.case_cong)
qed

lemma lock_opened:
  assumes "4 \<le> de_tablesize env" and "name \<noteq> []"
    and "de_opens env (absolute (ps_cwd (detached dir p)) name)"
  shows "sys_open env name (detached dir p) = (3, (detached dir p)\<lparr>ps_fds :=
     standard_streams(3 := Some (absolute (ps_cwd (detached dir p)) name))\<rparr>)"
  using new_descriptor_at [of 3 env "detached dir p"] assms
  by (simp add: sys_open_def Let_def detached_def standard_streams_def)

text \<open>
  C40. After \<open>Daemonize\<close> the process that goes on leads a session, its standard streams are the null
  device, the lock file is its only other descriptor, and the number that \<open>atoi\<close> reads from the
  file is its own, whatever the file held before.
\<close>

theorem daemon_detached:
  assumes "can_detach env dir p" and "name \<noteq> []"
    and "de_opens env (absolute (absolute (ps_cwd p) dir) name)"
    and "de_locks env (absolute (absolute (ps_cwd p) dir) name)"
    and "de_pid env < 10 ^ 8"
  shows "\<exists>q. Daemonize env (Some name) (Some dir) p = Inr (Runs q) \<and>
     ps_fds q = [0 \<mapsto> ''/dev/null'', 1 \<mapsto> ''/dev/null'', 2 \<mapsto> ''/dev/null'',
                 3 \<mapsto> absolute (absolute (ps_cwd p) dir) name] \<and>
     ps_leader q \<and> ps_daemon q \<and> ps_umask q = 23 \<and> atoi (ps_lock_text q) = int (de_pid env)"
proof -
  let ?full = "absolute (absolute (ps_cwd p) dir) name"
  have cwd: "ps_cwd (detached dir p) = absolute (ps_cwd p) dir" by (simp add: detached_def)
  have size: "4 \<le> de_tablesize env" using assms(1) by (simp add: can_detach_def)
  have opened: "sys_open env name (detached dir p)
      = (3, (detached dir p)\<lparr>ps_fds := standard_streams(3 := Some ?full)\<rparr>)"
    using lock_opened [OF size assms(2), of dir p] assms(3) by (simp add: cwd)
  have fds: "standard_streams(3 := Some ?full) = [0 \<mapsto> ''/dev/null'', 1 \<mapsto> ''/dev/null'',
      2 \<mapsto> ''/dev/null'', 3 \<mapsto> ?full]"
    by (auto simp: fun_eq_iff standard_streams_def dev_null_def less_3)
  show ?thesis
    using assms(4,5) atoi_pid_line [OF assms(5)]
    by (simp add: Daemonize_eq [OF assms(1)] take_lock_def opened cwd write_pid_fits fds)
      (simp add: detached_def)
qed

text \<open>
  A second instance, whose lock is refused, ends with status 0, and without a name for the lock file
  (the setting is empty when there is no configuration file) a daemon never runs.
\<close>

theorem second_instance_ends:
  assumes "can_detach env dir p" and "name \<noteq> []"
    and "de_opens env (absolute (absolute (ps_cwd p) dir) name)"
    and "\<not> de_locks env (absolute (absolute (ps_cwd p) dir) name)"
  shows "Daemonize env (Some name) (Some dir) p = Inr (Exited 0)"
proof -
  have cwd: "ps_cwd (detached dir p) = absolute (ps_cwd p) dir" by (simp add: detached_def)
  have "4 \<le> de_tablesize env" using assms(1) by (simp add: can_detach_def)
  from lock_opened [OF this assms(2), of dir p] assms(3,4) show ?thesis
    by (simp add: Daemonize_eq [OF assms(1)] take_lock_def cwd)
qed

theorem daemon_without_config_ends:
  assumes "app_file a = []" and "BoolConfigs (LoadConfigs a) CONFIG_BOOL_DAEMONIZE"
    and "de_ppid env \<noteq> 1"
  shows "\<exists>c. app_daemonize env (LoadConfigs a) p = Inr (Exited c)"
proof -
  have "StringConfigs (LoadConfigs a) CONFIG_STRING_PID_FILE = []"
    using assms(1) by (simp add: LoadConfigs_eq load_run_eq cong: option.case_cong)
  then show ?thesis
    using assms(2,3)
    by (auto simp: app_daemonize_def Daemonize_def c_str_def take_lock_def sys_open_def Let_def
        split: prod.splits)
qed

section \<open>Witnesses\<close>

definition sample_daemon_env :: daemon_env where
  "sample_daemon_env =
     \<lparr>de_ppid = 700, de_fork = 0, de_pid = 815, de_tablesize = 1024, de_enters = (\<lambda>_. True),
      de_opens = (\<lambda>_. True), de_locks = (\<lambda>_. True)\<rparr>"

definition sample_process :: process where
  "sample_process =
     \<lparr>ps_fds = [0 \<mapsto> ''/dev/tty'', 1 \<mapsto> ''/dev/tty'', 2 \<mapsto> ''/dev/tty''], ps_leader = False,
      ps_cwd = ''/root'', ps_umask = 18, ps_ignored = [], ps_lock_text = ''4711'', ps_daemon = False\<rparr>"

lemma sample_can_detach: "can_detach sample_daemon_env ''/srv'' sample_process"
  by (simp add: can_detach_def sample_daemon_env_def sample_process_def)

theorem daemon_detached_witness:
  "\<exists>q. Daemonize sample_daemon_env (Some ''ikaros.pid'') (Some ''/srv'') sample_process = Inr (Runs q) \<and>
     ps_fds q = [0 \<mapsto> ''/dev/null'', 1 \<mapsto> ''/dev/null'', 2 \<mapsto> ''/dev/null'',
       3 \<mapsto> absolute (absolute (ps_cwd sample_process) ''/srv'') ''ikaros.pid''] \<and>
     ps_leader q \<and> ps_daemon q \<and> ps_umask q = 23 \<and>
     atoi (ps_lock_text q) = int (de_pid sample_daemon_env)"
  by (rule daemon_detached [OF sample_can_detach]) (simp_all add: sample_daemon_env_def)

theorem second_instance_ends_witness:
  "Daemonize (sample_daemon_env\<lparr>de_locks := (\<lambda>_. False)\<rparr>) (Some ''ikaros.pid'') (Some ''/srv'')
     sample_process = Inr (Exited 0)"
  by (rule second_instance_ends)
    (simp_all add: can_detach_def sample_daemon_env_def sample_process_def)

end
