(* ===== verification/Lifecycle.thy ===== *)
theory Lifecycle
  imports DaemonProps SimpleLog Startup Signals Handler
begin

text \<open>
  \<open>Application/Application.cpp\<close>: what surrounds the server loop.  The constructor with its call of
  \<open>Daemonize\<close>, the global objects and the banner; the lines of debug output of \<open>Update\<close>; and the
  destruction of the global objects.

  A line of the log is a level and a text, \<open>None\<close> for a call without an argument.  The record
  \<open>print_env\<close> holds the date printed with a text, whether the log file can be opened, and the
  texts and numbers that the build, the clock and the system provide.
\<close>

section \<open>Printing\<close>

record print_env =
  pe_date :: "string \<Rightarrow> string"
  pe_opens :: bool
  pe_commit :: string
  pe_commit_date :: string
  pe_build_date :: string
  pe_build_time :: string
  pe_elapsed :: nat
  pe_ppid :: int
  pe_pid :: int
  pe_pgrp :: int

definition entry_call :: "print_env \<Rightarrow> log_level \<times> string option \<Rightarrow> log_level \<times> log_call" where
  "entry_call env e =
     (fst e, case snd e of
        None \<Rightarrow> \<lparr>mdate = [], format_empty = True, message = [], opens = pe_opens env\<rparr>
      | Some s \<Rightarrow> \<lparr>mdate = pe_date env s, format_empty = False, message = s, opens = pe_opens env\<rparr>)"

definition print :: "print_env \<Rightarrow> (log_level \<times> string option) list \<Rightarrow> simple_log \<Rightarrow> simple_log res" where
  "print env es l = log_all (map (entry_call env) es) l"

definition debug_line :: "string \<Rightarrow> log_level \<times> string option" where
  "debug_line s = (LDebug, Some s)"

text \<open>\<open>name=%d\<close>, \<open>name='%s'\<close>, \<open>name=%s\<close> of a flag, and \<open>name0x%08x\<close> of the low half of an address.\<close>

definition int_line :: "string \<Rightarrow> int \<Rightarrow> log_level \<times> string option" where
  "int_line name i = debug_line (name @ ''='' @ int_dec i)"

definition text_line :: "string \<Rightarrow> string \<Rightarrow> log_level \<times> string option" where
  "text_line name s = debug_line (name @ ''='' @ [quote] @ c_str s @ [quote])"

definition flag_line :: "string \<Rightarrow> bool \<Rightarrow> log_level \<times> string option" where
  "flag_line name b = debug_line (name @ ''='' @ toString_bool b)"

definition hex_08 :: "nat \<Rightarrow> string" where
  "hex_08 n = map (\<lambda>i. hex_digit (n div 16 ^ i mod 16)) [7, 6, 5, 4, 3, 2, 1, 0]"

definition address_line :: "string \<Rightarrow> nat \<Rightarrow> log_level \<times> string option" where
  "address_line name f = debug_line (name @ '' Function at Address: 0x'' @ hex_08 f)"

section \<open>The debug output of Update\<close>

definition debug_params :: "application \<Rightarrow> (log_level \<times> string option) list" where
  "debug_params a =
     [flag_line ''CONFIG_BOOL_DAEMONIZE'' (BoolConfigs a CONFIG_BOOL_DAEMONIZE),
      text_line ''CONFIG_STRING_PID_FILE'' (StringConfigs a CONFIG_STRING_PID_FILE),
      text_line ''CONFIG_STRING_WORKING_DIRECTORY'' (StringConfigs a CONFIG_STRING_WORKING_DIRECTORY),
      flag_line ''CONFIG_BOOL_LOG'' (BoolConfigs a CONFIG_BOOL_LOG),
      int_line ''CONFIG_INT_LOG_LEVEL'' (IntConfigs a CONFIG_INT_LOG_LEVEL),
      flag_line ''CONFIG_BOOL_ENABLE_FREEZE_DETECTOR'' (BoolConfigs a CONFIG_BOOL_ENABLE_FREEZE_DETECTOR),
      int_line ''CONFIG_INT_FREEZE_DETECTOR_MAX_DIFF'' (IntConfigs a CONFIG_INT_FREEZE_DETECTOR_MAX_DIFF),
      flag_line ''Control'' (app_control a),
      flag_line ''Debug'' (app_debug a),
      (LDebug, None),
      int_line ''CONFIG_INT_BIND_PORT'' (IntConfigs a CONFIG_INT_BIND_PORT),
      text_line ''CONFIG_STRING_BIND_IP'' (StringConfigs a CONFIG_STRING_BIND_IP),
      text_line ''CONFIG_STRING_PROTOCOL_NAME'' (StringConfigs a CONFIG_STRING_PROTOCOL_NAME),
      text_line ''CONFIG_STRING_LIBRARY_PATH'' (StringConfigs a CONFIG_STRING_LIBRARY_PATH),
      text_line ''CONFIG_STRING_RECV_FUNC'' (StringConfigs a CONFIG_STRING_RECV_FUNC),
      text_line ''CONFIG_STRING_SEND_FUNC'' (StringConfigs a CONFIG_STRING_SEND_FUNC),
      text_line ''CONFIG_STRING_CONNECT_FUNC'' (StringConfigs a CONFIG_STRING_CONNECT_FUNC),
      text_line ''CONFIG_STRING_DISCONNECT_FUNC'' (StringConfigs a CONFIG_STRING_DISCONNECT_FUNC),
      text_line ''CONFIG_STRING_DELAYED_RECV_FUNC'' (StringConfigs a CONFIG_STRING_DELAYED_RECV_FUNC),
      int_line ''CONFIG_INT_DELAYED_RECV_DELAY'' (IntConfigs a CONFIG_INT_DELAYED_RECV_DELAY),
      text_line ''CONFIG_STRING_DELAYED_SEND_FUNC'' (StringConfigs a CONFIG_STRING_DELAYED_SEND_FUNC),
      int_line ''CONFIG_INT_DELAYED_SEND_DELAY'' (IntConfigs a CONFIG_INT_DELAYED_SEND_DELAY),
      text_line ''CONFIG_STRING_DELAYED_CONNECT_FUNC'' (StringConfigs a CONFIG_STRING_DELAYED_CONNECT_FUNC),
      int_line ''CONFIG_INT_DELAYED_CONNECT_DELAY'' (IntConfigs a CONFIG_INT_DELAYED_CONNECT_DELAY),
      text_line ''CONFIG_STRING_DELAYED_DISCONNECT_FUNC''
        (StringConfigs a CONFIG_STRING_DELAYED_DISCONNECT_FUNC),
      int_line ''CONFIG_INT_DELAYED_DISCONNECT_DELAY'' (IntConfigs a CONFIG_INT_DELAYED_DISCONNECT_DELAY),
      text_line ''CONFIG_STRING_LOAD_FUNC'' (StringConfigs a CONFIG_STRING_LOAD_FUNC),
      text_line ''CONFIG_STRING_UNLOAD_FUNC'' (StringConfigs a CONFIG_STRING_UNLOAD_FUNC)]"

text \<open>
  \<open>GetWorkingDirectory\<close> fills a local array and returns its address; \<open>outControl\<close> reads through it
  when control lines are shown.
\<close>

definition GetWorkingDirectory :: "string res" where
  "GetWorkingDirectory = Inl DeadReference"

definition daemon_lines :: "print_env \<Rightarrow> (log_level \<times> string option) list" where
  "daemon_lines env =
     [(LControl, Some ''****** Runnig as Daemon ******''),
      (LControl, Some (''Process Id:  '' @ int_dec (pe_pid env) @ ''  Parent Process Id: '' @
         int_dec (pe_ppid env) @ ''  Process Group Id: '' @ int_dec (pe_pgrp env)))]"

definition outDebugParams :: "print_env \<Rightarrow> application \<Rightarrow> process \<Rightarrow> simple_log \<Rightarrow> simple_log res" where
  "outDebugParams env a p l =
     rbind
       (if ps_daemon p then
          rbind (print env (daemon_lines env) l) (\<lambda>l.
          rbind (if sl_control l then
                   rbind GetWorkingDirectory (\<lambda>dir. print env [(LControl, Some (''Working Directory '' @ dir))] l)
                 else Inr l) (\<lambda>l.
            print env [(LControl, None)] l))
        else Inr l)
       (\<lambda>l. print env (debug_params a) l)"

text \<open>\<open>printf\<close> with a NULL pointer for \<open>%s\<close> is undefined; the path is set once a library was opened.\<close>

definition library_lines :: "bool \<Rightarrow> proto_funcs \<Rightarrow> shared_library \<Rightarrow> string \<Rightarrow>
  (log_level \<times> string option) list" where
  "library_lines loaded p lib path =
     [(LDebug, None),
      debug_line (''Library Name: '' @ c_str path),
      debug_line (''Is Open: '' @ toString_bool (isopen lib)),
      debug_line (''Is Loaded: '' @ toString_bool loaded),
      address_line ''Recieve'' (pf_OnRecieve p),
      address_line ''Send'' (pf_OnSend p),
      address_line ''Connect'' (pf_OnConnect p),
      address_line ''Disconnect'' (pf_OnDisconnect p),
      address_line ''Load'' (pf_OnLoad p),
      address_line ''Unload'' (pf_OnUnload p),
      (LDebug, None)]"

definition outDebugLibrary ::
  "print_env \<Rightarrow> bool \<Rightarrow> proto_funcs \<Rightarrow> shared_library \<Rightarrow> simple_log \<Rightarrow> simple_log res" where
  "outDebugLibrary env loaded p lib l =
     (case LibName lib of
        Some path \<Rightarrow> print env (library_lines loaded p lib path) l
      | None \<Rightarrow> if sl_debug l then Inl NullPointer else Inr l)"

section \<open>The global objects\<close>

record globals =
  gl_log :: simple_log
  gl_signals :: signal_handler
  gl_library :: shared_library
  gl_sockets :: conn_mgr
  gl_threads :: thread_mgr
  gl_handler :: handler
  gl_max_diff :: nat

text \<open>\<open>writeMutex\<close> is made first; the limit of the freeze detector is the setting as a \<open>uint64\<close>.\<close>

definition initGlobals :: "print_env \<Rightarrow> string \<Rightarrow> application \<Rightarrow> globals res" where
  "initGlobals env out a =
     rbind (SimpleLog (app_control a) (app_debug a) True True (pe_opens env) out) (\<lambda>log.
       Inr \<lparr>gl_log = log, gl_signals = SignalHandler, gl_library = SharedLibrary,
            gl_sockets = ConnectionMgr, gl_threads = ThreadMgr, gl_handler = PacketHandler,
            gl_max_diff = wrap64 (IntConfigs a CONFIG_INT_FREEZE_DETECTOR_MAX_DIFF)\<rparr>)"

text \<open>
  The destructors.  That of \<open>PacketHandler\<close> empties the queue and deletes its member \<open>sigHandler\<close>,
  which nothing sets: \<open>wild\<close> is what its memory held.
\<close>

definition PacketHandler_destroy :: "nat \<Rightarrow> handler \<Rightarrow> handler res" where
  "PacketHandler_destroy wild h =
     (let h = h\<lparr>ev_queue := []\<rparr> in if wild = 0 then Inr h else Inl InvalidFree)"

definition uninitGlobals :: "nat \<Rightarrow> globals \<Rightarrow> globals res" where
  "uninitGlobals wild g =
     (let g = g\<lparr>gl_library := library_close (gl_library g)\<rparr>;
          g = g\<lparr>gl_sockets := CloseAllSockets (gl_sockets g)\<rparr>
      in rbind (PacketHandler_destroy wild (gl_handler g)) (\<lambda>h. Inr (g\<lparr>gl_handler := h\<rparr>)))"

section \<open>The constructor\<close>

text \<open>The banner; \<open>art\<close> puts the backslash of the source's text for a tilde.\<close>

definition art :: "string \<Rightarrow> log_level \<times> string option" where
  "art s = (LString, Some (map (\<lambda>c. if c = CHR ''~'' then CHR 0x5C else c) s))"

definition banner :: "print_env \<Rightarrow> (log_level \<times> string option) list" where
  "banner env =
     [art '' ___    __    ___       __        ______      ___     ________'',
      art ''|   |  |  |  /  /      /  ~      |   __ ~    / _ ~   /   ____/'',
      art ''|   |  |  |_/  /      / /~ ~     |  |  | ~  / / ~ ~  ~  ~____'',
      art ''|   |  |      /      /  ~/  ~    |  |__| / / /   ~ ~  ~____  ~'',
      art ''|   |  |   _  ~     /   __   ~   |      /  ~ ~   / / ___   ~  ~'',
      art ''|   |  |  | ~  ~   /   /  ~   ~  |  |~  ~   ~ ~_/ /  ~  ~__/  /'',
      art ''|___|  |__|  ~__~ /___/    ~___~ |__| ~__~   ~___/    ~______/'',
      (LString, Some ''Project Ikaros - framework based server''),
      (LString, Some (''Copyright '' @ [CHR 0xC2, CHR 0xA9] @ '' (2011 - 2012) '' @
         ''Peter  Daemon / NTX B'' @ [CHR 0xC3, CHR 0xA1] @ ''bics'')),
      (LString, Some (''Revision hash: '' @ pe_commit env @ ''   Revision Date:  '' @ pe_commit_date env)),
      (LString, Some (''Built:   '' @ pe_build_date env @ ''  '' @ pe_build_time env)),
      (LString, None),
      (LString, Some (''Initialized in: '' @ nat_dec (pe_elapsed env) @ '' ms'')),
      (LString, None)]"

datatype 'a started = Ends int | Up 'a

text \<open>The end of the constructor: \<open>Daemonize\<close>, the global objects and the banner.\<close>

definition construct_rest ::
  "daemon_env \<Rightarrow> print_env \<Rightarrow> process \<Rightarrow> application \<Rightarrow> (application \<times> process \<times> globals) started res" where
  "construct_rest denv env p a =
     rbind (app_daemonize denv a p) (\<lambda>d.
       case d of
         Exited c \<Rightarrow> Inr (Ends c)
       | Runs p \<Rightarrow>
           rbind (initGlobals env [] a) (\<lambda>g.
           rbind (print env (banner env) (gl_log g)) (\<lambda>l.
             Inr (Up (a, p, g\<lparr>gl_log := l\<rparr>)))))"

definition construct ::
  "(string \<Rightarrow> string option) \<Rightarrow> daemon_env \<Rightarrow> print_env \<Rightarrow> string list \<Rightarrow> conf_ptr \<Rightarrow> process \<Rightarrow>
   (application \<times> process \<times> globals) started res option" where
  "construct read denv env argv conf p =
     map_option (\<lambda>r. rbind r (construct_rest denv env p)) (Application read argv conf)"

end
