(* ===== verification/LifecycleProps.thy ===== *)
theory LifecycleProps
  imports Lifecycle
begin

text \<open>
  What the constructor of \<open>Application\<close> leaves (\<open>constructed\<close>, \<open>settings_shown\<close>), and the debug
  output of a daemon (\<open>daemon_output_undefined\<close>).
\<close>

section \<open>Printing\<close>

lemma opens_entries:
  "pe_opens env \<Longrightarrow> list_all (\<lambda>(v, c). sl_file l = None \<or> opens c) (map (entry_call env) es)"
  by (induction es) (auto simp: entry_call_def split: option.splits)

text \<open>The text that the entries add to the log, under the flags of the logger.\<close>

definition printed :: "print_env \<Rightarrow> bool \<Rightarrow> bool \<Rightarrow> (log_level \<times> string option) list \<Rightarrow> string" where
  "printed env C D es = log_text C D (map (entry_call env) es)"

lemma printed_append: "printed env C D (es @ fs) = printed env C D es @ printed env C D fs"
  by (simp add: printed_def log_text_def)

lemma print_exact:
  "pe_opens env \<Longrightarrow> print env es l = Inr (l\<lparr>
     sl_file := map_option (\<lambda>t. t @ printed env (sl_control l) (sl_debug l) es) (sl_file l),
     sl_stdout := sl_stdout l @ printed env (sl_control l) (sl_debug l) es\<rparr>)"
  by (simp add: print_def printed_def log_all_exact [OF opens_entries])

section \<open>Daemons\<close>

lemma case_daemon_Inr:
  "((case r of Exited c \<Rightarrow> A c | Runs q \<Rightarrow> B q) = Inr y)
     = ((\<exists>c. r = Exited c \<and> A c = Inr y) \<or> (\<exists>q. r = Runs q \<and> B q = Inr y))"
  by (cases r) auto

lemma Daemonize_daemon:
  assumes "Daemonize env lock dir p = Inr (Runs q)" and "de_ppid env \<noteq> 1"
  shows "ps_daemon q"
  using assms
  by (auto simp: Daemonize_def Let_def res_simps case_daemon_Inr split: if_splits prod.splits)

section \<open>The constructor\<close>

lemma construct_rest_Up:
  assumes "construct_rest denv env p a = Inr (Up (b, q, g))"
  shows "b = a \<and> app_daemonize denv a p = Inr (Runs q) \<and>
     (\<exists>g0. initGlobals env [] a = Inr g0 \<and>
        (\<exists>l. print env (banner env) (gl_log g0) = Inr l \<and> g = g0\<lparr>gl_log := l\<rparr>))"
  using assms
  by (auto simp: construct_rest_def res_simps case_daemon_Inr)

lemma construct_Up:
  assumes "construct read denv env argv conf p = Some (Inr (Up (a, q, g)))"
  shows "Application read argv conf = Some (Inr a) \<and> app_daemonize denv a p = Inr (Runs q) \<and>
     (\<exists>g0. initGlobals env [] a = Inr g0 \<and>
        (\<exists>l. print env (banner env) (gl_log g0) = Inr l \<and> g = g0\<lparr>gl_log := l\<rparr>))"
proof -
  obtain r where r: "Application read argv conf = Some r"
      "rbind r (construct_rest denv env p) = Inr (Up (a, q, g))"
    using assms by (auto simp: construct_def)
  then obtain b where "r = Inr b" "construct_rest denv env p b = Inr (Up (a, q, g))"
    by (auto simp: res_simps)
  then show ?thesis using construct_rest_Up r(1) by blast
qed

lemma initGlobals_Inr:
  "initGlobals env out a = Inr g \<Longrightarrow> pe_opens env \<and>
     g = \<lparr>gl_log = \<lparr>sl_control = app_control a, sl_debug = app_debug a, sl_file = Some [], sl_stdout = out\<rparr>,
          gl_signals = SignalHandler, gl_library = SharedLibrary, gl_sockets = ConnectionMgr,
          gl_threads = ThreadMgr, gl_handler = PacketHandler,
          gl_max_diff = wrap64 (IntConfigs a CONFIG_INT_FREEZE_DETECTOR_MAX_DIFF)\<rparr>"
  by (auto simp: initGlobals_def SimpleLog_def res_simps split: if_splits)

text \<open>The objects that the other theories start from, and the banner in the log.\<close>

lemma constructed:
  assumes "construct read denv env argv conf p = Some (Inr (Up (a, q, g)))"
  shows "pe_opens env \<and> gl_signals g = SignalHandler \<and> gl_library g = SharedLibrary \<and>
     gl_sockets g = ConnectionMgr \<and> gl_threads g = ThreadMgr \<and> gl_handler g = PacketHandler \<and>
     gl_log g = \<lparr>sl_control = app_control a, sl_debug = app_debug a,
       sl_file = Some (printed env (app_control a) (app_debug a) (banner env)),
       sl_stdout = printed env (app_control a) (app_debug a) (banner env)\<rparr>"
proof -
  obtain g0 l where g: "initGlobals env [] a = Inr g0" "print env (banner env) (gl_log g0) = Inr l"
      "g = g0\<lparr>gl_log := l\<rparr>"
    using construct_Up [OF assms] by blast
  show ?thesis
    using initGlobals_Inr [OF g(1)] g(2,3) by (auto simp: print_exact)
qed

text \<open>
  After the constructor and the first lines of \<open>Update\<close> the log of a server that is no daemon
  holds the banner, followed by all settings when debug output is on, and by nothing else.
\<close>

theorem settings_shown:
  assumes "construct read denv env argv conf p = Some (Inr (Up (a, q, g)))" and "\<not> ps_daemon q"
  shows "\<exists>l. outDebugParams env a q (gl_log g) = Inr l \<and>
     sl_file l = Some (printed env (app_control a) (app_debug a) (banner env @ debug_params a))"
  using constructed [OF assms(1)] assms(2)
  by (auto simp: outDebugParams_def print_exact printed_append)

text \<open>
  A server that runs as a daemon with control lines switched on reads the dead local array of
  \<open>GetWorkingDirectory\<close> as soon as \<open>Update\<close> begins, whatever its other settings are.
\<close>

theorem daemon_output_undefined:
  assumes "construct read denv env argv conf p = Some (Inr (Up (a, q, g)))"
    and "de_ppid denv \<noteq> 1" and "BoolConfigs a CONFIG_BOOL_DAEMONIZE" and "app_control a"
  shows "outDebugParams env a q (gl_log g) = Inl DeadReference"
proof -
  have "app_daemonize denv a p = Inr (Runs q)" using construct_Up [OF assms(1)] by blast
  then have "ps_daemon q" using Daemonize_daemon assms(2,3) by (auto simp: app_daemonize_def)
  then show ?thesis
    using constructed [OF assms(1)] assms(4)
    by (simp add: outDebugParams_def print_exact GetWorkingDirectory_def)
qed

text \<open>The destructors of the global objects free a pointer that was never set.\<close>

lemma globals_destroyed:
  "wild \<noteq> 0 \<Longrightarrow> uninitGlobals wild g = Inl InvalidFree"
  by (simp add: uninitGlobals_def PacketHandler_destroy_def)

section \<open>Witnesses\<close>

definition sample_print :: print_env where
  "sample_print =
     \<lparr>pe_date = (\<lambda>_. ''2012-01-01 00:00:00''), pe_opens = True, pe_commit = ''abc'',
      pe_commit_date = ''today'', pe_build_date = ''Jan 1 2012'', pe_build_time = ''00:00'',
      pe_elapsed = 3, pe_ppid = 1, pe_pid = 815, pe_pgrp = 815\<rparr>"

lemma construct_ready:
  assumes "Application read argv conf = Some (Inr a)" and "app_daemonize denv a p = Inr (Runs q)"
    and "pe_opens env"
  shows "\<exists>g. construct read denv env argv conf p = Some (Inr (Up (a, q, g)))"
  using assms by (simp add: construct_def construct_rest_def initGlobals_def SimpleLog_def print_exact)

definition plain_app :: application where
  "plain_app = ParseParams (application_with ''server'' [] [])"

lemma plain_app_facts:
  "Application (\<lambda>_. None) [''server''] ConfNull = Some (Inr plain_app)"
  "app_daemonize sample_daemon_env plain_app sample_process = Inr (Runs sample_process)"
  "\<not> ps_daemon sample_process"
proof -
  show "Application (\<lambda>_. None) [''server''] ConfNull = Some (Inr plain_app)"
    by (simp add: Application_def plain_app_def)
  have "\<not> BoolConfigs plain_app CONFIG_BOOL_DAEMONIZE" by code_simp
  then show "app_daemonize sample_daemon_env plain_app sample_process = Inr (Runs sample_process)"
    by (simp add: app_daemonize_def)
  show "\<not> ps_daemon sample_process" by (simp add: sample_process_def)
qed

theorem settings_shown_witness:
  "\<exists>g l. construct (\<lambda>_. None) sample_daemon_env sample_print [''server''] ConfNull sample_process
       = Some (Inr (Up (plain_app, sample_process, g))) \<and>
     outDebugParams sample_print plain_app sample_process (gl_log g) = Inr l \<and>
     sl_file l = Some (printed sample_print (app_control plain_app) (app_debug plain_app)
       (banner sample_print @ debug_params plain_app))"
proof -
  obtain g where g: "construct (\<lambda>_. None) sample_daemon_env sample_print [''server''] ConfNull sample_process
      = Some (Inr (Up (plain_app, sample_process, g)))"
    using construct_ready [OF plain_app_facts(1,2), of sample_print] by (auto simp: sample_print_def)
  then show ?thesis using settings_shown [OF g plain_app_facts(3)] by blast
qed

definition daemon_text :: string where
  "daemon_text = ''Server.Daemonize=1'' @ [nl] @ ''Server.LogLevel=1''"

definition daemon_app :: application where
  "daemon_app = ParseParams (application_with ''/srv/ikaros''
     [(''Server.Daemonize'', ''1''), (''Server.LogLevel'', ''1'')] [])"

lemma daemon_app_facts:
  "Application (\<lambda>_. Some daemon_text) [''/srv/ikaros''] (ConfName ''./config.conf'') = Some (Inr daemon_app)"
  "BoolConfigs daemon_app CONFIG_BOOL_DAEMONIZE" "app_control daemon_app"
  "c_str (StringConfigs daemon_app CONFIG_STRING_PID_FILE) = ''/var/lock/ikaros.pid''"
  "c_str (StringConfigs daemon_app CONFIG_STRING_WORKING_DIRECTORY) = ''/srv''"
proof -
  have "fits_buffer daemon_text" by (simp add: fits_buffer_def lines_of.simps daemon_text_def)
  moreover have "foldl add_line [] (lines_of daemon_text)
      = [(''Server.Daemonize'', ''1''), (''Server.LogLevel'', ''1'')]" by code_simp
  ultimately have "config_loop (istream_of daemon_text) []
      = Some (Inr [(''Server.Daemonize'', ''1''), (''Server.LogLevel'', ''1'')])"
    using config_loop_lines by simp
  then show "Application (\<lambda>_. Some daemon_text) [''/srv/ikaros''] (ConfName ''./config.conf'')
      = Some (Inr daemon_app)"
    by (simp add: Application_def daemon_app_def)
qed code_simp+

theorem daemon_output_undefined_witness:
  "\<exists>q g. construct (\<lambda>_. Some daemon_text) sample_daemon_env sample_print [''/srv/ikaros'']
       (ConfName ''./config.conf'') sample_process = Some (Inr (Up (daemon_app, q, g))) \<and>
     outDebugParams sample_print daemon_app q (gl_log g) = Inl DeadReference"
proof -
  have "\<exists>q. app_daemonize sample_daemon_env daemon_app sample_process = Inr (Runs q)"
    using Daemonize_eq [OF sample_can_detach, of "Some ''/var/lock/ikaros.pid''"]
      daemon_app_facts(2,4,5)
      lock_opened [of sample_daemon_env "''/var/lock/ikaros.pid''" "''/srv''" sample_process]
    by (simp add: app_daemonize_def take_lock_def sample_daemon_env_def write_pid_fits)
  then obtain q where "app_daemonize sample_daemon_env daemon_app sample_process = Inr (Runs q)" ..
  from construct_ready [OF daemon_app_facts(1) this, of sample_print]
  obtain g where g: "construct (\<lambda>_. Some daemon_text) sample_daemon_env sample_print [''/srv/ikaros'']
      (ConfName ''./config.conf'') sample_process = Some (Inr (Up (daemon_app, q, g)))"
    by (auto simp: sample_print_def)
  then show ?thesis
    using daemon_output_undefined [OF g] daemon_app_facts(2,3) by (auto simp: sample_daemon_env_def)
qed

end
