(* ===== verification/Program.thy ===== *)
theory Program
  imports ServerProps LifecycleProps StartupProps
begin

text \<open>
  \<open>main.cpp\<close> and the whole of \<open>Application::Update\<close>: the program from its arguments to the status
  with which the process ends, composed of the parts of the other theories.  The request to
  terminate comes while the queue thread is in \<open>sigwait\<close> or at the top of its loop (\<open>Shutdown\<close> says
  what follows elsewhere), and \<open>OnLoad\<close> does not call back into the program.

  From the moment at which the queue thread is created two threads write to the log.  \<open>re_log\<close> is
  the log at that moment, or when \<open>Update\<close> ends before, and \<open>re_closing\<close> holds the lines that the
  request and the end of \<open>Update\<close> print.  The lines of the loop and the two of the queue thread,
  \<open>[PacketHandler] Process Queue initialization\<close> and \<open>exit\<close>, which come in between, are not
  followed.
\<close>

section \<open>The program\<close>

text \<open>What the program finds: files, system, library, and what its uninitialised members hold.\<close>

record world =
  wo_read :: "string \<Rightarrow> string option"
  wo_daemon :: daemon_env
  wo_print :: print_env
  wo_linker :: linker
  wo_inet :: "string \<Rightarrow> nat"
  wo_socket :: int
  wo_bind :: int
  wo_listen :: int
  wo_thread :: "nat option"
  wo_funcs :: proto_funcs
  wo_handler :: nat      \<comment> \<open>the address of \<open>HandleInterupt\<close>\<close>
  wo_now :: timeval
  wo_join :: "pthread_call \<Rightarrow> int"
  wo_errno :: int        \<comment> \<open>\<open>errno\<close> when a line of the start prints it, and its text\<close>
  wo_strerror :: string
  wo_junk :: int


definition net_env_of :: "application \<Rightarrow> int \<Rightarrow> int \<Rightarrow> proto_funcs \<Rightarrow> net_env" where
  "net_env_of a server q p =
     \<lparr>ne_server = server, ne_queue = q, ne_proto = protocol_of p, ne_ints = IntConfigs a\<rparr>"



section \<open>The lines around the loop\<close>


definition listening_line :: "application \<Rightarrow> log_level \<times> string option" where
  "listening_line a =
     (LControl, Some (''[Init Server Socket] Server Socket Listening on: '' @
        c_str (StringConfigs a CONFIG_STRING_BIND_IP) @ '':'' @ int_dec (IntConfigs a CONFIG_INT_BIND_PORT)))"




section \<open>Update and main\<close>




section \<open>The table of threads during the loop\<close>














section \<open>A start that succeeds\<close>




definition library_funcs :: "world \<Rightarrow> application \<Rightarrow> proto_funcs" where
  "library_funcs w a =
     loaded_funcs (wo_linker w) (dlopen (wo_linker w) (StringConfigs a CONFIG_STRING_LIBRARY_PATH)) a (wo_funcs w)"






section \<open>Properties\<close>


text \<open>A configuration with control lines, a library and its receive function; a client connects and sends two bytes.\<close>

definition program_text :: string where
  "program_text = ''Protocol.LibraryPath=libftp.so'' @ [nl] @ ''Protocol.RecvFunc=processRecieve''
     @ [nl] @ ''Server.LogLevel=1''"

definition program_app :: application where
  "program_app = ParseParams (application_with ''server''
     [(''Protocol.LibraryPath'', ''libftp.so''), (''Protocol.RecvFunc'', ''processRecieve''),
      (''Server.LogLevel'', ''1'')] [])"

definition sample_world :: world where
  "sample_world = \<lparr>wo_read = (\<lambda>_. Some program_text), wo_daemon = sample_daemon_env, wo_print = sample_print,
     wo_linker = sample_linker, wo_inet = (\<lambda>_. 0), wo_socket = 4, wo_bind = 0, wo_listen = 0,
     wo_thread = Some 70, wo_funcs = sample_funcs, wo_handler = 42, wo_now = sample_time,
     wo_join = (\<lambda>_. 0), wo_errno = 0, wo_strerror = ''Success'', wo_junk = 0\<rparr>"


lemma program_app_strings:
  "StringConfigs program_app CONFIG_STRING_LIBRARY_PATH = ''libftp.so''"
  "StringConfigs program_app CONFIG_STRING_RECV_FUNC = ''processRecieve''"
  "map (StringConfigs program_app) [CONFIG_STRING_SEND_FUNC, CONFIG_STRING_CONNECT_FUNC, CONFIG_STRING_DISCONNECT_FUNC,
     CONFIG_STRING_DELAYED_SEND_FUNC, CONFIG_STRING_DELAYED_RECV_FUNC, CONFIG_STRING_DELAYED_CONNECT_FUNC,
     CONFIG_STRING_DELAYED_DISCONNECT_FUNC, CONFIG_STRING_LOAD_FUNC, CONFIG_STRING_UNLOAD_FUNC] = replicate 9 []"
  "\<not> BoolConfigs program_app CONFIG_BOOL_DAEMONIZE"
  "app_control program_app" "\<not> app_debug program_app"
  "listening_line program_app =
     (LControl, Some ''[Init Server Socket] Server Socket Listening on: 127.0.0.1:3535'')"
  by code_simp+


definition program_env :: net_env where
  "program_env = net_env_of program_app 4 0 (library_funcs sample_world program_app)"

lemma program_env_simps [simp]:
  "ne_server program_env = 4" "ne_queue program_env = 0"
  "ne_proto program_env = \<lparr>hasConnect = False, hasRecieve = True, hasSend = True, hasDisconnect = False,
     hasConnectDelayed = False, hasRecieveDelayed = False, hasSendDelayed = False, hasDisconnectDelayed = False\<rparr>"
  using program_app_strings
  by (simp_all add: program_env_def net_env_of_def library_funcs_def protocol_of_def loaded_funcs_def resolved_def
      sample_world_def sample_linker_def sample_funcs_def numeral_eq_Suc Let_def)




end
