(* ===== verification/ProtocolInit.thy ===== *)
theory ProtocolInit
  imports LifecycleProps DatabaseProps HttpProps SmtpProps
begin

text \<open>
  \<open>Init\<close> of the three protocol libraries, the function that \<open>Application\<close> calls after loading one:
  the configuration file, the log \<open>Protocol.log\<close>, the settings with their lines of debug output,
  and for FTP the connection to the database.

  The log holds references to the flags \<open>Control\<close> and \<open>Debug\<close> of the library, which are false for
  FTP and HTTP until the settings are read; the mutex of the log exists, since the program made it
  for its own log.
\<close>

section \<open>Lines\<close>

definition shown_int :: "string \<Rightarrow> int \<Rightarrow> log_level \<times> string option" where
  "shown_int name i = debug_line (name @ ''= '' @ int_dec i)"

definition shown_text :: "string \<Rightarrow> string \<Rightarrow> log_level \<times> string option" where
  "shown_text name s = debug_line (name @ ''= '' @ [quote] @ c_str s @ [quote])"

definition shown_flag :: "string \<Rightarrow> bool \<Rightarrow> log_level \<times> string option" where
  "shown_flag name b = debug_line (name @ ''= '' @ toString_bool b)"

definition ftp_config_lines :: "ftp_config \<Rightarrow> (log_level \<times> string option) list" where
  "ftp_config_lines cfg =
     [shown_text ''CONFIG_STRING_GREETINGS'' (cfg_greetings cfg),
      shown_int ''CONFIG_INT_MAX_DATA_SEGMENT_SIZE'' (cfg_max_segment cfg),
      shown_int ''CONFIG_INT_SEND_WAIT_TIME'' (cfg_send_wait cfg),
      shown_int ''CONFIG_INT_SEND_ERROR_WAIT_TIME'' (cfg_send_error_wait cfg),
      shown_int ''CONFIG_INT_RECV_WAIT_TIME'' (cfg_recv_wait cfg),
      shown_int ''CONFIG_INT_RECV_ERROR_WAIT_TIME'' (cfg_recv_error_wait cfg),
      (LDebug, None),
      shown_flag ''CONFIG_BOOL_ALLOW_GUESTS'' (cfg_allow_guests cfg),
      shown_text ''CONFIG_STRING_ROOT_DIRECTORY'' (cfg_root cfg),
      shown_flag ''CONFIG_BOOL_USE_DB_AUTH'' (cfg_use_db_auth cfg),
      (LDebug, None),
      shown_text ''CONFIG_STRING_DATABASE_HOST'' (cfg_db_host cfg),
      shown_text ''CONFIG_STRING_DATABASE_USERNAME'' (cfg_db_user cfg),
      shown_text ''CONFIG_STRING_DATABASE_PASSWORD'' (cfg_db_password cfg),
      shown_text ''CONFIG_STRING_DATABASE_NAME'' (cfg_db_name cfg),
      (LDebug, None)]"

text \<open>\<open>InitMessages\<close> and \<open>InitCommandTable\<close> print how many entries their tables have.\<close>

definition ftp_table_lines :: "(log_level \<times> string option) list" where
  "ftp_table_lines =
     [(LControl, Some (''Initialised  '' @ nat_dec 20 @ '' Reponse Code Messages'')),
      (LControl, Some (''Initialised  '' @ nat_dec 18 @ '' Command definitions''))]"

definition http_config_lines :: "http_config \<Rightarrow> (log_level \<times> string option) list" where
  "http_config_lines cfg =
     [shown_flag ''CONFIG_BOOL_ALLOW_DEFAULT_INDEX'' (hc_allow_index cfg),
      shown_flag ''CONFIG_BOOL_DEBUG'' (hc_debug cfg),
      shown_flag ''CONFIG_BOOL_CONTROL'' (hc_control cfg),
      shown_text ''CONFIG_STRING_DEFAULT_INDEX_FILE'' (hc_index_file cfg),
      shown_text ''CONFIG_STRING_HOSTNAME'' (hc_hostname cfg),
      shown_text ''CONFIG_STRING_ROOT_DIR'' (hc_root_dir cfg),
      shown_text ''CONFIG_INT_MAX_MAIN_THREAD_FILE_SIZE'' (int_dec (hc_max_main cfg)),
      (LDebug, None)]"

section \<open>Init\<close>

definition with_flags :: "bool \<Rightarrow> bool \<Rightarrow> simple_log \<Rightarrow> simple_log" where
  "with_flags C D l = l\<lparr>sl_control := C, sl_debug := D\<rparr>"

text \<open>FTP: whether the server is to stop, the settings, the log and the database.\<close>

definition ftp_Init ::
  "('c, 'r) mysql_api \<Rightarrow> 'c \<Rightarrow> (string \<Rightarrow> bool) \<Rightarrow> (string \<Rightarrow> string option) \<Rightarrow> print_env \<Rightarrow> string
     \<Rightarrow> (bool \<times> ftp_config \<times> simple_log \<times> 'c database) res option" where
  "ftp_Init api c is_dir read env out =
     map_option (\<lambda>r. rbind r (\<lambda>configMgr.
       rbind (SimpleLog False False True True (pe_opens env) out) (\<lambda>protoLog.
         let cfg = ftp_LoadConfigs is_dir configMgr;
             protoLog = with_flags (cfg_control cfg) (cfg_debug cfg) protoLog
         in rbind (print env (ftp_config_lines cfg @ ftp_table_lines) protoLog) (\<lambda>protoLog.
            rbind (ftp_open_database api cfg c) (\<lambda>(stop, db).
            rbind (if stop then print env [(LError, Some ''Cannot connect to Database !!!'')] protoLog
                   else Inr protoLog) (\<lambda>protoLog.
              Inr (stop, cfg, protoLog, db)))))))
       (ConfigMgr (read ''ftp.conf'') [])"

text \<open>
  HTTP: an error is printed for a size that is not positive, before the settings are; \<open>LoadConfig\<close>
  fails on an empty root directory, after that line.
\<close>

definition http_size_lines :: "config_mgr \<Rightarrow> (log_level \<times> string option) list" where
  "http_size_lines c =
     (let size = LoadIntConfig c ''MaximalMainThreadFileSize'' 40000
      in if size \<le> 0 then
           [(LError, Some (''MaximalMainThreadFileSize must be > 0 (configured value: '' @ int_dec size @
              '') setting back to default 40000''))]
         else [])"

definition http_Init ::
  "(string \<Rightarrow> string option) \<Rightarrow> print_env \<Rightarrow> string \<Rightarrow> (http_config \<times> simple_log) res option" where
  "http_Init read env out =
     map_option (\<lambda>r. rbind r (\<lambda>configMgr.
       rbind (SimpleLog False False True True (pe_opens env) out) (\<lambda>protoLog.
         let protoLog = with_flags (LoadBoolConfig configMgr ''Control'' True)
                          (LoadBoolConfig configMgr ''Debug'' True) protoLog
         in rbind (print env (http_size_lines configMgr) protoLog) (\<lambda>protoLog.
            rbind (LoadConfig configMgr) (\<lambda>cfg.
            rbind (print env (http_config_lines cfg @
                [debug_line (''Initiated Error Strings    Actual strings: '' @ nat_dec 4),
                 debug_line (''Initiated Error Pages  Actual pages: '' @ nat_dec 3)]) protoLog) (\<lambda>protoLog.
              Inr (cfg, protoLog)))))))
       (ConfigMgr (read ''http.conf'') [])"

text \<open>SMTP: the flags are constants; the greeting is read, printed and never used.\<close>

definition smtp_Init :: "(string \<Rightarrow> string option) \<Rightarrow> print_env \<Rightarrow> string \<Rightarrow> (string \<times> simple_log) res option" where
  "smtp_Init read env out =
     map_option (\<lambda>r. rbind r (\<lambda>configMgr.
       rbind (SimpleLog True True True True (pe_opens env) out) (\<lambda>protoLog.
         let greetings = LoadStringConfig configMgr ''Greetings'' ''Welcome to Ikaros SMTP Server''
         in rbind (print env [shown_text ''CONFIG_STRING_GREETINGS'' greetings, (LDebug, None)] protoLog)
              (\<lambda>protoLog. Inr (greetings, protoLog)))))
       (ConfigMgr (read ''smtp.conf'') [])"

section \<open>The library libdump\<close>

text \<open>
  Its one function prints what it is given, up to the first NUL, as a line to the standard output
  \<open>out\<close>.  It takes the data alone, so only the functions for sent data can be this one.
\<close>

definition dump_Recieve :: "string option \<Rightarrow> string \<Rightarrow> string res" where
  "dump_Recieve data out =
     (case data of None \<Rightarrow> Inl NullPointer | Some d \<Rightarrow> Inr (out @ c_str d @ [nl]))"

section \<open>Lemmas\<close>

lemma dump_Recieve_text: "nul \<notin> set d \<Longrightarrow> dump_Recieve (Some (d @ nul # rest)) out = Inr (out @ d @ [nl])"
  by (induction d) (auto simp: dump_Recieve_def c_str_def)

lemma new_log:
  "SimpleLog C D True True True out =
     Inr \<lparr>sl_control = C, sl_debug = D, sl_file = Some [], sl_stdout = out\<rparr>"
  by (simp add: SimpleLog_def)

lemma printed_Nil [simp]: "printed env C D [] = []"
  by (simp add: printed_def log_text_def)

lemma printed_debug:
  "printed env C True (debug_line s # es) = pe_date env s @ [space, tab] @ s @ [nl] @ printed env C True es"
  by (simp add: printed_def log_text_def debug_line_def entry_call_def log_line_def shown_def)

text \<open>The sizes printed are those of the tables.\<close>

lemma http_table_sizes: "card (dom errorStrings) = 4" "card (dom errorPages) = 3"
proof -
  have "dom errorStrings = {200, 404, 403, 500}" "dom errorPages = {404, 403, 500}"
    by (auto simp: errorStrings_def errorPages_def map_insert_def split: if_splits)
  then show "card (dom errorStrings) = 4" "card (dom errorPages) = 3" by simp_all
qed

lemma card_dom_map_of: "card (dom (map_of kvs)) = length (remdups (map fst kvs))"
  unfolding dom_map_of_conv_image_fst set_map [symmetric] by (rule length_remdups_card_conv [symmetric])

lemma ftp_table_sizes: "card (dom responseCodeMessage) = 20" "card (dom commandTable) = 18"
proof -
  have "length (remdups (map fst response_list)) = 20" "length (remdups (map fst command_list)) = 18" by code_simp+
  then show "card (dom responseCodeMessage) = 20" "card (dom commandTable) = 18"
    unfolding responseCodeMessage_eq commandTable_eq card_dom_map_of by simp_all
qed

text \<open>What \<open>Init\<close> of FTP leaves: the settings of the file, and a log of exactly their lines.\<close>

lemma ftp_started:
  assumes "pe_opens env" and "fits_buffer text" and "read ''ftp.conf'' = Some text"
  shows "\<exists>cm stop d. ConfigMgr (Some text) [] = Some (Inr cm) \<and>
    (let cfg = ftp_LoadConfigs is_dir cm
     in ftp_open_database api cfg c = Inr (stop, d) \<and>
        (\<exists>l. ftp_Init api c is_dir read env out = Some (Inr (stop, cfg, l, d)) \<and>
          sl_file l = Some (printed env (cfg_control cfg) (cfg_debug cfg)
            (ftp_config_lines cfg @ ftp_table_lines @ (if stop then [(LError, Some ''Cannot connect to Database !!!'')] else [])))))"
proof -
  obtain cm where cm: "ConfigMgr (Some text) [] = Some (Inr cm)" using file_options [OF assms(2)] by blast
  let ?cfg = "ftp_LoadConfigs is_dir cm"
  obtain stop d where d: "ftp_open_database api ?cfg c = Inr (stop, d)"
    using database_opened [of api ?cfg c] by blast
  show ?thesis
    using cm d assms by (intro exI [of _ cm] exI [of _ stop] exI [of _ d])
      (simp add: ftp_Init_def new_log with_flags_def print_exact printed_append Let_def)
qed

lemma http_started:
  assumes "pe_opens env" and "fits_buffer text" and "read ''http.conf'' = Some text"
  shows "\<exists>cm. ConfigMgr (Some text) [] = Some (Inr cm) \<and>
    (case LoadConfig cm of
       Inl e \<Rightarrow> http_Init read env out = Some (Inl e)
     | Inr cfg \<Rightarrow> \<exists>l. http_Init read env out = Some (Inr (cfg, l)) \<and>
         sl_file l = Some (printed env (hc_control cfg) (hc_debug cfg) (http_size_lines cm @ http_config_lines cfg @
           [debug_line (''Initiated Error Strings    Actual strings: '' @ nat_dec (card (dom errorStrings))),
            debug_line (''Initiated Error Pages  Actual pages: '' @ nat_dec (card (dom errorPages)))])))"
proof -
  obtain cm where cm: "ConfigMgr (Some text) [] = Some (Inr cm)" using file_options [OF assms(2)] by blast
  have flags: "LoadConfig cm = Inr cfg \<Longrightarrow> hc_control cfg = LoadBoolConfig cm ''Control'' True
      \<and> hc_debug cfg = LoadBoolConfig cm ''Debug'' True" for cfg
    by (auto simp: LoadConfig_def res_simps Let_def)
  show ?thesis
  proof (cases "LoadConfig cm")
    case (Inl e)
    then show ?thesis
      using cm assms by (simp add: http_Init_def new_log with_flags_def print_exact Let_def)
  next
    case (Inr cfg)
    then show ?thesis
      using cm assms flags [OF Inr] unfolding http_table_sizes
      by (simp add: http_Init_def new_log with_flags_def print_exact printed_append Let_def)
  qed
qed

text \<open>The lines of SMTP are always shown, and its settings have no other effect.\<close>

lemma smtp_started:
  assumes "pe_opens env" and "fits_buffer text" and "read ''smtp.conf'' = Some text"
  shows "\<exists>greetings l. smtp_Init read env out = Some (Inr (greetings, l)) \<and>
    sl_file l = Some (printed env True True [shown_text ''CONFIG_STRING_GREETINGS'' greetings, (LDebug, None)])"
proof -
  obtain cm where "ConfigMgr (Some text) [] = Some (Inr cm)" using file_options [OF assms(2)] by blast
  then show ?thesis using assms by (simp add: smtp_Init_def new_log print_exact Let_def)
qed

lemma password_line:
  "\<exists>xs ys. ftp_config_lines cfg = xs @ shown_text ''CONFIG_STRING_DATABASE_PASSWORD'' (cfg_db_password cfg) # ys"
proof -
  have "length (ftp_config_lines cfg) = 16"
    "ftp_config_lines cfg ! 13 = shown_text ''CONFIG_STRING_DATABASE_PASSWORD'' (cfg_db_password cfg)"
    unfolding ftp_config_lines_def by simp_all
  then show ?thesis using id_take_nth_drop [of 13 "ftp_config_lines cfg"] by auto
qed

section \<open>Properties\<close>

text \<open>
  The password of the database is written to the log and to the standard output at every start of
  the FTP server, unless the configuration file switches debug output off, which it does not by
  default.
\<close>
theorem database_password_logged:
  assumes "pe_opens env" and "fits_buffer text" and "read ''ftp.conf'' = Some text"
    and "ftp_Init api c is_dir read env out = Some (Inr (stop, cfg, l, d))" and "cfg_debug cfg"
  shows "\<exists>pre post. sl_file l = Some (pre @ ''CONFIG_STRING_DATABASE_PASSWORD'' @ ''= '' @ [quote] @
    c_str (cfg_db_password cfg) @ [quote] @ [nl] @ post)"
proof -
  obtain tail where "sl_file l = Some (printed env (cfg_control cfg) (cfg_debug cfg) (ftp_config_lines cfg @ tail))"
    using ftp_started [of env _ read is_dir api c out, OF assms(1-3)] assms(4) by (auto simp: Let_def)
  moreover obtain xs ys where "ftp_config_lines cfg =
      xs @ shown_text ''CONFIG_STRING_DATABASE_PASSWORD'' (cfg_db_password cfg) # ys"
    using password_line by blast
  ultimately have "sl_file l = Some (printed env (cfg_control cfg) True xs @
      printed env (cfg_control cfg) True
        (shown_text ''CONFIG_STRING_DATABASE_PASSWORD'' (cfg_db_password cfg) # ys @ tail))"
    using assms(5) by (simp only: printed_append append.assoc append_Cons)
  then show ?thesis
    unfolding shown_text_def printed_debug
    by (intro exI [of _ "printed env (cfg_control cfg) True xs @ pe_date env (''CONFIG_STRING_DATABASE_PASSWORD'' @
        ''= '' @ [quote] @ c_str (cfg_db_password cfg) @ [quote]) @ [space, tab]"]
      exI [of _ "printed env (cfg_control cfg) True (ys @ tail)"]) (simp only: append.assoc)
qed

end
