(* ===== verification/Spec2Isabelle.thy ===== *)
theory Spec2Isabelle
  imports BinDataProps ConfigProps Sockets SocketMgr Handler Sessions Ftp FtpProps FtpCommands
    Files Smtp SmtpProps Http HttpProps FtpTransfer FtpTransferProps Descriptors
    ThreadMgr ThreadProps Wakeup QueueThread Shutdown SimpleLog AppConfig AppProps Startup StartupProps
    Network NetworkProps Simulation NetworkRounds Server ServerProps Kernel LibraryCalls
    FtpServer SmtpServer
    Database DatabaseProps BinCopy FileAccessor FileAccessorProps Signals Daemon DaemonProps
    Lifecycle LifecycleProps Program ProtocolInit
begin

text \<open>
  Project Ikaros: a server frame written in C++ that loads a protocol library (FTP, SMTP or HTTP)
  and runs it over TCP.  The network thread (\<open>Application.cpp\<close>) accepts connections, keeps them in
  the socket table \<open>ConnectionMgr\<close> and turns what arrives into events; \<open>PacketHandler\<close> queues the
  events and hands them, in a thread of its own, to the functions of the library
  (\<open>processConnect\<close>, \<open>processRecieve\<close>, \<open>processDisconnect\<close>), which answer through the socket
  classes.  All parts use the byte buffer \<open>BinnaryData\<close>, the file classes, \<open>ConfigMgr\<close> and the
  string helpers.

  The model is a shallow embedding.  A class is a \<open>record\<close>, an operation a function from the
  state to the new state and its effects; an operation that can throw or run into undefined
  behaviour returns \<open>cpp_error + 'a\<close>, where the error names what happens; a loop that may run for
  ever is a \<open>partial_function (option)\<close>, or consumes a script of what the kernel answers, and
  \<open>None\<close> is then a call that has not come back.  The kernel, the file system, the shell and the
  database are arguments.

  Theories, with what they model:
  \<^item> \<open>Prelude\<close>, \<open>CppString\<close>, \<open>StdMap\<close>: errors and their sequencing, the operations of
    \<open>std::string\<close>, \<open>stringstream\<close> and \<open>std::map\<close> that the code uses; the contracts \<open>fifo\<close> and
    \<open>insert_once\<close>.
  \<^item> \<open>Utils\<close>: \<open>Utilities/Utils\<close> and the string helpers of the protocols' \<open>Adds.cpp\<close>.
  \<^item> \<open>BinData\<close>, \<open>BinDataProps\<close>: \<open>DataArrays/binData\<close>, with the invariant \<open>wf_bd\<close>, the contract
    \<open>byte_sink\<close> of appending, round trips of fields, lines and hexadecimal text.
  \<^item> \<open>Files\<close>: \<open>DataArrays/file\<close>.
  \<^item> \<open>ConfigMgr\<close>, \<open>ConfigProps\<close>: \<open>ConfigMgr/ConfigMgr\<close>; the reading loop computes the entries of the
    lines, and does not end on a line that exceeds its buffer.
  \<^item> \<open>Sockets\<close>: \<open>Sockets/Socket\<close>; \<open>SocketMgr\<close>: \<open>Sockets/SocketMgr\<close>, with iterators as identities of
    nodes, the invariant \<open>wf_mgr\<close> of all reachable states and the exactness of deferred closing.
  \<^item> \<open>Handler\<close>: \<open>Handling/Handler\<close>, with the heap objects that events refer to.
  \<^item> \<open>Sessions\<close>: the contract \<open>session_server\<close> of a protocol: inputs of one connection leave the
    sessions of the others as they are, and what one client plans is not changed by them;
    interpreted for FTP and SMTP, on their inputs and on the calls of the server.
  \<^item> \<open>Ftp\<close>, \<open>FtpProps\<close>, \<open>FtpCommands\<close>: the control connection of \<open>Protocol/FTP\<close>, one definition per
    command of the switch: the login gate, the session invariant, passive addresses, working
    directories, and the inputs that end the server.
  \<^item> \<open>FtpTransfer\<close>, \<open>FtpTransferProps\<close>: the threads of the data connection; \<open>Descriptors\<close>: what they
    and PASV do to the descriptors that all connections share.
  \<^item> \<open>Smtp\<close>, \<open>SmtpProps\<close>: \<open>Protocol/SMTP\<close>, up to a whole mail dialogue.
  \<^item> \<open>Http\<close>, \<open>HttpProps\<close>: \<open>Protocol/HTTP\<close>: parsing a request, the check of the requested name, the
    pages.
  \<^item> \<open>ThreadMgr\<close>, \<open>ThreadProps\<close>: \<open>Threads/Thread\<close> and \<open>Threads/ThreadMgr\<close>: the tables of threads,
    mutexes and conditions; the type invariant of the table under all its operations, and the
    references to dead locals in the other two.
  \<^item> \<open>Wakeup\<close>: the suspension of the queue thread in \<open>ProcessQueue\<close> against the network thread's test
    and signal, as a step relation of two programs: the status is exact in all reachable states, and
    an event can be forgotten in a window of two program points and nowhere else.
  \<^item> \<open>QueueThread\<close>: \<open>ProcessQueue\<close> in the steps between which other threads come in: with events
    added anywhere its runs are runs of the atomic rounds of \<open>Handler\<close> and \<open>Server\<close>.
  \<^item> \<open>Shutdown\<close>: \<open>ProcessQueue\<close> with the loops of \<open>UpdateDelayed\<close> and its iterators and references, in
    the steps between which a request to terminate makes a difference: alone it makes the rounds of
    \<open>Handler\<close>, and a request ends it, lets it sleep for ever or makes its next step undefined,
    depending on the point at which it comes.
  \<^item> \<open>SimpleLog\<close>: \<open>SimpleLog/SimpleLog\<close>, refining a filtered list of lines.
  \<^item> \<open>AppConfig\<close>, \<open>AppProps\<close>: the settings of \<open>Application\<close> (constructor, \<open>LoadConfigs\<close>,
    \<open>ParseParams\<close>), equivalent to the lookups of \<open>ConfigMgr\<close>.
  \<^item> \<open>Startup\<close>, \<open>StartupProps\<close>: \<open>Shared/Shared\<close>, \<open>LoadLibrary\<close>, the server socket, the start and the
    end of \<open>Application::Update\<close>, the freeze detector.
  \<^item> \<open>Network\<close>: one round of the loop of \<open>Application::Update\<close>, with the kernel's answers as input.
    \<open>NetworkProps\<close> follows one socket through a round: \<open>extends\<close> says which events were added and
    that their data is new, \<open>serving\<close> is the invariant while sockets wait to be closed.
    \<open>NetworkRounds\<close> states the abstract server (its clients and the calls owed to the protocol)
    and the step of a whole round.  \<open>Simulation\<close> is the contract of a refinement; \<open>Server\<close>
    interprets it for the two threads together: every interleaving refines the abstract server.
    \<open>ServerProps\<close>: the bound given to \<open>select\<close>, the limit on descriptors, the delivery of a block
    from the socket to the protocol function, and the rounds after a QUIT.  \<open>Kernel\<close> puts the server
    on the descriptor table of \<open>Descriptors\<close>, beside threads that open and close other descriptors: the
    clients are exactly the open connections, as long as the process has at most 1024 descriptors.
  \<^item> \<open>LibraryCalls\<close>: every call into a protocol library goes back to what a client did on its own
    connection; a run after which every event is handled.  \<open>FtpServer\<close>, \<open>SmtpServer\<close>: the libraries
    driven by these calls, with the clients in any order: the login of an FTP session over the
    network, a mail among other clients, and what happens to a block with several lines.

  \<^item> \<open>Database\<close>, \<open>DatabaseProps\<close>: \<open>MySQL/Database\<close> over a record of the functions of the MySQL client
    library, whose documented behaviour is the hypothesis \<open>stored_results\<close>, and the login query of
    the FTP protocol: what the theory \<open>Ftp\<close> takes as the answer of the database is computed here.
  \<^item> \<open>BinCopy\<close>: the operations of the byte buffer that take another buffer by value.
  \<^item> \<open>FileAccessor\<close>, \<open>FileAccessorProps\<close>: \<open>Protocol/FTP/FileAccessor\<close>, and what a client can make the
    shell execute through it.
  \<^item> \<open>Signals\<close>: \<open>Signal/SignalHandler\<close>, with the invariant between its table and the process.
  \<^item> \<open>Daemon\<close>, \<open>DaemonProps\<close>: \<open>Daemonize\<close> on a table of descriptors, and its call by the constructor of
    \<open>Application\<close>.
  \<^item> \<open>Lifecycle\<close>, \<open>LifecycleProps\<close>: the whole constructor of \<open>Application\<close> (settings, \<open>Daemonize\<close>, global
    objects, banner), the debug output of \<open>Update\<close> as lines of \<open>SimpleLog\<close>, and the destructors.
  \<^item> \<open>Program\<close>: \<open>main\<close> and the whole of \<open>Update\<close>, composed of the constructor, the loading of the
    library, the start, the loop of \<open>Server\<close>, the request to terminate and the end, with the log up to
    the creation of the queue thread and the lines of the end.
  \<^item> \<open>ProtocolInit\<close>: \<open>libdump\<close>, and \<open>Init\<close> of the three protocol libraries: the configuration file, the log and its
    lines, and the connection to the database.  The lines that the libraries write while they run
    are not followed.

  Bounds: the loops over scripts of kernel answers are structural in the script; \<open>process_rounds\<close>
  is given as many rounds as there are queued events, which is exactly what empties the queue.

  Not modelled: the float percentage helpers of \<open>Utilities\<close>, which nothing calls, and interleavings
  inside an operation of a container: the program takes no lock, so they are undefined in C++.
\<close>

end
